(* ===== verification/Cctv_Prelude.thy ===== *)
theory Cctv_Prelude
  imports
    Complex_Main
    "HOL-Library.Multiset"
    "HOL-Library.Product_Lexorder"
    "HOL-Library.Char_ord"
    "HOL-Library.List_Lexorder"
begin

text \<open>
  Shared ground of the development. It holds
  \<^item> the effect type of the model: a computation over a database state either
    raises (\<^term>\<open>Inl e\<close>) or returns (\<^term>\<open>Inr a\<close>), and in both cases leaves a state, so
    that what a handler wrote before it raised stays visible until a transaction
    scope decides to keep or to roll back;
  \<^item> the primary-key operations of a table (lookup, update, insert), kept as a list of
    rows in the order in which the engine scans them, with the interface locale that
    the repositories interpret;
  \<^item> generic facts on lists and sorting that the components share.
\<close>

named_theorems se_simps \<open>unfolding rules of the state-and-exception combinators\<close>
named_theorems table_simps \<open>rewrite rules of the primary-key table operations\<close>

section \<open>Computations that change a state and may raise\<close>

type_synonym ('s, 'e, 'a) se = "'s \<Rightarrow> ('e + 'a) \<times> 's"

definition se_ret :: "'a \<Rightarrow> ('s, 'e, 'a) se" where
  "se_ret a = (\<lambda>s. (Inr a, s))"

definition se_raise :: "'e \<Rightarrow> ('s, 'e, 'a) se" where
  "se_raise e = (\<lambda>s. (Inl e, s))"

definition se_bind :: "('s, 'e, 'a) se \<Rightarrow> ('a \<Rightarrow> ('s, 'e, 'b) se) \<Rightarrow> ('s, 'e, 'b) se" where
  "se_bind m f = (\<lambda>s. case m s of (Inl e, s') \<Rightarrow> (Inl e, s') | (Inr a, s') \<Rightarrow> f a s')"

definition se_then :: "('s, 'e, unit) se \<Rightarrow> ('s, 'e, 'b) se \<Rightarrow> ('s, 'e, 'b) se" where
  "se_then m n = se_bind m (\<lambda>_. n)"

definition se_read :: "('s \<Rightarrow> 'a) \<Rightarrow> ('s, 'e, 'a) se" where
  "se_read f = (\<lambda>s. (Inr (f s), s))"

definition se_write :: "('s \<Rightarrow> 's) \<Rightarrow> ('s, 'e, unit) se" where
  "se_write f = (\<lambda>s. (Inr (), f s))"

text \<open>A call that reads the state and may raise.\<close>

definition se_lift :: "('s \<Rightarrow> 'e + 'a) \<Rightarrow> ('s, 'e, 'a) se" where
  "se_lift f = (\<lambda>s. (f s, s))"

text \<open>\<^verbatim>\<open>try: m except Exception as exc: h(exc)\<close> keeps the state that \<open>m\<close> left.\<close>

definition se_try :: "('s, 'e, 'a) se \<Rightarrow> ('e \<Rightarrow> ('s, 'e, 'a) se) \<Rightarrow> ('s, 'e, 'a) se" where
  "se_try m h = (\<lambda>s. case m s of (Inl e, s') \<Rightarrow> h e s' | (Inr a, s') \<Rightarrow> (Inr a, s'))"

text \<open>A loop over a list whose body may raise; the first exception ends it.\<close>

primrec se_iter :: "('a \<Rightarrow> ('s, 'e, unit) se) \<Rightarrow> 'a list \<Rightarrow> ('s, 'e, unit) se" where
  "se_iter f [] = se_ret ()"
| "se_iter f (x # xs) = se_then (f x) (se_iter f xs)"

lemmas se_defs = se_ret_def se_raise_def se_bind_def se_then_def se_read_def se_write_def se_try_def

lemma se_ret_apply [simp, se_simps]: "se_ret a s = (Inr a, s)"
  by (simp add: se_ret_def)

lemma se_raise_apply [simp, se_simps]: "se_raise e s = (Inl e, s)"
  by (simp add: se_raise_def)

lemma se_read_apply [simp, se_simps]: "se_read f s = (Inr (f s), s)"
  by (simp add: se_read_def)

lemma se_lift_apply [simp, se_simps]: "se_lift f s = (f s, s)"
  by (simp add: se_lift_def)

lemma se_write_apply [simp, se_simps]: "se_write f s = (Inr (), f s)"
  by (simp add: se_write_def)

lemma se_bind_apply [se_simps]:
  "se_bind m f s = (case m s of (Inl e, s') \<Rightarrow> (Inl e, s') | (Inr a, s') \<Rightarrow> f a s')"
  by (simp add: se_bind_def)

lemma se_then_apply [se_simps]:
  "se_then m n s = (case m s of (Inl e, s') \<Rightarrow> (Inl e, s') | (Inr a, s') \<Rightarrow> n s')"
  by (simp add: se_then_def se_bind_def)

lemma se_try_apply [se_simps]:
  "se_try m h s = (case m s of (Inl e, s') \<Rightarrow> h e s' | (Inr a, s') \<Rightarrow> (Inr a, s'))"
  by (simp add: se_try_def)

lemma se_bind_ret_left [simp]: "se_bind (se_ret a) f = f a"
  by (rule ext) (simp add: se_defs)

lemma se_bind_ret_right [simp]: "se_bind m se_ret = m"
  by (rule ext) (simp add: se_defs split: prod.split sum.split)

lemma se_bind_assoc: "se_bind (se_bind m f) g = se_bind m (\<lambda>x. se_bind (f x) g)"
  by (rule ext) (simp add: se_defs split: prod.split sum.split)

text \<open>
  An invariant of the state kept by a computation, whether it returns or raises. The
  rules follow the combinators, so that a handler's proof is the proof of its steps.
\<close>

definition se_keeps :: "('s \<Rightarrow> bool) \<Rightarrow> ('s, 'e, 'a) se \<Rightarrow> bool" where
  "se_keeps P m \<longleftrightarrow> (\<forall>s. P s \<longrightarrow> P (snd (m s)))"

lemma se_keepsI: "(\<And>s. P s \<Longrightarrow> P (snd (m s))) \<Longrightarrow> se_keeps P m"
  by (simp add: se_keeps_def)

lemma se_keepsD: "se_keeps P m \<Longrightarrow> P s \<Longrightarrow> P (snd (m s))"
  by (simp add: se_keeps_def)

lemma se_keeps_ret [intro]: "se_keeps P (se_ret a)"
  and se_keeps_raise [intro]: "se_keeps P (se_raise e)"
  and se_keeps_read [intro]: "se_keeps P (se_read g)"
  and se_keeps_lift [intro]: "se_keeps P (se_lift h)"
  by (simp_all add: se_keeps_def)

lemma se_keeps_write: "(\<And>s. P s \<Longrightarrow> P (f s)) \<Longrightarrow> se_keeps P (se_write f)"
  by (simp add: se_keeps_def)

lemma se_keeps_bind [intro]:
  assumes "se_keeps P m" and "\<And>a. se_keeps P (f a)"
  shows "se_keeps P (se_bind m f)"
proof (rule se_keepsI)
  fix s assume "P s"
  obtain r s' where ms: "m s = (r, s')" by (cases "m s")
  with assms(1) \<open>P s\<close> have "P s'" by (metis se_keepsD snd_conv)
  then show "P (snd (se_bind m f s))"
    using assms(2) ms by (cases r) (auto simp: se_bind_apply dest: se_keepsD)
qed

lemma se_keeps_then [intro]: "se_keeps P m \<Longrightarrow> se_keeps P n \<Longrightarrow> se_keeps P (se_then m n)"
  by (simp add: se_then_def se_keeps_bind)

lemma se_keeps_try [intro]:
  assumes "se_keeps P m" and "\<And>e. se_keeps P (h e)"
  shows "se_keeps P (se_try m h)"
proof (rule se_keepsI)
  fix s assume "P s"
  obtain r s' where ms: "m s = (r, s')" by (cases "m s")
  with assms(1) \<open>P s\<close> have "P s'" by (metis se_keepsD snd_conv)
  then show "P (snd (se_try m h s))"
    using assms(2) ms by (cases r) (auto simp: se_try_apply dest: se_keepsD)
qed

lemma se_keeps_iter [intro]: "(\<And>x. x \<in> set xs \<Longrightarrow> se_keeps P (f x)) \<Longrightarrow> se_keeps P (se_iter f xs)"
  by (induction xs) auto

text \<open>
  \<open>se_ok P m Q\<close>: from a state with \<open>P\<close>, if \<open>m\<close> returns a value, the value and the state it leaves
  satisfy \<open>Q\<close>.
\<close>

definition se_ok :: "('s \<Rightarrow> bool) \<Rightarrow> ('s, 'e, 'a) se \<Rightarrow> ('a \<Rightarrow> 's \<Rightarrow> bool) \<Rightarrow> bool" where
  "se_ok P m Q \<longleftrightarrow> (\<forall>s a s'. P s \<longrightarrow> m s = (Inr a, s') \<longrightarrow> Q a s')"

lemma se_okI: "(\<And>s a s'. P s \<Longrightarrow> m s = (Inr a, s') \<Longrightarrow> Q a s') \<Longrightarrow> se_ok P m Q"
  by (simp add: se_ok_def)

lemma se_okD: "se_ok P m Q \<Longrightarrow> P s \<Longrightarrow> m s = (Inr a, s') \<Longrightarrow> Q a s'"
  by (simp add: se_ok_def)

lemma se_ok_True: "se_ok P m (\<lambda>_ _. True)"
  by (simp add: se_ok_def)

lemma se_ok_ret: "(\<And>s. P s \<Longrightarrow> Q a s) \<Longrightarrow> se_ok P (se_ret a) Q"
  by (simp add: se_ok_def)

lemma se_ok_bind: "se_ok P m R \<Longrightarrow> (\<And>a. se_ok (R a) (f a) Q) \<Longrightarrow> se_ok P (se_bind m f) Q"
  unfolding se_ok_def se_bind_def by (fastforce split: prod.splits sum.splits)

lemma se_ok_then: "se_ok P m (\<lambda>_. R) \<Longrightarrow> se_ok R n Q \<Longrightarrow> se_ok P (se_then m n) Q"
  unfolding se_then_def by (rule se_ok_bind)

lemma se_ok_read: "(\<And>s. P s \<Longrightarrow> Q (f s) s) \<Longrightarrow> se_ok P (se_read f) Q"
  by (simp add: se_ok_def)

lemma se_ok_lift: "(\<And>s a. P s \<Longrightarrow> f s = Inr a \<Longrightarrow> Q a s) \<Longrightarrow> se_ok P (se_lift f) Q"
  by (simp add: se_ok_def)

lemma se_ok_raise: "se_ok P (se_raise e) Q"
  by (simp add: se_ok_def)

lemma se_ok_write: "(\<And>s. P s \<Longrightarrow> Q () (f s)) \<Longrightarrow> se_ok P (se_write f) Q"
  by (simp add: se_ok_def)

lemma se_ok_weaken: "se_ok P m Q \<Longrightarrow> (\<And>s. P' s \<Longrightarrow> P s) \<Longrightarrow> (\<And>a s. Q a s \<Longrightarrow> Q' a s) \<Longrightarrow> se_ok P' m Q'"
  unfolding se_ok_def by blast

text \<open>
  \<open>se_wp m Q E s\<close>: run from \<open>s\<close>, \<open>m\<close> either returns a value and a state with \<open>Q\<close> or raises with an
  exception and a state with \<open>E\<close>. The rules push it through the combinators.
\<close>

definition se_wp :: "('s, 'e, 'a) se \<Rightarrow> ('a \<Rightarrow> 's \<Rightarrow> bool) \<Rightarrow> ('e \<Rightarrow> 's \<Rightarrow> bool) \<Rightarrow> 's \<Rightarrow> bool" where
  "se_wp m Q E s \<longleftrightarrow> (case m s of (Inl e, s') \<Rightarrow> E e s' | (Inr a, s') \<Rightarrow> Q a s')"

named_theorems wp_simps \<open>rules that push \<open>se_wp\<close> through the combinators\<close>

lemma se_wp_ret [wp_simps]: "se_wp (se_ret a) Q E = Q a"
  and se_wp_raise [wp_simps]: "se_wp (se_raise e) Q E = E e"
  and se_wp_read [wp_simps]: "se_wp (se_read f) R E = (\<lambda>s. R (f s) s)"
  and se_wp_write [wp_simps]: "se_wp (se_write g) S E = (\<lambda>s. S () (g s))"
  and se_wp_lift [wp_simps]: "se_wp (se_lift h) T E = (\<lambda>s. case h s of Inl e \<Rightarrow> E e s | Inr a \<Rightarrow> T a s)"
  by (simp_all add: se_wp_def fun_eq_iff split: sum.split)

lemma se_wp_bind [wp_simps]: "se_wp (se_bind m f) Q E = se_wp m (\<lambda>a. se_wp (f a) Q E) E"
  by (simp add: se_wp_def fun_eq_iff se_bind_apply split: prod.split sum.split)

lemma se_wp_then [wp_simps]: "se_wp (se_then m n) Q E = se_wp m (\<lambda>_. se_wp n Q E) E"
  by (simp add: se_then_def se_wp_bind)

lemma se_wp_try [wp_simps]: "se_wp (se_try m h) Q E = se_wp m Q (\<lambda>e. se_wp (h e) Q E)"
  by (simp add: se_wp_def fun_eq_iff se_try_apply split: prod.split sum.split)

lemma se_wpI: "(\<And>a s'. m s = (Inr a, s') \<Longrightarrow> Q a s') \<Longrightarrow> (\<And>e s'. m s = (Inl e, s') \<Longrightarrow> E e s') \<Longrightarrow> se_wp m Q E s"
  by (simp add: se_wp_def split: prod.split sum.split)

lemma se_wp_Inr: "se_wp m Q E s \<Longrightarrow> m s = (Inr a, s') \<Longrightarrow> Q a s'"
  and se_wp_Inl: "se_wp m Q E s \<Longrightarrow> m s = (Inl e, s') \<Longrightarrow> E e s'"
  by (simp_all add: se_wp_def)

lemma se_wp_mono:
  "se_wp m Q E s \<Longrightarrow> (\<And>a s'. Q a s' \<Longrightarrow> Q' a s') \<Longrightarrow> (\<And>e s'. E e s' \<Longrightarrow> E' e s') \<Longrightarrow> se_wp m Q' E' s"
  by (auto simp: se_wp_def split: prod.split sum.split)

lemma se_wp_bindI:
  "se_wp m R E s \<Longrightarrow> (\<And>a s'. R a s' \<Longrightarrow> se_wp (f a) Q E s') \<Longrightarrow> se_wp (se_bind m f) Q E s"
  unfolding se_wp_bind by (erule se_wp_mono)

lemma se_wp_thenI:
  "se_wp m (\<lambda>_. R) E s \<Longrightarrow> (\<And>s'. R s' \<Longrightarrow> se_wp n Q E s') \<Longrightarrow> se_wp (se_then m n) Q E s"
  unfolding se_wp_then by (erule se_wp_mono)

lemma se_wp_tryI:
  "se_wp m Q F s \<Longrightarrow> (\<And>e s'. F e s' \<Longrightarrow> se_wp (h e) Q E s') \<Longrightarrow> se_wp (se_try m h) Q E s"
  unfolding se_wp_try by (erule se_wp_mono)

lemma se_wp_iter:
  assumes "\<And>x s. x \<in> set xs \<Longrightarrow> P s \<Longrightarrow> se_wp (f x) (\<lambda>_. P) E s" and "P s"
  shows "se_wp (se_iter f xs) (\<lambda>_. P) E s"
  using assms
proof (induction xs arbitrary: s)
  case (Cons x xs)
  have "se_wp (f x) (\<lambda>_. se_wp (se_iter f xs) (\<lambda>_. P) E) E s"
    by (rule se_wp_mono [OF Cons.prems(1)]) (use Cons in auto)
  then show ?case by (simp add: wp_simps)
qed (simp add: wp_simps)

section \<open>Tables with a primary key\<close>

text \<open>
  A table is the list of its rows in scan order; every theorem holds for every such
  order. \<^verbatim>\<open>session.get(Model, pk)\<close> is \<open>row_get\<close>, an in-place change of the loaded row
  followed by a flush is \<open>row_upd\<close>, and \<^verbatim>\<open>session.add\<close> plus flush is \<open>row_ins\<close>, which
  fails on a duplicate key as the primary-key constraint does.
\<close>

definition row_get :: "('r \<Rightarrow> 'k) \<Rightarrow> 'k \<Rightarrow> 'r list \<Rightarrow> 'r option" where
  "row_get key k rows = find (\<lambda>r. key r = k) rows"

definition row_upd :: "('r \<Rightarrow> 'k) \<Rightarrow> 'k \<Rightarrow> ('r \<Rightarrow> 'r) \<Rightarrow> 'r list \<Rightarrow> 'r list" where
  "row_upd key k f rows = map (\<lambda>r. if key r = k then f r else r) rows"

definition row_ins :: "('r \<Rightarrow> 'k) \<Rightarrow> 'r \<Rightarrow> 'r list \<Rightarrow> 'r list option" where
  "row_ins key r rows = (if key r \<in> key ` set rows then None else Some (rows @ [r]))"

definition keys_ok :: "('r \<Rightarrow> 'k) \<Rightarrow> 'r list \<Rightarrow> bool" where
  "keys_ok key rows \<longleftrightarrow> distinct (map key rows)"

lemma row_get_Nil [simp, table_simps]: "row_get key k [] = None"
  by (simp add: row_get_def)

lemma row_get_Cons [simp, table_simps]:
  "row_get key k (r # rows) = (if key r = k then Some r else row_get key k rows)"
  by (simp add: row_get_def)

lemma row_get_Some: "row_get key k rows = Some r \<Longrightarrow> r \<in> set rows \<and> key r = k"
  by (induction rows) (auto split: if_splits)

lemma row_get_key: "row_get key k rows = Some r \<Longrightarrow> key r = k"
  using row_get_Some [of key k rows r] by blast

lemma row_get_None_iff: "row_get key k rows = None \<longleftrightarrow> k \<notin> key ` set rows"
  by (induction rows) auto

lemma row_get_iff: "keys_ok key rows \<Longrightarrow> row_get key k rows = Some r \<longleftrightarrow> r \<in> set rows \<and> key r = k"
proof (induction rows)
  case Nil
  then show ?case by simp
next
  case (Cons x rows)
  then have "keys_ok key rows" and "key x \<notin> key ` set rows"
    by (simp_all add: keys_ok_def)
  with Cons.IH show ?case by (auto dest: imageI [of _ _ key])
qed

lemma row_upd_Nil [simp, table_simps]: "row_upd key k f [] = []"
  by (simp add: row_upd_def)

lemma row_upd_Cons [simp, table_simps]:
  "row_upd key k f (r # rows) = (if key r = k then f r else r) # row_upd key k f rows"
  by (simp add: row_upd_def)

lemma length_row_upd [simp, table_simps]: "length (row_upd key k f rows) = length rows"
  by (simp add: row_upd_def)

lemma row_get_upd:
  assumes "\<And>r. key (f r) = key r"
  shows "row_get key k (row_upd key j f rows) =
    (if k = j then map_option f (row_get key k rows) else row_get key k rows)"
  by (induction rows) (auto simp: assms)

lemma map_key_row_upd:
  assumes "\<And>r. key (f r) = key r"
  shows "map key (row_upd key j f rows) = map key rows"
  by (induction rows) (auto simp: assms)

lemma keys_ok_row_upd: "(\<And>r. key (f r) = key r) \<Longrightarrow> keys_ok key (row_upd key j f rows) = keys_ok key rows"
  by (simp add: keys_ok_def map_key_row_upd)

lemma keys_ok_row_ins: "keys_ok key rows \<Longrightarrow> row_ins key r rows = Some rows' \<Longrightarrow> keys_ok key rows'"
  by (auto simp: keys_ok_def row_ins_def split: if_splits)

lemma row_get_ins:
  "row_ins key r rows = Some rows' \<Longrightarrow>
   row_get key k rows' = (if k = key r then Some r else row_get key k rows)"
proof -
  assume "row_ins key r rows = Some rows'"
  then have fresh: "key r \<notin> key ` set rows" and rows': "rows' = rows @ [r]"
    by (simp_all add: row_ins_def split: if_splits)
  from fresh show ?thesis unfolding rows' by (induction rows) auto
qed

lemma set_row_upd:
  "x \<in> set (row_upd key k f rows) \<longleftrightarrow>
   (\<exists>r \<in> set rows. x = (if key r = k then f r else r))"
  unfolding row_upd_def set_map image_iff by (rule refl)

lemma filter_row_upd_cong:
  assumes "\<And>r. P (f r) \<longleftrightarrow> P r"
  shows "filter P (row_upd key k f rows) = row_upd key k f (filter P rows)"
  by (induction rows) (auto simp: assms)

text \<open>
  The interface a repository offers to a service: read a row by its key, change one
  row by its key. \<open>okst\<close> is what the schema keeps (unique keys); a change at one key
  is visible there and nowhere else.
\<close>

locale row_store =
  fixes get :: "'s \<Rightarrow> 'k \<Rightarrow> 'r option"
    and upd :: "'k \<Rightarrow> ('r \<Rightarrow> 'r) \<Rightarrow> 's \<Rightarrow> 's"
    and key :: "'r \<Rightarrow> 'k"
    and okst :: "'s \<Rightarrow> bool"
  assumes get_key: "get s k = Some r \<Longrightarrow> key r = k"
    and get_upd_same: "(\<And>r. key (f r) = key r) \<Longrightarrow> get (upd k f s) k = map_option f (get s k)"
    and get_upd_other: "(\<And>r. key (f r) = key r) \<Longrightarrow> j \<noteq> k \<Longrightarrow> get (upd k f s) j = get s j"
    and okst_upd: "(\<And>r. key (f r) = key r) \<Longrightarrow> okst s \<Longrightarrow> okst (upd k f s)"
begin

lemma get_upd:
  assumes "\<And>r. key (f r) = key r"
  shows "get (upd k f s) j = (if j = k then map_option f (get s j) else get s j)"
  using assms by (simp add: get_upd_same get_upd_other)

lemma upd_absent:
  assumes "\<And>r. key (f r) = key r" and "get s k = None"
  shows "get (upd k f s) j = get s j"
  using assms by (simp add: get_upd)

lemma upd_twice:
  assumes "\<And>r. key (f r) = key r" and "\<And>r. key (g r) = key r"
  shows "get (upd k g (upd k f s)) j = get (upd k (\<lambda>r. g (f r)) s) j"
  using assms by (simp add: get_upd option.map_comp comp_def)

lemma upd_commute:
  assumes "\<And>r. key (f r) = key r" and "\<And>r. key (g r) = key r" and "i \<noteq> k"
  shows "get (upd i g (upd k f s)) j = get (upd k f (upd i g s)) j"
  using assms by (simp add: get_upd)

end

interpretation row_list: row_store "\<lambda>rows k. row_get key k rows" "row_upd key" key "keys_ok key"
  for key :: "'r \<Rightarrow> 'k"
proof unfold_locales
  fix rows :: "'r list" and k j :: 'k and r :: 'r and f :: "'r \<Rightarrow> 'r"
  show "row_get key k rows = Some r \<Longrightarrow> key r = k" by (rule row_get_key)
  assume f: "\<And>r. key (f r) = key r"
  show "row_get key k (row_upd key k f rows) = map_option f (row_get key k rows)"
    using row_get_upd [of key f] f by simp
  show "j \<noteq> k \<Longrightarrow> row_get key j (row_upd key k f rows) = row_get key j rows"
    using row_get_upd [of key f] f by simp
  show "keys_ok key rows \<Longrightarrow> keys_ok key (row_upd key k f rows)"
    using keys_ok_row_upd [of key f] f by simp
qed

section \<open>Lists and sorting\<close>

text \<open>\<^verbatim>\<open>ORDER BY e LIMIT n\<close>: a stable sort of the scan order, then a prefix.\<close>

definition order_by_limit :: "('r \<Rightarrow> 'k::linorder) \<Rightarrow> int \<Rightarrow> 'r list \<Rightarrow> 'r list" where
  "order_by_limit e n rows = take (nat n) (sort_key e rows)"

lemma set_order_by_limit: "set (order_by_limit e n rows) \<subseteq> set rows"
  unfolding order_by_limit_def using set_take_subset by fastforce

lemma sorted_order_by_limit: "sorted (map e (order_by_limit e n rows))"
  by (simp add: order_by_limit_def take_map [symmetric] sorted_wrt_take)

lemma length_order_by_limit: "length (order_by_limit e n rows) \<le> nat n"
  by (simp add: order_by_limit_def)

lemma order_by_limit_all: "int (length rows) \<le> n \<Longrightarrow> set (order_by_limit e n rows) = set rows"
  by (simp add: order_by_limit_def)

lemma distinct_map_sort_key: "distinct (map f (sort_key e xs)) = distinct (map f xs)"
  by (metis mset_map mset_sort mset_eq_imp_distinct_iff)

lemma hd_sort_key_least:
  assumes "xs \<noteq> []" and "y \<in> set xs"
  shows "e (hd (sort_key e xs)) \<le> e y"
proof -
  have "sorted (map e (sort_key e xs))" by simp
  moreover have "sort_key e xs \<noteq> []" using assms(1) by (metis length_0_conv length_sort)
  moreover have "y \<in> set (sort_key e xs)" using assms(2) by simp
  ultimately show ?thesis by (cases "sort_key e xs") auto
qed

lemma hd_sort_key_in: "xs \<noteq> [] \<Longrightarrow> hd (sort_key e xs) \<in> set xs"
  by (metis hd_in_set length_0_conv length_sort set_sort)

text \<open>Counting rows with a property, as \<^verbatim>\<open>sum(1 for r in rows if P(r))\<close>.\<close>

definition count_where :: "('a \<Rightarrow> bool) \<Rightarrow> 'a list \<Rightarrow> nat" where
  "count_where P xs = length (filter P xs)"

lemma count_where_Nil [simp]: "count_where P [] = 0"
  and count_where_Cons [simp]: "count_where P (x # xs) = (if P x then Suc (count_where P xs) else count_where P xs)"
  and count_where_append [simp]: "count_where P (xs @ ys) = count_where P xs + count_where P ys"
  by (simp_all add: count_where_def)

lemma count_where_0_iff: "count_where P xs = 0 \<longleftrightarrow> (\<forall>x \<in> set xs. \<not> P x)"
  by (auto simp: count_where_def filter_empty_conv)

lemma count_where_pos_iff: "0 < count_where P xs \<longleftrightarrow> (\<exists>x \<in> set xs. P x)"
  using count_where_0_iff [of P xs] by auto

lemma count_where_le: "count_where P xs \<le> length xs"
  by (simp add: count_where_def)

lemma count_where_disjoint:
  assumes "\<And>x. x \<in> set xs \<Longrightarrow> \<not> (P x \<and> Q x)"
  shows "count_where (\<lambda>x. P x \<or> Q x) xs = count_where P xs + count_where Q xs"
  using assms by (induction xs) auto

lemma count_where_mset: "mset xs = mset ys \<Longrightarrow> count_where P xs = count_where P ys"
  by (metis count_where_def mset_filter size_mset)

lemma upt_enumerate_distinct: "distinct (map fst (enumerate n xs))"
  by (simp add: enumerate_eq_zip)

end
