(* ===== verification/Cctv_Domain.thy ===== *)
theory Cctv_Domain
  imports Cctv_Prelude
begin

text \<open>
  The pure domain layer: the enumerations of \<^verbatim>\<open>domain/enums.py\<close>, the exceptions of
  \<^verbatim>\<open>domain/exceptions.py\<close> and \<^verbatim>\<open>repositories/types.py\<close> with the class names that the
  workers match on, their mapping to HTTP errors (\<^verbatim>\<open>api/errors.py\<close>), and the legal
  job and task transitions of \<^verbatim>\<open>domain/state_machine.py\<close>. The security levels form a
  linear order; the lemmas on statuses say what a job or a scale task can go through.
\<close>

section \<open>Enumerations\<close>

datatype source_type = FILE | RTSP_CHUNK | OBJECT_STORAGE | EXTERNAL

datatype analysis_scale = DEFAULT_SEGMENT | MOTION_SCAN | HIGH_FREQ_EVENT | LOW_FREQ_SUMMARY

datatype job_status =
  JOB_QUEUED | JOB_RUNNING | JOB_SUCCEEDED | JOB_PARTIAL_FAILED | JOB_FAILED | JOB_CANCELLED

datatype task_status =
  TASK_PENDING | TASK_RUNNING | TASK_SUCCEEDED | TASK_PARTIAL_FAILED | TASK_FAILED | TASK_SKIPPED

datatype trigger_status =
  TRIGGER_PENDING | TRIGGER_RUNNING | TRIGGER_SUCCEEDED | TRIGGER_FAILED | TRIGGER_SKIPPED

datatype search_mode = STATIC_ATTRIBUTE | DYNAMIC_EVENT | HYBRID | AUTO_BY_EXTERNAL_AI

datatype context_mode = SNAPSHOT | STREAM

datatype principal_type = USER | SERVICE_ACCOUNT | ADMIN

datatype security_level = PUBLIC | INTERNAL | CONFIDENTIAL | RESTRICTED

datatype capability =
    OBSERVATION_SEARCH | OBSERVATION_READ_DETAIL | OBSERVATION_READ_LOCATOR | VIDEO_PLAYBACK
  | ANALYSIS_SUBMIT | ANALYSIS_RERUN | ANALYSIS_PUBLISH | CAMERA_MANAGE | POLICY_MANAGE
  | USER_MANAGE | AUDIT_READ | RUNTIME_MANAGE

datatype refine_op =
    NARROW_BY_TAGS | SEARCH_STATIC_TEXT | SEARCH_DYNAMIC_TEXT | HYBRID_SEARCH_TEXT
  | FILTER_BY_ANALYSIS_SCALE | APPLY_RRF_FUSION | RERANK_CURRENT_CANDIDATES

fun analysis_scale_value :: "analysis_scale \<Rightarrow> string" where
  "analysis_scale_value DEFAULT_SEGMENT = ''default_segment''"
| "analysis_scale_value MOTION_SCAN = ''motion_scan''"
| "analysis_scale_value HIGH_FREQ_EVENT = ''high_freq_event''"
| "analysis_scale_value LOW_FREQ_SUMMARY = ''low_freq_summary''"

fun job_status_value :: "job_status \<Rightarrow> string" where
  "job_status_value JOB_QUEUED = ''queued''"
| "job_status_value JOB_RUNNING = ''running''"
| "job_status_value JOB_SUCCEEDED = ''succeeded''"
| "job_status_value JOB_PARTIAL_FAILED = ''partial_failed''"
| "job_status_value JOB_FAILED = ''failed''"
| "job_status_value JOB_CANCELLED = ''cancelled''"

fun task_status_value :: "task_status \<Rightarrow> string" where
  "task_status_value TASK_PENDING = ''pending''"
| "task_status_value TASK_RUNNING = ''running''"
| "task_status_value TASK_SUCCEEDED = ''succeeded''"
| "task_status_value TASK_PARTIAL_FAILED = ''partial_failed''"
| "task_status_value TASK_FAILED = ''failed''"
| "task_status_value TASK_SKIPPED = ''skipped''"

fun security_level_value :: "security_level \<Rightarrow> string" where
  "security_level_value PUBLIC = ''public''"
| "security_level_value INTERNAL = ''internal''"
| "security_level_value CONFIDENTIAL = ''confidential''"
| "security_level_value RESTRICTED = ''restricted''"

fun capability_value :: "capability \<Rightarrow> string" where
  "capability_value OBSERVATION_SEARCH = ''observation.search''"
| "capability_value OBSERVATION_READ_DETAIL = ''observation.read_detail''"
| "capability_value OBSERVATION_READ_LOCATOR = ''observation.read_locator''"
| "capability_value VIDEO_PLAYBACK = ''video.playback''"
| "capability_value ANALYSIS_SUBMIT = ''analysis.submit''"
| "capability_value ANALYSIS_RERUN = ''analysis.rerun''"
| "capability_value ANALYSIS_PUBLISH = ''analysis.publish''"
| "capability_value CAMERA_MANAGE = ''camera.manage''"
| "capability_value POLICY_MANAGE = ''policy.manage''"
| "capability_value USER_MANAGE = ''user.manage''"
| "capability_value AUDIT_READ = ''audit.read''"
| "capability_value RUNTIME_MANAGE = ''runtime.manage''"

text \<open>A \<^verbatim>\<open>StrEnum\<close> member is stored as its value; reading it back finds the member again.\<close>

lemma analysis_scale_value_inj: "analysis_scale_value a = analysis_scale_value b \<longleftrightarrow> a = b"
  by (cases a; cases b) simp_all

lemma security_level_value_inj: "security_level_value a = security_level_value b \<longleftrightarrow> a = b"
  by (cases a; cases b) simp_all

section \<open>Security levels\<close>

fun security_level_rank :: "security_level \<Rightarrow> nat" where
  "security_level_rank PUBLIC = 0"
| "security_level_rank INTERNAL = 1"
| "security_level_rank CONFIDENTIAL = 2"
| "security_level_rank RESTRICTED = 3"

definition allows :: "security_level \<Rightarrow> security_level \<Rightarrow> bool" where
  "allows cap resource = (security_level_rank resource \<le> security_level_rank cap)"

definition stricter :: "security_level \<Rightarrow> security_level \<Rightarrow> security_level" where
  "stricter left right =
     (if security_level_rank right \<le> security_level_rank left then left else right)"

definition all_security_levels :: "security_level list" where
  "all_security_levels = [PUBLIC, INTERNAL, CONFIDENTIAL, RESTRICTED]"

lemma security_level_rank_inj: "security_level_rank a = security_level_rank b \<longleftrightarrow> a = b"
  by (cases a; cases b) simp_all

instantiation security_level :: linorder
begin

definition less_eq_security_level :: "security_level \<Rightarrow> security_level \<Rightarrow> bool" where
  "a \<le> b \<longleftrightarrow> security_level_rank a \<le> security_level_rank b"

definition less_security_level :: "security_level \<Rightarrow> security_level \<Rightarrow> bool" where
  "a < b \<longleftrightarrow> security_level_rank a < security_level_rank b"

instance
  by standard
    (auto simp: less_eq_security_level_def less_security_level_def security_level_rank_inj)

end

lemma allows_iff_le: "allows cap resource \<longleftrightarrow> resource \<le> cap"
  by (simp add: allows_def less_eq_security_level_def)

lemma stricter_eq_max: "stricter a b = max a b"
  by (auto simp: stricter_def max_def less_eq_security_level_def security_level_rank_inj
      intro: antisym)

lemma PUBLIC_least [simp]: "PUBLIC \<le> l"
  by (simp add: less_eq_security_level_def)

lemma set_all_security_levels [simp]: "l \<in> set all_security_levels"
  by (cases l) (simp_all add: all_security_levels_def)

section \<open>Exceptions\<close>

text \<open>
  One constructor per exception class of the program; the string is the message. An
  exception of a library or of the runtime is \<open>OtherException\<close> with the names of its
  classes from the raised class up to \<^verbatim>\<open>Exception\<close>, which is all that the workers look
  at besides the message.
\<close>

datatype exn =
    AuthorizationError string
  | PrincipalNotFoundError string
  | CapabilityDeniedError string
  | NotFoundError string
  | ValidationError string
  | InvalidStateTransitionError string
  | ModelOutputSchemaValidationError string
  | VlmSchemaValidationError string
  | ObjectDetectionSchemaValidationError string
  | InsufficientFramesError string
  | LimitExceededError string
  | ContextExpiredError string
  | RestoreError string
  | NotImplementedFeatureError string
  | VlmProviderError string
  | EmbeddingError string
  | RerankerError string
  | ConflictError string
  | IdempotencyConflictError string
  | WriteNotPermittedError string
  | ValueError string
  | RuntimeError string
  | IntegrityError string
  | PydanticValidationError string
  | OtherException "string list" string

text \<open>\<^verbatim>\<open>type(exc).__mro__\<close> as class names, most derived first, without \<^verbatim>\<open>object\<close>.\<close>

fun exn_mro :: "exn \<Rightarrow> string list" where
  "exn_mro (AuthorizationError _) = [''AuthorizationError'', ''DomainError'', ''Exception'']"
| "exn_mro (PrincipalNotFoundError _) = [''PrincipalNotFoundError'', ''DomainError'', ''Exception'']"
| "exn_mro (CapabilityDeniedError _) = [''CapabilityDeniedError'', ''DomainError'', ''Exception'']"
| "exn_mro (NotFoundError _) = [''NotFoundError'', ''DomainError'', ''Exception'']"
| "exn_mro (ValidationError _) = [''ValidationError'', ''DomainError'', ''Exception'']"
| "exn_mro (InvalidStateTransitionError _) =
     [''InvalidStateTransitionError'', ''DomainError'', ''Exception'']"
| "exn_mro (ModelOutputSchemaValidationError _) =
     [''ModelOutputSchemaValidationError'', ''DomainError'', ''Exception'']"
| "exn_mro (VlmSchemaValidationError _) =
     [''VlmSchemaValidationError'', ''ModelOutputSchemaValidationError'', ''DomainError'', ''Exception'']"
| "exn_mro (ObjectDetectionSchemaValidationError _) =
     [''ObjectDetectionSchemaValidationError'', ''ModelOutputSchemaValidationError'', ''DomainError'',
      ''Exception'']"
| "exn_mro (InsufficientFramesError _) = [''InsufficientFramesError'', ''DomainError'', ''Exception'']"
| "exn_mro (LimitExceededError _) = [''LimitExceededError'', ''DomainError'', ''Exception'']"
| "exn_mro (ContextExpiredError _) = [''ContextExpiredError'', ''DomainError'', ''Exception'']"
| "exn_mro (RestoreError _) = [''RestoreError'', ''DomainError'', ''Exception'']"
| "exn_mro (NotImplementedFeatureError _) =
     [''NotImplementedFeatureError'', ''DomainError'', ''Exception'']"
| "exn_mro (VlmProviderError _) = [''VlmProviderError'', ''DomainError'', ''Exception'']"
| "exn_mro (EmbeddingError _) = [''EmbeddingError'', ''DomainError'', ''Exception'']"
| "exn_mro (RerankerError _) = [''RerankerError'', ''DomainError'', ''Exception'']"
| "exn_mro (ConflictError _) = [''ConflictError'', ''RepositoryError'', ''Exception'']"
| "exn_mro (IdempotencyConflictError _) =
     [''IdempotencyConflictError'', ''RepositoryError'', ''Exception'']"
| "exn_mro (WriteNotPermittedError _) =
     [''WriteNotPermittedError'', ''RepositoryError'', ''Exception'']"
| "exn_mro (ValueError _) = [''ValueError'', ''Exception'']"
| "exn_mro (RuntimeError _) = [''RuntimeError'', ''Exception'']"
| "exn_mro (IntegrityError _) =
     [''IntegrityError'', ''DatabaseError'', ''DBAPIError'', ''StatementError'', ''SQLAlchemyError'',
      ''Exception'']"
| "exn_mro (PydanticValidationError _) = [''ValidationError'', ''ValueError'', ''Exception'']"
| "exn_mro (OtherException cs _) = cs"

fun exn_message :: "exn \<Rightarrow> string" where
  "exn_message (AuthorizationError m) = m"
| "exn_message (PrincipalNotFoundError m) = m"
| "exn_message (CapabilityDeniedError m) = m"
| "exn_message (NotFoundError m) = m"
| "exn_message (ValidationError m) = m"
| "exn_message (InvalidStateTransitionError m) = m"
| "exn_message (ModelOutputSchemaValidationError m) = m"
| "exn_message (VlmSchemaValidationError m) = m"
| "exn_message (ObjectDetectionSchemaValidationError m) = m"
| "exn_message (InsufficientFramesError m) = m"
| "exn_message (LimitExceededError m) = m"
| "exn_message (ContextExpiredError m) = m"
| "exn_message (RestoreError m) = m"
| "exn_message (NotImplementedFeatureError m) = m"
| "exn_message (VlmProviderError m) = m"
| "exn_message (EmbeddingError m) = m"
| "exn_message (RerankerError m) = m"
| "exn_message (ConflictError m) = m"
| "exn_message (IdempotencyConflictError m) = m"
| "exn_message (WriteNotPermittedError m) = m"
| "exn_message (ValueError m) = m"
| "exn_message (RuntimeError m) = m"
| "exn_message (IntegrityError m) = m"
| "exn_message (PydanticValidationError m) = m"
| "exn_message (OtherException _ m) = m"

definition exn_type_name :: "exn \<Rightarrow> string" where
  "exn_type_name e = (case exn_mro e of [] \<Rightarrow> ''Exception'' | c # _ \<Rightarrow> c)"

text \<open>
  \<^verbatim>\<open>isinstance(exc, C)\<close> for a class \<open>C\<close> of the domain layer: it is decided by the class
  itself, so a library exception that only shares the name is no instance.
\<close>

definition is_instance :: "exn \<Rightarrow> string \<Rightarrow> bool" where
  "is_instance e cls =
     (case e of
        OtherException _ _ \<Rightarrow> False
      | PydanticValidationError _ \<Rightarrow> False
      | _ \<Rightarrow> cls \<in> set (exn_mro e))"

text \<open>
  \<^verbatim>\<open>map_exception\<close> of the API: a rejected request body first, then the first class of
  \<^verbatim>\<open>_EXC_MAP\<close> that the exception is an instance of, then the repository conflicts by
  class name, then 500.
\<close>

definition exc_map :: "(string \<times> nat \<times> string) list" where
  "exc_map =
    [(''PrincipalNotFoundError'', 401, ''unauthenticated''),
     (''AuthorizationError'', 403, ''account_disabled''),
     (''CapabilityDeniedError'', 403, ''capability_denied''),
     (''NotFoundError'', 404, ''not_found''),
     (''ValidationError'', 400, ''validation_error''),
     (''InvalidStateTransitionError'', 409, ''invalid_state_transition''),
     (''VlmSchemaValidationError'', 422, ''vlm_schema_validation_failed'')]"

definition map_exception :: "exn \<Rightarrow> nat \<times> string \<times> string" where
  "map_exception e =
    (case e of
       PydanticValidationError _ \<Rightarrow> (400, ''validation_error'', ''Request validation failed.'')
     | _ \<Rightarrow>
      (case find (\<lambda>(c, _). is_instance e c) exc_map of
         Some (_, status, code) \<Rightarrow> (status, code, exn_message e)
       | None \<Rightarrow>
        (if exn_type_name e = ''IdempotencyConflictError''
         then (409, ''idempotency_conflict'', ''Idempotency key reused with different payload.'')
         else if exn_type_name e = ''ConflictError''
         then (409, ''conflict'', ''Resource conflict.'')
         else (500, ''internal_error'', ''An internal error occurred.''))))"

section \<open>Job and scale-task transitions\<close>

fun job_transitions :: "job_status \<Rightarrow> job_status list" where
  "job_transitions JOB_QUEUED = [JOB_RUNNING, JOB_CANCELLED]"
| "job_transitions JOB_RUNNING = [JOB_SUCCEEDED, JOB_PARTIAL_FAILED, JOB_FAILED, JOB_CANCELLED]"
| "job_transitions JOB_PARTIAL_FAILED = [JOB_RUNNING, JOB_SUCCEEDED]"
| "job_transitions JOB_FAILED = [JOB_RUNNING]"
| "job_transitions JOB_SUCCEEDED = []"
| "job_transitions JOB_CANCELLED = []"

fun task_transitions :: "task_status \<Rightarrow> task_status list" where
  "task_transitions TASK_PENDING = [TASK_RUNNING, TASK_SKIPPED]"
| "task_transitions TASK_RUNNING = [TASK_SUCCEEDED, TASK_PARTIAL_FAILED, TASK_FAILED]"
| "task_transitions TASK_PARTIAL_FAILED = [TASK_RUNNING]"
| "task_transitions TASK_FAILED = [TASK_RUNNING]"
| "task_transitions TASK_SUCCEEDED = []"
| "task_transitions TASK_SKIPPED = []"

definition can_transition_job :: "job_status \<Rightarrow> job_status \<Rightarrow> bool" where
  "can_transition_job current target = (target \<in> set (job_transitions current))"

definition can_transition_task :: "task_status \<Rightarrow> task_status \<Rightarrow> bool" where
  "can_transition_task current target = (target \<in> set (task_transitions current))"

text \<open>
  The contract of a status graph: a start status, a working status, and the statuses
  that work can end in. Every ending other than the ones the graph allows straight from
  the start is entered from the working status or from another ending.
\<close>

locale status_graph =
  fixes can :: "'st \<Rightarrow> 'st \<Rightarrow> bool"
    and start :: 'st
    and working :: 'st
    and early :: "'st \<Rightarrow> bool"
    and final :: "'st \<Rightarrow> bool"
  assumes from_start: "can start t \<Longrightarrow> t = working \<or> early t"
    and early_final: "early t \<Longrightarrow> final t"
    and final_stuck: "final t \<Longrightarrow> \<not> can t u"
    and start_not_final: "\<not> final start"
begin

inductive path :: "'st list \<Rightarrow> bool" where
  path_start: "path [start]"
| path_step: "path (xs @ [s]) \<Longrightarrow> can s t \<Longrightarrow> path (xs @ [s, t])"

lemma path_hd: "path xs \<Longrightarrow> xs \<noteq> [] \<and> hd xs = start"
proof (induction rule: path.induct)
  case (path_step xs s t)
  then show ?case by (cases xs) auto
qed simp

lemma path_through_working:
  "path xs \<Longrightarrow> last xs = start \<or> early (last xs) \<or> working \<in> set xs"
proof (induction rule: path.induct)
  case (path_step xs s t)
  show ?case
  proof (cases "working \<in> set (xs @ [s, t])")
    case False
    with path_step.IH have "s = start \<or> early s" by auto
    moreover have "\<not> early s" using path_step.hyps(2) early_final final_stuck by blast
    ultimately show ?thesis using path_step.hyps(2) from_start by fastforce
  qed simp
qed simp

lemma final_only_last: "path xs \<Longrightarrow> s \<in> set (butlast xs) \<Longrightarrow> \<not> final s"
proof (induction arbitrary: s rule: path.induct)
  case (path_step xs s' t)
  then show ?case using final_stuck by (auto simp: butlast_append)
qed simp

end

interpretation job_graph: status_graph can_transition_job JOB_QUEUED JOB_RUNNING
  "\<lambda>t. t = JOB_CANCELLED" "\<lambda>t. t = JOB_CANCELLED \<or> t = JOB_SUCCEEDED"
  by unfold_locales (auto simp: can_transition_job_def)

interpretation task_graph: status_graph can_transition_task TASK_PENDING TASK_RUNNING
  "\<lambda>t. t = TASK_SKIPPED" "\<lambda>t. t = TASK_SKIPPED \<or> t = TASK_SUCCEEDED"
  by unfold_locales (auto simp: can_transition_task_def)

end
