(* ===== verification/Cctv_Authz.thy ===== *)
theory Cctv_Authz
  imports Cctv_Domain
begin

text \<open>
  Authorization: the principals, policies, cameras and scopes of \<^verbatim>\<open>contracts/auth.py\<close> and
  \<^verbatim>\<open>contracts/video.py\<close>, the scope computation of \<^verbatim>\<open>domain/policies/__init__.py\<close>, the
  service of \<^verbatim>\<open>application/auth.py\<close>, and the SQL predicate of
  \<^verbatim>\<open>infrastructure/db/repositories/_helpers.py\<close>. The lemmas characterise the computed scope,
  show that the SQL predicate is the contract's \<^verbatim>\<open>permits_resource\<close>, that taking a grant
  away never widens a scope, and that the encoding behind the scope hash is injective.
\<close>

section \<open>Data\<close>

record principal =
  pr_principal_id :: string
  pr_principal_type :: principal_type
  pr_tenant_id :: string
  pr_external_subject_id :: "string option"
  pr_display_name :: string
  pr_status :: string
  pr_roles :: "string list"
  pr_groups :: "string list"

record access_policy_rules =
  allowed_roles :: "string list"
  allowed_groups :: "string list"
  allowed_principals :: "string list"
  denied_principals :: "string list"

record access_policy =
  ap_access_policy_id :: string
  ap_tenant_id :: string
  ap_name :: string
  ap_security_level :: security_level
  ap_rules :: access_policy_rules

record camera_location =
  loc_location_id :: string
  loc_tenant_id :: string
  loc_area :: string
  loc_location_desc :: "string option"
  loc_access_policy_id :: "string option"
  loc_security_level :: security_level

record camera_device =
  cam_camera_id :: string
  cam_tenant_id :: string
  cam_camera_name :: string
  cam_location_id :: string
  cam_access_policy_id :: "string option"
  cam_status :: string

record authorized_scope =
  sc_tenant_id :: string
  sc_principal_id :: string
  sc_allowed_camera_ids :: "string list"
  sc_allowed_location_ids :: "string list"
  sc_allowed_access_policy_ids :: "string list"
  sc_max_security_level :: security_level
  sc_capabilities :: "capability list"
  sc_scope_hash :: string

definition has_capability :: "authorized_scope \<Rightarrow> capability \<Rightarrow> bool" where
  "has_capability sc c = (c \<in> set (sc_capabilities sc))"

definition permits_resource ::
  "authorized_scope \<Rightarrow> string \<Rightarrow> string \<Rightarrow> string \<Rightarrow> string \<Rightarrow> security_level \<Rightarrow> bool" where
  "permits_resource sc tenant_id camera_id location_id access_policy_id level =
    (if tenant_id \<noteq> sc_tenant_id sc then False
     else if camera_id \<notin> set (sc_allowed_camera_ids sc) then False
     else if location_id \<notin> set (sc_allowed_location_ids sc) then False
     else if access_policy_id \<notin> set (sc_allowed_access_policy_ids sc) then False
     else allows (sc_max_security_level sc) level)"

section \<open>Capabilities and policies\<close>

definition default_user_capabilities :: "capability list" where
  "default_user_capabilities =
    [OBSERVATION_SEARCH, OBSERVATION_READ_DETAIL, OBSERVATION_READ_LOCATOR, VIDEO_PLAYBACK]"

definition service_capabilities :: "capability list" where
  "service_capabilities = [ANALYSIS_SUBMIT, ANALYSIS_RERUN]"

definition admin_capabilities :: "capability list" where
  "admin_capabilities =
    [OBSERVATION_SEARCH, OBSERVATION_READ_DETAIL, OBSERVATION_READ_LOCATOR, VIDEO_PLAYBACK,
     ANALYSIS_SUBMIT, ANALYSIS_RERUN, ANALYSIS_PUBLISH, CAMERA_MANAGE, POLICY_MANAGE,
     USER_MANAGE, AUDIT_READ, RUNTIME_MANAGE]"

definition auto_location_id :: string where
  "auto_location_id = ''loc_auto_unregistered''"

definition build_auto_location :: camera_location where
  "build_auto_location =
    \<lparr>loc_location_id = auto_location_id, loc_tenant_id = ''tenant_default'',
     loc_area = ''unregistered'',
     loc_location_desc = Some ''Auto-created for an unregistered camera'',
     loc_access_policy_id = None, loc_security_level = INTERNAL\<rparr>"

definition capabilities_for :: "principal \<Rightarrow> capability list" where
  "capabilities_for p =
    (if pr_principal_type p = ADMIN then admin_capabilities
     else if pr_principal_type p = SERVICE_ACCOUNT
     then default_user_capabilities @ service_capabilities
     else default_user_capabilities)"

definition policy_permits_principal :: "access_policy \<Rightarrow> principal \<Rightarrow> bool" where
  "policy_permits_principal policy p =
    (let rules = ap_rules policy in
     if pr_principal_id p \<in> set (denied_principals rules) then False
     else if pr_principal_id p \<in> set (allowed_principals rules) then True
     else if list_ex (\<lambda>role. role \<in> set (allowed_roles rules)) (pr_roles p) then True
     else if list_ex (\<lambda>group. group \<in> set (allowed_groups rules)) (pr_groups p) then True
     else False)"

definition effective_security_level ::
  "camera_location \<Rightarrow> camera_device option \<Rightarrow> access_policy option \<Rightarrow> security_level" where
  "effective_security_level location camera policy =
    (case policy of
       None \<Rightarrow> loc_security_level location
     | Some p \<Rightarrow> stricter (loc_security_level location) (ap_security_level p))"

text \<open>An optional string is truthy when it is present and not empty.\<close>

definition truthy :: "string option \<Rightarrow> bool" where
  "truthy x = (case x of None \<Rightarrow> False | Some s \<Rightarrow> s \<noteq> [])"

definition resolve_access_policy_id ::
  "camera_location \<Rightarrow> camera_device option \<Rightarrow> string option \<Rightarrow> string \<Rightarrow> string" where
  "resolve_access_policy_id location camera video_access_policy_id default_policy_id =
    (if truthy video_access_policy_id then the video_access_policy_id
     else if camera \<noteq> None \<and> truthy (cam_access_policy_id (the camera))
     then the (cam_access_policy_id (the camera))
     else if truthy (loc_access_policy_id location) then the (loc_access_policy_id location)
     else default_policy_id)"

section \<open>The scope hash\<close>

text \<open>
  \<^verbatim>\<open>json.dumps(payload, sort_keys=True, separators=(",", ":"))\<close> of the payload: ASCII text,
  every character outside the printable range escaped. Characters are code points below
  256 here. The digest itself (\<^verbatim>\<open>sha256(...).hexdigest()\<close>) is a parameter.
\<close>

definition hex_digit :: "nat \<Rightarrow> char" where
  "hex_digit n = ''0123456789abcdef'' ! n"

definition json_char :: "char \<Rightarrow> string" where
  "json_char c =
    (if c = CHR 0x22 then [CHR 0x5C, CHR 0x22]
     else if c = CHR 0x5C then [CHR 0x5C, CHR 0x5C]
     else if c = CHR 0x0A then [CHR 0x5C, CHR ''n'']
     else if c = CHR 0x0D then [CHR 0x5C, CHR ''r'']
     else if c = CHR 0x09 then [CHR 0x5C, CHR ''t'']
     else if c = CHR 0x0C then [CHR 0x5C, CHR ''f'']
     else if c = CHR 0x08 then [CHR 0x5C, CHR ''b'']
     else if CHR '' '' \<le> c \<and> c \<le> CHR ''~'' then [c]
     else [CHR 0x5C, CHR ''u'', CHR ''0'', CHR ''0'',
           hex_digit (of_char c div 16), hex_digit (of_char c mod 16)])"

definition json_string :: "string \<Rightarrow> string" where
  "json_string s = CHR 0x22 # concat (map json_char s) @ [CHR 0x22]"

fun json_items :: "string list \<Rightarrow> string" where
  "json_items [] = []"
| "json_items [s] = json_string s"
| "json_items (s # t # ss) = json_string s @ CHR '','' # json_items (t # ss)"

definition json_array :: "string list \<Rightarrow> string" where
  "json_array ss = CHR ''['' # json_items ss @ [CHR '']'']"

definition json_field :: "string \<Rightarrow> string \<Rightarrow> string" where
  "json_field k v = json_string k @ CHR '':'' # v"

definition scope_payload ::
  "string \<Rightarrow> string \<Rightarrow> string list \<Rightarrow> string list \<Rightarrow> string list \<Rightarrow> security_level \<Rightarrow>
   capability list \<Rightarrow> string" where
  "scope_payload tenant_id principal_id cams locs pols level caps =
    CHR ''{'' #
    json_field ''allowed_access_policy_ids'' (json_array (sort pols)) @ CHR '','' #
    json_field ''allowed_camera_ids'' (json_array (sort cams)) @ CHR '','' #
    json_field ''allowed_location_ids'' (json_array (sort locs)) @ CHR '','' #
    json_field ''capabilities'' (json_array (sort (map capability_value caps))) @ CHR '','' #
    json_field ''max_security_level'' (json_string (security_level_value level)) @ CHR '','' #
    json_field ''principal_id'' (json_string principal_id) @ CHR '','' #
    json_field ''tenant_id'' (json_string tenant_id) @ [CHR ''}'']"

definition compute_scope_hash ::
  "(string \<Rightarrow> string) \<Rightarrow> string \<Rightarrow> string \<Rightarrow> string list \<Rightarrow> string list \<Rightarrow> string list \<Rightarrow>
   security_level \<Rightarrow> capability list \<Rightarrow> string" where
  "compute_scope_hash hexdigest tenant_id principal_id cams locs pols level caps =
    ''scope_'' @ take 32 (hexdigest (scope_payload tenant_id principal_id cams locs pols level caps))"

section \<open>The authorized scope\<close>

text \<open>Python's sets are lists without repetition; every use of them is sorted or a membership test.\<close>

definition permitted_policy_ids :: "principal \<Rightarrow> access_policy list \<Rightarrow> string list" where
  "permitted_policy_ids p policies =
    remdups (map ap_access_policy_id (filter (\<lambda>policy. policy_permits_principal policy p) policies))"

text \<open>\<^verbatim>\<open>policy_by_id\<close> is a dict comprehension: of two policies with one id the last stays.\<close>

definition policy_by_id :: "access_policy list \<Rightarrow> string \<Rightarrow> access_policy option" where
  "policy_by_id policies pid = row_get ap_access_policy_id pid (rev policies)"

definition location_allowed :: "principal \<Rightarrow> access_policy list \<Rightarrow> camera_location \<Rightarrow> bool" where
  "location_allowed p policies loc =
    (loc_tenant_id loc = pr_tenant_id p \<and> truthy (loc_access_policy_id loc) \<and>
     the (loc_access_policy_id loc) \<in> set (permitted_policy_ids p policies))"

definition allowed_location_ids :: "principal \<Rightarrow> access_policy list \<Rightarrow> camera_location list \<Rightarrow> string list" where
  "allowed_location_ids p policies locations =
    remdups (map loc_location_id (filter (location_allowed p policies) locations))"

definition camera_allowed ::
  "principal \<Rightarrow> access_policy list \<Rightarrow> camera_location list \<Rightarrow> camera_device \<Rightarrow> bool" where
  "camera_allowed p policies locations cam =
    (cam_tenant_id cam = pr_tenant_id p \<and>
     ((truthy (cam_access_policy_id cam) \<and>
       the (cam_access_policy_id cam) \<in> set (permitted_policy_ids p policies)) \<or>
      cam_location_id cam \<in> set (allowed_location_ids p policies locations)))"

definition allowed_camera_ids ::
  "principal \<Rightarrow> access_policy list \<Rightarrow> camera_location list \<Rightarrow> camera_device list \<Rightarrow> string list" where
  "allowed_camera_ids p policies locations cameras =
    remdups (map cam_camera_id (filter (camera_allowed p policies locations) cameras))"

definition max_permitted_level :: "principal \<Rightarrow> access_policy list \<Rightarrow> security_level" where
  "max_permitted_level p policies =
    fold (\<lambda>pid level. case policy_by_id policies pid of
            None \<Rightarrow> level
          | Some policy \<Rightarrow> stricter level (ap_security_level policy))
      (permitted_policy_ids p policies) PUBLIC"

definition compute_authorized_scope ::
  "(string \<Rightarrow> string) \<Rightarrow> principal \<Rightarrow> access_policy list \<Rightarrow> camera_location list \<Rightarrow>
   camera_device list \<Rightarrow> authorized_scope" where
  "compute_authorized_scope hexdigest p policies locations cameras =
    (let pids = permitted_policy_ids p policies;
         lids = allowed_location_ids p policies locations;
         cids = allowed_camera_ids p policies locations cameras;
         level = max_permitted_level p policies;
         caps = capabilities_for p
     in \<lparr>sc_tenant_id = pr_tenant_id p, sc_principal_id = pr_principal_id p,
         sc_allowed_camera_ids = sort cids, sc_allowed_location_ids = sort lids,
         sc_allowed_access_policy_ids = sort pids, sc_max_security_level = level,
         sc_capabilities = caps,
         sc_scope_hash = compute_scope_hash hexdigest (pr_tenant_id p) (pr_principal_id p)
           cids lids pids level caps\<rparr>)"

section \<open>The authorization service and the SQL predicate\<close>

definition resolve_principal :: "principal list \<Rightarrow> string \<Rightarrow> exn + principal" where
  "resolve_principal principals pid =
    (case row_get pr_principal_id pid principals of
       None \<Rightarrow> Inl (PrincipalNotFoundError (''principal '' @ pid @ '' not found''))
     | Some p \<Rightarrow>
        if pr_status p \<noteq> ''active''
        then Inl (AuthorizationError (''principal '' @ pid @ '' is not active''))
        else Inr p)"

definition authorized_scope_for ::
  "(string \<Rightarrow> string) \<Rightarrow> access_policy list \<Rightarrow> camera_location list \<Rightarrow> camera_device list \<Rightarrow>
   principal \<Rightarrow> authorized_scope" where
  "authorized_scope_for hexdigest policies location_rows camera_rows p =
    compute_authorized_scope hexdigest p policies
      (order_by_limit loc_location_id 10000 location_rows)
      (order_by_limit cam_camera_id 10000 camera_rows)"

text \<open>
  The columns of an observation row that the predicate reads. The WHERE clause compares
  stored values (\<^verbatim>\<open>security_level IN (...)\<close> on the enum's text).
\<close>

record resource_row =
  rr_tenant_id :: string
  rr_camera_id :: string
  rr_location_id :: string
  rr_access_policy_id :: string
  rr_security_level :: string

definition allowed_levels :: "authorized_scope \<Rightarrow> string list" where
  "allowed_levels sc =
    map security_level_value (filter (allows (sc_max_security_level sc)) all_security_levels)"

definition authorized_observation_filter :: "authorized_scope \<Rightarrow> resource_row \<Rightarrow> bool" where
  "authorized_observation_filter sc r =
    (rr_tenant_id r = sc_tenant_id sc \<and>
     rr_camera_id r \<in> set (sc_allowed_camera_ids sc) \<and>
     rr_location_id r \<in> set (sc_allowed_location_ids sc) \<and>
     rr_access_policy_id r \<in> set (sc_allowed_access_policy_ids sc) \<and>
     rr_security_level r \<in> set (allowed_levels sc))"

definition authorized_video_filter :: "authorized_scope \<Rightarrow> string \<Rightarrow> string \<Rightarrow> string option \<Rightarrow> bool" where
  "authorized_video_filter sc tenant_id camera_id access_policy_id =
    (tenant_id = sc_tenant_id sc \<and> camera_id \<in> set (sc_allowed_camera_ids sc) \<and>
     (case access_policy_id of None \<Rightarrow> False
      | Some pid \<Rightarrow> pid \<in> set (sc_allowed_access_policy_ids sc)))"

section \<open>What a scope contains\<close>

lemma permits_resource_iff:
  "permits_resource sc t c l a level \<longleftrightarrow>
    t = sc_tenant_id sc \<and> c \<in> set (sc_allowed_camera_ids sc) \<and>
    l \<in> set (sc_allowed_location_ids sc) \<and> a \<in> set (sc_allowed_access_policy_ids sc) \<and>
    level \<le> sc_max_security_level sc"
  by (simp add: permits_resource_def allows_iff_le)

lemma policy_permits_principal_iff:
  "policy_permits_principal policy p \<longleftrightarrow>
    pr_principal_id p \<notin> set (denied_principals (ap_rules policy)) \<and>
    (pr_principal_id p \<in> set (allowed_principals (ap_rules policy)) \<or>
     set (pr_roles p) \<inter> set (allowed_roles (ap_rules policy)) \<noteq> {} \<or>
     set (pr_groups p) \<inter> set (allowed_groups (ap_rules policy)) \<noteq> {})"
  by (auto simp: policy_permits_principal_def Let_def list_ex_iff)

lemma set_permitted_policy_ids:
  "set (permitted_policy_ids p policies) =
    {ap_access_policy_id policy | policy. policy \<in> set policies \<and> policy_permits_principal policy p}"
  by (auto simp: permitted_policy_ids_def)

lemma scope_fields [simp]:
  "sc_tenant_id (compute_authorized_scope h p pols locs cams) = pr_tenant_id p"
  "sc_principal_id (compute_authorized_scope h p pols locs cams) = pr_principal_id p"
  "sc_capabilities (compute_authorized_scope h p pols locs cams) = capabilities_for p"
  "sc_max_security_level (compute_authorized_scope h p pols locs cams) = max_permitted_level p pols"
  "set (sc_allowed_access_policy_ids (compute_authorized_scope h p pols locs cams)) =
     set (permitted_policy_ids p pols)"
  "set (sc_allowed_location_ids (compute_authorized_scope h p pols locs cams)) =
     set (allowed_location_ids p pols locs)"
  "set (sc_allowed_camera_ids (compute_authorized_scope h p pols locs cams)) =
     set (allowed_camera_ids p pols locs cams)"
  by (simp_all add: compute_authorized_scope_def Let_def)

text \<open>The level of a scope is the maximum over the permitted policies, \<^const>\<open>PUBLIC\<close> if there is none.\<close>

lemma fold_stricter:
  "fold (\<lambda>pid level. case f pid of None \<Rightarrow> level | Some q \<Rightarrow> stricter level (g q)) pids l =
    Max (insert l (g ` {q. \<exists>pid \<in> set pids. f pid = Some q}))"
  (is "?fold pids l = Max (insert l (?S pids))")
proof (induction pids arbitrary: l)
  case (Cons x pids)
  have fin: "finite (?S pids)" for pids
  proof -
    have "{q. \<exists>pid \<in> set pids. f pid = Some q} = (\<lambda>pid. the (f pid)) ` {pid \<in> set pids. f pid \<noteq> None}"
      by (force simp: image_iff)
    then show ?thesis by simp
  qed
  show ?case
  proof (cases "f x")
    case None
    then have "?S (x # pids) = ?S pids" by auto
    with Cons None show ?thesis by simp
  next
    case (Some q)
    then have "?S (x # pids) = insert (g q) (?S pids)" by auto
    moreover have "Max (insert (max l (g q)) (?S pids)) = Max (insert l (insert (g q) (?S pids)))"
      using fin [of pids] by (cases "?S pids = {}") (auto simp: Max_insert max.assoc)
    ultimately show ?thesis using Cons Some by (simp add: stricter_eq_max)
  qed
qed simp

lemma policy_by_id_distinct:
  assumes "distinct (map ap_access_policy_id policies)" and "q \<in> set policies"
  shows "policy_by_id policies (ap_access_policy_id q) = Some q"
proof -
  have "keys_ok ap_access_policy_id (rev policies)"
    using assms(1) by (simp add: keys_ok_def flip: rev_map)
  then show ?thesis using assms(2) by (simp add: policy_by_id_def row_get_iff)
qed

lemma policy_by_id_Some:
  "policy_by_id policies pid = Some q \<Longrightarrow> q \<in> set policies \<and> ap_access_policy_id q = pid"
  unfolding policy_by_id_def by (drule row_get_Some) simp

lemma max_permitted_level_eq:
  assumes "distinct (map ap_access_policy_id policies)"
  shows "max_permitted_level p policies =
    Max (insert PUBLIC (ap_security_level ` {q \<in> set policies. policy_permits_principal q p}))"
proof -
  have "{q. \<exists>pid \<in> set (permitted_policy_ids p policies). policy_by_id policies pid = Some q} =
      {q \<in> set policies. policy_permits_principal q p}" (is "?L = ?R")
  proof (intro set_eqI iffI)
    fix q assume "q \<in> ?R"
    then show "q \<in> ?L"
      using policy_by_id_distinct [OF assms] by (auto simp: set_permitted_policy_ids)
  next
    fix q assume "q \<in> ?L"
    then obtain q' where q': "q' \<in> set policies" "policy_permits_principal q' p"
      and "policy_by_id policies (ap_access_policy_id q') = Some q"
      by (auto simp: set_permitted_policy_ids)
    moreover from this have "q = q'"
      using policy_by_id_distinct [OF assms q'(1)] by simp
    ultimately show "q \<in> ?R" by simp
  qed
  then show ?thesis by (simp add: max_permitted_level_def fold_stricter)
qed

lemma mem_allowed_location_ids:
  "l \<in> set (allowed_location_ids p policies locations) \<longleftrightarrow>
    (\<exists>loc \<in> set locations. loc_location_id loc = l \<and> location_allowed p policies loc)"
  by (auto simp: allowed_location_ids_def)

lemma mem_allowed_camera_ids:
  "c \<in> set (allowed_camera_ids p policies locations cameras) \<longleftrightarrow>
    (\<exists>cam \<in> set cameras. cam_camera_id cam = c \<and> camera_allowed p policies locations cam)"
  by (auto simp: allowed_camera_ids_def)

lemma authorized_observation_filter_iff:
  assumes "rr_security_level r = security_level_value level"
  shows "authorized_observation_filter sc r \<longleftrightarrow>
    permits_resource sc (rr_tenant_id r) (rr_camera_id r) (rr_location_id r)
      (rr_access_policy_id r) level"
  using assms
  by (auto simp: authorized_observation_filter_def permits_resource_iff allowed_levels_def
      security_level_value_inj allows_iff_le)

section \<open>Grants only shrink\<close>

text \<open>
  What an administrator does to take rights away: denying principals and removing principals, roles or groups
  from what a policy allows, with ids and levels as they were.
\<close>

definition rules_revoked :: "access_policy_rules \<Rightarrow> access_policy_rules \<Rightarrow> bool" where
  "rules_revoked new old \<longleftrightarrow>
    set (denied_principals old) \<subseteq> set (denied_principals new) \<and>
    set (allowed_principals new) \<subseteq> set (allowed_principals old) \<and>
    set (allowed_roles new) \<subseteq> set (allowed_roles old) \<and>
    set (allowed_groups new) \<subseteq> set (allowed_groups old)"

definition policies_revoked :: "access_policy list \<Rightarrow> access_policy list \<Rightarrow> bool" where
  "policies_revoked new old =
    list_all2 (\<lambda>a b. ap_access_policy_id a = ap_access_policy_id b \<and>
      ap_security_level a = ap_security_level b \<and> rules_revoked (ap_rules a) (ap_rules b)) new old"

text \<open>Then each policy permits at most what its counterpart permitted.\<close>

definition policies_narrower :: "principal \<Rightarrow> access_policy list \<Rightarrow> access_policy list \<Rightarrow> bool" where
  "policies_narrower p new old =
    list_all2 (\<lambda>a b. ap_access_policy_id a = ap_access_policy_id b \<and>
      ap_security_level a = ap_security_level b \<and>
      (policy_permits_principal a p \<longrightarrow> policy_permits_principal b p)) new old"

lemma revoked_narrower: "policies_revoked new old \<Longrightarrow> policies_narrower p new old"
  unfolding policies_revoked_def policies_narrower_def
  by (erule list_all2_mono) (auto simp: rules_revoked_def policy_permits_principal_iff)

lemma policies_narrower_ids:
  assumes "policies_narrower p new old"
  shows "set (permitted_policy_ids p new) \<subseteq> set (permitted_policy_ids p old)"
  using assms unfolding policies_narrower_def
proof (induction rule: list_all2_induct)
  case (Cons x xs y ys)
  then show ?case by (auto simp: set_permitted_policy_ids)
qed (simp add: permitted_policy_ids_def)

lemma policies_narrower_levels:
  assumes "policies_narrower p new old"
  shows "ap_security_level ` {q \<in> set new. policy_permits_principal q p} \<subseteq>
    ap_security_level ` {q \<in> set old. policy_permits_principal q p}"
  using assms unfolding policies_narrower_def
proof (induction rule: list_all2_induct)
  case (Cons x xs y ys)
  have "ap_security_level ` {q \<in> set (x # xs). policy_permits_principal q p} \<subseteq>
      (if policy_permits_principal x p then {ap_security_level x} else {}) \<union>
      ap_security_level ` {q \<in> set xs. policy_permits_principal q p}"
    by auto
  also have "\<dots> \<subseteq> ap_security_level ` {q \<in> set (y # ys). policy_permits_principal q p}"
    using Cons by auto
  finally show ?case .
qed simp

lemma policies_narrower_map_ids:
  "policies_narrower p new old \<Longrightarrow> map ap_access_policy_id new = map ap_access_policy_id old"
  unfolding policies_narrower_def by (induction rule: list_all2_induct) simp_all

lemma policies_narrower_level:
  assumes "policies_narrower p new old" and "distinct (map ap_access_policy_id old)"
  shows "max_permitted_level p new \<le> max_permitted_level p old"
proof -
  have new: "distinct (map ap_access_policy_id new)"
    using assms policies_narrower_map_ids by metis
  show ?thesis
    unfolding max_permitted_level_eq [OF new] max_permitted_level_eq [OF assms(2)]
    using policies_narrower_levels [OF assms(1)] by (intro Max_mono) auto
qed

lemma policies_narrower_locations:
  assumes "policies_narrower p new old"
  shows "set (allowed_location_ids p new locs) \<subseteq> set (allowed_location_ids p old locs)"
  using policies_narrower_ids [OF assms]
  unfolding subset_iff mem_allowed_location_ids location_allowed_def by blast

lemma policies_narrower_cameras:
  assumes "policies_narrower p new old"
  shows "set (allowed_camera_ids p new locs cams) \<subseteq> set (allowed_camera_ids p old locs cams)"
  using policies_narrower_ids [OF assms] policies_narrower_locations [OF assms, of locs]
  unfolding subset_iff mem_allowed_camera_ids camera_allowed_def by blast

lemma permits_resource_mono:
  assumes "sc_tenant_id a = sc_tenant_id b"
    and "set (sc_allowed_camera_ids a) \<subseteq> set (sc_allowed_camera_ids b)"
    and "set (sc_allowed_location_ids a) \<subseteq> set (sc_allowed_location_ids b)"
    and "set (sc_allowed_access_policy_ids a) \<subseteq> set (sc_allowed_access_policy_ids b)"
    and "sc_max_security_level a \<le> sc_max_security_level b"
    and "permits_resource a t c l pid level"
  shows "permits_resource b t c l pid level"
  using assms by (auto simp: permits_resource_iff)

section \<open>The encoding behind the hash is injective\<close>

text \<open>
  A code in which no encoding runs into what follows it: reading stops in the same place
  and yields the same value. The escapes, the strings and the arrays are such codes, one
  built from the other, and the payload is a fixed frame around them.
\<close>

locale uniquely_decodable =
  fixes enc :: "'a \<Rightarrow> string"
  assumes decode: "enc x @ u = enc y @ v \<Longrightarrow> x = y \<and> u = v"
begin

lemma enc_inj: "enc x = enc y \<Longrightarrow> x = y"
  using decode [of x "[]" y "[]"] by simp

text \<open>A repetition of the code, closed by a character that no encoding starts with.\<close>

lemma decode_until:
  assumes start: "\<And>x. enc x \<noteq> [] \<and> hd (enc x) \<noteq> t"
    and eq: "concat (map enc xs) @ t # u = concat (map enc ys) @ t # v"
  shows "xs = ys \<and> u = v"
  using eq
proof (induction xs arbitrary: ys)
  case Nil
  show ?case
  proof (cases ys)
    case Nil
    with Nil.prems show ?thesis by simp
  next
    case (Cons y ys')
    with Nil.prems start [of y] show ?thesis by (cases "enc y") auto
  qed
next
  case (Cons x xs)
  show ?case
  proof (cases ys)
    case Nil
    with Cons.prems start [of x] show ?thesis by (cases "enc x") auto
  next
    case (Cons y ys')
    with Cons.prems have "enc x @ (concat (map enc xs) @ t # u) = enc y @ (concat (map enc ys') @ t # v)"
      by simp
    from decode [OF this] Cons.IH [of ys'] Cons show ?thesis by simp
  qed
qed

end

definition unhex :: "char \<Rightarrow> nat" where
  "unhex c = (if CHR ''a'' \<le> c then of_char c - 87 else of_char c - 48)"

lemma unhex_hex_digit: "n < 16 \<Longrightarrow> unhex (hex_digit n) = n"
proof -
  assume "n < 16"
  then have "n \<in> set [0..<16]" by simp
  then show ?thesis
    by (auto simp: upt_rec hex_digit_def unhex_def less_eq_char_def)
qed

definition json_unchar :: "string \<Rightarrow> char \<times> string" where
  "json_unchar s =
    (if hd s \<noteq> CHR 0x5C then (hd s, tl s)
     else if s ! 1 = CHR ''n'' then (CHR 0x0A, drop 2 s)
     else if s ! 1 = CHR ''r'' then (CHR 0x0D, drop 2 s)
     else if s ! 1 = CHR ''t'' then (CHR 0x09, drop 2 s)
     else if s ! 1 = CHR ''f'' then (CHR 0x0C, drop 2 s)
     else if s ! 1 = CHR ''b'' then (CHR 0x08, drop 2 s)
     else if s ! 1 = CHR ''u'' then (char_of (16 * unhex (s ! 4) + unhex (s ! 5)), drop 6 s)
     else (s ! 1, drop 2 s))"

lemma json_unchar_json_char: "json_unchar (json_char c @ u) = (c, u)"
proof -
  have "unhex (hex_digit (of_char c div 16)) = of_char c div 16"
    by (rule unhex_hex_digit) (simp add: less_mult_imp_div_less)
  moreover have "unhex (hex_digit (of_char c mod 16)) = of_char c mod 16"
    by (rule unhex_hex_digit) simp
  ultimately show ?thesis
    by (simp add: json_char_def json_unchar_def)
qed

interpretation json_char_code: uniquely_decodable json_char
proof
  fix x y u v assume "json_char x @ u = json_char y @ v"
  then have "json_unchar (json_char x @ u) = json_unchar (json_char y @ v)" by simp
  then show "x = y \<and> u = v" by (simp add: json_unchar_json_char)
qed

lemma json_char_start: "json_char c \<noteq> [] \<and> hd (json_char c) \<noteq> CHR 0x22"
  by (simp add: json_char_def)

interpretation json_string_code: uniquely_decodable json_string
proof
  fix x y u v assume "json_string x @ u = json_string y @ v"
  then have "concat (map json_char x) @ CHR 0x22 # u = concat (map json_char y) @ CHR 0x22 # v"
    by (simp add: json_string_def)
  then show "x = y \<and> u = v" by (rule json_char_code.decode_until [OF json_char_start])
qed

lemma json_items_Cons_start: "\<exists>u. json_items (s # ss) = CHR 0x22 # u"
  by (cases ss) (simp_all add: json_string_def)

lemma json_items_decode:
  "json_items xs @ CHR '']'' # u = json_items ys @ CHR '']'' # v \<Longrightarrow> xs = ys \<and> u = v"
proof (induction xs arbitrary: ys rule: json_items.induct)
  case 1
  show ?case
  proof (cases ys)
    case (Cons t ts)
    with 1 json_items_Cons_start [of t ts] show ?thesis by auto
  qed (use 1 in simp)
next
  case (2 s)
  then obtain t ys' where ys: "ys = t # ys'" by (cases ys) (auto simp: json_string_def)
  show ?case
  proof (cases ys')
    case Nil
    with 2 ys json_string_code.decode [of s "CHR '']'' # u" t "CHR '']'' # v"] show ?thesis by simp
  next
    case (Cons t' ts)
    with 2 ys json_string_code.decode [of s "CHR '']'' # u" t "CHR '','' # json_items (t' # ts) @ CHR '']'' # v"]
    show ?thesis by simp
  qed
next
  case (3 s s' ss)
  then obtain t ys' where ys: "ys = t # ys'" by (cases ys) (auto simp: json_string_def)
  show ?case
  proof (cases ys')
    case Nil
    with 3 ys json_string_code.decode [of s "CHR '','' # json_items (s' # ss) @ CHR '']'' # u" t
        "CHR '']'' # v"]
    show ?thesis by simp
  next
    case (Cons t' ts)
    with "3.prems" ys json_string_code.decode [of s "CHR '','' # json_items (s' # ss) @ CHR '']'' # u"
        t "CHR '','' # json_items (t' # ts) @ CHR '']'' # v"]
    have "s = t" and "json_items (s' # ss) @ CHR '']'' # u = json_items (t' # ts) @ CHR '']'' # v"
      by simp_all
    with "3.IH" [of ys'] ys Cons show ?thesis by simp
  qed
qed

interpretation json_array_code: uniquely_decodable json_array
proof
  fix x y u v assume "json_array x @ u = json_array y @ v"
  then show "x = y \<and> u = v" using json_items_decode [of x u y v] by (simp add: json_array_def)
qed

lemma json_field_array:
  "json_field k (json_array x) @ u = json_field k (json_array y) @ v \<Longrightarrow> x = y \<and> u = v"
  using json_array_code.decode [of x u y v] by (simp add: json_field_def)

lemma json_field_string:
  "json_field k (json_string x) @ u = json_field k (json_string y) @ v \<Longrightarrow> x = y \<and> u = v"
  using json_string_code.decode [of x u y v] by (simp add: json_field_def)

lemma json_field_last: "json_field k (json_string x) = json_field k (json_string y) \<Longrightarrow> x = y"
  by (simp add: json_field_def json_string_code.enc_inj)

lemma scope_payload_inj:
  assumes "scope_payload t p cams locs pols lv caps = scope_payload t' p' cams' locs' pols' lv' caps'"
  shows "t = t' \<and> p = p' \<and> sort cams = sort cams' \<and> sort locs = sort locs' \<and>
    sort pols = sort pols' \<and> lv = lv' \<and>
    sort (map capability_value caps) = sort (map capability_value caps')"
proof -
  have "sort pols = sort pols' \<and> sort cams = sort cams' \<and> sort locs = sort locs' \<and>
    sort (map capability_value caps) = sort (map capability_value caps') \<and>
    security_level_value lv = security_level_value lv' \<and> p = p' \<and> t = t'"
    using assms unfolding scope_payload_def
    by (auto dest!: json_field_array json_field_string json_field_last)
  then show ?thesis by (simp add: security_level_value_inj)
qed

lemma capability_value_inj: "inj capability_value"
proof (rule injI)
  fix a b assume "capability_value a = capability_value b"
  then show "a = b" by (cases a; cases b) simp_all
qed

lemma capability_sort_mset:
  assumes "sort (map capability_value a) = sort (map capability_value b)"
  shows "mset a = mset b"
proof -
  have "mset (map capability_value a) = mset (map capability_value b)"
    using assms by (metis mset_sort)
  then have "image_mset (inv capability_value) (image_mset capability_value (mset a)) =
      image_mset (inv capability_value) (image_mset capability_value (mset b))"
    by simp
  then show ?thesis
    by (simp add: multiset.map_comp inv_o_cancel [OF capability_value_inj])
qed

section \<open>Properties\<close>

text \<open>
  What it means to be granted a policy, and what a camera or a location is bound to, read off the stored rows.
\<close>

definition grants :: "access_policy \<Rightarrow> principal \<Rightarrow> bool" where
  "grants q p \<longleftrightarrow> pr_principal_id p \<notin> set (denied_principals (ap_rules q)) \<and>
    (pr_principal_id p \<in> set (allowed_principals (ap_rules q)) \<or>
     set (pr_roles p) \<inter> set (allowed_roles (ap_rules q)) \<noteq> {} \<or>
     set (pr_groups p) \<inter> set (allowed_groups (ap_rules q)) \<noteq> {})"

definition bound_to_grant :: "principal \<Rightarrow> access_policy list \<Rightarrow> string option \<Rightarrow> bool" where
  "bound_to_grant p pols x \<longleftrightarrow> (\<exists>q \<in> set pols. grants q p \<and> ap_access_policy_id q \<noteq> [] \<and> x = Some (ap_access_policy_id q))"

lemma policy_permits_grants: "policy_permits_principal q p \<longleftrightarrow> grants q p"
  by (simp add: policy_permits_principal_iff grants_def)

lemma bound_to_grant_iff:
  "bound_to_grant p pols x \<longleftrightarrow> truthy x \<and> the x \<in> set (permitted_policy_ids p pols)"
  by (cases x) (auto simp: bound_to_grant_def truthy_def set_permitted_policy_ids policy_permits_grants)

lemma location_allowed_iff:
  "location_allowed p pols loc \<longleftrightarrow> loc_tenant_id loc = pr_tenant_id p \<and> bound_to_grant p pols (loc_access_policy_id loc)"
  by (auto simp: location_allowed_def bound_to_grant_iff)

lemma camera_allowed_iff:
  "camera_allowed p pols locs cam \<longleftrightarrow> cam_tenant_id cam = pr_tenant_id p \<and>
    (bound_to_grant p pols (cam_access_policy_id cam) \<or>
     (\<exists>loc \<in> set locs. loc_location_id loc = cam_location_id cam \<and> loc_tenant_id loc = pr_tenant_id p \<and>
        bound_to_grant p pols (loc_access_policy_id loc)))"
  by (auto simp: camera_allowed_def bound_to_grant_iff mem_allowed_location_ids location_allowed_iff)

text \<open>
  C1. A computed scope permits a resource exactly when all of this holds. The resource is in the principal's
  tenant. Its policy grants the principal: it does not deny him, and it allows him by name, by a role or by a
  group. Its location is one of the principal's tenant that is bound to a granting policy. Its camera is one of
  that tenant that is bound to a granting policy or stands at such a location. Its level is \<^const>\<open>PUBLIC\<close>
  or at most the level of some granting policy. The tenant of a policy itself plays no part.
\<close>

theorem scope_permits_exactly:
  assumes "distinct (map ap_access_policy_id pols)"
  shows "permits_resource (compute_authorized_scope h p pols locs cams) t c l a lv \<longleftrightarrow>
    t = pr_tenant_id p \<and>
    (\<exists>q \<in> set pols. ap_access_policy_id q = a \<and> grants q p) \<and>
    (\<exists>loc \<in> set locs. loc_location_id loc = l \<and> loc_tenant_id loc = pr_tenant_id p \<and>
       bound_to_grant p pols (loc_access_policy_id loc)) \<and>
    (\<exists>cam \<in> set cams. cam_camera_id cam = c \<and> cam_tenant_id cam = pr_tenant_id p \<and>
       (bound_to_grant p pols (cam_access_policy_id cam) \<or>
        (\<exists>loc \<in> set locs. loc_location_id loc = cam_location_id cam \<and> loc_tenant_id loc = pr_tenant_id p \<and>
           bound_to_grant p pols (loc_access_policy_id loc)))) \<and>
    (lv = PUBLIC \<or> (\<exists>q \<in> set pols. grants q p \<and> lv \<le> ap_security_level q))"
proof -
  have "lv \<le> max_permitted_level p pols \<longleftrightarrow>
      lv = PUBLIC \<or> (\<exists>q \<in> set pols. grants q p \<and> lv \<le> ap_security_level q)"
    unfolding max_permitted_level_eq [OF assms]
    by (subst Max_ge_iff) (auto simp: policy_permits_grants intro: antisym)
  moreover have "a \<in> set (permitted_policy_ids p pols) \<longleftrightarrow> (\<exists>q \<in> set pols. ap_access_policy_id q = a \<and> grants q p)"
    by (auto simp: set_permitted_policy_ids policy_permits_grants)
  ultimately show ?thesis
    unfolding permits_resource_iff scope_fields mem_allowed_location_ids mem_allowed_camera_ids
      camera_allowed_iff location_allowed_iff
    by (simp only: conj_ac)
qed

definition ex_viewer :: principal where
  "ex_viewer = \<lparr>pr_principal_id = ''u1'', pr_principal_type = USER, pr_tenant_id = ''tenant_a'',
     pr_external_subject_id = None, pr_display_name = ''U'', pr_status = ''active'',
     pr_roles = [''viewer''], pr_groups = []\<rparr>"

definition ex_policy :: "string \<Rightarrow> string \<Rightarrow> security_level \<Rightarrow> string list \<Rightarrow> access_policy" where
  "ex_policy pid tenant level denied = \<lparr>ap_access_policy_id = pid, ap_tenant_id = tenant, ap_name = pid,
     ap_security_level = level,
     ap_rules = \<lparr>allowed_roles = [''viewer''], allowed_groups = [], allowed_principals = [],
       denied_principals = denied\<rparr>\<rparr>"

definition ex_location :: camera_location where
  "ex_location = \<lparr>loc_location_id = ''l1'', loc_tenant_id = ''tenant_a'', loc_area = ''gate'',
     loc_location_desc = None, loc_access_policy_id = Some ''p1'', loc_security_level = INTERNAL\<rparr>"

definition ex_camera :: camera_device where
  "ex_camera = \<lparr>cam_camera_id = ''c1'', cam_tenant_id = ''tenant_a'', cam_camera_name = ''C'',
     cam_location_id = ''l1'', cam_access_policy_id = None, cam_status = ''active''\<rparr>"

lemmas ex_authz_defs = ex_viewer_def ex_policy_def ex_location_def ex_camera_def

theorem scope_permits_exactly_witness:
  "permits_resource (compute_authorized_scope (\<lambda>x. x) ex_viewer
     [ex_policy ''p1'' ''tenant_a'' CONFIDENTIAL []] [ex_location] [ex_camera])
     ''tenant_a'' ''c1'' ''l1'' ''p1'' INTERNAL"
  by (subst scope_permits_exactly)
    (simp_all add: ex_authz_defs grants_def bound_to_grant_def less_eq_security_level_def)

text \<open>
  C2. Revocation is monotone, for every principal: after principals have been denied and principals, roles or
  groups removed from the allow lists of policies (same ids and levels), every resource that a scope computed
  anew permits was permitted by the scope computed before. So denying a principal or removing a role never opens
  a resource, whatever the locations and cameras.
\<close>

theorem revocation_shrinks_scope:
  assumes "policies_revoked new old" and "distinct (map ap_access_policy_id old)"
    and "permits_resource (compute_authorized_scope h p new locs cams) t c l a lv"
  shows "permits_resource (compute_authorized_scope h p old locs cams) t c l a lv"
proof -
  note n = revoked_narrower [OF assms(1), of p]
  show ?thesis
    by (rule permits_resource_mono [OF _ _ _ _ _ assms(3)])
      (simp_all add: policies_narrower_cameras [OF n] policies_narrower_locations [OF n]
        policies_narrower_ids [OF n] policies_narrower_level [OF n assms(2)])
qed

theorem revocation_shrinks_scope_witness:
  "permits_resource (compute_authorized_scope (\<lambda>x. x) ex_viewer
     [ex_policy ''p1'' ''tenant_a'' CONFIDENTIAL [], ex_policy ''p2'' ''tenant_a'' RESTRICTED []]
     [ex_location] [ex_camera]) ''tenant_a'' ''c1'' ''l1'' ''p1'' PUBLIC"
proof (rule revocation_shrinks_scope)
  let ?new = "[ex_policy ''p1'' ''tenant_a'' CONFIDENTIAL [], ex_policy ''p2'' ''tenant_a'' RESTRICTED [''u1'']]"
  show "policies_revoked ?new
      [ex_policy ''p1'' ''tenant_a'' CONFIDENTIAL [], ex_policy ''p2'' ''tenant_a'' RESTRICTED []]"
    by (simp add: policies_revoked_def rules_revoked_def ex_authz_defs)
  show "permits_resource (compute_authorized_scope (\<lambda>x. x) ex_viewer ?new [ex_location] [ex_camera])
      ''tenant_a'' ''c1'' ''l1'' ''p1'' PUBLIC"
    unfolding permits_resource_iff
    by (simp add: ex_authz_defs policy_permits_principal_def location_allowed_def camera_allowed_def
        mem_allowed_location_ids mem_allowed_camera_ids permitted_policy_ids_def truthy_def)
qed (simp add: ex_authz_defs)

text \<open>
  C3. The SQL predicate that the read adapter puts into every query selects exactly the
  rows for which the contract's \<^verbatim>\<open>permits_resource\<close> holds.
\<close>

theorem sql_filter_is_permits_resource:
  "authorized_observation_filter sc
     \<lparr>rr_tenant_id = t, rr_camera_id = c, rr_location_id = l, rr_access_policy_id = a,
      rr_security_level = security_level_value lv\<rparr> = permits_resource sc t c l a lv"
  by (subst authorized_observation_filter_iff) simp_all

text \<open>
  Two scopes with one hash are the same scope, unless the truncated digest collides on
  their two encodings: tenant, principal, level, the sorted id lists and the capabilities
  agree, so a SearchContext bound to a hash is bound to all of them.
\<close>

theorem scope_hash_binds_scope:
  assumes "compute_scope_hash h t p cams locs pols lv caps =
      compute_scope_hash h t' p' cams' locs' pols' lv' caps'"
    and "inj_on (\<lambda>x. take 32 (h x))
      {scope_payload t p cams locs pols lv caps, scope_payload t' p' cams' locs' pols' lv' caps'}"
  shows "t = t' \<and> p = p' \<and> mset cams = mset cams' \<and> mset locs = mset locs' \<and>
    mset pols = mset pols' \<and> lv = lv' \<and> mset caps = mset caps'"
proof -
  have "scope_payload t p cams locs pols lv caps = scope_payload t' p' cams' locs' pols' lv' caps'"
    using assms unfolding compute_scope_hash_def by (auto dest: inj_onD)
  from scope_payload_inj [OF this] show ?thesis
    by (metis mset_sort capability_sort_mset)
qed

theorem scope_hash_binds_scope_witness:
  "compute_scope_hash (\<lambda>x. x) ''t'' ''p'' [''c2'', ''c1''] [] [] PUBLIC [VIDEO_PLAYBACK] =
   compute_scope_hash (\<lambda>x. x) ''t'' ''p'' [''c1'', ''c2''] [] [] PUBLIC [VIDEO_PLAYBACK] \<and>
   mset [''c2'', ''c1''] = mset [''c1'', ''c2'']"
proof -
  have s: "sort [''c2'', ''c1''] = sort [''c1'', ''c2'']" by simp
  have eq: "scope_payload ''t'' ''p'' [''c2'', ''c1''] [] [] PUBLIC [VIDEO_PLAYBACK] =
      scope_payload ''t'' ''p'' [''c1'', ''c2''] [] [] PUBLIC [VIDEO_PLAYBACK]"
    unfolding scope_payload_def s ..
  then have h: "compute_scope_hash (\<lambda>x. x) ''t'' ''p'' [''c2'', ''c1''] [] [] PUBLIC [VIDEO_PLAYBACK] =
      compute_scope_hash (\<lambda>x. x) ''t'' ''p'' [''c1'', ''c2''] [] [] PUBLIC [VIDEO_PLAYBACK]"
    unfolding compute_scope_hash_def by simp
  show ?thesis using scope_hash_binds_scope [OF h] h eq by simp
qed

text \<open>
  The computation does not look at the tenant of a policy: a policy of another tenant
  whose role list matches is counted, so it can raise the level of a principal's scope
  and enter its policy ids.
\<close>

theorem foreign_tenant_policy_counts:
  "\<exists>p q. ap_tenant_id q \<noteq> pr_tenant_id p \<and>
    sc_max_security_level (compute_authorized_scope h p [q] [] []) = RESTRICTED \<and>
    sc_allowed_access_policy_ids (compute_authorized_scope h p [q] [] []) = [ap_access_policy_id q]"
proof (intro exI conjI)
  let ?q = "ex_policy ''pb'' ''tenant_b'' RESTRICTED []"
  show "ap_tenant_id ?q \<noteq> pr_tenant_id ex_viewer" by (simp add: ex_authz_defs)
  have permit: "policy_permits_principal ?q ex_viewer"
    by (simp add: policy_permits_principal_def ex_authz_defs)
  show "sc_max_security_level (compute_authorized_scope h ex_viewer [?q] [] []) = RESTRICTED"
    by (simp add: max_permitted_level_def permitted_policy_ids_def permit policy_by_id_def)
      (simp add: ex_policy_def stricter_def)
  show "sc_allowed_access_policy_ids (compute_authorized_scope h ex_viewer [?q] [] []) =
      [ap_access_policy_id ?q]"
    by (simp add: compute_authorized_scope_def permitted_policy_ids_def permit Let_def)
qed

end
