(* ===== verification/Cctv_Float.thy ===== *)
theory Cctv_Float
  imports Cctv_Prelude
begin

text \<open>
  Python floats. A float operation is the exact operation followed by rounding to the
  nearest binary64 number, ties to even. Definitions that use floats take the rounding
  \<open>fl\<close> as an argument and apply it after every operation, as the interpreter does; the
  laws the proofs need of it form the locale \<open>rounding\<close>, and \<open>fl64\<close>, the rounding to 53
  significant bits, satisfies them. Overflow, subnormals, infinities and NaN are outside
  the model: the program's scores, ratios and delays stay far from them.
\<close>

section \<open>The laws of rounding\<close>

definition max_exact :: int where
  "max_exact = 2 ^ 53"

locale rounding =
  fixes fl :: "real \<Rightarrow> real"
  assumes fl_mono: "x \<le> y \<Longrightarrow> fl x \<le> fl y"
    and fl_int: "\<bar>n\<bar> \<le> max_exact \<Longrightarrow> fl (of_int n) = of_int n"
begin

lemma fl_0: "fl 0 = 0"
  using fl_int [of 0] by (simp add: max_exact_def)

lemma fl_1: "fl 1 = 1"
  using fl_int [of 1] by (simp add: max_exact_def)

lemma fl_nonneg: "0 \<le> x \<Longrightarrow> 0 \<le> fl x"
  using fl_mono [of 0 x] by (simp add: fl_0)

lemma fl_le_1: "x \<le> 1 \<Longrightarrow> fl x \<le> 1"
  using fl_mono [of x 1] by (simp add: fl_1)

lemma fl_le_int: "\<bar>n\<bar> \<le> max_exact \<Longrightarrow> x \<le> of_int n \<Longrightarrow> fl x \<le> of_int n"
  using fl_mono [of x "of_int n"] fl_int by simp

lemma fl_ge_int: "\<bar>n\<bar> \<le> max_exact \<Longrightarrow> of_int n \<le> x \<Longrightarrow> of_int n \<le> fl x"
  using fl_mono [of "of_int n" x] fl_int by simp

end

text \<open>Exact arithmetic is the rounding that does nothing; it evaluates the definitions on small inputs.\<close>

interpretation exact: rounding "\<lambda>x. x"
  by unfold_locales simp_all

section \<open>Rounding to the nearest integer, ties to even\<close>

definition rne :: "real \<Rightarrow> int" where
  "rne x = (let f = \<lfloor>x\<rfloor>; d = x - of_int f in
     if d < 1/2 \<or> (d = 1/2 \<and> even f) then f else f + 1)"

lemma rne_int [simp]: "rne (of_int n) = n"
  by (simp add: rne_def)

lemma rne_floor: "\<lfloor>x\<rfloor> \<le> rne x \<and> rne x \<le> \<lfloor>x\<rfloor> + 1"
  by (simp add: rne_def Let_def)

lemma rne_mono:
  assumes "x \<le> y"
  shows "rne x \<le> rne y"
proof (cases "\<lfloor>x\<rfloor> = \<lfloor>y\<rfloor>")
  case True
  with assms show ?thesis by (auto simp: rne_def Let_def)
next
  case False
  with assms have "\<lfloor>x\<rfloor> + 1 \<le> \<lfloor>y\<rfloor>" using floor_mono [OF assms] by linarith
  then show ?thesis using rne_floor [of x] rne_floor [of y] by linarith
qed

lemma rne_le_int: "x \<le> of_int n \<Longrightarrow> rne x \<le> n"
  using rne_mono [of x "of_int n"] by simp

lemma rne_ge_int: "of_int n \<le> x \<Longrightarrow> n \<le> rne x"
  using rne_mono [of "of_int n" x] by simp

section \<open>Rounding to 53 significant bits\<close>

definition binade :: "real \<Rightarrow> int" where
  "binade x = \<lfloor>log 2 x\<rfloor>"

definition round_pos :: "real \<Rightarrow> real" where
  "round_pos x = of_int (rne (x / 2 powi (binade x - 52))) * 2 powi (binade x - 52)"

definition fl64 :: "real \<Rightarrow> real" where
  "fl64 x = (if x = 0 then 0 else if 0 < x then round_pos x else - round_pos (- x))"

lemma powr_int_eq: "(2::real) powr (of_int n) = 2 powi n"
  using powr_real_of_int' [of 2 n] by simp

lemma binade_bounds:
  assumes "0 < x"
  shows "2 powi (binade x) \<le> x" and "x < 2 powi (binade x + 1)"
proof -
  have "of_int (binade x) \<le> log 2 x" and "log 2 x < of_int (binade x + 1)"
    unfolding binade_def by linarith+
  then have "2 powr (of_int (binade x)) \<le> x" and "x < 2 powr (of_int (binade x + 1))"
    using assms by (simp_all add: le_log_iff log_less_iff)
  then show "2 powi (binade x) \<le> x" and "x < 2 powi (binade x + 1)"
    by (simp_all only: powr_int_eq)
qed

lemma powi_add52: "(2::real) powi n = 2 ^ 52 * 2 powi (n - 52)"
  by (simp add: power_int_diff)

lemma round_pos_lower:
  assumes "0 < x"
  shows "2 powi (binade x) \<le> round_pos x"
proof -
  let ?u = "2 powi (binade x - 52) :: real"
  have "of_int (2 ^ 52) \<le> x / ?u"
    using binade_bounds(1) [OF assms] by (simp add: powi_add52 [of "binade x"] pos_le_divide_eq)
  then have "2 ^ 52 \<le> rne (x / ?u)" by (rule rne_ge_int)
  then have "(2 ^ 52 :: real) \<le> of_int (rne (x / ?u))"
    by (metis of_int_le_iff of_int_numeral of_int_power)
  then show ?thesis
    by (simp add: round_pos_def powi_add52 [of "binade x"])
qed

lemma round_pos_upper:
  assumes "0 < x"
  shows "round_pos x \<le> 2 powi (binade x + 1)"
proof -
  let ?u = "2 powi (binade x - 52) :: real"
  have eq: "2 powi (binade x + 1) = 2 ^ 53 * ?u"
    using powi_add52 [of "binade x"] by (simp add: power_int_add)
  have "x / ?u \<le> of_int (2 ^ 53)"
    using binade_bounds(2) [OF assms] by (simp add: eq pos_divide_le_eq)
  then have "rne (x / ?u) \<le> 2 ^ 53" by (rule rne_le_int)
  then have "of_int (rne (x / ?u)) \<le> (2 ^ 53 :: real)"
    by (metis of_int_le_iff of_int_numeral of_int_power)
  then show ?thesis by (simp add: round_pos_def eq)
qed

lemma binade_mono: "0 < x \<Longrightarrow> x \<le> y \<Longrightarrow> binade x \<le> binade y"
  unfolding binade_def by (intro floor_mono) (simp add: log_le_cancel_iff)

lemma round_pos_mono:
  assumes "0 < x" and "x \<le> y"
  shows "round_pos x \<le> round_pos y"
proof (cases "binade x = binade y")
  case True
  have "rne (x / 2 powi (binade x - 52)) \<le> rne (y / 2 powi (binade x - 52))"
    using assms by (intro rne_mono divide_right_mono) simp_all
  then show ?thesis by (simp add: round_pos_def True)
next
  case False
  then have "binade x + 1 \<le> binade y" using binade_mono [OF assms] by simp
  then have "(2::real) powi (binade x + 1) \<le> 2 powi (binade y)"
    by (intro power_int_increasing) simp_all
  then show ?thesis
    using round_pos_upper [OF assms(1)] round_pos_lower [of y] assms by linarith
qed

lemma round_pos_nonneg: "0 < x \<Longrightarrow> 0 \<le> round_pos x"
  using round_pos_lower [of x] by (meson order_trans zero_le_numeral zero_le_power_int)

lemma fl64_mono: "x \<le> y \<Longrightarrow> fl64 x \<le> fl64 y"
  using round_pos_mono [of x y] round_pos_mono [of "- y" "- x"] round_pos_nonneg [of y]
    round_pos_nonneg [of "- x"]
  by (auto simp: fl64_def)

text \<open>A multiple of a power of two with at most 53 bits is left alone.\<close>

lemma round_pos_exact:
  assumes "0 < x" and "x / 2 powi (binade x - 52) = of_int m"
  shows "round_pos x = x"
proof -
  have "round_pos x = of_int m * 2 powi (binade x - 52)"
    unfolding round_pos_def assms(2) by simp
  also have "\<dots> = x" unfolding assms(2) [symmetric] by simp
  finally show ?thesis .
qed

lemma round_pos_int:
  assumes "0 < n" and "n \<le> max_exact"
  shows "round_pos (of_int n) = of_int n"
proof (cases "n = max_exact")
  case True
  have "binade (of_int n) = 53"
    unfolding binade_def True max_exact_def by (simp only: of_int_power of_int_numeral log_nat_power) simp
  then have "of_int n / 2 powi (binade (of_int n) - 52) = (of_int (2 ^ 52) :: real)"
    by (simp add: True max_exact_def)
  then show ?thesis using assms(1) by (intro round_pos_exact) simp_all
next
  case False
  with assms have "of_int n < (2::real) ^ 53" by (simp add: max_exact_def)
  moreover have "2 powi (binade (of_int n)) \<le> (of_int n :: real)"
    using assms(1) binade_bounds(1) by simp
  ultimately have lt: "(2::real) powi (binade (of_int n)) < 2 powi 53" by simp
  have le: "binade (of_int n) \<le> 52"
  proof (rule ccontr)
    assume "\<not> binade (of_int n) \<le> 52"
    then have "(2::real) powi 53 \<le> 2 powi (binade (of_int n))"
      by (intro power_int_increasing) auto
    with lt show False by simp
  qed
  then have eq: "(of_int n :: real) / 2 powi (binade (of_int n) - 52) =
      of_int (n * 2 ^ nat (52 - binade (of_int n)))"
    by (simp add: power_int_def field_simps)
  show ?thesis by (rule round_pos_exact [OF _ eq]) (use assms(1) in simp)
qed

lemma fl64_int: "\<bar>n\<bar> \<le> max_exact \<Longrightarrow> fl64 (of_int n) = of_int n"
  using round_pos_int [of n] round_pos_int [of "- n"]
  by (auto simp: fl64_def)

interpretation ieee: rounding fl64
  by unfold_locales (simp_all add: fl64_mono fl64_int)

section \<open>Conversions\<close>

text \<open>\<^verbatim>\<open>int(x)\<close> truncates towards zero; \<^verbatim>\<open>round(x, n)\<close> rounds the decimal to even.\<close>

definition py_int :: "real \<Rightarrow> int" where
  "py_int x = (if 0 \<le> x then \<lfloor>x\<rfloor> else \<lceil>x\<rceil>)"

definition py_round :: "(real \<Rightarrow> real) \<Rightarrow> nat \<Rightarrow> real \<Rightarrow> real" where
  "py_round fl n x = fl (of_int (rne (x * 10 ^ n)) / 10 ^ n)"

lemma py_int_of_int [simp]: "py_int (of_int n) = n"
  by (simp add: py_int_def)

lemma py_int_mono: "x \<le> y \<Longrightarrow> py_int x \<le> py_int y"
proof (cases "x < 0 \<and> 0 \<le> y")
  case True
  then have "\<lceil>x\<rceil> \<le> 0" and "0 \<le> \<lfloor>y\<rfloor>" by (simp_all add: ceiling_le_zero)
  then have "\<lceil>x\<rceil> \<le> \<lfloor>y\<rfloor>" by (rule order_trans)
  with True show ?thesis by (simp add: py_int_def)
qed (auto simp: py_int_def floor_mono ceiling_mono)

lemma py_int_nonneg: "0 \<le> x \<Longrightarrow> 0 \<le> py_int x"
  by (simp add: py_int_def)

lemma py_int_le: "0 \<le> x \<Longrightarrow> x \<le> of_int n \<Longrightarrow> py_int x \<le> n"
  by (simp add: py_int_def floor_le_iff le_less_trans)

end
