(* ===== verification/Cctv_Windows.thy ===== *)
theory Cctv_Windows
  imports Cctv_Domain Cctv_Float
begin

text \<open>
  The planning policies of \<^verbatim>\<open>domain/policies/__init__.py\<close>: fixed default segments, motion
  sampling, motion triggers and high-frequency windows. Times are Python integers in
  milliseconds from the start of the video. The two window loops share one contract, the
  locale \<open>sliding\<close>, from which bounds, coverage, overlap and the number of windows follow.
\<close>

section \<open>Data\<close>

record segment_window =
  sw_start_ms :: int
  sw_end_ms :: int

record motion_sample =
  ms_timestamp_ms :: int
  ms_score :: real

record trigger_window =
  tw_start_ms :: int
  tw_end_ms :: int
  tw_peak_score :: real
  tw_reason :: string

section \<open>Default segments\<close>

text \<open>
  The loop of \<^verbatim>\<open>plan_default_segments\<close>. It is entered with a positive step only; the test
  in the guard makes the recursion well-founded for every argument.
\<close>

function default_segment_loop :: "int \<Rightarrow> int \<Rightarrow> int \<Rightarrow> int \<Rightarrow> segment_window list" where
  "default_segment_loop duration_ms window_ms step start =
    (if start < duration_ms \<and> 0 < step then
       let e = min (start + window_ms) duration_ms in
       \<lparr>sw_start_ms = start, sw_end_ms = e\<rparr> #
       (if e \<ge> duration_ms then []
        else default_segment_loop duration_ms window_ms step (start + step))
     else [])"
  by pat_completeness auto
termination
  by (relation "measure (\<lambda>(d, w, s, start). nat (d - start))") auto

declare default_segment_loop.simps [simp del]

definition plan_default_segments :: "int \<Rightarrow> int \<Rightarrow> int \<Rightarrow> exn + segment_window list" where
  "plan_default_segments duration_ms window_seconds overlap_seconds =
    (if duration_ms \<le> 0 then Inr []
     else let window_ms = window_seconds * 1000; overlap_ms = overlap_seconds * 1000 in
     if window_ms \<le> 0 then Inl (ValueError ''window_seconds must be positive'')
     else let step = window_ms - overlap_ms in
     if step \<le> 0 then Inl (ValueError ''overlap_seconds must be smaller than window_seconds'')
     else Inr (default_segment_loop duration_ms window_ms step 0))"

section \<open>Motion sampling and triggers\<close>

text \<open>\<^verbatim>\<open>list(range(0, duration_ms, sample_interval_ms))\<close>\<close>

definition plan_motion_sample_timestamps :: "int \<Rightarrow> int \<Rightarrow> exn + int list" where
  "plan_motion_sample_timestamps duration_ms sample_interval_ms =
    (if duration_ms \<le> 0 then Inr []
     else if sample_interval_ms \<le> 0 then Inl (ValueError ''sample_interval_ms must be positive'')
     else Inr (map (\<lambda>i. int i * sample_interval_ms)
       [0..<nat ((duration_ms + sample_interval_ms - 1) div sample_interval_ms)]))"

definition median_step :: "int list \<Rightarrow> int" where
  "median_step timestamps =
    (if length timestamps < 2 then 1
     else let diffs = sort (map (\<lambda>i. timestamps ! (i + 1) - timestamps ! i) [0..<length timestamps - 1])
          in max 1 (diffs ! (length diffs div 2)))"

definition sample_end :: "motion_sample list \<Rightarrow> int \<Rightarrow> nat \<Rightarrow> int" where
  "sample_end ordered step index =
    (if index + 1 < length ordered then ms_timestamp_ms (ordered ! (index + 1))
     else ms_timestamp_ms (ordered ! index) + step)"

text \<open>
  The scan for runs: \<open>i\<close> is the index of the next sample, \<open>run\<close> the open run with its
  start and its peak so far.
\<close>

fun raw_runs ::
  "(nat \<Rightarrow> int) \<Rightarrow> real \<Rightarrow> nat \<Rightarrow> (int \<times> real) option \<Rightarrow> motion_sample list \<Rightarrow> (int \<times> int \<times> real) list" where
  "raw_runs ends threshold i None [] = []"
| "raw_runs ends threshold i (Some (st, pk)) [] = [(st, ends (i - 1), pk)]"
| "raw_runs ends threshold i run (s # ss) =
    (if ms_score s \<ge> threshold then
       (case run of
          None \<Rightarrow> raw_runs ends threshold (i + 1) (Some (ms_timestamp_ms s, ms_score s)) ss
        | Some (st, pk) \<Rightarrow> raw_runs ends threshold (i + 1) (Some (st, max pk (ms_score s))) ss)
     else
       (case run of
          None \<Rightarrow> raw_runs ends threshold (i + 1) None ss
        | Some (st, pk) \<Rightarrow> (st, ends (i - 1), pk) # raw_runs ends threshold (i + 1) None ss))"

text \<open>
  Merging compares a run with the last merged one, whose bounds are kept as floats: \<^verbatim>\<open>float()\<close> rounds a bound when
  it is stored and \<^verbatim>\<open>int()\<close> truncates it when it is read.
\<close>

fun merge_from ::
  "(real \<Rightarrow> real) \<Rightarrow> int \<Rightarrow> real \<times> real \<times> real \<Rightarrow> (int \<times> int \<times> real) list \<Rightarrow> (real \<times> real \<times> real) list" where
  "merge_from fl gap (s1, e1, p1) [] = [(s1, e1, p1)]"
| "merge_from fl gap (s1, e1, p1) ((s2, e2, p2) # rs) =
    (if s2 - py_int e1 \<le> gap
     then merge_from fl gap (s1, fl (of_int (max (py_int e1) e2)), max p1 p2) rs
     else (s1, e1, p1) # merge_from fl gap (fl (of_int s2), fl (of_int e2), p2) rs)"

fun merge_runs :: "(real \<Rightarrow> real) \<Rightarrow> int \<Rightarrow> (int \<times> int \<times> real) list \<Rightarrow> (real \<times> real \<times> real) list" where
  "merge_runs fl gap [] = []"
| "merge_runs fl gap ((s, e, p) # rs) = merge_from fl gap (fl (of_int s), fl (of_int e), p) rs"

definition clamp_run :: "int \<Rightarrow> int option \<Rightarrow> string \<Rightarrow> real \<times> real \<times> real \<Rightarrow> trigger_window option" where
  "clamp_run min_duration_ms duration_ms reason r =
    (case r of (start_ms_f, end_ms_f, peak) \<Rightarrow>
      let start_ms = py_int start_ms_f; end0 = py_int end_ms_f;
          end1 = (if end0 - start_ms < min_duration_ms then start_ms + min_duration_ms else end0) in
      case duration_ms of
        None \<Rightarrow> Some \<lparr>tw_start_ms = start_ms, tw_end_ms = end1, tw_peak_score = peak, tw_reason = reason\<rparr>
      | Some d \<Rightarrow>
          if start_ms \<ge> d then None
          else let end2 = min end1 d in
          if end2 \<le> start_ms then None
          else Some \<lparr>tw_start_ms = start_ms, tw_end_ms = end2, tw_peak_score = peak, tw_reason = reason\<rparr>)"

definition plan_motion_triggers ::
  "(real \<Rightarrow> real) \<Rightarrow> motion_sample list \<Rightarrow> real \<Rightarrow> int \<Rightarrow> int \<Rightarrow> string \<Rightarrow> int option \<Rightarrow> trigger_window list" where
  "plan_motion_triggers fl samples threshold min_duration_ms merge_gap_ms reason duration_ms =
    (if samples = [] then []
     else let ordered = sort_key ms_timestamp_ms samples;
              step = median_step (map ms_timestamp_ms ordered);
              raw = raw_runs (sample_end ordered step) threshold 0 None ordered
          in List.map_filter (clamp_run min_duration_ms duration_ms reason) (merge_runs fl merge_gap_ms raw))"

section \<open>High-frequency windows\<close>

function high_freq_loop :: "int \<Rightarrow> int \<Rightarrow> int \<Rightarrow> int \<Rightarrow> int \<Rightarrow> segment_window list" where
  "high_freq_loop min_window_ms end_bound window_ms step start =
    (if start < end_bound \<and> 0 < step then
       let e = min (start + window_ms) end_bound;
           rest = (if e \<ge> end_bound then []
                   else high_freq_loop min_window_ms end_bound window_ms step (start + step))
       in if e - start \<ge> min_window_ms then \<lparr>sw_start_ms = start, sw_end_ms = e\<rparr> # rest else rest
     else [])"
  by pat_completeness auto
termination
  by (relation "measure (\<lambda>(m, d, w, s, start). nat (d - start))") auto

declare high_freq_loop.simps [simp del]

definition high_freq_step :: "(real \<Rightarrow> real) \<Rightarrow> int \<Rightarrow> real \<Rightarrow> int" where
  "high_freq_step fl window_ms overlap_ratio =
    max 1 (py_int (fl (fl (of_int window_ms) * fl (1 - overlap_ratio))))"

definition plan_high_freq_windows ::
  "(real \<Rightarrow> real) \<Rightarrow> int \<Rightarrow> int \<Rightarrow> int \<Rightarrow> real \<Rightarrow> int option \<Rightarrow> int \<Rightarrow> exn + segment_window list" where
  "plan_high_freq_windows fl trigger_start_ms trigger_end_ms window_seconds overlap_ratio
     duration_ms min_window_ms =
    (let start_bound = trigger_start_ms;
         end_bound = (case duration_ms of None \<Rightarrow> trigger_end_ms | Some d \<Rightarrow> min trigger_end_ms d)
     in if (case duration_ms of None \<Rightarrow> False | Some d \<Rightarrow> start_bound \<ge> d) then Inr []
     else if end_bound \<le> start_bound then Inr []
     else let window_ms = window_seconds * 1000 in
     if window_ms \<le> 0 then Inl (ValueError ''window_seconds must be positive'')
     else if \<not> (0 \<le> overlap_ratio \<and> overlap_ratio < 1)
     then Inl (ValueError ''overlap_ratio must be in [0, 1)'')
     else let span = end_bound - start_bound in
     if window_ms \<ge> span then
       (if span < min_window_ms then Inr []
        else Inr [\<lparr>sw_start_ms = start_bound, sw_end_ms = end_bound\<rparr>])
     else Inr (high_freq_loop min_window_ms end_bound window_ms
                (high_freq_step fl window_ms overlap_ratio) start_bound))"

section \<open>The contract of the window loops\<close>

text \<open>
  One turn emits the window at the current start and stops once a window reaches the end.
  Everything else about sliding windows follows from this.
\<close>

locale sliding =
  fixes plan :: "int \<Rightarrow> int \<Rightarrow> int \<Rightarrow> int \<Rightarrow> segment_window list"
  assumes plan_turn: "lo < hi \<Longrightarrow> 0 < step \<Longrightarrow> 0 < w \<Longrightarrow>
      plan hi w step lo = \<lparr>sw_start_ms = lo, sw_end_ms = min (lo + w) hi\<rparr> #
        (if lo + w \<ge> hi then [] else plan hi w step (lo + step))"
    and plan_done: "hi \<le> lo \<Longrightarrow> plan hi w step lo = []"
begin

lemma plan_bounds:
  assumes "0 < step" and "0 < w" and "s \<in> set (plan hi w step lo)"
  shows "lo \<le> sw_start_ms s \<and> sw_start_ms s < sw_end_ms s \<and> sw_end_ms s = min (sw_start_ms s + w) hi"
  using assms(3)
proof (induction "nat (hi - lo)" arbitrary: lo rule: less_induct)
  case less
  show ?case
  proof (cases "lo < hi")
    case True
    have "s \<in> set (plan hi w step (lo + step)) \<Longrightarrow> ?thesis"
      using less.hyps [of "lo + step"] assms(1) True by force
    with less.prems True assms show ?thesis
      by (auto simp: plan_turn split: if_splits)
  qed (use less.prems in \<open>simp add: plan_done\<close>)
qed

lemma plan_covers:
  assumes "0 < step" and "step \<le> w" and "lo \<le> t" and "t < hi"
  shows "\<exists>s \<in> set (plan hi w step lo). sw_start_ms s \<le> t \<and> t < sw_end_ms s"
  using assms(3,4)
proof (induction "nat (hi - lo)" arbitrary: lo rule: less_induct)
  case less
  have turn: "plan hi w step lo = \<lparr>sw_start_ms = lo, sw_end_ms = min (lo + w) hi\<rparr> #
      (if lo + w \<ge> hi then [] else plan hi w step (lo + step))"
    using less.prems assms by (intro plan_turn) auto
  show ?case
  proof (cases "t < lo + w")
    case True
    with less.prems show ?thesis by (simp add: turn)
  next
    case False
    then have "\<exists>s \<in> set (plan hi w step (lo + step)). sw_start_ms s \<le> t \<and> t < sw_end_ms s"
      using less.hyps [of "lo + step"] less.prems assms by force
    with False less.prems show ?thesis by (auto simp: turn)
  qed
qed

lemma plan_last:
  assumes "0 < step" and "step \<le> w" and "lo < hi"
  shows "plan hi w step lo \<noteq> [] \<and> sw_end_ms (last (plan hi w step lo)) = hi"
  using assms(3)
proof (induction "nat (hi - lo)" arbitrary: lo rule: less_induct)
  case less
  have turn: "plan hi w step lo = \<lparr>sw_start_ms = lo, sw_end_ms = min (lo + w) hi\<rparr> #
      (if lo + w \<ge> hi then [] else plan hi w step (lo + step))"
    using less.prems assms by (intro plan_turn) auto
  show ?case
  proof (cases "lo + w \<ge> hi")
    case False
    with assms have "lo + step < hi" by linarith
    then have "plan hi w step (lo + step) \<noteq> [] \<and> sw_end_ms (last (plan hi w step (lo + step))) = hi"
      using less.hyps [of "lo + step"] less.prems assms by force
    with False show ?thesis by (simp add: turn)
  qed (simp add: turn)
qed

text \<open>The i-th window starts \<open>i\<close> steps after the first; all but the last have the full length.\<close>

lemma plan_nth:
  assumes "0 < step" and "0 < w" and "i < length (plan hi w step lo)"
  shows "sw_start_ms (plan hi w step lo ! i) = lo + int i * step \<and>
    (i + 1 < length (plan hi w step lo) \<longrightarrow>
      sw_end_ms (plan hi w step lo ! i) = lo + int i * step + w)"
  using assms(3)
proof (induction i arbitrary: lo)
  case 0
  then have "lo < hi" using plan_done by (metis length_greater_0_conv not_less)
  with assms show ?case by (auto simp: plan_turn)
next
  case (Suc i)
  then have "lo < hi" using plan_done [of hi lo] by (cases "lo < hi") auto
  note turn = plan_turn [OF this assms(1,2)]
  with Suc.prems have *: "plan hi w step lo = \<lparr>sw_start_ms = lo, sw_end_ms = min (lo + w) hi\<rparr> #
      plan hi w step (lo + step)" and "i < length (plan hi w step (lo + step))"
    by (auto split: if_splits)
  with Suc.IH [of "lo + step"] show ?case by (simp add: * algebra_simps)
qed

lemma plan_length:
  assumes "0 < step" and "step \<le> w" and "lo < hi"
  shows "int (length (plan hi w step lo)) =
    (if hi - lo \<le> w then 1 else (hi - lo - w + step - 1) div step + 1)"
  using assms(3)
proof (induction "nat (hi - lo)" arbitrary: lo rule: less_induct)
  case less
  have turn: "plan hi w step lo = \<lparr>sw_start_ms = lo, sw_end_ms = min (lo + w) hi\<rparr> #
      (if lo + w \<ge> hi then [] else plan hi w step (lo + step))"
    using less.prems assms by (intro plan_turn) auto
  show ?case
  proof (cases "lo + w \<ge> hi")
    case False
    with assms have lt: "lo + step < hi" by linarith
    then have IH: "int (length (plan hi w step (lo + step))) =
        (if hi - (lo + step) \<le> w then 1 else (hi - (lo + step) - w + step - 1) div step + 1)"
      using less.hyps [of "lo + step"] less.prems assms by force
    have "(hi - lo - w + step - 1) div step = (hi - lo - w - 1) div step + 1"
      using assms(1) div_add_self2 [of step "hi - lo - w - 1"] by (simp add: algebra_simps)
    moreover have "hi - (lo + step) \<le> w \<Longrightarrow> (hi - lo - w - 1) div step = 0"
      using False assms(1) by (intro div_pos_pos_trivial) linarith+
    ultimately show ?thesis using IH False by (auto simp: turn algebra_simps)
  qed (use less.prems in \<open>simp add: turn\<close>)
qed

end

interpretation default_windows: sliding default_segment_loop
  by unfold_locales (subst default_segment_loop.simps, auto simp: Let_def)+

interpretation high_freq_windows: sliding "high_freq_loop 1"
proof
  fix lo hi step w :: int
  assume "lo < hi" and "0 < step" and "0 < w"
  then show "high_freq_loop 1 hi w step lo = \<lparr>sw_start_ms = lo, sw_end_ms = min (lo + w) hi\<rparr> #
        (if lo + w \<ge> hi then [] else high_freq_loop 1 hi w step (lo + step))"
    by (subst high_freq_loop.simps) (auto simp: Let_def)
next
  fix hi lo w step :: int
  assume "hi \<le> lo"
  then show "high_freq_loop 1 hi w step lo = []" by (subst high_freq_loop.simps) auto
qed


section \<open>The plans\<close>

lemma high_freq_loop_filter:
  "1 \<le> m \<Longrightarrow> 0 < w \<Longrightarrow> high_freq_loop m hi w step lo =
    filter (\<lambda>s. m \<le> sw_end_ms s - sw_start_ms s) (high_freq_loop 1 hi w step lo)"
  by (induction m hi w step lo rule: high_freq_loop.induct)
    (subst (1 2) high_freq_loop.simps, auto simp: Let_def)

context rounding
begin

lemma high_freq_step_bounds:
  assumes "0 < w" and "w \<le> max_exact" and "0 \<le> r" and "r < 1"
  shows "1 \<le> high_freq_step fl w r \<and> high_freq_step fl w r \<le> w"
proof -
  have "0 \<le> fl (1 - r)" and "fl (1 - r) \<le> 1"
    using assms by (simp_all add: fl_nonneg fl_le_1)
  moreover have "fl (of_int w) = of_int w" using assms by (intro fl_int) simp
  ultimately have "0 \<le> fl (of_int w) * fl (1 - r)" and "fl (of_int w) * fl (1 - r) \<le> of_int w"
    using assms(1) by (simp_all add: mult_left_le)
  then have "0 \<le> fl (fl (of_int w) * fl (1 - r))" and "fl (fl (of_int w) * fl (1 - r)) \<le> of_int w"
    using assms by (auto intro: fl_nonneg fl_le_int)
  then have "py_int (fl (fl (of_int w) * fl (1 - r))) \<le> w" by (rule py_int_le)
  with assms(1) show ?thesis by (simp add: high_freq_step_def)
qed

lemma plan_high_freq_windows_spec:
  assumes "hi = (case duration_ms of None \<Rightarrow> e | Some d \<Rightarrow> min e d)"
    and "0 < w" and "w * 1000 \<le> max_exact" and "0 \<le> r" and "r < 1"
    and "1 \<le> m" and "m \<le> w * 1000"
  shows "\<exists>ws. plan_high_freq_windows fl st e w r duration_ms m = Inr ws \<and>
    (\<forall>s \<in> set ws. st \<le> sw_start_ms s \<and> sw_end_ms s \<le> hi \<and>
      m \<le> sw_end_ms s - sw_start_ms s \<and> sw_end_ms s - sw_start_ms s \<le> w * 1000) \<and>
    (\<forall>t. st \<le> t \<and> t + m \<le> hi \<longrightarrow> (\<exists>s \<in> set ws. sw_start_ms s \<le> t \<and> t < sw_end_ms s))"
proof (cases "st < hi \<and> w * 1000 < hi - st")
  case False
  then show ?thesis using assms
    by (auto simp: plan_high_freq_windows_def Let_def split: option.splits)
next
  case True
  define step where "step = high_freq_step fl (w * 1000) r"
  have step: "0 < step" "step \<le> w * 1000"
    using high_freq_step_bounds [of "w * 1000" r] assms by (simp_all add: step_def)
  let ?all = "high_freq_loop 1 hi (w * 1000) step st"
  have plan: "plan_high_freq_windows fl st e w r duration_ms m =
      Inr (filter (\<lambda>s. m \<le> sw_end_ms s - sw_start_ms s) ?all)"
    using True assms high_freq_loop_filter [of m "w * 1000"]
    by (auto simp: plan_high_freq_windows_def Let_def step_def split: option.splits)
  have w: "0 < w * 1000" using assms(2) by simp
  have b: "st \<le> sw_start_ms s \<and> sw_start_ms s < sw_end_ms s \<and>
      sw_end_ms s = min (sw_start_ms s + w * 1000) hi" if "s \<in> set ?all" for s
    by (rule high_freq_windows.plan_bounds [OF step(1) w that])
  have cov: "\<exists>s \<in> set ?all. m \<le> sw_end_ms s - sw_start_ms s \<and> sw_start_ms s \<le> t \<and> t < sw_end_ms s"
    if t: "st \<le> t" "t + m \<le> hi" for t
  proof -
    obtain s where s: "s \<in> set ?all" "sw_start_ms s \<le> t" "t < sw_end_ms s"
      using high_freq_windows.plan_covers [OF step t(1), of hi] t assms(6) by auto
    with b [OF s(1)] t assms(7) show ?thesis by (intro bexI [of _ s]) auto
  qed
  have "st \<le> sw_start_ms s \<and> sw_end_ms s \<le> hi \<and> sw_end_ms s - sw_start_ms s \<le> w * 1000"
    if "s \<in> set ?all" for s
    using b [OF that] by linarith
  with cov show ?thesis unfolding plan
    by (intro exI [of _ "filter (\<lambda>s. m \<le> sw_end_ms s - sw_start_ms s) ?all"]) auto
qed

end

text \<open>
  C4. Default segmentation is a correct cover of the video: for a positive window longer
  than a non-negative overlap the planner returns windows that lie inside the video, are
  never longer than the configured window, leave no instant out, start exactly one step
  (window minus overlap) apart, end with a window that reaches the end of the video, and
  whose number is given by the ceiling formula.
\<close>

theorem default_segments_cover:
  assumes "0 < duration" and "0 < window" and "0 \<le> overlap" and "overlap < window"
  shows "\<exists>ws. plan_default_segments duration window overlap = Inr ws \<and>
    (\<forall>s \<in> set ws. 0 \<le> sw_start_ms s \<and> sw_start_ms s < sw_end_ms s \<and>
      sw_end_ms s = min (sw_start_ms s + window * 1000) duration) \<and>
    (\<forall>t. 0 \<le> t \<and> t < duration \<longrightarrow> (\<exists>s \<in> set ws. sw_start_ms s \<le> t \<and> t < sw_end_ms s)) \<and>
    (\<forall>i < length ws. sw_start_ms (ws ! i) = int i * ((window - overlap) * 1000)) \<and>
    sw_end_ms (last ws) = duration \<and>
    int (length ws) = (if duration \<le> window * 1000 then 1 else
      (duration - window * 1000 + (window - overlap) * 1000 - 1) div ((window - overlap) * 1000) + 1)"
proof -
  let ?step = "(window - overlap) * 1000"
  let ?ws = "default_segment_loop duration (window * 1000) ?step 0"
  have step: "0 < ?step" "?step \<le> window * 1000" and w: "0 < window * 1000" using assms by auto
  have "plan_default_segments duration window overlap = Inr ?ws"
    using assms by (simp add: plan_default_segments_def Let_def left_diff_distrib)
  moreover have "\<forall>i < length ?ws. sw_start_ms (?ws ! i) = int i * ?step"
    using default_windows.plan_nth [OF step(1) w, where lo = 0 and hi = duration] by simp
  moreover note default_windows.plan_bounds [OF step(1) w, where lo = 0 and hi = duration]
    default_windows.plan_covers [OF step, where lo = 0 and hi = duration]
    default_windows.plan_last [OF step assms(1)]
    default_windows.plan_length [OF step assms(1), unfolded diff_0_right]
  ultimately show ?thesis by blast
qed

theorem default_segments_cover_witness:
  "\<exists>ws. plan_default_segments 65000 30 5 = Inr ws \<and> length ws = 3 \<and> sw_end_ms (last ws) = 65000 \<and>
    (\<exists>s \<in> set ws. sw_start_ms s \<le> 64999 \<and> 64999 < sw_end_ms s)"
proof -
  obtain ws where ws: "plan_default_segments 65000 30 5 = Inr ws"
    "\<forall>t. 0 \<le> t \<and> t < 65000 \<longrightarrow> (\<exists>s \<in> set ws. sw_start_ms s \<le> t \<and> t < sw_end_ms s)"
    "sw_end_ms (last ws) = 65000" "int (length ws) = 3"
    using default_segments_cover [of 65000 30 5] by auto
  have "\<exists>s \<in> set ws. sw_start_ms s \<le> 64999 \<and> 64999 < sw_end_ms s" using ws(2) by simp
  with ws show ?thesis by auto
qed

text \<open>
  C5. High-frequency windows over a trigger, in binary64 arithmetic: every window lies
  inside the trigger clipped to the video, is at least the minimum and at most the
  configured length, and every instant is covered that leaves at least the minimum length
  before the clipped end. The product of window and \<open>1 - overlap\<close> is rounded, and the step
  it gives never opens a hole.
\<close>

theorem high_freq_windows_cover:
  assumes "hi = (case duration_ms of None \<Rightarrow> e | Some d \<Rightarrow> min e d)"
    and "0 < w" and "w * 1000 \<le> max_exact" and "0 \<le> r" and "r < 1"
    and "1 \<le> m" and "m \<le> w * 1000"
  shows "\<exists>ws. plan_high_freq_windows fl64 st e w r duration_ms m = Inr ws \<and>
    (\<forall>s \<in> set ws. st \<le> sw_start_ms s \<and> sw_end_ms s \<le> hi \<and>
      m \<le> sw_end_ms s - sw_start_ms s \<and> sw_end_ms s - sw_start_ms s \<le> w * 1000) \<and>
    (\<forall>t. st \<le> t \<and> t + m \<le> hi \<longrightarrow> (\<exists>s \<in> set ws. sw_start_ms s \<le> t \<and> t < sw_end_ms s))"
  using assms by (rule ieee.plan_high_freq_windows_spec)

theorem high_freq_windows_cover_witness:
  "\<exists>ws. plan_high_freq_windows fl64 1000 9000 2 (1/4) (Some 8000) 500 = Inr ws \<and>
    (\<exists>s \<in> set ws. sw_start_ms s \<le> 7500 \<and> 7500 < sw_end_ms s) \<and>
    (\<forall>s \<in> set ws. sw_end_ms s \<le> 8000)"
proof -
  obtain ws where "plan_high_freq_windows fl64 1000 9000 2 (1/4) (Some 8000) 500 = Inr ws"
    "\<forall>s \<in> set ws. sw_end_ms s \<le> 8000"
    "\<forall>t. 1000 \<le> t \<and> t + 500 \<le> 8000 \<longrightarrow> (\<exists>s \<in> set ws. sw_start_ms s \<le> t \<and> t < sw_end_ms s)"
    using high_freq_windows_cover [of 8000 9000 "Some 8000" 2 "1/4" 500 1000]
    by (auto simp: max_exact_def)
  moreover from this(3) have "\<exists>s \<in> set ws. sw_start_ms s \<le> 7500 \<and> 7500 < sw_end_ms s" by simp
  ultimately show ?thesis by blast
qed

section \<open>Motion triggers\<close>

text \<open>What holds of every run: its start and its peak come from samples over the threshold.\<close>

lemma raw_runs_sound:
  assumes "(a, e, p) \<in> set (raw_runs ends th i run ss)"
    and "\<And>s. s \<in> set ss \<Longrightarrow> ms_score s \<ge> th \<Longrightarrow> Q (ms_timestamp_ms s) \<and> R (ms_score s)"
    and "\<And>st pk. run = Some (st, pk) \<Longrightarrow> Q st \<and> R pk"
  shows "Q a \<and> R p"
  using assms
proof (induction ends th i run ss rule: raw_runs.induct)
  case (3 ends th i run s ss)
  then show ?case
    by (cases run) (auto simp: max_def split: if_splits)
qed auto

lemma raw_runs_sorted:
  assumes "sorted (map ms_timestamp_ms ss)"
    and "\<And>st pk. run = Some (st, pk) \<Longrightarrow> \<forall>s \<in> set ss. st \<le> ms_timestamp_ms s"
  shows "sorted (map fst (raw_runs ends th i run ss))"
  using assms
proof (induction ends th i run ss rule: raw_runs.induct)
  case (3 ends th i run s ss)
  have low: "lo \<le> fst r" if "r \<in> set (raw_runs ends th (i + 1) None ss)"
    "\<forall>s \<in> set ss. lo \<le> ms_timestamp_ms s" for lo r
    using raw_runs_sound [of "fst r" "fst (snd r)" "snd (snd r)" ends th "i + 1" None ss
        "\<lambda>a. lo \<le> a" "\<lambda>_. True"] that by simp
  show ?case
  proof (cases run)
    case None
    with 3 show ?thesis by auto
  next
    case (Some r)
    obtain st pk where r: "r = (st, pk)" by (cases r)
    then have st: "\<forall>s \<in> set ss. st \<le> ms_timestamp_ms s" using "3.prems"(2) Some by simp
    show ?thesis using "3.IH"(2) [OF _ Some r [symmetric]] "3.IH"(4) [OF _ Some r [symmetric]] "3.prems"(1)
        st low by (auto simp: Some r)
  qed
qed auto

text \<open>Every sample over the threshold lies in a run.\<close>

definition in_run :: "int \<Rightarrow> (int \<times> int \<times> real) list \<Rightarrow> bool" where
  "in_run t rs \<longleftrightarrow> (\<exists>r \<in> set rs. fst r \<le> t \<and> t < fst (snd r))"

lemma in_run_simps [simp]:
  "\<not> in_run t []"
  "in_run t (r # rs) \<longleftrightarrow> (fst r \<le> t \<and> t < fst (snd r)) \<or> in_run t rs"
  by (auto simp: in_run_def)

lemma raw_runs_cover:
  assumes "\<And>k. k < length ss \<Longrightarrow> ms_timestamp_ms (ss ! k) < ends (i + k)"
    and "\<And>k. k < length ss \<Longrightarrow> ends (i + k - 1) \<le> ends (i + k)"
    and "\<And>st pk. run = Some (st, pk) \<Longrightarrow> \<forall>s \<in> set ss. st \<le> ms_timestamp_ms s"
    and "sorted (map ms_timestamp_ms ss)"
    and "(\<exists>s \<in> set ss. ms_score s \<ge> th \<and> ms_timestamp_ms s = t) \<or>
      (\<exists>st pk. run = Some (st, pk) \<and> st \<le> t \<and> t < ends (i - 1))"
  shows "in_run t (raw_runs ends th i run ss)"
  using assms
proof (induction ends th i run ss rule: raw_runs.induct)
  case (3 ends th i run s ss)
  have hd: "ms_timestamp_ms s < ends i" "ends (i - 1) \<le> ends i"
    using "3.prems"(1,2) [of 0] by simp_all
  have tl: "k < length ss \<Longrightarrow> ms_timestamp_ms (ss ! k) < ends (i + 1 + k)"
    "k < length ss \<Longrightarrow> ends (i + 1 + k - 1) \<le> ends (i + 1 + k)" for k
    using "3.prems"(1,2) [of "Suc k"] by simp_all
  have srt: "sorted (map ms_timestamp_ms ss)" and fst: "\<forall>u \<in> set ss. ms_timestamp_ms s \<le> ms_timestamp_ms u"
    using "3.prems"(4) by auto
  show ?case
  proof (cases "ms_score s \<ge> th")
    case True
    show ?thesis
    proof (cases run)
      case None
      with "3.IH"(1) [OF True None tl _ srt] "3.prems"(5) hd fst True show ?thesis by auto
    next
      case (Some r)
      obtain st pk where r: "r = (st, pk)" by (cases r)
      with "3.IH"(2) [OF True Some r [symmetric] tl _ srt] "3.prems"(3,5) Some hd True show ?thesis by fastforce
    qed
  next
    case False
    show ?thesis
    proof (cases run)
      case None
      with "3.IH"(3) [OF False None tl _ srt] "3.prems"(5) False show ?thesis by auto
    next
      case (Some r)
      obtain st pk where r: "r = (st, pk)" by (cases r)
      with "3.IH"(4) [OF False Some r [symmetric] tl _ srt] "3.prems"(5) Some False show ?thesis by auto
    qed
  qed
qed auto

text \<open>
  Below \<open>2 ^ 53\<close> the detour over floats is exact: merging is merging of integers, and what is left to clamp are
  the merged integer runs.
\<close>

fun merge_ints :: "int \<Rightarrow> (int \<times> int \<times> real) list \<Rightarrow> (int \<times> int \<times> real) list" where
  "merge_ints gap [] = []"
| "merge_ints gap [r] = [r]"
| "merge_ints gap ((s1, e1, p1) # (s2, e2, p2) # rs) =
    (if s2 - e1 \<le> gap then merge_ints gap ((s1, max e1 e2, max p1 p2) # rs)
     else (s1, e1, p1) # merge_ints gap ((s2, e2, p2) # rs))"

definition float_run :: "int \<times> int \<times> real \<Rightarrow> real \<times> real \<times> real" where
  "float_run r = (case r of (s, e, p) \<Rightarrow> (of_int s, of_int e, p))"

definition exact_run :: "int \<times> int \<times> real \<Rightarrow> bool" where
  "exact_run r \<longleftrightarrow> (case r of (s, e, p) \<Rightarrow> \<bar>s\<bar> \<le> max_exact \<and> \<bar>e\<bar> \<le> max_exact)"

lemma merge_from_exact:
  "list_all exact_run ((s, e, p) # rs) \<Longrightarrow>
    merge_from fl64 gap (of_int s, of_int e, p) rs = map float_run (merge_ints gap ((s, e, p) # rs))"
proof (induction gap "(s, e, p) # rs" arbitrary: s e p rs rule: merge_ints.induct)
  case (3 gap s1 e1 p1 s2 e2 p2 rs)
  have ex: "\<bar>max e1 e2\<bar> \<le> max_exact" "\<bar>s2\<bar> \<le> max_exact" "\<bar>e2\<bar> \<le> max_exact"
    using "3.prems" by (auto simp: exact_run_def max_def)
  show ?case
  proof (cases "s2 - e1 \<le> gap")
    case True
    with "3.hyps"(1) [OF True] "3.prems" ex show ?thesis
      by (simp add: fl64_int exact_run_def del: of_int_max)
  next
    case False
    with "3.hyps"(2) [OF False] "3.prems" ex show ?thesis by (simp add: fl64_int float_run_def)
  qed
qed (simp add: float_run_def)

lemma merge_runs_exact: "list_all exact_run rs \<Longrightarrow> merge_runs fl64 gap rs = map float_run (merge_ints gap rs)"
proof (cases rs)
  case (Cons r rs')
  obtain s e p where r: "r = (s, e, p)" by (cases r)
  assume ex: "list_all exact_run rs"
  then have "fl64 (of_int s) = of_int s" "fl64 (of_int e) = of_int e" by (simp_all add: Cons r exact_run_def fl64_int)
  with merge_from_exact [of s e p rs' gap] ex show ?thesis by (simp add: Cons r)
qed simp

lemma merge_ints_cover:
  "sorted (map fst rs) \<Longrightarrow> in_run t rs \<Longrightarrow> in_run t (merge_ints gap rs)"
  by (induction gap rs rule: merge_ints.induct) (auto simp: less_max_iff_disj split: if_splits)

lemma merge_ints_sorted:
  "sorted (map fst rs) \<Longrightarrow> sorted (map fst (merge_ints gap rs)) \<and>
    (rs \<noteq> [] \<longrightarrow> (\<forall>r \<in> set (merge_ints gap rs). fst (hd rs) \<le> fst r))"
  by (induction gap rs rule: merge_ints.induct) (fastforce split: if_splits)+

text \<open>Merging invents neither a start nor an end nor a peak.\<close>

lemma merge_ints_sound:
  "(a, e, p) \<in> set (merge_ints gap rs) \<Longrightarrow>
    (\<And>a' e' p'. (a', e', p') \<in> set rs \<Longrightarrow> Q a' \<and> E e' \<and> R p') \<Longrightarrow> Q a \<and> E e \<and> R p"
proof (induction gap rs rule: merge_ints.induct)
  case (3 gap s1 e1 p1 s2 e2 p2 rs)
  have hyps: "Q s1 \<and> E e1 \<and> R p1" "Q s2 \<and> E e2 \<and> R p2" using "3.prems"(2) by auto
  show ?case
  proof (cases "s2 - e1 \<le> gap")
    case True
    with "3.IH"(1) "3.prems" hyps show ?thesis by (fastforce simp: max_def)
  next
    case False
    with "3.IH"(2) "3.prems" hyps show ?thesis by fastforce
  qed
qed auto

lemma clamp_run_Some:
  "clamp_run m d why (float_run (a, e, p)) = Some w \<longleftrightarrow>
    w = \<lparr>tw_start_ms = a,
         tw_end_ms = (case d of None \<Rightarrow> max e (a + m) | Some d \<Rightarrow> min (max e (a + m)) d),
         tw_peak_score = p, tw_reason = why\<rparr> \<and>
    (case d of None \<Rightarrow> True | Some _ \<Rightarrow> a < tw_end_ms w)"
  by (auto simp: clamp_run_def float_run_def Let_def max_def split: option.splits)

lemma sample_end_ordered:
  assumes "sorted (map ms_timestamp_ms xs)" and "distinct (map ms_timestamp_ms xs)"
    and "0 < step" and "k < length xs"
  shows "ms_timestamp_ms (xs ! k) < sample_end xs step k \<and>
    sample_end xs step (k - 1) \<le> sample_end xs step k"
proof -
  have lt: "ms_timestamp_ms (xs ! i) < ms_timestamp_ms (xs ! j)" if "i < j" "j < length xs" for i j
    using sorted_nth_mono [OF assms(1), of i j] nth_eq_iff_index_eq [OF assms(2), of i j] that by force
  show ?thesis
    using assms(3,4) lt [of k "k + 1"] by (cases k) (auto simp: sample_end_def less_imp_le)
qed

lemma median_step_pos: "0 < median_step xs"
  by (simp add: median_step_def Let_def less_max_iff_disj)

text \<open>Sample times from 0 to \<open>2 ^ 52\<close> ms keep every run exact.\<close>

definition clock_range :: int where
  "clock_range = 2 ^ 52"

lemma raw_runs_end:
  assumes "r \<in> set (raw_runs ends th i run ss)" and "run = None \<or> 0 < i"
  shows "fst (snd r) \<in> ends ` {..<i + length ss}"
  using assms
proof (induction ends th i run ss rule: raw_runs.induct)
  case (3 ends th i run s ss)
  have last: "ends (i - 1) \<in> ends ` {..<i + length (s # ss)}" by (rule imageI) simp
  show ?case
  proof (cases run)
    case None
    with 3 show ?thesis by (auto split: if_splits)
  next
    case (Some q)
    obtain st pk where q: "q = (st, pk)" by (cases q)
    show ?thesis
    proof (cases "th \<le> ms_score s")
      case True
      with 3 Some q show ?thesis by auto
    next
      case False
      with "3.prems"(1) Some q consider "r = (st, ends (i - 1), pk)" | "r \<in> set (raw_runs ends th (i + 1) None ss)"
        by auto
      then show ?thesis
      proof cases
        case 1
        with last show ?thesis by simp
      next
        case 2
        with "3.IH"(4) [OF False Some q [symmetric]] show ?thesis by simp
      qed
    qed
  qed
qed auto

lemma median_step_le:
  assumes "\<forall>t \<in> set ts. 0 \<le> t \<and> t \<le> B" and "1 \<le> B"
  shows "median_step ts \<le> B"
proof (cases "length ts < 2")
  case False
  define ds where "ds = map (\<lambda>i. ts ! (i + 1) - ts ! i) [0..<length ts - 1]"
  have "length (sort ds) div 2 < length (sort ds)" using False by (simp add: ds_def)
  then have "sort ds ! (length ds div 2) \<in> set ds" by (metis length_sort nth_mem set_sort)
  then obtain i where "i < length ts - 1" "sort ds ! (length ds div 2) = ts ! (i + 1) - ts ! i"
    by (auto simp: ds_def)
  moreover from this(1) have "ts ! (i + 1) \<in> set ts" and "ts ! i \<in> set ts" by simp_all
  then have "ts ! (i + 1) \<le> B" and "0 \<le> ts ! i" using assms(1) by blast+
  ultimately have "sort ds ! (length ds div 2) \<le> B" by linarith
  with assms(2) False show ?thesis by (simp add: median_step_def Let_def ds_def)
qed (use assms in \<open>simp add: median_step_def\<close>)

lemma raw_runs_exact:
  assumes "\<forall>s \<in> set samples. 0 \<le> ms_timestamp_ms s \<and> ms_timestamp_ms s \<le> clock_range"
    and "ordered = sort_key ms_timestamp_ms samples"
    and "ends = sample_end ordered (median_step (map ms_timestamp_ms ordered))"
  shows "list_all exact_run (raw_runs ends th 0 None ordered)"
proof -
  have mem: "0 \<le> ms_timestamp_ms (ordered ! k) \<and> ms_timestamp_ms (ordered ! k) \<le> clock_range"
    if "k < length ordered" for k
    using assms(1) nth_mem [OF that] by (simp add: assms(2))
  have step: "0 < median_step (map ms_timestamp_ms ordered) \<and> median_step (map ms_timestamp_ms ordered) \<le> clock_range"
    using assms(1) by (auto simp: assms(2) clock_range_def median_step_pos intro!: median_step_le)
  have two: "max_exact = clock_range + clock_range" by (simp add: max_exact_def clock_range_def)
  have ends: "\<bar>ends k\<bar> \<le> max_exact" if "k < length ordered" for k
    using mem [OF that] mem [of "k + 1"] step that by (auto simp: assms(3) sample_end_def two)
  have "exact_run (a, e, p)" if r: "(a, e, p) \<in> set (raw_runs ends th 0 None ordered)" for a e p
  proof -
    have "0 \<le> a \<and> a \<le> clock_range \<and> True"
      using raw_runs_sound [OF r, of "\<lambda>a. 0 \<le> a \<and> a \<le> clock_range" "\<lambda>_. True"] assms(1) by (simp add: assms(2))
    moreover obtain k where "k < length ordered" "e = ends k" using raw_runs_end [OF r] by auto
    ultimately show ?thesis using ends by (simp add: exact_run_def two)
  qed
  then show ?thesis by (auto simp: list_all_iff)
qed

lemma plan_motion_triggers_exact:
  assumes "\<forall>s \<in> set samples. 0 \<le> ms_timestamp_ms s \<and> ms_timestamp_ms s \<le> clock_range"
    and "ordered = sort_key ms_timestamp_ms samples"
    and "ends = sample_end ordered (median_step (map ms_timestamp_ms ordered))"
  shows "plan_motion_triggers fl64 samples th m gap why d =
    List.map_filter (clamp_run m d why) (map float_run (merge_ints gap (raw_runs ends th 0 None ordered)))"
  using merge_runs_exact [OF raw_runs_exact [OF assms]] assms(2,3)
  by (auto simp: plan_motion_triggers_def Let_def List.map_filter_def)

lemma merged_cover:
  assumes "distinct (map ms_timestamp_ms samples)" and "s \<in> set samples" and "th \<le> ms_score s"
    and "ordered = sort_key ms_timestamp_ms samples"
    and "ends = sample_end ordered (median_step (map ms_timestamp_ms ordered))"
  shows "in_run (ms_timestamp_ms s) (merge_ints gap (raw_runs ends th 0 None ordered))"
proof -
  have srt: "sorted (map ms_timestamp_ms ordered)" by (simp add: assms(4))
  have dst: "distinct (map ms_timestamp_ms ordered)"
    using assms(1) by (simp add: assms(4) distinct_map_sort_key)
  note ends = sample_end_ordered [OF srt dst median_step_pos, folded assms(5)]
  have "in_run (ms_timestamp_ms s) (raw_runs ends th 0 None ordered)"
    by (rule raw_runs_cover) (use ends srt assms in auto)
  moreover have "sorted (map fst (raw_runs ends th 0 None ordered))"
    by (rule raw_runs_sorted [OF srt]) simp
  ultimately show ?thesis by (simp add: merge_ints_cover)
qed

lemma clamp_run_keeps:
  assumes "in_run t rs" and "0 < m" and "case d of None \<Rightarrow> True | Some d \<Rightarrow> t < d"
  shows "\<exists>w \<in> set (List.map_filter (clamp_run m d why) (map float_run rs)). tw_start_ms w \<le> t \<and> t < tw_end_ms w"
proof -
  obtain a e p where r: "(a, e, p) \<in> set rs" "a \<le> t" "t < e"
    using assms(1) by (force simp: in_run_def)
  with assms(2,3) obtain w where "clamp_run m d why (float_run (a, e, p)) = Some w"
    "tw_start_ms w \<le> t \<and> t < tw_end_ms w"
    by (auto simp: clamp_run_Some split: option.splits)
  with r(1) show ?thesis by (force simp: map_filter_def)
qed

lemma clamp_run_sound:
  assumes "w \<in> set (List.map_filter (clamp_run m d why) (map float_run rs))" and "0 < m"
  shows "\<exists>a e p. (a, e, p) \<in> set rs \<and> tw_start_ms w = a \<and> tw_peak_score w = p \<and> tw_reason w = why \<and>
    a < tw_end_ms w \<and>
    tw_end_ms w = (case d of None \<Rightarrow> max e (a + m) | Some d \<Rightarrow> min (max e (a + m)) d)"
proof -
  obtain a e p where r: "(a, e, p) \<in> set rs" and w: "clamp_run m d why (float_run (a, e, p)) = Some w"
    using assms(1) by (auto simp: map_filter_def)
  from w have "tw_start_ms w = a \<and> tw_peak_score w = p \<and> tw_reason w = why \<and> a < tw_end_ms w \<and>
      tw_end_ms w = (case d of None \<Rightarrow> max e (a + m) | Some d \<Rightarrow> min (max e (a + m)) d)"
    using assms(2) by (auto simp: clamp_run_Some split: option.splits)
  with r show ?thesis by blast
qed

lemma clamp_run_sorted:
  "sorted (map fst rs) \<Longrightarrow> sorted (map tw_start_ms (List.map_filter (clamp_run m d why) (map float_run rs)))"
proof (induction rs)
  case (Cons r rs)
  have start: "tw_start_ms w = fst q" if "clamp_run m d why (float_run q) = Some w" for q w
    using that by (cases q) (auto simp: clamp_run_Some)
  have "fst r \<le> tw_start_ms w" if "w \<in> set (List.map_filter (clamp_run m d why) (map float_run rs))" for w
    using that Cons.prems start by (force simp: map_filter_def)
  with Cons start [of r] show ?case by (auto simp: List.map_filter_simps split: option.splits)
qed (simp add: map_filter_def)

text \<open>
  C6. Motion triggers find the motion, in binary64 arithmetic with sample times up to \<open>2 ^ 52\<close> ms: for distinct
  sample times, every sample at or over the threshold inside the video lies in a trigger window. Every window
  starts at such a sample, has the score of such a sample as its peak, is not empty, and ends inside the video; it
  is at least the minimum duration long unless the video ends first, so a run shorter than the minimum is
  extended and not dropped (where the docstring says otherwise, the code and its comment agree with this).
  Windows come in the order of their starts.
\<close>

theorem motion_triggers_find_motion:
  assumes "distinct (map ms_timestamp_ms samples)" and "0 < min_duration"
    and "\<forall>s \<in> set samples. 0 \<le> ms_timestamp_ms s \<and> ms_timestamp_ms s \<le> clock_range"
    and "ws = plan_motion_triggers fl64 samples th min_duration gap why d"
  shows "(\<forall>s \<in> set samples. th \<le> ms_score s \<and> (case d of None \<Rightarrow> True | Some d \<Rightarrow> ms_timestamp_ms s < d) \<longrightarrow>
      (\<exists>w \<in> set ws. tw_start_ms w \<le> ms_timestamp_ms s \<and> ms_timestamp_ms s < tw_end_ms w)) \<and>
    (\<forall>w \<in> set ws. tw_start_ms w < tw_end_ms w \<and> tw_reason w = why \<and>
      (\<exists>s \<in> set samples. th \<le> ms_score s \<and> tw_start_ms w = ms_timestamp_ms s) \<and>
      (\<exists>s \<in> set samples. th \<le> ms_score s \<and> tw_peak_score w = ms_score s) \<and>
      (case d of None \<Rightarrow> tw_start_ms w + min_duration \<le> tw_end_ms w
       | Some d \<Rightarrow> tw_end_ms w \<le> d \<and> min (tw_start_ms w + min_duration) d \<le> tw_end_ms w)) \<and>
    sorted (map tw_start_ms ws)"
proof -
  define ordered where "ordered = sort_key ms_timestamp_ms samples"
  define ends where "ends = sample_end ordered (median_step (map ms_timestamp_ms ordered))"
  define raw where "raw = raw_runs ends th 0 None ordered"
  let ?Q = "\<lambda>a. \<exists>s \<in> set samples. th \<le> ms_score s \<and> a = ms_timestamp_ms s"
  let ?R = "\<lambda>p. \<exists>s \<in> set samples. th \<le> ms_score s \<and> p = ms_score s"
  have ws: "ws = List.map_filter (clamp_run min_duration d why) (map float_run (merge_ints gap raw))"
    using plan_motion_triggers_exact [OF assms(3) ordered_def ends_def] assms(4) by (simp add: raw_def)
  have "?Q a \<and> True \<and> ?R p" if "(a, e, p) \<in> set raw" for a e p
    using raw_runs_sound [OF that [unfolded raw_def], of ?Q ?R] by (auto simp: ordered_def)
  then have sound: "?Q a \<and> True \<and> ?R p" if "(a, e, p) \<in> set (merge_ints gap raw)" for a e p
    using that by (rule merge_ints_sound [rotated])
  have "sorted (map fst raw)" unfolding raw_def
    by (rule raw_runs_sorted) (simp_all add: ordered_def)
  then have "sorted (map fst (merge_ints gap raw))" by (simp add: merge_ints_sorted)
  then have "sorted (map tw_start_ms ws)" unfolding ws by (rule clamp_run_sorted)
  moreover have "\<exists>w \<in> set ws. tw_start_ms w \<le> ms_timestamp_ms s \<and> ms_timestamp_ms s < tw_end_ms w"
    if "s \<in> set samples" "th \<le> ms_score s" "case d of None \<Rightarrow> True | Some d \<Rightarrow> ms_timestamp_ms s < d" for s
    using clamp_run_keeps [OF merged_cover [OF assms(1) that(1,2) ordered_def ends_def] assms(2) that(3)]
    unfolding ws raw_def .
  moreover have "tw_start_ms w < tw_end_ms w \<and> tw_reason w = why \<and> ?Q (tw_start_ms w) \<and> ?R (tw_peak_score w) \<and>
      (case d of None \<Rightarrow> tw_start_ms w + min_duration \<le> tw_end_ms w
       | Some d \<Rightarrow> tw_end_ms w \<le> d \<and> min (tw_start_ms w + min_duration) d \<le> tw_end_ms w)"
    if "w \<in> set ws" for w
    using clamp_run_sound [OF that [unfolded ws] assms(2)] sound by (cases d) force+
  ultimately show ?thesis by blast
qed

definition ex_samples :: "motion_sample list" where
  "ex_samples = [\<lparr>ms_timestamp_ms = 0, ms_score = 1/10\<rparr>, \<lparr>ms_timestamp_ms = 1000, ms_score = 9/10\<rparr>,
     \<lparr>ms_timestamp_ms = 2000, ms_score = 1/10\<rparr>]"

theorem motion_triggers_find_motion_witness:
  "\<exists>w \<in> set (plan_motion_triggers fl64 ex_samples (1/2) 500 0 ''motion'' (Some 3000)).
    tw_start_ms w \<le> 1000 \<and> 1000 < tw_end_ms w"
  using motion_triggers_find_motion [of ex_samples 500 _ "1/2" 0 "''motion''" "Some 3000", OF _ _ _ refl, THEN conjunct1]
  by (simp add: ex_samples_def clock_range_def)

text \<open>
  A run shorter than the minimum duration is not dropped: it is extended to the minimum.
\<close>

lemma short_blip_is_extended:
  "map (\<lambda>w. (tw_start_ms w, tw_end_ms w)) (plan_motion_triggers fl64 ex_samples (1/2) 5000 0 ''motion'' None) =
    [(1000, 6000)]"
proof -
  have fl: "fl64 1000 = 1000" "fl64 2000 = 2000"
    using fl64_int [of 1000] fl64_int [of 2000] by (simp_all add: max_exact_def)
  have int: "py_int 1000 = 1000" "py_int 2000 = 2000"
    using py_int_of_int [of 1000] py_int_of_int [of 2000] by simp_all
  show ?thesis
    by (simp add: plan_motion_triggers_def ex_samples_def Let_def sample_end_def map_filter_def clamp_run_def
        median_step_def fl int)
qed

end
