(* ===== verification/Cctv_Frames.thy ===== *)
theory Cctv_Frames
  imports Cctv_Float
begin

text \<open>
  Frame selection for the VLM, \<^verbatim>\<open>select_frames\<close> of \<^verbatim>\<open>domain/policies/__init__.py\<close>: a quality gate
  that gives way when nothing passes it, three strategies, and a chronological result.
  The composite score is computed with the rounding \<open>fl\<close>.
\<close>

section \<open>Python's max and sorted with a key\<close>

text \<open>\<^verbatim>\<open>max(xs, key=f)\<close> returns the first element with the greatest key.\<close>

fun max_by :: "('a \<Rightarrow> 'b::linorder) \<Rightarrow> 'a \<Rightarrow> 'a list \<Rightarrow> 'a" where
  "max_by f best [] = best"
| "max_by f best (x # xs) = max_by f (if f best < f x then x else best) xs"

lemma max_by_in: "max_by f b xs \<in> insert b (set xs)"
  by (induction xs arbitrary: b) auto

lemma max_by_ge: "f b \<le> f (max_by f b xs) \<and> (\<forall>x \<in> set xs. f x \<le> f (max_by f b xs))"
proof (induction xs arbitrary: b)
  case (Cons x xs)
  show ?case using Cons [of b] Cons [of x] by (auto intro: order_trans)
qed simp

section \<open>Data and scores\<close>

record frame_score =
  fs_frame_index :: int
  fs_timestamp_ms :: int
  fs_motion :: real
  fs_scene :: real
  fs_blur :: real
  fs_brightness :: real

definition frame_key :: "frame_score \<Rightarrow> int \<times> int" where
  "frame_key s = (fs_timestamp_ms s, fs_frame_index s)"

definition quality_ok :: "real \<Rightarrow> frame_score \<Rightarrow> bool" where
  "quality_ok min_blur s \<longleftrightarrow> fs_blur s \<ge> min_blur \<and> 16 \<le> fs_brightness s \<and> fs_brightness s \<le> 240"

definition composite ::
  "(real \<Rightarrow> real) \<Rightarrow> real \<Rightarrow> real \<Rightarrow> real \<Rightarrow> frame_score \<Rightarrow> real \<times> int" where
  "composite fl w_motion w_scene w_quality s =
    (let q = fl (min (fs_blur s) 500 / 500);
         score = fl (fl (fl (w_motion * fs_motion s) + fl (w_scene * fs_scene s)) + fl (w_quality * q))
     in (score, - fs_frame_index s))"

text \<open>\<^verbatim>\<open>sorted(xs, key=composite, reverse=True)\<close> is the stable sort by the negated key.\<close>

definition by_score :: "(frame_score \<Rightarrow> real \<times> int) \<Rightarrow> frame_score list \<Rightarrow> frame_score list" where
  "by_score cmp = sort_key (\<lambda>s. (- fst (cmp s), - snd (cmp s)))"

section \<open>The strategies\<close>

fun dedup_frames :: "int set \<Rightarrow> frame_score list \<Rightarrow> frame_score list" where
  "dedup_frames seen [] = []"
| "dedup_frames seen (s # ss) =
    (if fs_frame_index s \<in> seen then dedup_frames seen ss
     else s # dedup_frames (insert (fs_frame_index s) seen) ss)"

definition uniform_pick :: "(real \<Rightarrow> real) \<Rightarrow> frame_score list \<Rightarrow> int \<Rightarrow> frame_score list" where
  "uniform_pick fl eligible k =
    (if int (length eligible) \<le> k then eligible
     else let step = fl (real (length eligible) / of_int k) in
       dedup_frames {} (map (\<lambda>i. eligible ! nat (min (int (length eligible) - 1) (py_int (fl (real i * step)))))
         [0..<nat k]))"

definition bucket_of :: "int \<Rightarrow> int \<Rightarrow> int \<Rightarrow> frame_score \<Rightarrow> int" where
  "bucket_of nb t0 span_ms s = min (nb - 1) ((fs_timestamp_ms s - t0) * nb div span_ms)"

definition bucket_best ::
  "(frame_score \<Rightarrow> real \<times> int) \<Rightarrow> (frame_score \<Rightarrow> int) \<Rightarrow> frame_score list \<Rightarrow> nat \<Rightarrow> frame_score option" where
  "bucket_best cmp bucket eligible b =
    (case filter (\<lambda>s. bucket s = int b) eligible of
       [] \<Rightarrow> None
     | s # ss \<Rightarrow> Some (max_by cmp s ss))"

definition bins_pick ::
  "(frame_score \<Rightarrow> real \<times> int) \<Rightarrow> frame_score list \<Rightarrow> frame_score list \<Rightarrow> int \<Rightarrow> int option \<Rightarrow> frame_score list" where
  "bins_pick cmp ordered eligible k bins =
    (let nb = max 1 (min (case bins of None \<Rightarrow> k | Some b \<Rightarrow> b) k);
         t0 = fs_timestamp_ms (hd ordered);
         span_ms = max 1 (fs_timestamp_ms (last ordered) - t0 + 1);
         picked = List.map_filter (bucket_best cmp (bucket_of nb t0 span_ms) eligible) [0..<nat nb];
         rest = by_score cmp (filter (\<lambda>s. fs_frame_index s \<notin> fs_frame_index ` set picked) eligible)
     in picked @ take (nat (max 0 (k - int (length picked)))) rest)"

definition eligible_frames :: "real \<Rightarrow> frame_score list \<Rightarrow> frame_score list" where
  "eligible_frames min_blur ordered =
    (let ok = filter (quality_ok min_blur) ordered in if ok = [] then ordered else ok)"

definition select_frames ::
  "(real \<Rightarrow> real) \<Rightarrow> frame_score list \<Rightarrow> int \<Rightarrow> string \<Rightarrow> real \<Rightarrow> real \<Rightarrow> real \<Rightarrow> real \<Rightarrow> int option
    \<Rightarrow> frame_score list" where
  "select_frames fl scores k strategy w_motion w_scene w_quality min_blur bins =
    (if k \<le> 0 \<or> scores = [] then []
     else let ordered = sort_key frame_key scores;
              eligible = eligible_frames min_blur ordered;
              cmp = composite fl w_motion w_scene w_quality;
              picked = (if strategy = ''uniform'' then uniform_pick fl eligible k
                        else if strategy = ''score'' then take (nat k) (by_score cmp eligible)
                        else bins_pick cmp ordered eligible k bins)
          in sort_key frame_key (take (nat k) picked))"

section \<open>Picking\<close>

lemma eligible_frames_props:
  "set (eligible_frames b xs) \<subseteq> set xs"
  "xs \<noteq> [] \<Longrightarrow> eligible_frames b xs \<noteq> []"
  "distinct (map f xs) \<Longrightarrow> distinct (map f (eligible_frames b xs))"
  "(\<forall>s \<in> set (eligible_frames b xs). quality_ok b s) \<or> (\<forall>s \<in> set xs. \<not> quality_ok b s)"
  by (auto simp: eligible_frames_def Let_def distinct_map_filter filter_empty_conv)

lemma dedup_frames_props:
  "set (dedup_frames seen xs) \<subseteq> set xs \<and> length (dedup_frames seen xs) \<le> length xs \<and>
    distinct (map fs_frame_index (dedup_frames seen xs)) \<and>
    fs_frame_index ` set (dedup_frames seen xs) \<inter> seen = {}"
  by (induction seen xs rule: dedup_frames.induct) auto

lemma uniform_pick_props:
  assumes "xs \<noteq> []" and "0 < k" and "distinct (map fs_frame_index xs)"
    and "\<And>x. 0 \<le> x \<Longrightarrow> 0 \<le> fl x"
  shows "set (uniform_pick fl xs k) \<subseteq> set xs \<and> uniform_pick fl xs k \<noteq> [] \<and>
    distinct (map fs_frame_index (uniform_pick fl xs k))"
proof (cases "int (length xs) \<le> k")
  case False
  define step where "step = fl (real (length xs) / of_int k)"
  define pick where "pick = map (\<lambda>i. xs ! nat (min (int (length xs) - 1) (py_int (fl (real i * step))))) [0..<nat k]"
  have eq: "uniform_pick fl xs k = dedup_frames {} pick"
    using False by (simp add: uniform_pick_def pick_def step_def)
  have "0 \<le> step" using assms(2,4) by (simp add: step_def)
  then have "0 \<le> py_int (fl (real i * step))" for i using assms(4) by (simp add: py_int_nonneg)
  then have "set pick \<subseteq> set xs"
    using assms(1) by (auto simp: pick_def nat_less_iff min_less_iff_disj intro!: nth_mem)
  moreover have "pick \<noteq> []" using assms(2) by (simp add: pick_def)
  then have "dedup_frames {} pick \<noteq> []" by (cases pick) auto
  ultimately show ?thesis using dedup_frames_props [of "{}" pick] by (auto simp: eq)
qed (use assms in \<open>simp add: uniform_pick_def\<close>)

lemma bucket_best_Some:
  assumes "bucket_best cmp bucket xs b = Some m"
  shows "m \<in> set xs \<and> bucket m = int b \<and> (\<forall>s \<in> set xs. bucket s = int b \<longrightarrow> cmp s \<le> cmp m)"
proof -
  obtain s ss where f: "filter (\<lambda>s. bucket s = int b) xs = s # ss" and m: "m = max_by cmp s ss"
    using assms by (auto simp: bucket_best_def split: list.splits)
  have "m \<in> set (s # ss)" using max_by_in [of cmp s ss] by (simp add: m)
  moreover have "\<forall>x \<in> set (s # ss). cmp x \<le> cmp m" using max_by_ge [of cmp s ss] by (simp add: m)
  ultimately show ?thesis unfolding f [symmetric] by auto
qed

lemma bucket_best_None: "bucket_best cmp bucket xs b = None \<longleftrightarrow> (\<forall>s \<in> set xs. bucket s \<noteq> int b)"
proof -
  have "bucket_best cmp bucket xs b = None \<longleftrightarrow> filter (\<lambda>s. bucket s = int b) xs = []"
    by (cases "filter (\<lambda>s. bucket s = int b) xs") (simp_all add: bucket_best_def)
  then show ?thesis by (simp add: filter_empty_conv)
qed

lemma bests_props:
  fixes cmp bucket xs n
  defines "bests \<equiv> List.map_filter (bucket_best cmp bucket xs) [0..<n]"
  shows "set bests \<subseteq> set xs" and "length bests \<le> n"
    and "distinct (map fs_frame_index xs) \<Longrightarrow> distinct (map fs_frame_index bests)"
    and "s \<in> set xs \<Longrightarrow> 0 \<le> bucket s \<Longrightarrow> bucket s < int n \<Longrightarrow>
      \<exists>m \<in> set bests. bucket m = bucket s \<and> cmp s \<le> cmp m"
proof -
  show "set bests \<subseteq> set xs"
    unfolding bests_def by (auto simp: map_filter_def) (metis bucket_best_Some option.sel)
  show "length bests \<le> n"
    unfolding bests_def map_filter_def by (simp, metis diff_zero length_filter_le length_upt)
  have d: "distinct (map bucket bests)"
  proof -
    have "map bucket (List.map_filter (bucket_best cmp bucket xs) bs) =
        map int (filter (\<lambda>b. bucket_best cmp bucket xs b \<noteq> None) bs)" for bs
      by (induction bs) (auto simp: List.map_filter_simps bucket_best_Some split: option.splits)
    then show ?thesis by (simp add: bests_def distinct_map distinct_filter)
  qed
  show "distinct (map fs_frame_index bests)" if "distinct (map fs_frame_index xs)"
    using d that \<open>set bests \<subseteq> set xs\<close> by (auto simp: distinct_map intro: inj_on_subset)
  show "\<exists>m \<in> set bests. bucket m = bucket s \<and> cmp s \<le> cmp m"
    if s: "s \<in> set xs" "0 \<le> bucket s" "bucket s < int n"
  proof -
    define b where "b = nat (bucket s)"
    have b: "bucket s = int b" "b < n" using s by (auto simp: b_def)
    with s(1) obtain m where m: "bucket_best cmp bucket xs b = Some m"
      using bucket_best_None [of cmp bucket xs b] by blast
    then have "m \<in> set bests" using b(2) by (force simp: bests_def map_filter_def)
    with bucket_best_Some [OF m] s(1) b(1) show ?thesis by auto
  qed
qed

lemma by_score_props [simp]:
  "set (by_score cmp xs) = set xs" "length (by_score cmp xs) = length xs"
  "distinct (map fs_frame_index (by_score cmp xs)) = distinct (map fs_frame_index xs)"
  by (simp_all add: by_score_def distinct_map_sort_key)

lemma length_minus_bests:
  assumes "distinct (map fs_frame_index xs)" and "set bests \<subseteq> set xs"
    and "distinct (map fs_frame_index bests)"
  shows "length (filter (\<lambda>s. fs_frame_index s \<notin> fs_frame_index ` set bests) xs) + length bests = length xs"
proof -
  have "fs_frame_index ` set xs - fs_frame_index ` set bests =
      fs_frame_index ` set (filter (\<lambda>s. fs_frame_index s \<notin> fs_frame_index ` set bests) xs)" by auto
  moreover have len: "length ys = card (fs_frame_index ` set ys)" if "distinct (map fs_frame_index ys)" for ys
    using distinct_card [OF that] by simp
  moreover have "card (fs_frame_index ` set bests) \<le> card (fs_frame_index ` set xs)"
    using assms(2) by (intro card_mono image_mono) auto
  ultimately show ?thesis
    using assms len [of xs] len [of bests] len [OF distinct_map_filter [OF assms(1)]]
      card_Diff_subset [of "fs_frame_index ` set bests" "fs_frame_index ` set xs"]
    by (simp add: image_mono)
qed

lemma bins_pick_props:
  assumes "distinct (map fs_frame_index xs)" and "xs \<noteq> []" and "0 < k"
    and "set xs \<subseteq> set ordered" and "sorted (map fs_timestamp_ms ordered)"
  shows "set (bins_pick cmp ordered xs k bins) \<subseteq> set xs"
    and "distinct (map fs_frame_index (bins_pick cmp ordered xs k bins))"
    and "length (bins_pick cmp ordered xs k bins) = min (nat k) (length xs)"
    and "s \<in> set xs \<Longrightarrow> nb = max 1 (min (case bins of None \<Rightarrow> k | Some b \<Rightarrow> b) k) \<Longrightarrow>
      t0 = fs_timestamp_ms (hd ordered) \<Longrightarrow>
      sp = max 1 (fs_timestamp_ms (last ordered) - t0 + 1) \<Longrightarrow>
      \<exists>m \<in> set (bins_pick cmp ordered xs k bins).
        bucket_of nb t0 sp m = bucket_of nb t0 sp s \<and> cmp s \<le> cmp m"
proof -
  define n where "n = max 1 (min (case bins of None \<Rightarrow> k | Some b \<Rightarrow> b) k)"
  define t where "t = fs_timestamp_ms (hd ordered)"
  define d where "d = max 1 (fs_timestamp_ms (last ordered) - t + 1)"
  define bests where "bests = List.map_filter (bucket_best cmp (bucket_of n t d) xs) [0..<nat n]"
  define rest where "rest = by_score cmp (filter (\<lambda>s. fs_frame_index s \<notin> fs_frame_index ` set bests) xs)"
  have eq: "bins_pick cmp ordered xs k bins = bests @ take (nat k - length bests) rest"
    by (simp add: bins_pick_def Let_def bests_def rest_def n_def t_def d_def nat_diff_distrib max_def)
  note b = bests_props [where cmp = cmp and bucket = "bucket_of n t d" and xs = xs and n = "nat n", folded bests_def]
  have n: "1 \<le> n" "n \<le> k" using assms(3) by (auto simp: n_def)
  then have len: "length bests \<le> nat k" using b(2) by (meson le_trans nat_mono)
  have total: "length rest + length bests = length xs"
    using length_minus_bests [OF assms(1) b(1) b(3) [OF assms(1)]] by (simp add: rest_def)
  show "set (bins_pick cmp ordered xs k bins) \<subseteq> set xs"
    using b(1) set_take_subset [of _ rest] by (fastforce simp: eq rest_def)
  show "length (bins_pick cmp ordered xs k bins) = min (nat k) (length xs)"
    using len total by (simp add: eq)
  have "distinct (map fs_frame_index rest)"
    using assms(1) by (simp add: rest_def distinct_map_filter)
  then have "distinct (map fs_frame_index (take (nat k - length bests) rest))"
    by (simp flip: take_map)
  moreover have "fs_frame_index ` set (take (nat k - length bests) rest) \<inter> fs_frame_index ` set bests = {}"
    using set_take_subset [of "nat k - length bests" rest] by (fastforce simp: rest_def)
  ultimately show "distinct (map fs_frame_index (bins_pick cmp ordered xs k bins))"
    using b(3) [OF assms(1)] by (auto simp: eq)
  show "\<exists>m \<in> set (bins_pick cmp ordered xs k bins). bucket_of nb t0 sp m = bucket_of nb t0 sp s \<and> cmp s \<le> cmp m"
    if s: "s \<in> set xs" and "nb = max 1 (min (case bins of None \<Rightarrow> k | Some b \<Rightarrow> b) k)"
      "t0 = fs_timestamp_ms (hd ordered)" "sp = max 1 (fs_timestamp_ms (last ordered) - t0 + 1)"
  proof -
    have e: "nb = n" "t0 = t" "sp = d" using that by (simp_all add: n_def t_def d_def)
    have "t \<le> fs_timestamp_ms s"
      using s assms(4,5) by (cases ordered) (auto simp: t_def)
    then have "0 \<le> bucket_of n t d s" and "bucket_of n t d s < int (nat n)"
      using n(1) by (auto simp: bucket_of_def d_def intro!: pos_imp_zdiv_nonneg_iff [THEN iffD2])
    then show ?thesis using b(4) [OF s] unfolding e eq by auto
  qed
qed

section \<open>The selection\<close>

lemma sorted_timestamps: "sorted (map fs_timestamp_ms (sort_key frame_key xs))"
proof -
  have "sorted (map fst (map frame_key (sort_key frame_key xs)))"
    using sorted_sort_key [of frame_key xs] unfolding sorted_map sorted_wrt_map
    by (rule sorted_wrt_mono_rel [rotated]) (auto simp: frame_key_def)
  then show ?thesis by (simp add: frame_key_def comp_def)
qed

text \<open>
  C7. Frame selection is sound for every strategy and any rounding of the scores: from
  frames with distinct indices and a positive budget it returns a non-empty, chronological,
  duplicate-free selection of at most \<open>k\<close> input frames, and frames that fail the quality gate
  appear only when no frame passes it.
\<close>

theorem select_frames_sound:
  assumes "distinct (map fs_frame_index scores)" and "scores \<noteq> []" and "0 < k"
    and "\<And>x. 0 \<le> x \<Longrightarrow> 0 \<le> fl x"
    and "r = select_frames fl scores k strategy wm ws wq min_blur bins"
  shows "r \<noteq> [] \<and> set r \<subseteq> set scores \<and> int (length r) \<le> k \<and> sorted (map frame_key r) \<and>
    distinct (map fs_frame_index r) \<and>
    ((\<forall>s \<in> set r. quality_ok min_blur s) \<or> (\<forall>s \<in> set scores. \<not> quality_ok min_blur s))"
proof -
  define ordered where "ordered = sort_key frame_key scores"
  define el where "el = eligible_frames min_blur ordered"
  define cmp where "cmp = composite fl wm ws wq"
  define picked where "picked = (if strategy = ''uniform'' then uniform_pick fl el k
    else if strategy = ''score'' then take (nat k) (by_score cmp el) else bins_pick cmp ordered el k bins)"
  have r: "r = sort_key frame_key (take (nat k) picked)"
    using assms(2,3,5) by (simp add: select_frames_def Let_def picked_def ordered_def el_def cmp_def)
  have ord: "set ordered = set scores" "ordered \<noteq> []" "distinct (map fs_frame_index ordered)"
    using assms(1,2) by (simp_all add: ordered_def distinct_map_sort_key) (metis set_empty set_sort)
  note el = eligible_frames_props(1) [of min_blur ordered, folded el_def]
    eligible_frames_props(2) [OF ord(2), of min_blur, folded el_def]
    eligible_frames_props(3) [OF ord(3), of min_blur, folded el_def]
  have ts: "sorted (map fs_timestamp_ms ordered)" unfolding ordered_def by (rule sorted_timestamps)
  have "set picked \<subseteq> set el \<and> picked \<noteq> [] \<and> distinct (map fs_frame_index picked)"
  proof (cases "strategy = ''uniform''")
    case False
    have "take (nat k) (by_score cmp el) \<noteq> []"
      using el(2) assms(3) by (metis by_score_props(1) set_empty take_eq_Nil zero_less_nat_eq less_numeral_extra(3))
    moreover have "distinct (map fs_frame_index (take (nat k) (by_score cmp el)))"
      using el(3) by (simp flip: take_map)
    moreover have "bins_pick cmp ordered el k bins \<noteq> []"
      using bins_pick_props(3) [OF el(3,2) assms(3) el(1) ts, of cmp bins] el(2) assms(3)
      by (cases el; cases "nat k") auto
    ultimately show ?thesis
      using False bins_pick_props(1,2) [OF el(3,2) assms(3) el(1) ts] set_take_subset [of "nat k" "by_score cmp el"]
      by (simp add: picked_def)
  qed (use uniform_pick_props [OF el(2) assms(3) el(3), of fl] assms(4) in \<open>simp add: picked_def\<close>)
  moreover from this have "take (nat k) picked \<noteq> []" using assms(3) by simp
  moreover have "distinct (map fs_frame_index (take (nat k) picked))" if "distinct (map fs_frame_index picked)"
    using that by (simp flip: take_map)
  moreover have "sort_key frame_key ys \<noteq> []" if "ys \<noteq> []" for ys
    using that by (metis set_empty set_sort)
  ultimately have "r \<noteq> []" "set r \<subseteq> set el" "distinct (map fs_frame_index r)"
    using set_take_subset [of "nat k" picked] by (auto simp: r distinct_map_sort_key)
  moreover have "int (length r) \<le> k" using assms(3) by (simp add: r)
  moreover have "sorted (map frame_key r)" by (simp add: r)
  ultimately show ?thesis
    using el(1) ord(1) eligible_frames_props(4) [of min_blur ordered, folded el_def] by auto
qed

theorem select_frames_sound_witness:
  "select_frames (\<lambda>x. x) [\<lparr>fs_frame_index = 0, fs_timestamp_ms = 0, fs_motion = 0, fs_scene = 0,
     fs_blur = 100, fs_brightness = 100\<rparr>] 4 ''uniform'' 1 1 1 50 None \<noteq> []"
  using select_frames_sound [of "[\<lparr>fs_frame_index = 0, fs_timestamp_ms = 0, fs_motion = 0, fs_scene = 0,
     fs_blur = 100, fs_brightness = 100\<rparr>]" 4 "\<lambda>x. x" _ "''uniform''" 1 1 1 50 None, OF _ _ _ _ refl]
  by simp

text \<open>
  C9. The default strategy spends the whole budget and covers time: it returns exactly
  \<open>min k\<close> of the number of eligible frames, and for every eligible frame the selection holds
  a frame of the same time bucket with at least its composite score.
\<close>

theorem select_frames_bins_coverage:
  assumes "distinct (map fs_frame_index scores)" and "scores \<noteq> []" and "0 < k"
    and "strategy \<notin> {''uniform'', ''score''}"
    and "r = select_frames fl scores k strategy wm ws wq min_blur bins"
    and "ordered = sort_key frame_key scores" and "eligible = eligible_frames min_blur ordered"
    and "nb = max 1 (min (case bins of None \<Rightarrow> k | Some b \<Rightarrow> b) k)"
    and "t0 = fs_timestamp_ms (hd ordered)"
    and "sp = max 1 (fs_timestamp_ms (last ordered) - t0 + 1)"
  shows "int (length r) = min k (int (length eligible)) \<and>
    (\<forall>s \<in> set eligible. \<exists>m \<in> set r. bucket_of nb t0 sp m = bucket_of nb t0 sp s \<and>
      composite fl wm ws wq s \<le> composite fl wm ws wq m)"
proof -
  define cmp where "cmp = composite fl wm ws wq"
  let ?p = "bins_pick cmp ordered eligible k bins"
  have ord: "ordered \<noteq> []" "distinct (map fs_frame_index ordered)"
    using assms(1,2,6) by (simp_all add: distinct_map_sort_key) (metis set_empty set_sort)
  have ts: "sorted (map fs_timestamp_ms ordered)" unfolding assms(6) by (rule sorted_timestamps)
  note el = eligible_frames_props(1) [of min_blur ordered, folded assms(7)]
    eligible_frames_props(2) [OF ord(1), of min_blur, folded assms(7)]
    eligible_frames_props(3) [OF ord(2), of min_blur, folded assms(7)]
  note b = bins_pick_props [OF el(3,2) assms(3) el(1) ts, where cmp = cmp and bins = bins]
  have "r = sort_key frame_key ?p"
    using assms(2-7) b(3) by (simp add: select_frames_def Let_def cmp_def)
  then show ?thesis using b(3) b(4) [OF _ assms(8-10)] assms(3) by (simp add: cmp_def)
qed

definition ex_frames :: "frame_score list" where
  "ex_frames = map (\<lambda>i. \<lparr>fs_frame_index = i, fs_timestamp_ms = 100 * i, fs_motion = 1 / 2, fs_scene = 0,
     fs_blur = 100, fs_brightness = 100\<rparr>) [0, 1, 2, 3]"

theorem select_frames_bins_coverage_witness:
  "int (length (select_frames (\<lambda>x. x) ex_frames 2 ''bins_then_score'' 1 1 1 50 None)) =
    min 2 (int (length (eligible_frames 50 (sort_key frame_key ex_frames))))"
  by (rule select_frames_bins_coverage [OF _ _ _ _ refl refl refl refl refl refl, THEN conjunct1])
    (simp_all add: ex_frames_def)

text \<open>The score strategy returns the best-scored eligible frames.\<close>

lemma select_frames_score_top:
  assumes "s \<in> set (take n (by_score cmp xs))" and "u \<in> set (drop n (by_score cmp xs))"
  shows "fst (cmp u) \<le> fst (cmp s)"
proof -
  let ?key = "\<lambda>s. (- fst (cmp s), - snd (cmp s))"
  have "sorted (map ?key (take n (by_score cmp xs) @ drop n (by_score cmp xs)))"
    by (simp add: by_score_def)
  then have "?key s \<le> ?key u" using assms unfolding map_append sorted_append by auto
  then show ?thesis by auto
qed

end
