(* ===== verification/Cctv_Ranking.thy ===== *)
theory Cctv_Ranking
  imports Cctv_Domain Cctv_Float
begin

text \<open>
  Search ranking (\<^verbatim>\<open>domain/ranking.py\<close>) and retrieval metrics (\<^verbatim>\<open>domain/metrics.py\<close>). A Python
  dict is an association list in insertion order with distinct keys. Floats are rounded by
  \<open>fl\<close> after each operation; strings compare by code point.
\<close>

section \<open>Dicts\<close>

fun dict_set :: "'k \<Rightarrow> 'v \<Rightarrow> ('k \<times> 'v) list \<Rightarrow> ('k \<times> 'v) list" where
  "dict_set k v [] = [(k, v)]"
| "dict_set k v ((k', v') # d) = (if k = k' then (k, v) # d else (k', v') # dict_set k v d)"

lemma map_of_dict_set: "map_of (dict_set k v d) = (map_of d)(k \<mapsto> v)"
  by (induction k v d rule: dict_set.induct) (auto simp: fun_eq_iff)

lemma keys_dict_set: "fst ` set (dict_set k v d) = insert k (fst ` set d)"
  by (induction k v d rule: dict_set.induct) auto

lemma distinct_dict_set: "distinct (map fst d) \<Longrightarrow> distinct (map fst (dict_set k v d))"
  by (induction k v d rule: dict_set.induct) (auto simp: keys_dict_set)

section \<open>Channels\<close>

definition cosine_similarity :: "(real \<Rightarrow> real) \<Rightarrow> real list \<Rightarrow> real list \<Rightarrow> real" where
  "cosine_similarity fl a b =
    (if a = [] \<or> b = [] \<or> length a \<noteq> length b then 0
     else let (dot, norm_a, norm_b) = fold (\<lambda>(x, y) (d, na, nb).
            (fl (d + fl (x * y)), fl (na + fl (x * x)), fl (nb + fl (y * y)))) (zip a b) (0, 0, 0)
     in if norm_a \<le> 0 \<or> norm_b \<le> 0 then 0
     else fl (dot / fl (fl (sqrt norm_a) * fl (sqrt norm_b))))"

definition to_rank_map :: "(string \<times> real) list \<Rightarrow> (string \<times> int) list" where
  "to_rank_map scores =
    (let ordered = sort_key (\<lambda>kv. (- snd kv, fst kv)) scores
     in map (\<lambda>i. (fst (ordered ! i), int i + 1)) [0..<length ordered])"

record rrf_weights =
  rw_k :: int
  rw_static_weight :: real
  rw_dynamic_weight :: real
  rw_fts_weight :: real
  rw_vector_weight :: real
  rw_max_tag_boost :: real
  rw_max_analysis_scale_boost :: real
  rw_config_version :: string

record channel_inputs =
  ci_static_ranks :: "(string \<times> int) list"
  ci_dynamic_ranks :: "(string \<times> int) list"
  ci_tag_boosts :: "(string \<times> real) list"
  ci_scale_boosts :: "(string \<times> real) list"
  ci_vector_ranks :: "(string \<times> int) list"
  ci_static_vector_scores :: "(string \<times> real) list"
  ci_dynamic_vector_scores :: "(string \<times> real) list"

text \<open>The fields of \<^verbatim>\<open>score_detail\<close>; a key that the source leaves out is \<open>None\<close>.\<close>

record score_detail =
  sd_static_rank :: "int option"
  sd_dynamic_rank :: "int option"
  sd_static_component :: real
  sd_dynamic_component :: real
  sd_tag_boost :: real
  sd_analysis_scale_boost :: real
  sd_rrf_score :: real
  sd_final_score :: real
  sd_config_version :: string
  sd_vector_rank :: "int option"
  sd_vector_component :: "real option"
  sd_static_score :: "real option"
  sd_dynamic_score :: "real option"

section \<open>Fusion\<close>

text \<open>A rank of 0 is falsy and counts as absent; \<open>rank + k = 0\<close> raises.\<close>

definition rrf_component :: "(real \<Rightarrow> real) \<Rightarrow> real \<Rightarrow> int \<Rightarrow> int option \<Rightarrow> exn + real" where
  "rrf_component fl weight k rank =
    (case rank of
       None \<Rightarrow> Inr 0
     | Some r \<Rightarrow> if r = 0 then Inr 0
         else if r + k = 0 then Inl (OtherException [''ZeroDivisionError''] ''float division by zero'')
         else Inr (fl (weight * fl (1 / fl (of_int (r + k))))))"

definition dict_get :: "('k \<times> 'v) list \<Rightarrow> 'k \<Rightarrow> 'v \<Rightarrow> 'v" where
  "dict_get d k dflt = (case map_of d k of None \<Rightarrow> dflt | Some v \<Rightarrow> v)"

definition rrf_one ::
  "(real \<Rightarrow> real) \<Rightarrow> channel_inputs \<Rightarrow> rrf_weights \<Rightarrow> string \<Rightarrow> exn + (real \<times> score_detail)" where
  "rrf_one fl inputs weights rid =
    (let s_rank = map_of (ci_static_ranks inputs) rid;
         d_rank = map_of (ci_dynamic_ranks inputs) rid;
         v_rank = map_of (ci_vector_ranks inputs) rid
     in case rrf_component fl (rw_static_weight weights) (rw_k weights) s_rank of
       Inl e \<Rightarrow> Inl e
     | Inr static_component \<Rightarrow>
     (case rrf_component fl (rw_dynamic_weight weights) (rw_k weights) d_rank of
       Inl e \<Rightarrow> Inl e
     | Inr dynamic_component \<Rightarrow>
     (case rrf_component fl (rw_vector_weight weights) (rw_k weights) v_rank of
       Inl e \<Rightarrow> Inl e
     | Inr vector_component \<Rightarrow>
       let tag_boost = min (rw_max_tag_boost weights) (dict_get (ci_tag_boosts inputs) rid 0);
           scale_boost = min (rw_max_analysis_scale_boost weights) (dict_get (ci_scale_boosts inputs) rid 0);
           rrf_score = fl (fl (static_component + dynamic_component) + vector_component);
           final = fl (fl (rrf_score + tag_boost) + scale_boost)
       in Inr (final,
         \<lparr>sd_static_rank = s_rank, sd_dynamic_rank = d_rank,
          sd_static_component = py_round fl 6 static_component,
          sd_dynamic_component = py_round fl 6 dynamic_component,
          sd_tag_boost = py_round fl 6 tag_boost,
          sd_analysis_scale_boost = py_round fl 6 scale_boost,
          sd_rrf_score = py_round fl 6 rrf_score,
          sd_final_score = py_round fl 6 final,
          sd_config_version = rw_config_version weights,
          sd_vector_rank = v_rank,
          sd_vector_component = map_option (\<lambda>_. py_round fl 6 vector_component) v_rank,
          sd_static_score = map_option (py_round fl 6) (map_of (ci_static_vector_scores inputs) rid),
          sd_dynamic_score = map_option (py_round fl 6) (map_of (ci_dynamic_vector_scores inputs) rid)\<rparr>))))"

fun rrf_loop ::
  "(real \<Rightarrow> real) \<Rightarrow> channel_inputs \<Rightarrow> rrf_weights \<Rightarrow> string list \<Rightarrow> (string \<times> real \<times> score_detail) list
    \<Rightarrow> exn + (string \<times> real \<times> score_detail) list" where
  "rrf_loop fl inputs weights [] result = Inr result"
| "rrf_loop fl inputs weights (rid # rids) result =
    (case rrf_one fl inputs weights rid of
       Inl e \<Rightarrow> Inl e
     | Inr x \<Rightarrow> rrf_loop fl inputs weights rids (dict_set rid x result))"

definition rrf_fuse ::
  "(real \<Rightarrow> real) \<Rightarrow> string list \<Rightarrow> channel_inputs \<Rightarrow> rrf_weights
    \<Rightarrow> exn + (string \<times> real \<times> score_detail) list" where
  "rrf_fuse fl candidate_ids inputs weights = rrf_loop fl inputs weights candidate_ids []"

definition order_candidates ::
  "(string \<times> real \<times> score_detail) list \<Rightarrow> (string \<times> real \<times> score_detail) list" where
  "order_candidates fused = sort_key (\<lambda>x. (- fst (snd x), fst x)) fused"

section \<open>Metrics\<close>

text \<open>\<^verbatim>\<open>xs[:k]\<close>; a negative \<open>k\<close> counts from the end.\<close>

definition slice_to :: "int \<Rightarrow> 'a list \<Rightarrow> 'a list" where
  "slice_to k xs = (if 0 \<le> k then take (nat k) xs else take (length xs - nat (- k)) xs)"

definition precision_at_k :: "(real \<Rightarrow> real) \<Rightarrow> string list \<Rightarrow> string set \<Rightarrow> int \<Rightarrow> real" where
  "precision_at_k fl ranked_ids relevant k =
    (if k \<le> 0 then 0
     else let top = slice_to k ranked_ids in
       if top = [] then 0
       else fl (real (length (filter (\<lambda>rid. rid \<in> relevant) top)) / real (length top)))"

definition recall_at_k :: "(real \<Rightarrow> real) \<Rightarrow> string list \<Rightarrow> string set \<Rightarrow> int \<Rightarrow> real" where
  "recall_at_k fl ranked_ids relevant k =
    (if relevant = {} then 0
     else fl (real (card (set (slice_to k ranked_ids) \<inter> relevant)) / real (card relevant)))"

fun reciprocal_rank_from :: "(real \<Rightarrow> real) \<Rightarrow> nat \<Rightarrow> string list \<Rightarrow> string set \<Rightarrow> real" where
  "reciprocal_rank_from fl i [] relevant = 0"
| "reciprocal_rank_from fl i (rid # rids) relevant =
    (if rid \<in> relevant then fl (1 / real (i + 1)) else reciprocal_rank_from fl (i + 1) rids relevant)"

definition reciprocal_rank :: "(real \<Rightarrow> real) \<Rightarrow> string list \<Rightarrow> string set \<Rightarrow> real" where
  "reciprocal_rank fl ranked_ids relevant = reciprocal_rank_from fl 0 ranked_ids relevant"

record query_metrics =
  qm_query_id :: string
  qm_precision_at_k :: real
  qm_recall_at_k :: real
  qm_reciprocal_rank :: real

definition evaluate_query ::
  "(real \<Rightarrow> real) \<Rightarrow> string \<Rightarrow> string list \<Rightarrow> string set \<Rightarrow> int \<Rightarrow> query_metrics" where
  "evaluate_query fl query_id ranked_ids relevant k =
    \<lparr>qm_query_id = query_id,
     qm_precision_at_k = precision_at_k fl ranked_ids relevant k,
     qm_recall_at_k = recall_at_k fl ranked_ids relevant k,
     qm_reciprocal_rank = reciprocal_rank fl ranked_ids relevant\<rparr>"

section \<open>Ranks\<close>

lemma rank_of_nth:
  assumes "distinct (map fst scores)" and "ordered = sort_key (\<lambda>kv. (- snd kv, fst kv)) scores"
    and "i < length ordered"
  shows "map_of (to_rank_map scores) (fst (ordered ! i)) = Some (int i + 1)"
proof -
  have eq: "to_rank_map scores = map (\<lambda>i. (fst (ordered ! i), int i + 1)) [0..<length ordered]"
    unfolding to_rank_map_def Let_def assms(2) [symmetric] ..
  have "map fst (to_rank_map scores) = map fst ordered"
    unfolding eq by (rule nth_equalityI) simp_all
  moreover have "distinct (map fst ordered)" using assms(1,2) by (simp add: distinct_map_sort_key)
  ultimately have "distinct (map fst (to_rank_map scores))" by simp
  then show ?thesis using assms(3) by (auto simp: eq)
qed

text \<open>
  Ranks order records by relevance: over a dict of scores, the rank of a record is below
  the rank of another exactly when its score is higher, or equal with a smaller record id;
  the ranks are exactly 1 to the number of records.
\<close>

theorem rank_map_orders_by_relevance:
  assumes "distinct (map fst scores)" and "(a, x) \<in> set scores" and "(b, y) \<in> set scores"
  shows "\<exists>i j. map_of (to_rank_map scores) a = Some i \<and> map_of (to_rank_map scores) b = Some j \<and>
    1 \<le> i \<and> i \<le> int (length scores) \<and> (i < j \<longleftrightarrow> y < x \<or> (x = y \<and> a < b))"
proof -
  let ?key = "\<lambda>kv :: string \<times> real. (- snd kv, fst kv)"
  define ordered where "ordered = sort_key ?key scores"
  obtain i j where i: "i < length ordered" "ordered ! i = (a, x)" and j: "j < length ordered" "ordered ! j = (b, y)"
    using assms(2,3) by (metis in_set_conv_nth ordered_def set_sort)
  have srt: "sorted (map ?key ordered)" by (simp add: ordered_def)
  have dst: "distinct (map ?key ordered)"
    using assms(1) by (auto simp: ordered_def distinct_map_sort_key distinct_map inj_on_def)
  have "i < j \<longleftrightarrow> ?key (a, x) < ?key (b, y)"
  proof -
    have "i < j \<Longrightarrow> ?key (ordered ! i) < ?key (ordered ! j)" if "i < length ordered" "j < length ordered" for i j
      using sorted_nth_mono [OF srt, of i j] nth_eq_iff_index_eq [OF dst, of i j] that by force
    from this [of i j] this [of j i] i j show ?thesis by (metis linorder_less_linear less_asym)
  qed
  then have "i < j \<longleftrightarrow> y < x \<or> (x = y \<and> a < b)" by auto
  moreover have "length ordered = length scores" by (simp add: ordered_def)
  ultimately show ?thesis
    using rank_of_nth [OF assms(1) ordered_def i(1)] rank_of_nth [OF assms(1) ordered_def j(1)] i j by auto
qed

theorem rank_map_orders_by_relevance_witness:
  "\<exists>i j. map_of (to_rank_map [(''a'', 1), (''b'', 2)]) ''b'' = Some i \<and>
    map_of (to_rank_map [(''a'', 1), (''b'', 2)]) ''a'' = Some j \<and> i < j"
  using rank_map_orders_by_relevance [of "[(''a'', 1), (''b'', 2)]" "''b''" 2 "''a''" 1] by auto

section \<open>Fusion\<close>

context rounding
begin

text \<open>A better rank, or a rank where the other record has none, never lowers a component.\<close>

lemma rrf_component_mono:
  assumes "0 \<le> w" and "0 \<le> k"
    and "\<forall>r. p = Some r \<longrightarrow> 1 \<le> r" and "\<forall>r. q = Some r \<longrightarrow> 1 \<le> r"
    and "\<forall>r. q = Some r \<longrightarrow> (\<exists>r'. p = Some r' \<and> r' \<le> r)"
  shows "\<exists>x y. rrf_component fl w k p = Inr x \<and> rrf_component fl w k q = Inr y \<and> 0 \<le> y \<and> y \<le> x"
proof -
  have comp: "rrf_component fl w k (Some r) = Inr (fl (w * fl (1 / fl (of_int (r + k)))))" if "1 \<le> r" for r
    using that assms(2) by (simp add: rrf_component_def)
  have pos: "0 \<le> fl (w * fl (1 / fl (of_int (r + k))))" if "1 \<le> r" for r
    using that assms(1,2) by (intro fl_nonneg mult_nonneg_nonneg divide_nonneg_nonneg) simp_all
  have ge1: "1 \<le> fl (of_int (r + k))" if "1 \<le> r" for r
    using fl_mono [of 1 "of_int (r + k)"] that assms(2) by (simp add: fl_1)
  have mono: "fl (w * fl (1 / fl (of_int (r + k)))) \<le> fl (w * fl (1 / fl (of_int (r' + k))))"
    if "1 \<le> r'" "r' \<le> r" for r r'
  proof -
    have "fl (of_int (r' + k)) \<le> fl (of_int (r + k))" using that by (intro fl_mono) simp
    then have "1 / fl (of_int (r + k)) \<le> 1 / fl (of_int (r' + k))"
      using ge1 [of r'] that by (intro divide_left_mono mult_pos_pos) linarith+
    with assms(1) show ?thesis by (intro fl_mono mult_left_mono)
  qed
  show ?thesis
  proof (cases q)
    case None
    then have "rrf_component fl w k q = Inr 0" by (simp add: rrf_component_def)
    moreover have "\<exists>x. rrf_component fl w k p = Inr x \<and> 0 \<le> x"
      using comp pos assms(3) by (cases p) (auto simp: rrf_component_def)
    ultimately show ?thesis by auto
  next
    case (Some r)
    with assms(3-5) obtain r' where "p = Some r'" "1 \<le> r'" "r' \<le> r" "1 \<le> r" by auto
    with Some comp mono pos show ?thesis by auto
  qed
qed

lemma channel_mono:
  assumes "0 \<le> w" and "0 \<le> k"
    and "(\<forall>r \<in> snd ` set ranks. 1 \<le> r) \<and>
      (\<forall>r. map_of ranks b = Some r \<longrightarrow> (\<exists>r'. map_of ranks a = Some r' \<and> r' \<le> r))"
  shows "\<exists>x y. rrf_component fl w k (map_of ranks a) = Inr x \<and> rrf_component fl w k (map_of ranks b) = Inr y \<and> y \<le> x"
proof -
  have "(\<forall>r. map_of ranks c = Some r \<longrightarrow> 1 \<le> r)" for c
    using assms(3) by (auto dest!: map_of_SomeD)
  then show ?thesis
    using rrf_component_mono [OF assms(1,2), of "map_of ranks a" "map_of ranks b"] assms(3) by blast
qed

lemma rrf_one_mono:
  assumes "0 \<le> rw_static_weight w" and "0 \<le> rw_dynamic_weight w" and "0 \<le> rw_vector_weight w" and "0 \<le> rw_k w"
    and "\<forall>ranks \<in> {ci_static_ranks c, ci_dynamic_ranks c, ci_vector_ranks c}.
      (\<forall>r \<in> snd ` set ranks. 1 \<le> r) \<and>
      (\<forall>r. map_of ranks b = Some r \<longrightarrow> (\<exists>r'. map_of ranks a = Some r' \<and> r' \<le> r))"
    and "dict_get (ci_tag_boosts c) b 0 \<le> dict_get (ci_tag_boosts c) a 0"
    and "dict_get (ci_scale_boosts c) b 0 \<le> dict_get (ci_scale_boosts c) a 0"
  shows "\<exists>x y da db. rrf_one fl c w a = Inr (x, da) \<and> rrf_one fl c w b = Inr (y, db) \<and> y \<le> x"
proof -
  obtain s s' where s: "rrf_component fl (rw_static_weight w) (rw_k w) (map_of (ci_static_ranks c) a) = Inr s"
    "rrf_component fl (rw_static_weight w) (rw_k w) (map_of (ci_static_ranks c) b) = Inr s'" "s' \<le> s"
    using channel_mono [OF assms(1,4), of "ci_static_ranks c" b a] assms(5) by auto
  obtain d d' where d: "rrf_component fl (rw_dynamic_weight w) (rw_k w) (map_of (ci_dynamic_ranks c) a) = Inr d"
    "rrf_component fl (rw_dynamic_weight w) (rw_k w) (map_of (ci_dynamic_ranks c) b) = Inr d'" "d' \<le> d"
    using channel_mono [OF assms(2,4), of "ci_dynamic_ranks c" b a] assms(5) by auto
  obtain v v' where v: "rrf_component fl (rw_vector_weight w) (rw_k w) (map_of (ci_vector_ranks c) a) = Inr v"
    "rrf_component fl (rw_vector_weight w) (rw_k w) (map_of (ci_vector_ranks c) b) = Inr v'" "v' \<le> v"
    using channel_mono [OF assms(3,4), of "ci_vector_ranks c" b a] assms(5) by auto
  have "fl (fl (fl (fl (s' + d') + v') + min (rw_max_tag_boost w) (dict_get (ci_tag_boosts c) b 0)) +
        min (rw_max_analysis_scale_boost w) (dict_get (ci_scale_boosts c) b 0))
      \<le> fl (fl (fl (fl (s + d) + v) + min (rw_max_tag_boost w) (dict_get (ci_tag_boosts c) a 0)) +
        min (rw_max_analysis_scale_boost w) (dict_get (ci_scale_boosts c) a 0))"
    using s(3) d(3) v(3) assms(6,7) by (intro fl_mono add_mono min.mono) simp_all
  then show ?thesis by (simp add: rrf_one_def Let_def s(1,2) d(1,2) v(1,2))
qed

end

lemma rrf_loop_result:
  "rrf_loop fl c w rids acc = Inr res \<Longrightarrow>
    (\<forall>rid. map_of res rid = (if rid \<in> set rids then (case rrf_one fl c w rid of Inl _ \<Rightarrow> None | Inr x \<Rightarrow> Some x)
      else map_of acc rid)) \<and> (distinct (map fst acc) \<longrightarrow> distinct (map fst res)) \<and>
    fst ` set res = fst ` set acc \<union> set rids"
proof (induction rids arbitrary: acc)
  case (Cons rid rids)
  then obtain x where x: "rrf_one fl c w rid = Inr x" "rrf_loop fl c w rids (dict_set rid x acc) = Inr res"
    by (auto split: sum.splits)
  with Cons.IH [OF x(2)] show ?case by (auto simp: map_of_dict_set keys_dict_set distinct_dict_set)
qed auto

text \<open>
  C8. Fusion respects dominance, in binary64: with non-negative weights and \<open>k\<close> and ranks
  from 1, a candidate that is ranked at least as well as another in every channel (static,
  dynamic, vector) and boosted at least as much is never placed behind it, unless their
  final scores are equal and its record id is the larger.
\<close>

theorem rrf_respects_dominance:
  assumes "rrf_fuse fl64 ids c w = Inr fused" and "a \<in> set ids" and "b \<in> set ids"
    and "0 \<le> rw_static_weight w" and "0 \<le> rw_dynamic_weight w" and "0 \<le> rw_vector_weight w" and "0 \<le> rw_k w"
    and "\<forall>ranks \<in> {ci_static_ranks c, ci_dynamic_ranks c, ci_vector_ranks c}.
      (\<forall>r \<in> snd ` set ranks. 1 \<le> r) \<and>
      (\<forall>r. map_of ranks b = Some r \<longrightarrow> (\<exists>r'. map_of ranks a = Some r' \<and> r' \<le> r))"
    and "dict_get (ci_tag_boosts c) b 0 \<le> dict_get (ci_tag_boosts c) a 0"
    and "dict_get (ci_scale_boosts c) b 0 \<le> dict_get (ci_scale_boosts c) a 0"
    and "i < length (order_candidates fused)" and "fst (order_candidates fused ! i) = a"
    and "j < length (order_candidates fused)" and "fst (order_candidates fused ! j) = b" and "a \<noteq> b"
  shows "i < j \<or> fst (snd (order_candidates fused ! i)) = fst (snd (order_candidates fused ! j)) \<and> b < a"
proof -
  let ?o = "order_candidates fused" and ?key = "\<lambda>x :: string \<times> real \<times> score_detail. (- fst (snd x), fst x)"
  obtain x y da db where one: "rrf_one fl64 c w a = Inr (x, da)" "rrf_one fl64 c w b = Inr (y, db)" "y \<le> x"
    using ieee.rrf_one_mono [OF assms(4-10)] by blast
  note res = rrf_loop_result [OF assms(1) [unfolded rrf_fuse_def]]
  have dst: "distinct (map fst fused)" using res by simp
  have "map_of fused a = Some (x, da)" "map_of fused b = Some (y, db)" using res one assms(2,3) by simp_all
  moreover have "?o ! i \<in> set fused" "?o ! j \<in> set fused"
    using nth_mem [OF assms(11)] nth_mem [OF assms(13)] by (simp_all add: order_candidates_def)
  ultimately have oi: "?o ! i = (a, x, da)" and oj: "?o ! j = (b, y, db)"
    using assms(12,14) dst by (metis map_of_is_SomeI option.inject prod.collapse)+
  have "?key (?o ! j) \<le> ?key (?o ! i)" if "j \<le> i"
    using sorted_nth_mono [of "map ?key ?o" j i] assms(11) that by (simp add: order_candidates_def)
  with one(3) assms(15) show ?thesis by (cases "i < j") (auto simp: oi oj)
qed

definition ex_channels :: channel_inputs where
  "ex_channels = \<lparr>ci_static_ranks = [(''b'', 1)], ci_dynamic_ranks = [], ci_tag_boosts = [], ci_scale_boosts = [],
     ci_vector_ranks = [], ci_static_vector_scores = [], ci_dynamic_vector_scores = []\<rparr>"

definition ex_weights :: rrf_weights where
  "ex_weights = \<lparr>rw_k = 0, rw_static_weight = 1, rw_dynamic_weight = 1, rw_fts_weight = 1 / 2,
     rw_vector_weight = 1, rw_max_tag_boost = 1 / 5, rw_max_analysis_scale_boost = 1 / 5,
     rw_config_version = ''search-v1''\<rparr>"

theorem rrf_respects_dominance_witness:
  "\<exists>fused. rrf_fuse fl64 [''a'', ''b''] ex_channels ex_weights = Inr fused \<and> length (order_candidates fused) = 2 \<and>
    (\<forall>i < 2. \<forall>j < 2. fst (order_candidates fused ! i) = ''b'' \<and> fst (order_candidates fused ! j) = ''a'' \<longrightarrow> i < j)"
proof -
  note defs = rrf_one_def rrf_component_def dict_get_def ex_channels_def ex_weights_def Let_def ieee.fl_0 ieee.fl_1
  obtain da where a: "rrf_one fl64 ex_channels ex_weights ''a'' = Inr (0, da)" by (simp add: defs)
  obtain db where b: "rrf_one fl64 ex_channels ex_weights ''b'' = Inr (1, db)" by (simp add: defs)
  define fused where "fused = [(''a'', 0 :: real, da), (''b'', 1, db)]"
  have f: "rrf_fuse fl64 [''a'', ''b''] ex_channels ex_weights = Inr fused"
    by (simp add: rrf_fuse_def a b fused_def)
  have len: "length (order_candidates fused) = 2" by (simp add: order_candidates_def fused_def)
  have "i < j" if "i < 2" "j < 2" "fst (order_candidates fused ! i) = ''b''" "fst (order_candidates fused ! j) = ''a''" for i j
    using rrf_respects_dominance [OF f, of "''b''" "''a''" i j] that len
    by (auto simp: ex_channels_def ex_weights_def dict_get_def order_candidates_def fused_def nth_Cons' split: if_splits)
  with f len show ?thesis by blast
qed

section \<open>Metrics\<close>

text \<open>
  Retrieval metrics in binary64 are proportions: precision, recall and reciprocal rank
  lie in \<open>[0, 1]\<close>, and recall never drops when \<open>k\<close> grows.
\<close>

theorem metrics_are_proportions:
  assumes "finite relevant" and "0 \<le> k" and "k \<le> k'"
  shows "precision_at_k fl64 ids relevant k \<in> {0..1} \<and> recall_at_k fl64 ids relevant k \<in> {0..1} \<and>
    reciprocal_rank fl64 ids relevant \<in> {0..1} \<and>
    recall_at_k fl64 ids relevant k \<le> recall_at_k fl64 ids relevant k'"
proof -
  have unit: "fl64 (real m / real n) \<in> {0..1}" if "m \<le> n" for m n
    using that by (auto intro!: ieee.fl_nonneg ieee.fl_le_1 simp: divide_le_eq_1)
  have rr: "reciprocal_rank_from fl64 i xs relevant \<in> {0..1}" for i xs
  proof (induction xs arbitrary: i)
    case (Cons x xs)
    then show ?case using unit [of 1 "i + 1"] by auto
  qed simp
  have sub: "card (set (slice_to j ids) \<inter> relevant) \<le> card relevant" for j
    using assms(1) by (simp add: card_mono)
  have "set (slice_to k ids) \<subseteq> set (slice_to k' ids)"
    using assms(2,3) by (simp add: slice_to_def set_take_subset_set_take nat_mono)
  then have "card (set (slice_to k ids) \<inter> relevant) \<le> card (set (slice_to k' ids) \<inter> relevant)"
    using assms(1) by (intro card_mono) auto
  then have "recall_at_k fl64 ids relevant k \<le> recall_at_k fl64 ids relevant k'"
    by (auto simp: recall_at_k_def intro!: ieee.fl_mono divide_right_mono)
  moreover have "precision_at_k fl64 ids relevant k \<in> {0..1}"
    using unit [OF length_filter_le, of "\<lambda>rid. rid \<in> relevant" "slice_to k ids"]
    by (simp add: precision_at_k_def Let_def)
  moreover have "recall_at_k fl64 ids relevant k \<in> {0..1}"
    using unit [OF sub, of k] by (simp add: recall_at_k_def)
  ultimately show ?thesis using rr by (simp add: reciprocal_rank_def)
qed

theorem metrics_are_proportions_witness:
  "recall_at_k fl64 [''a'', ''b''] {''b'', ''c''} 1 \<le> recall_at_k fl64 [''a'', ''b''] {''b'', ''c''} 2"
  using metrics_are_proportions [of "{''b'', ''c''}" 1 2 "[''a'', ''b'']"] by simp

end
