(* ===== verification/Cctv_Text.thy ===== *)
theory Cctv_Text
  imports Cctv_Authz
begin

text \<open>
  The string operations that the search path uses: Python's \<^verbatim>\<open>lower\<close>, \<^verbatim>\<open>split\<close>, \<^verbatim>\<open>isalnum\<close> and
  the substring test, SQLite's \<^verbatim>\<open>lower\<close> and \<^verbatim>\<open>LIKE\<close>, and \<^verbatim>\<open>json.dumps\<close> of a list of strings. A
  character is a code point below 256. The lemmas say what a \<^verbatim>\<open>LIKE '%...%'\<close> filter on the stored
  JSON text finds and what it cannot find.
\<close>

section \<open>Characters\<close>

abbreviation code :: "char \<Rightarrow> nat" where
  "code c \<equiv> of_char c"

definition ascii_lower :: "char \<Rightarrow> char" where
  "ascii_lower c = (if 65 \<le> code c \<and> code c \<le> 90 then char_of (code c + 32) else c)"

definition py_lower_char :: "char \<Rightarrow> char" where
  "py_lower_char c =
    (if 65 \<le> code c \<and> code c \<le> 90 \<or> 192 \<le> code c \<and> code c \<le> 222 \<and> code c \<noteq> 215
     then char_of (code c + 32) else c)"

definition py_lower :: "string \<Rightarrow> string" where
  "py_lower = map py_lower_char"

definition sql_lower :: "string \<Rightarrow> string" where
  "sql_lower = map ascii_lower"

definition py_isspace_char :: "char \<Rightarrow> bool" where
  "py_isspace_char c = (9 \<le> code c \<and> code c \<le> 13 \<or> 28 \<le> code c \<and> code c \<le> 32 \<or> code c = 133 \<or> code c = 160)"

definition py_isalnum_char :: "char \<Rightarrow> bool" where
  "py_isalnum_char c =
    (48 \<le> code c \<and> code c \<le> 57 \<or> 65 \<le> code c \<and> code c \<le> 90 \<or> 97 \<le> code c \<and> code c \<le> 122 \<or>
     code c \<in> {170, 178, 179, 181, 185, 186, 188, 189, 190} \<or>
     192 \<le> code c \<and> code c \<noteq> 215 \<and> code c \<noteq> 247)"

definition py_isalnum :: "string \<Rightarrow> bool" where
  "py_isalnum s = (s \<noteq> [] \<and> list_all py_isalnum_char s)"

text \<open>\<^verbatim>\<open>s.split()\<close>: the maximal runs of non-space characters.\<close>

fun split_from :: "string \<Rightarrow> string \<Rightarrow> string list" where
  "split_from word [] = (if word = [] then [] else [rev word])"
| "split_from word (c # s) =
    (if py_isspace_char c then (if word = [] then [] else [rev word]) @ split_from [] s
     else split_from (c # word) s)"

definition py_split :: "string \<Rightarrow> string list" where
  "py_split s = split_from [] s"

definition query_terms :: "string \<Rightarrow> string list" where
  "query_terms q = py_split (map (\<lambda>c. if c = CHR '','' then CHR '' '' else c) (py_lower q))"

text \<open>\<^verbatim>\<open>t in text\<close> for strings.\<close>

fun contains :: "string \<Rightarrow> string \<Rightarrow> bool" where
  "contains t [] = (t = [])"
| "contains t (c # s) = (take (length t) (c # s) = t \<or> contains t s)"

lemma contains_iff: "contains t s \<longleftrightarrow> (\<exists>u v. s = u @ t @ v)"
proof (induction s)
  case Nil
  then show ?case by auto
next
  case (Cons c s)
  have "(\<exists>u v. c # s = u @ t @ v) \<longleftrightarrow> (\<exists>v. c # s = t @ v) \<or> (\<exists>u v. s = u @ t @ v)"
    by (auto simp: Cons_eq_append_conv)
  moreover have "(\<exists>v. c # s = t @ v) \<longleftrightarrow> take (length t) (c # s) = t"
    by (metis append_eq_conv_conj append_take_drop_id)
  ultimately show ?case using Cons.IH by simp
qed

lemma split_from_nonempty: "[] \<notin> set (split_from word s)"
  by (induction word s rule: split_from.induct) auto

section \<open>SQLite LIKE\<close>

text \<open>
  \<^verbatim>\<open>%\<close> matches any run, \<^verbatim>\<open>_\<close> any character, and letters compare without regard to ASCII case.
\<close>

function like :: "string \<Rightarrow> string \<Rightarrow> bool" where
  "like [] s = (s = [])"
| "like (p # ps) s =
    (if p = CHR ''%'' then like ps s \<or> (case s of [] \<Rightarrow> False | c # s' \<Rightarrow> like (p # ps) s')
     else case s of [] \<Rightarrow> False
       | c # s' \<Rightarrow> (p = CHR ''_'' \<or> ascii_lower p = ascii_lower c) \<and> like ps s')"
  by pat_completeness auto
termination
  by (relation "measure (\<lambda>(p, s). length p + length s)") auto

declare like.simps(2) [simp del]

lemma like_percent: "like (CHR ''%'' # ps) s \<longleftrightarrow> (\<exists>u v. s = u @ v \<and> like ps v)"
proof (induction s)
  case Nil
  then show ?case by (simp add: like.simps(2))
next
  case (Cons c s)
  have "(\<exists>u v. c # s = u @ v \<and> like ps v) \<longleftrightarrow> like ps (c # s) \<or> (\<exists>u v. s = u @ v \<and> like ps v)"
    by (auto simp: Cons_eq_append_conv)
  with Cons.IH show ?case by (simp add: like.simps(2))
qed

lemma like_percent_any [simp]: "like [CHR ''%''] s"
  by (auto simp: like_percent)

lemma like_Cons_plain:
  "p \<noteq> CHR ''%'' \<Longrightarrow> like (p # ps) s \<longleftrightarrow>
   (\<exists>c s'. s = c # s' \<and> (p = CHR ''_'' \<or> ascii_lower p = ascii_lower c) \<and> like ps s')"
  by (cases s) (simp_all add: like.simps(2))

lemma like_append:
  "list_all2 (\<lambda>p c. ascii_lower p = ascii_lower c) ps u \<Longrightarrow> like qs v \<Longrightarrow> like (ps @ qs) (u @ v)"
proof (induction ps u rule: list_all2_induct)
  case Nil
  then show ?case by simp
next
  case (Cons p ps c u)
  show ?case
  proof (cases "p = CHR ''%''")
    case True
    have "like (ps @ qs) (u @ v)" using Cons by simp
    then have "like (CHR ''%'' # ps @ qs) ([c] @ (u @ v))" unfolding like_percent by blast
    with True show ?thesis by simp
  next
    case False
    with Cons show ?thesis by (simp add: like_Cons_plain)
  qed
qed

text \<open>A text contains what \<^verbatim>\<open>LIKE '%p%'\<close> looks for.\<close>

lemma like_contains:
  assumes "list_all2 (\<lambda>p c. ascii_lower p = ascii_lower c) p t" and "contains t s"
  shows "like (CHR ''%'' # p @ [CHR ''%'']) s"
proof -
  obtain u v where s: "s = u @ t @ v" using assms(2) by (auto simp: contains_iff)
  have "like (p @ [CHR ''%'']) (t @ v)" using assms(1) by (rule like_append) simp
  then show ?thesis unfolding like_percent s by blast
qed

text \<open>A character outside ASCII in the pattern has to occur in the text.\<close>

lemma ascii_lower_beyond: "128 \<le> code p \<Longrightarrow> ascii_lower p = ascii_lower c \<Longrightarrow> 128 \<le> code c"
proof -
  assume p: "128 \<le> code p" and eq: "ascii_lower p = ascii_lower c"
  then have "ascii_lower c = p" by (simp add: ascii_lower_def)
  with p have "128 \<le> code (ascii_lower c)" by simp
  then show ?thesis by (auto simp: ascii_lower_def split: if_splits)
qed

lemma like_needs_char:
  "like ps s \<Longrightarrow> p \<in> set ps \<Longrightarrow> 128 \<le> code p \<Longrightarrow> \<exists>c \<in> set s. 128 \<le> code c"
proof (induction ps arbitrary: s)
  case Nil
  then show ?case by simp
next
  case (Cons q ps)
  have q_wild: "code (CHR ''%'') < 128" "code (CHR ''_'') < 128" by simp_all
  show ?case
  proof (cases "q = CHR ''%''")
    case True
    with Cons.prems obtain u v where "s = u @ v" "like ps v" by (auto simp: like_percent)
    moreover have "p \<in> set ps" using Cons.prems True q_wild by auto
    ultimately show ?thesis using Cons.IH Cons.prems(3) by fastforce
  next
    case False
    then obtain c s' where s: "s = c # s'" and c: "q = CHR ''_'' \<or> ascii_lower q = ascii_lower c"
      and rest: "like ps s'"
      using Cons.prems(1) by (auto simp: like_Cons_plain)
    show ?thesis
    proof (cases "p = q")
      case True
      with c Cons.prems(3) q_wild have "ascii_lower q = ascii_lower c" by auto
      with True Cons.prems(3) have "128 \<le> code c" by (blast intro: ascii_lower_beyond)
      then show ?thesis by (simp add: s)
    next
      case False
      with Cons.prems(2) have "p \<in> set ps" by simp
      with Cons.IH rest Cons.prems(3) s show ?thesis by auto
    qed
  qed
qed

section \<open>JSON text of a list of strings\<close>

text \<open>\<^verbatim>\<open>json.dumps(tags)\<close> with the default separators.\<close>

fun json_dump_items :: "string list \<Rightarrow> string" where
  "json_dump_items [] = []"
| "json_dump_items [s] = json_string s"
| "json_dump_items (s # t # ss) = json_string s @ '', '' @ json_dump_items (t # ss)"

definition json_dumps_list :: "string list \<Rightarrow> string" where
  "json_dumps_list ss = CHR ''['' # json_dump_items ss @ [CHR '']'']"

lemma hex_digit_ascii: "n < 16 \<Longrightarrow> code (hex_digit n) < 128"
proof -
  assume "n < 16"
  then have "n \<in> set [0..<16]" by simp
  then show ?thesis by (auto simp: upt_rec hex_digit_def)
qed

lemma json_char_ascii: "x \<in> set (json_char c) \<Longrightarrow> code x < 128"
proof -
  assume x: "x \<in> set (json_char c)"
  have "code (hex_digit (code c div 16)) < 128"
    by (rule hex_digit_ascii) (simp add: less_mult_imp_div_less)
  moreover have "code (hex_digit (code c mod 16)) < 128"
    by (rule hex_digit_ascii) simp
  moreover have "c \<le> CHR ''~'' \<Longrightarrow> code c < (128::nat)"
    by (simp add: less_eq_char_def)
  ultimately show ?thesis using x by (auto simp: json_char_def split: if_splits)
qed

lemma json_string_ascii: "x \<in> set (json_string s) \<Longrightarrow> code x < 128"
  by (auto simp: json_string_def intro: json_char_ascii)

lemma json_dump_items_ascii: "x \<in> set (json_dump_items ss) \<Longrightarrow> code x < 128"
  by (induction ss rule: json_dump_items.induct) (auto intro: json_string_ascii)

lemma json_dumps_list_ascii: "x \<in> set (json_dumps_list ss) \<Longrightarrow> code x < 128"
  by (auto simp: json_dumps_list_def intro: json_dump_items_ascii)

text \<open>A character that JSON text keeps as it is.\<close>

definition json_plain :: "char \<Rightarrow> bool" where
  "json_plain c = (CHR '' '' \<le> c \<and> c \<le> CHR ''~'' \<and> c \<noteq> CHR 0x22 \<and> c \<noteq> CHR 0x5C)"

lemma json_char_plain: "json_plain c \<Longrightarrow> json_char c = [c]"
  by (auto simp: json_plain_def json_char_def less_eq_char_def)

lemma json_string_plain: "list_all json_plain t \<Longrightarrow> json_string t = CHR 0x22 # t @ [CHR 0x22]"
  unfolding json_string_def by (induction t) (auto simp: json_char_plain)

lemma json_dump_items_contains: "t \<in> set ss \<Longrightarrow> \<exists>u v. json_dump_items ss = u @ json_string t @ v"
proof (induction ss rule: json_dump_items.induct)
  case (3 s t' ss)
  show ?case
  proof (cases "t = s")
    case True
    then show ?thesis by (metis append_Nil json_dump_items.simps(3))
  next
    case False
    with 3 obtain u v where "json_dump_items (t' # ss) = u @ json_string t @ v" by auto
    then have "json_dump_items (s # t' # ss) = (json_string s @ '', '' @ u) @ json_string t @ v" by simp
    then show ?thesis by blast
  qed
qed (simp_all, metis append.right_neutral append_Nil)

lemma json_dumps_list_contains: "t \<in> set ss \<Longrightarrow> list_all json_plain t \<Longrightarrow> contains t (json_dumps_list ss)"
proof -
  assume "t \<in> set ss" and plain: "list_all json_plain t"
  then obtain u v where "json_dump_items ss = u @ json_string t @ v"
    using json_dump_items_contains by blast
  then have "json_dumps_list ss = (CHR ''['' # u @ [CHR 0x22]) @ t @ (CHR 0x22 # v @ [CHR '']''])"
    by (simp add: json_dumps_list_def json_string_plain [OF plain])
  then show ?thesis unfolding contains_iff by blast
qed

text \<open>The filter of one tag: \<^verbatim>\<open>lower(tags_json) LIKE '%' || tag.lower() || '%'\<close>.\<close>

definition tag_like :: "string \<Rightarrow> string list \<Rightarrow> bool" where
  "tag_like tag tags = like (''%'' @ py_lower tag @ ''%'') (sql_lower (json_dumps_list tags))"

lemma json_plain_lower: "json_plain c \<Longrightarrow> py_lower_char c = ascii_lower c"
  by (auto simp: json_plain_def py_lower_char_def ascii_lower_def less_eq_char_def)

lemma ascii_lower_idem: "ascii_lower (ascii_lower c) = ascii_lower c"
  by (auto simp: ascii_lower_def)

lemma contains_sql_lower: "contains t s \<Longrightarrow> contains (sql_lower t) (sql_lower s)"
  unfolding contains_iff sql_lower_def by (metis map_append)

text \<open>A record tagged with \<open>t\<close> passes the filter on \<open>t\<close>, in any case, if JSON keeps the text of \<open>t\<close>.\<close>

lemma tag_like_finds:
  assumes "t \<in> set tags" and plain: "list_all json_plain t" and "sql_lower tag = sql_lower t"
    and plain': "list_all json_plain tag"
  shows "tag_like tag tags"
proof -
  have "py_lower tag = sql_lower tag"
    using plain' by (simp add: py_lower_def sql_lower_def list_all_iff json_plain_lower)
  moreover have "list_all2 (\<lambda>p c. ascii_lower p = ascii_lower c) (sql_lower t) (sql_lower t)"
    by (simp add: list_all2_refl)
  moreover have "contains (sql_lower t) (sql_lower (json_dumps_list tags))"
    by (rule contains_sql_lower [OF json_dumps_list_contains [OF assms(1) plain]])
  ultimately show ?thesis
    unfolding tag_like_def using like_contains assms(3) by simp
qed

text \<open>A filter with a character outside ASCII finds no record at all: the stored text is ASCII.\<close>

lemma py_lower_beyond: "128 \<le> code c \<Longrightarrow> 128 \<le> code (py_lower_char c)"
  by (auto simp: py_lower_char_def)

lemma tag_like_misses:
  assumes "c \<in> set tag" and "128 \<le> code c"
  shows "\<not> tag_like tag tags"
proof
  assume "tag_like tag tags"
  moreover have "py_lower_char c \<in> set (''%'' @ py_lower tag @ ''%'')"
    using assms(1) by (simp add: py_lower_def)
  ultimately have "\<exists>x \<in> set (sql_lower (json_dumps_list tags)). 128 \<le> code x"
    unfolding tag_like_def using like_needs_char py_lower_beyond [OF assms(2)] by blast
  then obtain y where y: "y \<in> set (json_dumps_list tags)" "128 \<le> code (ascii_lower y)"
    by (auto simp: sql_lower_def)
  from y(1) have "code y < 128" by (rule json_dumps_list_ascii)
  with y(2) show False by (auto simp: ascii_lower_def split: if_splits)
qed

end
