(* ===== verification/Cctv_Retry.thy ===== *)
theory Cctv_Retry
  imports Cctv_Text Cctv_Float
begin

text \<open>
  Retries (\<^verbatim>\<open>workers/retry.py\<close>): classification of errors by class name and message, the
  backoff, the bounded retry of a VLM call and of a database write. What a call or a write
  does on its \<open>n\<close>-th attempt is an argument, so every behaviour of the provider and of the
  database is covered; the callbacks and sleeps of the loop are recorded as events.
\<close>

section \<open>Classification\<close>

definition is_transient_vlm_error :: "exn \<Rightarrow> bool" where
  "is_transient_vlm_error e = (''VlmProviderError'' \<in> set (exn_mro e))"

definition is_schema_vlm_error :: "exn \<Rightarrow> bool" where
  "is_schema_vlm_error e =
    (\<exists>c \<in> set (exn_mro e). c \<in> {''VlmSchemaValidationError'', ''ModelOutputSchemaValidationError''})"

definition vlm_failure_error_code :: "exn \<Rightarrow> string" where
  "vlm_failure_error_code e =
    (let name = exn_type_name e in
     if name = ''VlmProviderError'' \<or> contains ''provider'' (py_lower name) then ''vlm_provider_error''
     else if is_schema_vlm_error e then ''vlm_schema_validation_failed''
     else ''analysis_unit_failed'')"

definition is_transient_db_error :: "exn \<Rightarrow> bool" where
  "is_transient_db_error e =
    (if \<exists>c \<in> set (exn_mro e). c \<in> {''IntegrityError'', ''DataError'', ''ProgrammingError''} then False
     else let text = py_lower (exn_type_name e @ '': '' @ exn_message e) in
       (\<exists>m \<in> {''operationalerror'', ''database is locked'', ''database table is locked'', ''busy'', ''timeout''}.
          contains m text))"

section \<open>Backoff\<close>

text \<open>\<open>r\<close> is the number the generator draws from \<open>[- jitter, jitter]\<close>.\<close>

definition compute_backoff_ms :: "(real \<Rightarrow> real) \<Rightarrow> nat \<Rightarrow> int \<Rightarrow> int \<Rightarrow> real \<Rightarrow> real \<Rightarrow> real" where
  "compute_backoff_ms fl attempt base_ms cap_ms jitter r =
    (if base_ms \<le> 0 then 0
     else let raw = min (fl (fl (of_int base_ms) * fl (2 ^ (attempt - 1)))) (fl (of_int cap_ms)) in
       if jitter \<le> 0 then max 0 raw else max 0 (fl (raw * fl (1 + r))))"

section \<open>The VLM retry loop\<close>

record retry_policy =
  rp_max_attempts :: int
  rp_backoff_base_ms :: int
  rp_backoff_cap_ms :: int
  rp_jitter :: real
  rp_schema_regenerate_max_attempts :: int
  rp_schema_retry_backoff_ms :: int

definition retry_policy_check :: "retry_policy \<Rightarrow> exn + retry_policy" where
  "retry_policy_check p =
    (if rp_max_attempts p < 1 then Inl (ValueError ''max_attempts must be >= 1'')
     else if rp_schema_regenerate_max_attempts p < 0
       then Inl (ValueError ''schema_regenerate_max_attempts must be >= 0'')
     else if rp_backoff_base_ms p < 0 \<or> rp_backoff_cap_ms p < 0 then Inl (ValueError ''backoff must be >= 0'')
     else if rp_schema_retry_backoff_ms p < 0 then Inl (ValueError ''schema_retry_backoff_ms must be >= 0'')
     else if \<not> (0 \<le> rp_jitter p \<and> rp_jitter p \<le> 1) then Inl (ValueError ''jitter must be in [0, 1]'')
     else Inr p)"

record vlm_attempt =
  va_attempt :: nat
  va_status :: string
  va_error_type :: "string option"
  va_error_message :: "string option"
  va_transient :: "bool option"
  va_backoff_ms :: "real option"

datatype retry_event =
    AttemptStarted nat
  | AttemptFailed vlm_attempt
  | AttemptSucceeded vlm_attempt
  | Slept real

record 'o vlm_retry_result =
  vr_output :: "'o option"
  vr_error :: "exn option"
  vr_attempts :: nat
  vr_attempt_details :: "vlm_attempt list"

definition attempt_succeeded :: "nat \<Rightarrow> vlm_attempt" where
  "attempt_succeeded n = \<lparr>va_attempt = n, va_status = ''succeeded'', va_error_type = None,
     va_error_message = None, va_transient = None, va_backoff_ms = None\<rparr>"

definition attempt_failed :: "nat \<Rightarrow> exn \<Rightarrow> real option \<Rightarrow> vlm_attempt" where
  "attempt_failed n e backoff = \<lparr>va_attempt = n, va_status = ''failed'', va_error_type = Some (exn_type_name e),
     va_error_message = Some (take 500 (exn_message e)), va_transient = Some (is_transient_vlm_error e),
     va_backoff_ms = backoff\<rparr>"

definition retry_backoff :: "(real \<Rightarrow> real) \<Rightarrow> real \<Rightarrow> retry_policy \<Rightarrow> nat \<Rightarrow> bool \<Rightarrow> bool \<Rightarrow> real option" where
  "retry_backoff fl r p provider_failures provider_budget schema_budget =
    (if provider_budget
     then Some (compute_backoff_ms fl provider_failures (rp_backoff_base_ms p) (rp_backoff_cap_ms p) (rp_jitter p) r)
     else if schema_budget \<and> rp_schema_retry_backoff_ms p > 0
     then Some (fl (of_int (rp_schema_retry_backoff_ms p)))
     else None)"

definition sleep_events :: "(real \<Rightarrow> real) \<Rightarrow> real option \<Rightarrow> retry_event list" where
  "sleep_events fl backoff =
    (case backoff of None \<Rightarrow> [] | Some b \<Rightarrow> if b > 0 then [Slept (fl (b / 1000))] else [])"

text \<open>
  The body of the \<^verbatim>\<open>for\<close> loop from attempt \<open>n\<close> on, with \<open>left\<close> attempts left of the range. \<open>pf\<close> and
  \<open>sf\<close> count provider and schema failures, \<open>rng n\<close> is the jitter drawn at attempt \<open>n\<close>.
\<close>

fun vlm_retry_loop ::
  "(real \<Rightarrow> real) \<Rightarrow> (nat \<Rightarrow> real) \<Rightarrow> (nat \<Rightarrow> bool \<Rightarrow> exn + 'o) \<Rightarrow> retry_policy \<Rightarrow> nat \<Rightarrow> nat \<Rightarrow> nat \<Rightarrow> nat
    \<Rightarrow> exn option \<Rightarrow> vlm_attempt list \<Rightarrow> 'o vlm_retry_result \<times> retry_event list" where
  "vlm_retry_loop fl rng analyze p 0 n pf sf last_error details =
    (\<lparr>vr_output = None,
      vr_error = Some (case last_error of None \<Rightarrow> RuntimeError ''vlm retry exhausted'' | Some e \<Rightarrow> e),
      vr_attempts = nat (rp_max_attempts p), vr_attempt_details = details\<rparr>, [])"
| "vlm_retry_loop fl rng analyze p (Suc left) n pf sf last_error details =
    (case analyze n (sf > 0) of
       Inr out \<Rightarrow>
         (\<lparr>vr_output = Some out, vr_error = None, vr_attempts = n,
           vr_attempt_details = details @ [attempt_succeeded n]\<rparr>,
          [AttemptStarted n, AttemptSucceeded (attempt_succeeded n)])
     | Inl e \<Rightarrow>
         let transient = is_transient_vlm_error e;
             schema_error = is_schema_vlm_error e;
             pf' = (if transient then pf + 1 else pf);
             sf' = (if schema_error then sf + 1 else sf);
             provider_budget = (transient \<and> int pf' < rp_max_attempts p);
             schema_budget = (schema_error \<and> int sf' \<le> rp_schema_regenerate_max_attempts p);
             backoff = retry_backoff fl (rng n) p pf' provider_budget schema_budget;
             rec = attempt_failed n e backoff;
             details' = details @ [rec]
         in if \<not> (provider_budget \<or> schema_budget) then
              (\<lparr>vr_output = None, vr_error = Some e, vr_attempts = n, vr_attempt_details = details'\<rparr>,
               [AttemptStarted n, AttemptFailed rec])
            else
              let (res, evs) = vlm_retry_loop fl rng analyze p left (n + 1) pf' sf' (Some e) details'
              in (res, [AttemptStarted n, AttemptFailed rec] @ sleep_events fl backoff @ evs))"

definition execute_vlm_with_retry ::
  "(real \<Rightarrow> real) \<Rightarrow> (nat \<Rightarrow> real) \<Rightarrow> (nat \<Rightarrow> bool \<Rightarrow> exn + 'o) \<Rightarrow> retry_policy
    \<Rightarrow> 'o vlm_retry_result \<times> retry_event list" where
  "execute_vlm_with_retry fl rng analyze p =
    vlm_retry_loop fl rng analyze p (nat (rp_max_attempts p + rp_schema_regenerate_max_attempts p)) 1 0 0 None []"

section \<open>The database write retry\<close>

fun db_write_loop ::
  "nat \<Rightarrow> nat \<Rightarrow> nat \<Rightarrow> (nat \<Rightarrow> ('s, exn, 'a) se) \<Rightarrow> ('s, exn, 'a) se" where
  "db_write_loop 0 n max_attempts write s = (Inl (RuntimeError ''db write retry exhausted''), s)"
| "db_write_loop (Suc left) n max_attempts write s =
    (case write n s of
       (Inr a, s') \<Rightarrow> (Inr a, s')
     | (Inl e, s') \<Rightarrow>
        if n \<ge> max_attempts \<or> \<not> is_transient_db_error e then (Inl e, s')
        else db_write_loop left (n + 1) max_attempts write s')"

definition run_db_write_with_retry :: "int \<Rightarrow> (nat \<Rightarrow> ('s, exn, 'a) se) \<Rightarrow> ('s, exn, 'a) se" where
  "run_db_write_with_retry max_attempts write s =
    (if max_attempts < 1 then (Inl (ValueError ''max_attempts must be >= 1''), s)
     else db_write_loop (nat max_attempts) 1 (nat max_attempts) write s)"

section \<open>Budgets\<close>

definition started :: "retry_event list \<Rightarrow> nat" where
  "started evs = count_where (\<lambda>e. case e of AttemptStarted _ \<Rightarrow> True | _ \<Rightarrow> False) evs"

lemma started_simps [simp]:
  "started [] = 0" "started (AttemptStarted n # evs) = Suc (started evs)"
  "started (AttemptFailed r # evs) = started evs" "started (AttemptSucceeded r # evs) = started evs"
  "started (Slept x # evs) = started evs" "started (xs @ ys) = started xs + started ys"
  by (simp_all add: started_def)

lemma started_sleep [simp]: "started (sleep_events fl b) = 0"
  by (simp add: sleep_events_def split: option.split)

lemma vlm_retry_loop_retry:
  assumes "analyze n (sf > 0) = Inl e"
    and "pf' = (if is_transient_vlm_error e then pf + 1 else pf)"
    and "sf' = (if is_schema_vlm_error e then sf + 1 else sf)"
    and "(is_transient_vlm_error e \<and> int pf' < rp_max_attempts p) \<or>
      (is_schema_vlm_error e \<and> int sf' \<le> rp_schema_regenerate_max_attempts p)"
    and "vlm_retry_loop fl rng analyze p (Suc left) n pf sf le details = (res, evs)"
  shows "\<exists>det evs'. vlm_retry_loop fl rng analyze p left (n + 1) pf' sf' (Some e) det = (res, evs') \<and>
    started evs = started evs' + 1"
proof -
  define b where "b = retry_backoff fl (rng n) p pf' (is_transient_vlm_error e \<and> int pf' < rp_max_attempts p)
    (is_schema_vlm_error e \<and> int sf' \<le> rp_schema_regenerate_max_attempts p)"
  define rest where "rest = vlm_retry_loop fl rng analyze p left (n + 1) pf' sf' (Some e) (details @ [attempt_failed n e b])"
  have "(res, evs) = (fst rest, [AttemptStarted n, AttemptFailed (attempt_failed n e b)] @ sleep_events fl b @ snd rest)"
    using assms(4)
    unfolding assms(5) [symmetric] vlm_retry_loop.simps assms(1) sum.case Let_def
      assms(2) [symmetric] assms(3) [symmetric] b_def [symmetric] rest_def [symmetric]
    by (simp add: case_prod_beta)
  then show ?thesis
    by (intro exI [of _ "details @ [attempt_failed n e b]"] exI [of _ "snd rest"]) (simp add: rest_def)
qed

text \<open>
  The loop returns from its body before the range is used up: each retry spends a unit of
  the provider budget or of the schema budget.
\<close>

lemma vlm_retry_loop_bounded:
  assumes "0 < M" and "rp_max_attempts p = int M" and "rp_schema_regenerate_max_attempts p = int S"
    and "n + left = M + S + 1" and "n \<le> min pf (M - 1) + min sf S + 1" and "0 < n"
    and "vlm_retry_loop fl rng analyze p left n pf sf le details = (res, evs)"
  shows "(vr_output res = None) = (vr_error res \<noteq> None) \<and> n \<le> vr_attempts res \<and> vr_attempts res \<le> M + S \<and>
    started evs = vr_attempts res + 1 - n \<and>
    (\<forall>out. vr_output res = Some out \<longrightarrow> (\<exists>strict. analyze (vr_attempts res) strict = Inr out)) \<and>
    (\<forall>e. vr_error res = Some e \<longrightarrow> (\<exists>strict. analyze (vr_attempts res) strict = Inl e))"
  using assms(4-)
proof (induction left arbitrary: n pf sf le details res evs)
  case 0
  then show ?case using assms(1) by auto
next
  case (Suc left)
  show ?case
  proof (cases "analyze n (sf > 0)")
    case (Inr out)
    with Suc.prems show ?thesis by auto
  next
    case (Inl e)
    define pf' where "pf' = (if is_transient_vlm_error e then pf + 1 else pf)"
    define sf' where "sf' = (if is_schema_vlm_error e then sf + 1 else sf)"
    show ?thesis
    proof (cases "(is_transient_vlm_error e \<and> int pf' < rp_max_attempts p) \<or>
        (is_schema_vlm_error e \<and> int sf' \<le> rp_schema_regenerate_max_attempts p)")
      case False
      with Suc.prems(4) have "vr_output res = None \<and> vr_error res = Some e \<and> vr_attempts res = n \<and> started evs = 1"
        by (auto simp: Inl Let_def pf'_def sf'_def)
      with Inl Suc.prems(1) show ?thesis by auto
    next
      case True
      have "n + 1 \<le> min pf' (M - 1) + min sf' S + 1"
        using True Suc.prems(2) assms(1-3) by (auto simp: pf'_def sf'_def split: if_splits)
      moreover obtain det evs' where rec:
        "vlm_retry_loop fl rng analyze p left (n + 1) pf' sf' (Some e) det = (res, evs')"
        "started evs = started evs' + 1"
        using vlm_retry_loop_retry [OF Inl pf'_def sf'_def True Suc.prems(4)] by blast
      ultimately show ?thesis using Suc.IH [OF _ _ _ rec(1)] Suc.prems(1,3) rec(2) by auto
    qed
  qed
qed

text \<open>
  C14. A VLM call is retried within its budget and always settles: for any provider behaviour
  and any valid policy it makes at most \<open>max_attempts + schema_regenerate_max_attempts\<close> calls, sets
  exactly one of output and error, the attempt count it reports is the number of attempts it
  started, and the outcome is that of the last attempt. The fall-through after the loop is
  never reached.
\<close>

theorem vlm_retry_settles:
  assumes "retry_policy_check p = Inr p" and "execute_vlm_with_retry fl rng analyze p = (res, evs)"
  shows "(vr_output res = None) = (vr_error res \<noteq> None) \<and> 1 \<le> vr_attempts res \<and>
    int (vr_attempts res) \<le> rp_max_attempts p + rp_schema_regenerate_max_attempts p \<and>
    started evs = vr_attempts res \<and>
    (\<forall>out. vr_output res = Some out \<longrightarrow> (\<exists>strict. analyze (vr_attempts res) strict = Inr out)) \<and>
    (\<forall>e. vr_error res = Some e \<longrightarrow> (\<exists>strict. analyze (vr_attempts res) strict = Inl e))"
proof -
  have pos: "1 \<le> rp_max_attempts p" "0 \<le> rp_schema_regenerate_max_attempts p"
    using assms(1) by (auto simp: retry_policy_check_def split: if_splits)
  then show ?thesis
    using vlm_retry_loop_bounded [of "nat (rp_max_attempts p)" p "nat (rp_schema_regenerate_max_attempts p)" 1
        "nat (rp_max_attempts p + rp_schema_regenerate_max_attempts p)" 0 0 fl rng analyze None "[]" res evs]
      assms(2)
    by (simp add: execute_vlm_with_retry_def nat_add_distrib) linarith
qed

definition ex_retry_policy :: retry_policy where
  "ex_retry_policy = \<lparr>rp_max_attempts = 3, rp_backoff_base_ms = 500, rp_backoff_cap_ms = 8000, rp_jitter = 1 / 5,
     rp_schema_regenerate_max_attempts = 1, rp_schema_retry_backoff_ms = 0\<rparr>"

theorem vlm_retry_settles_witness:
  "vr_error (fst (execute_vlm_with_retry fl64 (\<lambda>_. 0) (\<lambda>n _. Inl (VlmProviderError ''503'') :: exn + nat) ex_retry_policy)) \<noteq> None \<and>
   vr_attempts (fst (execute_vlm_with_retry fl64 (\<lambda>_. 0) (\<lambda>n _. Inl (VlmProviderError ''503'') :: exn + nat) ex_retry_policy)) \<le> 4"
proof -
  let ?x = "execute_vlm_with_retry fl64 (\<lambda>_. 0) (\<lambda>n _. Inl (VlmProviderError ''503'') :: exn + nat) ex_retry_policy"
  have "retry_policy_check ex_retry_policy = Inr ex_retry_policy"
    by (simp add: retry_policy_check_def ex_retry_policy_def)
  from vlm_retry_settles [OF this, of fl64 "\<lambda>_. 0" "\<lambda>n _. Inl (VlmProviderError ''503'') :: exn + nat" "fst ?x" "snd ?x"]
  show ?thesis by (auto simp: ex_retry_policy_def)
qed

lemma vlm_retry_loop_outage:
  assumes "\<And>i strict. i < k \<Longrightarrow> \<exists>e. analyze (n + i) strict = Inl e \<and> is_transient_vlm_error e \<and> \<not> is_schema_vlm_error e"
    and "\<And>strict. analyze (n + k) strict = Inr out" and "int (pf + k) < rp_max_attempts p" and "k < left"
  shows "vr_output (fst (vlm_retry_loop fl rng analyze p left n pf sf le details)) = Some out \<and>
    vr_attempts (fst (vlm_retry_loop fl rng analyze p left n pf sf le details)) = n + k"
  using assms
proof (induction k arbitrary: left n pf le details)
  case 0
  then obtain left' where "left = Suc left'" by (cases left) auto
  with "0.prems"(2) [of "sf > 0"] show ?case by simp
next
  case (Suc k)
  then obtain left' where left: "left = Suc left'" by (cases left) auto
  obtain e where e: "analyze n (sf > 0) = Inl e" "is_transient_vlm_error e" "\<not> is_schema_vlm_error e"
    using Suc.prems(1) [of 0 "sf > 0"] by auto
  obtain res evs where run: "vlm_retry_loop fl rng analyze p (Suc left') n pf sf le details = (res, evs)" by (metis prod.exhaust)
  have pf: "pf + 1 = (if is_transient_vlm_error e then pf + 1 else pf)" and sf: "sf = (if is_schema_vlm_error e then sf + 1 else sf)"
    using e by simp_all
  obtain det evs' where "vlm_retry_loop fl rng analyze p left' (n + 1) (pf + 1) sf (Some e) det = (res, evs')"
    using vlm_retry_loop_retry [OF e(1) pf sf _ run] Suc.prems(3) e(2) by auto
  moreover have "vr_output (fst (vlm_retry_loop fl rng analyze p left' (n + 1) (pf + 1) sf (Some e) det)) = Some out \<and>
      vr_attempts (fst (vlm_retry_loop fl rng analyze p left' (n + 1) (pf + 1) sf (Some e) det)) = (n + 1) + k"
  proof (rule Suc.IH)
    show "\<exists>e. analyze (n + 1 + i) strict = Inl e \<and> is_transient_vlm_error e \<and> \<not> is_schema_vlm_error e" if "i < k" for i strict
      using Suc.prems(1) [of "Suc i" strict] that by simp
    show "analyze (n + 1 + k) strict = Inr out" for strict using Suc.prems(2) [of strict] by simp
  qed (use Suc.prems(3,4) left in simp_all)
  ultimately show ?case using run left by simp
qed

text \<open>
  A transient outage shorter than the attempt budget is survived, and nothing else is
  retried blindly: if the first \<open>n - 1\<close> calls fail with provider errors and the \<open>n\<close>-th succeeds,
  \<open>n\<close> being within \<open>max_attempts\<close>, the result is that output after exactly \<open>n\<close> attempts; and an
  error on the first call that is neither a provider nor a schema error ends the unit at once,
  without a second call and without a sleep.
\<close>

theorem vlm_survives_outage:
  assumes "retry_policy_check p = Inr p"
  shows "(\<forall>n out. 1 \<le> n \<and> int n \<le> rp_max_attempts p \<and>
      (\<forall>i strict. 1 \<le> i \<and> i < n \<longrightarrow>
        (\<exists>e. analyze i strict = Inl e \<and> is_transient_vlm_error e \<and> \<not> is_schema_vlm_error e)) \<and>
      (\<forall>strict. analyze n strict = Inr out) \<longrightarrow>
      vr_output (fst (execute_vlm_with_retry fl rng analyze p)) = Some out \<and>
      vr_attempts (fst (execute_vlm_with_retry fl rng analyze p)) = n) \<and>
    (\<forall>e. analyze 1 False = Inl e \<and> \<not> is_transient_vlm_error e \<and> \<not> is_schema_vlm_error e \<longrightarrow>
      execute_vlm_with_retry fl rng analyze p =
        (\<lparr>vr_output = None, vr_error = Some e, vr_attempts = 1, vr_attempt_details = [attempt_failed 1 e None]\<rparr>,
         [AttemptStarted 1, AttemptFailed (attempt_failed 1 e None)]))"
proof -
  have pos: "1 \<le> rp_max_attempts p" "0 \<le> rp_schema_regenerate_max_attempts p"
    using assms by (auto simp: retry_policy_check_def split: if_splits)
  define left where "left = nat (rp_max_attempts p + rp_schema_regenerate_max_attempts p)"
  have run: "execute_vlm_with_retry fl rng analyze p = vlm_retry_loop fl rng analyze p left 1 0 0 None []"
    by (simp add: execute_vlm_with_retry_def left_def)
  have "vr_output (fst (execute_vlm_with_retry fl rng analyze p)) = Some out \<and>
      vr_attempts (fst (execute_vlm_with_retry fl rng analyze p)) = n"
    if n: "1 \<le> n" "int n \<le> rp_max_attempts p"
      and bad: "\<forall>i strict. 1 \<le> i \<and> i < n \<longrightarrow>
        (\<exists>e. analyze i strict = Inl e \<and> is_transient_vlm_error e \<and> \<not> is_schema_vlm_error e)"
      and good: "\<forall>strict. analyze n strict = Inr out" for n out
  proof -
    have "vr_output (fst (vlm_retry_loop fl rng analyze p left 1 0 0 None [])) = Some out \<and>
        vr_attempts (fst (vlm_retry_loop fl rng analyze p left 1 0 0 None [])) = 1 + (n - 1)"
      by (rule vlm_retry_loop_outage) (use n bad good pos in \<open>auto simp: left_def\<close>)
    then show ?thesis using n(1) by (simp add: run)
  qed
  moreover obtain l where "left = Suc l" using pos by (cases left) (auto simp: left_def)
  then have "execute_vlm_with_retry fl rng analyze p =
      (\<lparr>vr_output = None, vr_error = Some e, vr_attempts = 1, vr_attempt_details = [attempt_failed 1 e None]\<rparr>,
       [AttemptStarted 1, AttemptFailed (attempt_failed 1 e None)])"
    if "analyze 1 False = Inl e" "\<not> is_transient_vlm_error e" "\<not> is_schema_vlm_error e" for e
    using that by (simp add: run Let_def retry_backoff_def)
  ultimately show ?thesis by blast
qed

theorem vlm_survives_outage_witness:
  "vr_output (fst (execute_vlm_with_retry fl64 (\<lambda>_. 0)
     (\<lambda>n _. if n < 3 then Inl (VlmProviderError ''503'') else Inr (7 :: nat)) ex_retry_policy)) = Some 7"
proof -
  have ok: "retry_policy_check ex_retry_policy = Inr ex_retry_policy"
    by (simp add: retry_policy_check_def ex_retry_policy_def)
  show ?thesis
    by (rule vlm_survives_outage [OF ok, THEN conjunct1, rule_format, of 3, THEN conjunct1])
      (auto simp: ex_retry_policy_def is_transient_vlm_error_def is_schema_vlm_error_def)
qed

text \<open>
  Backoff delays are bounded in binary64: for any attempt and any draw within the jitter
  the delay is not negative and at most the cap scaled by \<open>1 + jitter\<close>, and without jitter it is
  at most the cap and never decreases from one attempt to the next.
\<close>

theorem backoff_is_bounded:
  assumes "0 \<le> cap" and "cap \<le> max_exact" and "0 \<le> jitter" and "jitter \<le> 1" and "\<bar>r\<bar> \<le> jitter"
  shows "0 \<le> compute_backoff_ms fl64 n base cap jitter r \<and>
    compute_backoff_ms fl64 n base cap jitter r \<le> fl64 (of_int cap * fl64 (1 + jitter)) \<and>
    compute_backoff_ms fl64 n base cap 0 r \<le> of_int cap \<and>
    compute_backoff_ms fl64 n base cap 0 r \<le> compute_backoff_ms fl64 (n + 1) base cap 0 r"
proof -
  have cap: "fl64 (of_int cap) = of_int cap" using assms(1,2) by (intro ieee.fl_int) simp
  have f1: "1 \<le> fl64 (1 + jitter)" using ieee.fl_mono [of 1 "1 + jitter"] assms(3) by (simp add: ieee.fl_1)
  have "of_int cap \<le> of_int cap * fl64 (1 + jitter)"
    using mult_left_mono [OF f1, of "of_int cap"] assms(1) by simp
  from ieee.fl_mono [OF this] have capj: "of_int cap \<le> fl64 (of_int cap * fl64 (1 + jitter))" by (simp add: cap)
  have r1: "0 \<le> fl64 (1 + r)" "fl64 (1 + r) \<le> fl64 (1 + jitter)"
    using assms(4,5) by (auto intro!: ieee.fl_nonneg ieee.fl_mono)
  define raw where "raw m = min (fl64 (fl64 (of_int base) * fl64 (2 ^ (m - 1)))) (fl64 (of_int cap))" for m :: nat
  have raw_le: "raw m \<le> of_int cap" for m by (simp add: raw_def cap)
  have raw_mono: "raw n \<le> raw (n + 1)" if "0 < base"
    using that unfolding raw_def
    by (intro min.mono ieee.fl_mono mult_left_mono ieee.fl_nonneg power_increasing) auto
  have "fl64 (raw n * fl64 (1 + r)) \<le> fl64 (of_int cap * fl64 (1 + jitter))"
  proof (rule ieee.fl_mono)
    show "raw n * fl64 (1 + r) \<le> of_int cap * fl64 (1 + jitter)"
      using raw_le [of n] r1 assms(1) by (intro mult_mono) simp_all
  qed
  moreover have "compute_backoff_ms fl64 m base cap j r =
      (if base \<le> 0 then 0 else if j \<le> 0 then max 0 (raw m) else max 0 (fl64 (raw m * fl64 (1 + r))))" for m j
    by (simp add: compute_backoff_ms_def raw_def Let_def)
  moreover have "(0 :: real) \<le> of_int cap" using assms(1) by simp
  moreover from this capj have "0 \<le> fl64 (of_int cap * fl64 (1 + jitter))" by (rule order_trans)
  ultimately show ?thesis
    using capj raw_le [of n] raw_mono by (auto intro: order_trans max.mono)
qed

theorem backoff_is_bounded_witness:
  "compute_backoff_ms fl64 5 500 8000 0 0 \<le> 8000"
  using backoff_is_bounded [of 8000 0 0 5 500] by (simp add: max_exact_def)

section \<open>Writes\<close>

lemma db_write_loop_atomic:
  assumes "\<And>n s e s'. write n s = (Inl e, s') \<Longrightarrow> s' = s" and "n + left = m + 1" and "0 < left"
  shows "case db_write_loop left n m write s of
      (Inl e, s') \<Rightarrow> s' = s \<and> (\<exists>k \<ge> n. k \<le> m \<and> write k s = (Inl e, s) \<and> (k = m \<or> \<not> is_transient_db_error e))
    | (Inr a, s') \<Rightarrow> \<exists>k \<ge> n. k \<le> m \<and> write k s = (Inr a, s') \<and>
        (\<forall>i. n \<le> i \<and> i < k \<longrightarrow> (\<exists>e. write i s = (Inl e, s) \<and> is_transient_db_error e))"
  using assms(2,3)
proof (induction left arbitrary: n)
  case (Suc left)
  obtain r s' where w: "write n s = (r, s')" by (metis prod.exhaust)
  show ?case
  proof (cases r)
    case (Inr a)
    with w Suc.prems show ?thesis by auto
  next
    case (Inl e)
    with w assms(1) have w': "write n s = (Inl e, s)" by blast
    show ?thesis
    proof (cases "n \<ge> m \<or> \<not> is_transient_db_error e")
      case True
      with w' Suc.prems show ?thesis by auto
    next
      case False
      with Suc.prems have "0 < left" by simp
      with Suc.IH [of "n + 1"] Suc.prems
      have IH: "case db_write_loop left (n + 1) m write s of
          (Inl e, s') \<Rightarrow> s' = s \<and> (\<exists>k \<ge> n + 1. k \<le> m \<and> write k s = (Inl e, s) \<and> (k = m \<or> \<not> is_transient_db_error e))
        | (Inr a, s') \<Rightarrow> \<exists>k \<ge> n + 1. k \<le> m \<and> write k s = (Inr a, s') \<and>
            (\<forall>i. n + 1 \<le> i \<and> i < k \<longrightarrow> (\<exists>e. write i s = (Inl e, s) \<and> is_transient_db_error e))" by simp
      have step: "db_write_loop (Suc left) n m write s = db_write_loop left (n + 1) m write s"
        using False w' by simp
      obtain r2 s2 where d: "db_write_loop left (n + 1) m write s = (r2, s2)" by (metis prod.exhaust)
      show ?thesis
      proof (cases r2)
        case (Inl e2)
        with IH d obtain k where "n + 1 \<le> k" "k \<le> m" "write k s = (Inl e2, s)" "k = m \<or> \<not> is_transient_db_error e2" "s2 = s"
          by auto
        then have "\<exists>k \<ge> n. k \<le> m \<and> write k s = (Inl e2, s) \<and> (k = m \<or> \<not> is_transient_db_error e2)"
          by (intro exI [of _ k]) simp
        with \<open>s2 = s\<close> Inl d show ?thesis unfolding step by simp
      next
        case (Inr a)
        with IH d obtain k where k: "n + 1 \<le> k" "k \<le> m" "write k s = (Inr a, s2)"
          "\<forall>i. n + 1 \<le> i \<and> i < k \<longrightarrow> (\<exists>e. write i s = (Inl e, s) \<and> is_transient_db_error e)" by auto
        have "\<exists>e. write i s = (Inl e, s) \<and> is_transient_db_error e" if "n \<le> i \<and> i < k" for i
          using k(4) that False w' by (cases "i = n") auto
        with k Inr d show ?thesis unfolding step by (auto intro!: exI [of _ k])
      qed
    qed
  qed
qed simp

text \<open>
  C15. A retried write takes effect at most once: when every attempt is a transaction that
  leaves the state alone if it raises, a write that finally succeeds has exactly the effect of
  one successful attempt, all earlier attempts having failed with a transient lock or busy
  error; a write that finally raises has changed nothing, and raised either at the last
  allowed attempt or at the first error that is not transient.
\<close>

theorem db_write_takes_effect_once:
  assumes "\<And>n s e s'. write n s = (Inl e, s') \<Longrightarrow> s' = s" and "1 \<le> max_attempts"
  shows "case run_db_write_with_retry max_attempts write s of
      (Inl e, s') \<Rightarrow> s' = s \<and> (\<exists>k \<ge> 1. int k \<le> max_attempts \<and> write k s = (Inl e, s) \<and>
        (int k = max_attempts \<or> \<not> is_transient_db_error e))
    | (Inr a, s') \<Rightarrow> \<exists>k \<ge> 1. int k \<le> max_attempts \<and> write k s = (Inr a, s') \<and>
        (\<forall>i. 1 \<le> i \<and> i < k \<longrightarrow> (\<exists>e. write i s = (Inl e, s) \<and> is_transient_db_error e))"
proof -
  define m where "m = nat max_attempts"
  have m: "int k \<le> max_attempts \<longleftrightarrow> k \<le> m" "int k = max_attempts \<longleftrightarrow> k = m" for k
    using assms(2) by (auto simp: m_def)
  have "run_db_write_with_retry max_attempts write s = db_write_loop m 1 m write s"
    using assms(2) by (simp add: run_db_write_with_retry_def m_def)
  moreover have "case db_write_loop m 1 m write s of
      (Inl e, s') \<Rightarrow> s' = s \<and> (\<exists>k \<ge> 1. k \<le> m \<and> write k s = (Inl e, s) \<and> (k = m \<or> \<not> is_transient_db_error e))
    | (Inr a, s') \<Rightarrow> \<exists>k \<ge> 1. k \<le> m \<and> write k s = (Inr a, s') \<and>
        (\<forall>i. 1 \<le> i \<and> i < k \<longrightarrow> (\<exists>e. write i s = (Inl e, s) \<and> is_transient_db_error e))"
    by (rule db_write_loop_atomic [OF assms(1)]) (use assms(2) in \<open>simp_all add: m_def\<close>)
  ultimately show ?thesis unfolding m by simp
qed

theorem db_write_takes_effect_once_witness:
  "case run_db_write_with_retry 3
      (\<lambda>n s. if n < 2 then (Inl (OtherException [''OperationalError''] ''database is locked''), s) else (Inr (), s + 1)) (41 :: int) of
     (Inl e, s') \<Rightarrow> s' = 41
   | (Inr a, s') \<Rightarrow> s' = 42"
proof -
  let ?w = "\<lambda>n s. if n < 2 then (Inl (OtherException [''OperationalError''] ''database is locked''), s) else (Inr (), s + 1 :: int)"
  have "case run_db_write_with_retry 3 ?w 41 of
      (Inl e, s') \<Rightarrow> s' = 41 \<and> (\<exists>k \<ge> 1. int k \<le> 3 \<and> ?w k 41 = (Inl e, 41) \<and> (int k = 3 \<or> \<not> is_transient_db_error e))
    | (Inr a, s') \<Rightarrow> \<exists>k \<ge> 1. int k \<le> 3 \<and> ?w k 41 = (Inr a, s') \<and>
        (\<forall>i. 1 \<le> i \<and> i < k \<longrightarrow> (\<exists>e. ?w i 41 = (Inl e, 41) \<and> is_transient_db_error e))"
    by (rule db_write_takes_effect_once) (auto split: if_splits)
  then show ?thesis by (auto split: prod.splits sum.splits if_splits)
qed

end
