(* ===== verification/Cctv_Queue.thy ===== *)
theory Cctv_Queue
  imports Cctv_Domain
begin

text \<open>
  The task queue of \<^verbatim>\<open>infrastructure/db/repositories/task_queue.py\<close>: a table of tasks, a
  claim that probes candidates and takes one by a conditional UPDATE, leases, and the
  operations that end or reschedule a task. An instant is an integer number of
  microseconds. Between the SELECT and the UPDATE of a probe other transactions may run;
  what they do to the table is the argument \<open>env\<close> of \<open>claim_task\<close>.
\<close>

section \<open>Data\<close>

record task =
  tk_task_id :: string
  tk_task_type :: string
  tk_payload :: "(string \<times> string) list"
  tk_status :: string
  tk_priority :: int
  tk_retry_count :: int
  tk_max_retries :: int
  tk_next_run_at :: int
  tk_lease_owner :: "string option"
  tk_lease_expires_at :: "int option"
  tk_updated_at :: "int option"
  tk_error_code :: "string option"
  tk_error_message :: "string option"

abbreviation get_task :: "string \<Rightarrow> task list \<Rightarrow> task option" where
  "get_task \<equiv> row_get tk_task_id"

abbreviation upd_task :: "string \<Rightarrow> (task \<Rightarrow> task) \<Rightarrow> task list \<Rightarrow> task list" where
  "upd_task \<equiv> row_upd tk_task_id"

section \<open>Operations\<close>

definition enqueue_task :: "task \<Rightarrow> (task list, exn, task) se" where
  "enqueue_task task rows =
    (case row_ins tk_task_id task rows of
       None \<Rightarrow> (Inl (IntegrityError ''UNIQUE constraint failed: analysis_tasks.task_id''), rows)
     | Some rows' \<Rightarrow> (Inr task, rows'))"

definition still_claimable :: "int \<Rightarrow> task \<Rightarrow> bool" where
  "still_claimable now t \<longleftrightarrow> tk_next_run_at t \<le> now \<and>
    (tk_status t = ''queued'' \<or>
     (tk_status t = ''running'' \<and>
      (case tk_lease_expires_at t of None \<Rightarrow> False | Some e \<Rightarrow> e < now)))"

definition claim_key :: "task \<Rightarrow> int \<times> int" where
  "claim_key t = (- tk_priority t, tk_next_run_at t)"

definition select_candidate :: "int \<Rightarrow> task list \<Rightarrow> task option" where
  "select_candidate now rows =
    (case order_by_limit claim_key 1 (filter (still_claimable now) rows) of [] \<Rightarrow> None | t # _ \<Rightarrow> Some t)"

definition set_claimed :: "string \<Rightarrow> int \<Rightarrow> int \<Rightarrow> task \<Rightarrow> task" where
  "set_claimed worker_id now lease_until t =
    t\<lparr>tk_status := ''running'', tk_lease_owner := Some worker_id,
      tk_lease_expires_at := Some lease_until, tk_updated_at := Some now\<rparr>"

text \<open>The conditional UPDATE; it returns the number of rows it matched.\<close>

definition claim_update :: "string \<Rightarrow> string \<Rightarrow> int \<Rightarrow> int \<Rightarrow> task list \<Rightarrow> nat \<times> task list" where
  "claim_update task_id worker_id now lease_until rows =
    (count_where (\<lambda>t. tk_task_id t = task_id \<and> still_claimable now t) rows,
     map (\<lambda>t. if tk_task_id t = task_id \<and> still_claimable now t
              then set_claimed worker_id now lease_until t else t) rows)"

fun claim_loop ::
  "(nat \<Rightarrow> task list \<Rightarrow> task list) \<Rightarrow> string \<Rightarrow> int \<Rightarrow> int \<Rightarrow> nat \<Rightarrow> task list \<Rightarrow> task option \<times> task list" where
  "claim_loop env worker_id now lease_until 0 rows = (None, rows)"
| "claim_loop env worker_id now lease_until (Suc n) rows =
    (case select_candidate now rows of
       None \<Rightarrow> (None, rows)
     | Some row \<Rightarrow>
        let (rowcount, rows') = claim_update (tk_task_id row) worker_id now lease_until (env n rows)
        in if rowcount = 1 then (get_task (tk_task_id row) rows', rows')
           else claim_loop env worker_id now lease_until n rows')"

definition claim_max_probes :: nat where
  "claim_max_probes = 50"

definition claim_task ::
  "(nat \<Rightarrow> task list \<Rightarrow> task list) \<Rightarrow> string \<Rightarrow> int \<Rightarrow> int \<Rightarrow> task list \<Rightarrow> task option \<times> task list" where
  "claim_task env worker_id now lease_seconds rows =
    claim_loop env worker_id now (now + lease_seconds * 1000000) claim_max_probes rows"

definition refresh_lease :: "string \<Rightarrow> string \<Rightarrow> int \<Rightarrow> task list \<Rightarrow> task list" where
  "refresh_lease task_id worker_id lease_until rows =
    (case get_task task_id rows of
       None \<Rightarrow> rows
     | Some row \<Rightarrow>
        if tk_lease_owner row = Some worker_id
        then upd_task task_id (\<lambda>t. t\<lparr>tk_lease_expires_at := Some lease_until\<rparr>) rows
        else rows)"

definition mark_succeeded :: "string \<Rightarrow> task list \<Rightarrow> task list" where
  "mark_succeeded task_id rows =
    (case get_task task_id rows of
       None \<Rightarrow> rows
     | Some row \<Rightarrow> upd_task task_id
         (\<lambda>t. t\<lparr>tk_status := ''succeeded'', tk_lease_owner := None, tk_lease_expires_at := None\<rparr>) rows)"

definition mark_failed :: "string \<Rightarrow> string \<Rightarrow> string option \<Rightarrow> task list \<Rightarrow> task list" where
  "mark_failed task_id error_code error_message rows =
    (case get_task task_id rows of
       None \<Rightarrow> rows
     | Some row \<Rightarrow> upd_task task_id
         (\<lambda>t. t\<lparr>tk_status := (if tk_retry_count t < tk_max_retries t then ''retry_scheduled'' else ''failed''),
               tk_error_code := Some error_code, tk_error_message := error_message,
               tk_lease_owner := None, tk_lease_expires_at := None\<rparr>) rows)"

definition schedule_retry :: "string \<Rightarrow> int \<Rightarrow> task list \<Rightarrow> task list" where
  "schedule_retry task_id next_run_at rows =
    (case get_task task_id rows of
       None \<Rightarrow> rows
     | Some row \<Rightarrow> upd_task task_id
         (\<lambda>t. t\<lparr>tk_status := ''queued'', tk_retry_count := tk_retry_count t + 1,
               tk_next_run_at := next_run_at, tk_lease_owner := None, tk_lease_expires_at := None\<rparr>) rows)"

definition list_pending :: "int \<Rightarrow> task list \<Rightarrow> task list" where
  "list_pending limit rows =
    order_by_limit tk_next_run_at limit (filter (\<lambda>t. tk_status t = ''queued'') rows)"

section \<open>Histories of a queue\<close>

text \<open>
  What a transaction can do to the table. A claim appears here by its one write, the
  conditional UPDATE.
\<close>

datatype queue_op =
    OpEnqueue task
  | OpClaim string string int int
  | OpRefresh string string int
  | OpSucceed string
  | OpFail string string "string option"
  | OpRetry string int

fun queue_step :: "queue_op \<Rightarrow> task list \<Rightarrow> task list" where
  "queue_step (OpEnqueue t) rows = snd (enqueue_task t rows)"
| "queue_step (OpClaim tid w now until) rows = snd (claim_update tid w now until rows)"
| "queue_step (OpRefresh tid w until) rows = refresh_lease tid w until rows"
| "queue_step (OpSucceed tid) rows = mark_succeeded tid rows"
| "queue_step (OpFail tid code msg) rows = mark_failed tid code msg rows"
| "queue_step (OpRetry tid run_at) rows = schedule_retry tid run_at rows"

definition queue_run :: "queue_op list \<Rightarrow> task list \<Rightarrow> task list" where
  "queue_run ops rows = fold queue_step ops rows"

section \<open>Effect of the operations on one row\<close>

lemma set_claimed_id [simp]: "tk_task_id (set_claimed w now u t) = tk_task_id t"
  by (simp add: set_claimed_def)

lemma claim_update_row_upd:
  "snd (claim_update tid w now u rows) =
    upd_task tid (\<lambda>t. if still_claimable now t then set_claimed w now u t else t) rows"
  by (simp add: claim_update_def row_upd_def)

lemma get_claim_update [simp]:
  "get_task k (snd (claim_update tid w now u rows)) =
    (if k = tid then map_option (\<lambda>t. if still_claimable now t then set_claimed w now u t else t) (get_task k rows)
     else get_task k rows)"
  unfolding claim_update_row_upd by (rule row_get_upd) simp

lemma count_claimable:
  assumes "keys_ok tk_task_id rows"
  shows "fst (claim_update tid w now u rows) =
    (case get_task tid rows of None \<Rightarrow> 0 | Some t \<Rightarrow> if still_claimable now t then 1 else 0)"
  using assms
proof (induction rows)
  case (Cons t rows)
  have "count_where (\<lambda>t. tk_task_id t = tid \<and> still_claimable now t) rows = 0" if "tk_task_id t = tid"
    using Cons.prems that unfolding keys_ok_def count_where_0_iff by (metis distinct.simps(2) image_eqI list.simps(9) set_map)
  moreover have "keys_ok tk_task_id rows" using Cons.prems by (simp add: keys_ok_def)
  ultimately show ?case using Cons.IH by (simp add: claim_update_def)
qed (simp add: claim_update_def)

lemma get_refresh [simp]:
  "get_task k (refresh_lease tid w u rows) =
    (if k = tid then map_option (\<lambda>t. if tk_lease_owner t = Some w then t\<lparr>tk_lease_expires_at := Some u\<rparr> else t) (get_task k rows)
     else get_task k rows)"
  by (auto simp: refresh_lease_def row_get_upd split: option.splits)

lemma get_mark_succeeded [simp]:
  "get_task k (mark_succeeded tid rows) =
    (if k = tid then map_option (\<lambda>t. t\<lparr>tk_status := ''succeeded'', tk_lease_owner := None, tk_lease_expires_at := None\<rparr>) (get_task k rows)
     else get_task k rows)"
  by (auto simp: mark_succeeded_def row_get_upd split: option.splits)

lemma get_mark_failed [simp]:
  "get_task k (mark_failed tid code msg rows) =
    (if k = tid then map_option
       (\<lambda>t. t\<lparr>tk_status := (if tk_retry_count t < tk_max_retries t then ''retry_scheduled'' else ''failed''),
             tk_error_code := Some code, tk_error_message := msg,
             tk_lease_owner := None, tk_lease_expires_at := None\<rparr>) (get_task k rows)
     else get_task k rows)"
  by (auto simp: mark_failed_def row_get_upd split: option.splits)

lemma get_schedule_retry [simp]:
  "get_task k (schedule_retry tid run_at rows) =
    (if k = tid then map_option
       (\<lambda>t. t\<lparr>tk_status := ''queued'', tk_retry_count := tk_retry_count t + 1,
             tk_next_run_at := run_at, tk_lease_owner := None, tk_lease_expires_at := None\<rparr>) (get_task k rows)
     else get_task k rows)"
  by (auto simp: schedule_retry_def row_get_upd split: option.splits)

lemma get_enqueue [simp]:
  "get_task k (snd (enqueue_task t rows)) =
    (case get_task k rows of Some x \<Rightarrow> Some x | None \<Rightarrow> if k = tk_task_id t then Some t else None)"
proof (cases "row_ins tk_task_id t rows")
  case None
  then show ?thesis
    by (auto simp: enqueue_task_def row_ins_def row_get_None_iff split: if_splits option.splits)
next
  case (Some rows')
  then have "get_task (tk_task_id t) rows = None"
    by (auto simp: row_ins_def row_get_None_iff split: if_splits)
  with Some show ?thesis by (auto simp: enqueue_task_def row_get_ins split: option.splits)
qed

lemma keys_ok_queue_step: "keys_ok tk_task_id rows \<Longrightarrow> keys_ok tk_task_id (queue_step op rows)"
  by (cases op)
    (auto simp: enqueue_task_def claim_update_row_upd refresh_lease_def mark_succeeded_def mark_failed_def
      schedule_retry_def keys_ok_row_upd keys_ok_row_ins split: option.splits)

lemma keys_ok_queue_run: "keys_ok tk_task_id rows \<Longrightarrow> keys_ok tk_task_id (queue_run ops rows)"
  unfolding queue_run_def by (induction ops arbitrary: rows) (auto simp: keys_ok_queue_step)

section \<open>Claiming\<close>

lemma select_candidate_None:
  "select_candidate now rows = None \<longleftrightarrow> (\<forall>t \<in> set rows. \<not> still_claimable now t)"
proof -
  have "order_by_limit claim_key 1 xs = [] \<longleftrightarrow> xs = []" for xs :: "task list"
    by (auto simp: order_by_limit_def dest: arg_cong [of _ _ length])
  then have "select_candidate now rows = None \<longleftrightarrow> filter (still_claimable now) rows = []"
    by (simp add: select_candidate_def split: list.split) (metis list.distinct(1))
  then show ?thesis by (simp add: filter_empty_conv)
qed

lemma select_candidate_Some:
  assumes "select_candidate now rows = Some r"
  shows "r \<in> set rows \<and> still_claimable now r \<and>
    (\<forall>t \<in> set rows. still_claimable now t \<longrightarrow> claim_key r \<le> claim_key t)"
proof -
  let ?c = "filter (still_claimable now) rows"
  obtain ts where ts: "order_by_limit claim_key 1 ?c = r # ts"
    using assms by (auto simp: select_candidate_def split: list.splits)
  then have ne: "?c \<noteq> []" by (auto simp: order_by_limit_def)
  have "r = hd (sort_key claim_key ?c)"
    using ts by (cases "sort_key claim_key ?c") (simp_all add: order_by_limit_def)
  then show ?thesis
    using hd_sort_key_in [OF ne, of claim_key] hd_sort_key_least [OF ne, of _ claim_key] by auto
qed

text \<open>
  C9. With no interference a claim takes the right task: it returns nothing exactly when no
  task is due and free, and otherwise the free due task with the highest priority and, among
  those, the earliest \<^verbatim>\<open>next_run_at\<close>; that row becomes \<^verbatim>\<open>running\<close> with the caller as owner until
  \<open>now\<close> plus the lease, and every other row is untouched.
\<close>

theorem claim_takes_best_due_task:
  assumes "keys_ok tk_task_id rows"
  shows "case claim_task (\<lambda>_ r. r) w now lease rows of
      (None, rows') \<Rightarrow> rows' = rows \<and> (\<forall>t \<in> set rows. \<not> still_claimable now t)
    | (Some t, rows') \<Rightarrow> \<exists>r \<in> set rows. still_claimable now r \<and>
        (\<forall>u \<in> set rows. still_claimable now u \<longrightarrow> claim_key r \<le> claim_key u) \<and>
        t = set_claimed w now (now + lease * 1000000) r \<and>
        rows' = upd_task (tk_task_id r) (set_claimed w now (now + lease * 1000000)) rows"
proof (cases "select_candidate now rows")
  case None
  then have "claim_task (\<lambda>_ r. r) w now lease rows = (None, rows)"
    by (simp add: claim_task_def claim_max_probes_def numeral_eq_Suc)
  with None show ?thesis by (simp add: select_candidate_None)
next
  case (Some r)
  note r = select_candidate_Some [OF Some]
  let ?u = "now + lease * 1000000"
  have get: "get_task (tk_task_id r) rows = Some r" using r assms by (simp add: row_get_iff)
  have "fst (claim_update (tk_task_id r) w now ?u rows) = 1"
    using count_claimable [OF assms] get r by simp
  moreover have "snd (claim_update (tk_task_id r) w now ?u rows) = upd_task (tk_task_id r) (set_claimed w now ?u) rows"
  proof -
    have "t = r" if "t \<in> set rows" "tk_task_id t = tk_task_id r" for t
      using that get assms by (metis row_get_iff option.inject)
    then show ?thesis using r by (auto simp: claim_update_def row_upd_def)
  qed
  ultimately have "claim_task (\<lambda>_ r. r) w now lease rows =
      (get_task (tk_task_id r) (upd_task (tk_task_id r) (set_claimed w now ?u) rows),
       upd_task (tk_task_id r) (set_claimed w now ?u) rows)"
    using Some by (simp add: claim_task_def claim_max_probes_def numeral_eq_Suc case_prod_beta Let_def)
  then show ?thesis using r get by (auto simp: row_get_upd)
qed

definition ex_task :: "string \<Rightarrow> int \<Rightarrow> task" where
  "ex_task tid prio = \<lparr>tk_task_id = tid, tk_task_type = ''analysis'', tk_payload = [], tk_status = ''queued'',
     tk_priority = prio, tk_retry_count = 0, tk_max_retries = 3, tk_next_run_at = 0, tk_lease_owner = None,
     tk_lease_expires_at = None, tk_updated_at = None, tk_error_code = None, tk_error_message = None\<rparr>"

lemma ex_task_id [simp]: "tk_task_id (ex_task tid p) = tid"
  by (simp add: ex_task_def)

theorem claim_takes_best_due_task_witness:
  "\<exists>rows'. claim_task (\<lambda>_ r. r) ''w'' 10 60 [ex_task ''a'' 1, ex_task ''b'' 5] =
    (Some (set_claimed ''w'' 10 60000010 (ex_task ''b'' 5)), rows')"
proof -
  let ?rows = "[ex_task ''a'' 1, ex_task ''b'' 5]"
  have ok: "keys_ok tk_task_id ?rows" by (simp add: keys_ok_def ex_task_def)
  have due: "still_claimable 10 (ex_task tid p)" for tid p by (simp add: ex_task_def still_claimable_def)
  have best: "r = ex_task ''b'' 5"
    if "r \<in> set ?rows" "\<forall>u \<in> set ?rows. still_claimable 10 u \<longrightarrow> claim_key r \<le> claim_key u" for r
    using that due by (auto simp: claim_key_def) (auto simp: ex_task_def)
  obtain res rows' where eq: "claim_task (\<lambda>_ r. r) ''w'' 10 60 ?rows = (res, rows')" by (metis prod.exhaust)
  note claim = claim_takes_best_due_task [OF ok, where w = "''w''" and now = 10 and lease = 60, unfolded eq]
  show ?thesis
  proof (cases res)
    case None
    with claim due show ?thesis by auto
  next
    case (Some t)
    with claim obtain r where "r \<in> set ?rows" "\<forall>u \<in> set ?rows. still_claimable 10 u \<longrightarrow> claim_key r \<le> claim_key u"
      "t = set_claimed ''w'' 10 60000010 r" by auto
    with best eq Some show ?thesis by blast
  qed
qed

lemma claim_task_won:
  assumes "\<And>n r. keys_ok tk_task_id r \<Longrightarrow> keys_ok tk_task_id (env n r)" and "keys_ok tk_task_id rows"
    and "claim_task env w now lease rows = (Some t, rows')"
  shows "\<exists>seen r. get_task (tk_task_id t) seen = Some r \<and> still_claimable now r \<and>
    t = set_claimed w now (now + lease * 1000000) r \<and>
    rows' = snd (claim_update (tk_task_id t) w now (now + lease * 1000000) seen)"
proof -
  have "claim_loop env w now u n rows = (Some t, rows') \<Longrightarrow> keys_ok tk_task_id rows \<Longrightarrow>
      \<exists>seen r. get_task (tk_task_id t) seen = Some r \<and> still_claimable now r \<and>
        t = set_claimed w now u r \<and> rows' = snd (claim_update (tk_task_id t) w now u seen)" for u n rows
  proof (induction n arbitrary: rows)
    case (Suc n)
    from Suc.prems(1) obtain c where c: "select_candidate now rows = Some c"
      by (cases "select_candidate now rows") auto
    define upd where "upd = claim_update (tk_task_id c) w now u (env n rows)"
    have env: "keys_ok tk_task_id (env n rows)" using assms(1) Suc.prems(2) by blast
    then have ok: "keys_ok tk_task_id (snd upd)"
      using keys_ok_queue_step [of "env n rows" "OpClaim (tk_task_id c) w now u"] by (simp add: upd_def)
    show ?case
    proof (cases "fst upd = 1")
      case True
      with c Suc.prems(1) have res: "get_task (tk_task_id c) (snd upd) = Some t" "rows' = snd upd"
        by (auto simp: upd_def case_prod_beta Let_def simp del: get_claim_update)
      from res(1) have id: "tk_task_id c = tk_task_id t" by (rule row_get_key [symmetric])
      from res(1) obtain r where r: "get_task (tk_task_id c) (env n rows) = Some r"
        "t = (if still_claimable now r then set_claimed w now u r else r)"
        by (auto simp: upd_def)
      have "fst upd = (if still_claimable now r then 1 else 0)"
        unfolding upd_def count_claimable [OF env] r(1) by simp
      with True have "still_claimable now r" by (cases "still_claimable now r") simp_all
      with r have "get_task (tk_task_id t) (env n rows) = Some r \<and> still_claimable now r \<and>
          t = set_claimed w now u r \<and> rows' = snd (claim_update (tk_task_id t) w now u (env n rows))"
        unfolding res(2) upd_def by (simp add: id)
      then show ?thesis by blast
    next
      case False
      with c Suc.prems(1) have "claim_loop env w now u n (snd upd) = (Some t, rows')"
        by (simp add: upd_def case_prod_beta Let_def)
      then show ?thesis using Suc.IH ok by blast
    qed
  qed simp
  with assms(2,3) show ?thesis by (simp add: claim_task_def)
qed

definition ex_env :: "nat \<Rightarrow> task list \<Rightarrow> task list" where
  "ex_env n rows = (if n = 49 then queue_step (OpClaim ''b'' ''rival'' 10 90) rows else rows)"

lemma ex_env_ok: "keys_ok tk_task_id r \<Longrightarrow> keys_ok tk_task_id (ex_env n r)"
  using keys_ok_queue_step by (simp add: ex_env_def del: queue_step.simps)

lemma ex_claim:
  "fst (claim_task ex_env ''w'' 10 60 [ex_task ''a'' 1, ex_task ''b'' 5]) =
    Some (set_claimed ''w'' 10 60000010 (ex_task ''a'' 1))"
proof -
  let ?u = "60000010 :: int"
  have c1: "select_candidate 10 [ex_task ''a'' 1, ex_task ''b'' 5] = Some (ex_task ''b'' 5)"
    by (simp add: select_candidate_def order_by_limit_def still_claimable_def claim_key_def ex_task_def)
  let ?mid = "[ex_task ''a'' 1, set_claimed ''rival'' 10 90 (ex_task ''b'' 5)]"
  have e1: "ex_env 49 [ex_task ''a'' 1, ex_task ''b'' 5] = ?mid"
    by (simp add: ex_env_def claim_update_def ex_task_def still_claimable_def)
  have u1: "claim_update ''b'' ''w'' 10 ?u ?mid = (0, ?mid)"
    by (simp add: claim_update_def ex_task_def still_claimable_def set_claimed_def)
  have c2: "select_candidate 10 ?mid = Some (ex_task ''a'' 1)"
    by (simp add: select_candidate_def order_by_limit_def still_claimable_def claim_key_def ex_task_def set_claimed_def)
  have u2: "claim_update ''a'' ''w'' 10 ?u ?mid =
      (1, [set_claimed ''w'' 10 ?u (ex_task ''a'' 1), set_claimed ''rival'' 10 90 (ex_task ''b'' 5)])"
    by (simp add: claim_update_def ex_task_def still_claimable_def set_claimed_def)
  have e2: "ex_env 48 ?mid = ?mid" by (simp add: ex_env_def)
  have "claim_loop ex_env ''w'' 10 ?u (Suc 49) [ex_task ''a'' 1, ex_task ''b'' 5] = claim_loop ex_env ''w'' 10 ?u 49 ?mid"
    by (subst claim_loop.simps(2)) (simp add: c1 e1 u1)
  moreover have "fst (claim_loop ex_env ''w'' 10 ?u (Suc 48) ?mid) = Some (set_claimed ''w'' 10 ?u (ex_task ''a'' 1))"
    by (subst claim_loop.simps(2)) (simp add: c2 e2 u2)
  ultimately show ?thesis by (simp add: claim_task_def claim_max_probes_def)
qed

section \<open>Leases\<close>

text \<open>Operations that respect the lease of \<open>w\<close> on \<open>t\<close> up to time \<open>e\<close>.\<close>

fun honours :: "string \<Rightarrow> string \<Rightarrow> int \<Rightarrow> queue_op \<Rightarrow> bool" where
  "honours t w e (OpEnqueue x) = True"
| "honours t w e (OpClaim t' w' now u) = (now \<le> e)"
| "honours t w e (OpRefresh t' w' u) = (t' = t \<and> w' = w \<longrightarrow> e \<le> u)"
| "honours t w e (OpSucceed t') = (t' \<noteq> t)"
| "honours t w e (OpFail t' c m) = (t' \<noteq> t)"
| "honours t w e (OpRetry t' n) = (t' \<noteq> t)"

text \<open>
  The promise a queue makes to a worker that holds a lease: until the lease runs out only
  the worker itself, or an operation that ends or reschedules this very task, changes who
  holds it.
\<close>

locale lease_table =
  fixes holder :: "'s \<Rightarrow> string \<Rightarrow> (string \<times> int) option"
    and step :: "queue_op \<Rightarrow> 's \<Rightarrow> 's"
  assumes claim_law: "holder s t = Some (w, e) \<Longrightarrow> now \<le> e \<Longrightarrow> holder (step (OpClaim t' w' now u) s) t = Some (w, e)"
    and refresh_law: "holder s t = Some (w, e) \<Longrightarrow>
      holder (step (OpRefresh t' w' u) s) t = Some (w, if t' = t \<and> w' = w then u else e)"
    and enqueue_law: "holder s t = Some (w, e) \<Longrightarrow> holder (step (OpEnqueue x) s) t = Some (w, e)"
    and succeed_law: "t' \<noteq> t \<Longrightarrow> holder (step (OpSucceed t') s) t = holder s t"
    and fail_law: "t' \<noteq> t \<Longrightarrow> holder (step (OpFail t' c m) s) t = holder s t"
    and retry_law: "t' \<noteq> t \<Longrightarrow> holder (step (OpRetry t' n) s) t = holder s t"
begin

lemma lease_kept:
  "\<forall>op \<in> set ops. honours t w e op \<Longrightarrow> holder s t = Some (w, e') \<Longrightarrow> e \<le> e' \<Longrightarrow>
    \<exists>e''. holder (fold step ops s) t = Some (w, e'') \<and> e \<le> e''"
proof (induction ops arbitrary: s e')
  case (Cons op ops)
  then have "\<exists>e''. holder (step op s) t = Some (w, e'') \<and> e \<le> e''"
    by (cases op) (auto simp: claim_law refresh_law enqueue_law succeed_law fail_law retry_law)
  then obtain e'' where "holder (step op s) t = Some (w, e'')" "e \<le> e''" by blast
  with Cons.IH [of "step op s" e''] Cons.prems(1) show ?case by simp
qed simp

end

definition lease_holder :: "task list \<Rightarrow> string \<Rightarrow> (string \<times> int) option" where
  "lease_holder rows tid =
    (case get_task tid rows of
       None \<Rightarrow> None
     | Some t \<Rightarrow> (if tk_status t = ''running'' then
         (case (tk_lease_owner t, tk_lease_expires_at t) of (Some w, Some e) \<Rightarrow> Some (w, e) | _ \<Rightarrow> None)
         else None))"

interpretation sqlite_leases: lease_table lease_holder queue_step
  by unfold_locales
    (auto simp: lease_holder_def still_claimable_def split: option.splits if_splits)

text \<open>A claim that meets a valid lease of another worker leaves it alone, at whatever probe.\<close>

lemma claim_loop_respects:
  assumes env: "\<And>n r. keys_ok tk_task_id r \<Longrightarrow> keys_ok tk_task_id (env n r)"
    and keep: "\<And>n r. lease_holder r tid = Some (x, e) \<Longrightarrow> lease_holder (env n r) tid = Some (x, e)"
    and now: "now \<le> e"
  shows "keys_ok tk_task_id rows \<Longrightarrow> (\<And>m. n = Suc m \<Longrightarrow> lease_holder (env m rows) tid = Some (x, e)) \<Longrightarrow>
    claim_loop env w now u n rows = (Some t, rows') \<Longrightarrow>
    tk_task_id t \<noteq> tid \<and> lease_holder rows' tid = Some (x, e) \<and> lease_holder rows' (tk_task_id t) = Some (w, u)"
proof (induction n arbitrary: rows)
  case (Suc n)
  from Suc.prems(3) obtain c where c: "select_candidate now rows = Some c"
    by (cases "select_candidate now rows") auto
  define upd where "upd = claim_update (tk_task_id c) w now u (env n rows)"
  have ok: "keys_ok tk_task_id (env n rows)" using env Suc.prems(1) by blast
  then have ok': "keys_ok tk_task_id (snd upd)"
    using keys_ok_queue_step [of "env n rows" "OpClaim (tk_task_id c) w now u"] by (simp add: upd_def)
  have held: "lease_holder (env n rows) tid = Some (x, e)" using Suc.prems(2) by blast
  then have held': "lease_holder (snd upd) tid = Some (x, e)"
    using sqlite_leases.claim_law [OF held now, of "tk_task_id c" w u] by (simp add: upd_def)
  show ?case
  proof (cases "fst upd = 1")
    case True
    with c Suc.prems(3) have res: "get_task (tk_task_id c) (snd upd) = Some t" "rows' = snd upd"
      by (auto simp: upd_def case_prod_beta Let_def simp del: get_claim_update)
    from res(1) have id: "tk_task_id c = tk_task_id t" by (rule row_get_key [symmetric])
    obtain r where r: "get_task (tk_task_id c) (env n rows) = Some r" using res(1) by (auto simp: upd_def)
    have "fst upd = (if still_claimable now r then 1 else 0)"
      unfolding upd_def count_claimable [OF ok] r by simp
    with True have due: "still_claimable now r" by (cases "still_claimable now r") simp_all
    have "tk_task_id t \<noteq> tid"
      using due held r now by (auto simp: id lease_holder_def still_claimable_def split: if_splits option.splits)
    moreover have "lease_holder rows' (tk_task_id t) = Some (w, u)"
      using due r by (simp add: res(2) upd_def id lease_holder_def set_claimed_def)
    ultimately show ?thesis using held' res(2) by simp
  next
    case False
    with c Suc.prems(3) have "claim_loop env w now u n (snd upd) = (Some t, rows')"
      by (simp add: upd_def case_prod_beta Let_def)
    with Suc.IH [OF ok'] keep [OF held'] show ?thesis by blast
  qed
qed simp

text \<open>
  C10. A claim is exclusive whatever other transactions do between its SELECT and its UPDATE, as long as they keep
  task ids unique: if by the time of the first UPDATE another worker \<open>x\<close> holds a task until \<open>e\<close>, not before the
  claim's own clock, and the other transactions of the claim leave that lease as it is, then the claim never
  returns that task, even if it was the one it had selected; \<open>x\<close> still holds it afterwards, and the task that is
  returned, if any, is leased to the caller for the time it asked for.
\<close>

theorem claim_exclusive_under_interference:
  assumes "\<And>n r. keys_ok tk_task_id r \<Longrightarrow> keys_ok tk_task_id (env n r)" and "keys_ok tk_task_id rows"
    and "lease_holder (env 49 rows) tid = Some (x, e)" and "now \<le> e"
    and "\<And>n r. lease_holder r tid = Some (x, e) \<Longrightarrow> lease_holder (env n r) tid = Some (x, e)"
    and "claim_task env w now lease rows = (Some t, rows')"
  shows "tk_task_id t \<noteq> tid \<and> lease_holder rows' tid = Some (x, e) \<and>
    lease_holder rows' (tk_task_id t) = Some (w, now + lease * 1000000)"
proof (rule claim_loop_respects [where n = 50 and rows = rows and env = env])
  show "claim_loop env w now (now + lease * 1000000) 50 rows = (Some t, rows')"
    using assms(6) by (simp add: claim_task_def claim_max_probes_def)
  show "lease_holder (env m rows) tid = Some (x, e)" if "50 = Suc m" for m
    using assms(3) that by simp
qed (use assms in auto)

lemma ex_env_keeps:
  "lease_holder r ''b'' = Some (''rival'', 90) \<Longrightarrow> lease_holder (ex_env n r) ''b'' = Some (''rival'', 90)"
  using sqlite_leases.claim_law [of r "''b''" "''rival''" 90 10 "''b''" "''rival''" 90]
  by (simp add: ex_env_def del: queue_step.simps)

theorem claim_exclusive_under_interference_witness:
  "\<exists>rows'. claim_task ex_env ''w'' 10 60 [ex_task ''a'' 1, ex_task ''b'' 5] =
      (Some (set_claimed ''w'' 10 60000010 (ex_task ''a'' 1)), rows') \<and>
    select_candidate 10 [ex_task ''a'' 1, ex_task ''b'' 5] = Some (ex_task ''b'' 5) \<and>
    lease_holder rows' ''b'' = Some (''rival'', 90) \<and> lease_holder rows' ''a'' = Some (''w'', 60000010)"
proof -
  obtain rows' where eq: "claim_task ex_env ''w'' 10 60 [ex_task ''a'' 1, ex_task ''b'' 5] =
      (Some (set_claimed ''w'' 10 60000010 (ex_task ''a'' 1)), rows')"
    using ex_claim by (metis prod.collapse)
  have ok: "keys_ok tk_task_id [ex_task ''a'' 1, ex_task ''b'' 5]" by (simp add: keys_ok_def ex_task_def)
  have id: "tk_task_id (set_claimed ''w'' 10 60000010 (ex_task ''a'' 1)) = ''a''" by (simp add: ex_task_def)
  have held: "lease_holder (ex_env 49 [ex_task ''a'' 1, ex_task ''b'' 5]) ''b'' = Some (''rival'', 90)"
    by (simp add: ex_env_def lease_holder_def claim_update_def ex_task_def still_claimable_def set_claimed_def)
  have "select_candidate 10 [ex_task ''a'' 1, ex_task ''b'' 5] = Some (ex_task ''b'' 5)"
    by (simp add: select_candidate_def order_by_limit_def still_claimable_def claim_key_def ex_task_def)
  moreover note claim_exclusive_under_interference [OF ex_env_ok ok held _ ex_env_keeps eq, unfolded id]
  ultimately show ?thesis using eq by simp
qed

text \<open>
  C11. A lease is safe from other workers' claims and refreshes: once a worker has claimed a task with a lease
  until \<open>e\<close>, the task stays running and owned by that worker, with an expiry not before \<open>e\<close>, through any sequence
  of enqueues, claims by anyone at times up to \<open>e\<close>, refreshes by anyone (its own not shortening the lease), and
  endings and retries of other tasks. The ending or rescheduling of this very task is the one operation that is
  left out: the code does not ask who calls it, so whoever does ends the lease (lemma \<open>ending_ignores_the_owner\<close>).
\<close>

theorem lease_is_safe:
  assumes "claim_task env w now lease rows = (Some t, rows')"
    and "\<And>n r. keys_ok tk_task_id r \<Longrightarrow> keys_ok tk_task_id (env n r)" and "keys_ok tk_task_id rows"
    and "e = now + lease * 1000000"
    and "\<forall>op \<in> set ops. honours (tk_task_id t) w e op"
  shows "\<exists>e'. lease_holder (queue_run ops rows') (tk_task_id t) = Some (w, e') \<and> e \<le> e'"
proof -
  obtain seen r where "get_task (tk_task_id t) seen = Some r" "still_claimable now r"
    "rows' = snd (claim_update (tk_task_id t) w now e seen)"
    using claim_task_won [OF assms(2,3,1)] assms(4) by blast
  then have "lease_holder rows' (tk_task_id t) = Some (w, e)"
    by (simp add: lease_holder_def set_claimed_def)
  then show ?thesis
    using sqlite_leases.lease_kept [OF assms(5)] by (simp add: queue_run_def)
qed

theorem lease_is_safe_witness:
  "\<exists>rows' e'. claim_task ex_env ''w'' 10 60 [ex_task ''a'' 1, ex_task ''b'' 5] =
      (Some (set_claimed ''w'' 10 60000010 (ex_task ''a'' 1)), rows') \<and>
    lease_holder (queue_run [OpClaim ''a'' ''x'' 60000000 70000000, OpSucceed ''b''] rows') ''a'' = Some (''w'', e') \<and>
    60000010 \<le> e'"
proof -
  obtain rows' where eq: "claim_task ex_env ''w'' 10 60 [ex_task ''a'' 1, ex_task ''b'' 5] =
      (Some (set_claimed ''w'' 10 60000010 (ex_task ''a'' 1)), rows')"
    using ex_claim by (metis prod.collapse)
  have ok: "keys_ok tk_task_id [ex_task ''a'' 1, ex_task ''b'' 5]" by (simp add: keys_ok_def ex_task_def)
  have id: "tk_task_id (set_claimed ''w'' 10 60000010 (ex_task ''a'' 1)) = ''a''" by (simp add: ex_task_def)
  have "\<exists>e'. lease_holder (queue_run [OpClaim ''a'' ''x'' 60000000 70000000, OpSucceed ''b''] rows') ''a'' = Some (''w'', e') \<and>
      60000010 \<le> e'"
    by (rule lease_is_safe [OF eq ex_env_ok ok, unfolded id]) simp_all
  with eq show ?thesis by blast
qed

lemma ending_ignores_the_owner:
  "lease_holder (queue_step (OpSucceed tid) rows) tid = None"
  "lease_holder (queue_step (OpFail tid error msg) rows) tid = None"
  "lease_holder (queue_step (OpRetry tid run_at) rows) tid = None"
  by (simp_all add: lease_holder_def split: option.split)

section \<open>The table invariant\<close>

definition task_ok :: "task \<Rightarrow> bool" where
  "task_ok t \<longleftrightarrow> tk_status t \<in> {''queued'', ''running'', ''succeeded'', ''failed'', ''retry_scheduled''} \<and>
    (tk_status t = ''running'' \<longleftrightarrow> tk_lease_owner t \<noteq> None) \<and>
    (tk_lease_owner t = None \<longleftrightarrow> tk_lease_expires_at t = None)"

definition queue_ok :: "task list \<Rightarrow> bool" where
  "queue_ok rows \<longleftrightarrow> keys_ok tk_task_id rows \<and> (\<forall>t \<in> set rows. task_ok t)"

lemma queue_ok_get: "queue_ok rows \<longleftrightarrow> keys_ok tk_task_id rows \<and> (\<forall>k t. get_task k rows = Some t \<longrightarrow> task_ok t)"
  by (auto simp: queue_ok_def row_get_iff)

text \<open>
  C12. The queue table invariant: task ids stay unique, a status is one of the five the code
  knows, and a task has an owner and an expiry exactly while it is running. Every sequence of
  queue operations keeps it when the enqueued tasks satisfy it.
\<close>

theorem queue_invariant:
  assumes "queue_ok rows" and "\<forall>t. OpEnqueue t \<in> set ops \<longrightarrow> task_ok t"
  shows "queue_ok (queue_run ops rows)"
  using assms
proof (induction ops arbitrary: rows)
  case (Cons op ops)
  have "keys_ok tk_task_id (queue_step op rows)" using Cons.prems(1) keys_ok_queue_step by (simp add: queue_ok_def)
  moreover have "task_ok t'" if "get_task k (queue_step op rows) = Some t'" for k t'
  proof (cases op)
    case (OpEnqueue t)
    with that Cons.prems show ?thesis by (auto simp: queue_ok_get split: option.splits if_splits)
  qed (use that Cons.prems(1) in \<open>auto simp: queue_ok_get task_ok_def set_claimed_def split: if_splits\<close>)
  ultimately have "queue_ok (queue_step op rows)" by (simp add: queue_ok_get)
  with Cons show ?case by (simp add: queue_run_def)
qed (simp add: queue_run_def)

theorem queue_invariant_witness:
  "queue_ok (queue_run [OpEnqueue (ex_task ''a'' 1), OpClaim ''a'' ''w'' 10 90, OpFail ''a'' ''E'' None] [])"
  by (rule queue_invariant) (auto simp: queue_ok_def keys_ok_def task_ok_def ex_task_def)

section \<open>Retries\<close>

text \<open>
  C15. A failed task waits for a \<^verbatim>\<open>schedule_retry\<close> that nothing else replaces: after
  \<^verbatim>\<open>mark_failed\<close> its status is \<^verbatim>\<open>retry_scheduled\<close> or \<^verbatim>\<open>failed\<close>, and over any sequence of enqueues,
  claims, refreshes and operations on other tasks, at whatever times, it keeps that status and is
  never leased. Since the program never calls \<^verbatim>\<open>schedule_retry\<close>, the retry budget
  \<^verbatim>\<open>max_retries\<close> of a queue task is never spent.
\<close>

theorem failed_task_is_never_claimed:
  assumes "get_task tid rows = Some t"
    and "\<forall>op \<in> set ops. (\<forall>c m. op \<noteq> OpFail tid c m) \<and> op \<noteq> OpSucceed tid \<and> (\<forall>n. op \<noteq> OpRetry tid n)"
  shows "\<exists>t'. get_task tid (queue_run ops (mark_failed tid code msg rows)) = Some t' \<and>
    tk_status t' = (if tk_retry_count t < tk_max_retries t then ''retry_scheduled'' else ''failed'') \<and>
    lease_holder (queue_run ops (mark_failed tid code msg rows)) tid = None"
proof -
  let ?st = "if tk_retry_count t < tk_max_retries t then ''retry_scheduled'' else ''failed''"
  have "\<exists>t'. get_task tid (queue_run ops rows) = Some t' \<and> tk_status t' = ?st \<and> tk_lease_owner t' = None"
    if "\<exists>t'. get_task tid rows = Some t' \<and> tk_status t' = ?st \<and> tk_lease_owner t' = None" for rows
    using assms(2) that
  proof (induction ops arbitrary: rows)
    case (Cons op ops)
    from Cons.prems(2) obtain u where u: "get_task tid rows = Some u" "tk_status u = ?st" "tk_lease_owner u = None"
      by blast
    have free: "\<not> still_claimable now u" for now using u(2) by (simp add: still_claimable_def split: if_splits)
    have "get_task tid (queue_step op rows) = Some u"
      using Cons.prems(1) u(1,3) free by (cases op) auto
    then have "\<exists>t'. get_task tid (queue_step op rows) = Some t' \<and> tk_status t' = ?st \<and> tk_lease_owner t' = None"
      using u(2,3) by blast
    with Cons.IH Cons.prems(1) show ?case by (simp add: queue_run_def)
  qed (simp add: queue_run_def)
  from this [of "mark_failed tid code msg rows"] assms(1) show ?thesis
    by (auto simp: lease_holder_def split: option.splits if_splits)
qed

theorem failed_task_is_never_claimed_witness:
  "\<exists>t'. get_task ''a'' (queue_run [OpClaim ''a'' ''w'' 1000 2000] (mark_failed ''a'' ''E'' None [ex_task ''a'' 1])) = Some t' \<and>
    tk_status t' = ''retry_scheduled''"
  using failed_task_is_never_claimed [of "''a''" "[ex_task ''a'' 1]" "ex_task ''a'' 1" "[OpClaim ''a'' ''w'' 1000 2000]" "''E''" None]
  by (auto simp: ex_task_def)

end
