(* ===== verification/Cctv_Scheduler.thy ===== *)
theory Cctv_Scheduler
  imports Cctv_Domain
begin

text \<open>
  Cross-scale scheduling (\<^verbatim>\<open>workers/cross_scale_scheduler.py\<close>, \<^verbatim>\<open>workers/unit_result.py\<close>): the
  dispatch order that interleaves high-frequency and default units, and the run that tallies
  the outcome of every unit. A unit's closure is a function on the state it works on that
  may raise; units that complete in another order than they were submitted in are the
  argument \<open>completion\<close>.
\<close>

section \<open>Data\<close>

datatype unit_outcome = OUTCOME_SUCCEEDED | OUTCOME_FAILED | OUTCOME_SKIPPED

record scale_process_result =
  spr_total :: nat
  spr_succeeded :: nat
  spr_failed :: nat
  spr_skipped :: nat

record 's planned_unit =
  pu_scale :: analysis_scale
  pu_run :: "('s, exn, unit_outcome) se"

section \<open>Dispatch order\<close>

text \<open>
  One turn of the outer loop: up to \<open>quota\<close> high-frequency units, then one default unit. The
  quota is at least 1 in the caller; the guard makes the recursion well-founded.
\<close>

function dispatch_loop :: "nat \<Rightarrow> 'u list \<Rightarrow> 'u list \<Rightarrow> 'u list" where
  "dispatch_loop quota hf df =
    (if (hf = [] \<and> df = []) \<or> quota = 0 then []
     else take quota hf @
       (case df of
          d # ds \<Rightarrow> d # dispatch_loop quota (drop quota hf) ds
        | [] \<Rightarrow> if drop quota hf = [] then [] else dispatch_loop quota (drop quota hf) []))"
  by pat_completeness auto
termination
  by (relation "measure (\<lambda>(q, hf, df). length hf + length df)") auto

declare dispatch_loop.simps [simp del]

definition dispatch_order :: "'u list \<Rightarrow> 'u list \<Rightarrow> int \<Rightarrow> 'u list" where
  "dispatch_order high_freq default_us high_freq_quota =
    dispatch_loop (nat (max 1 high_freq_quota)) high_freq default_us"

section \<open>Running the units\<close>

definition safe_run :: "'s planned_unit \<Rightarrow> 's \<Rightarrow> unit_outcome \<times> 's" where
  "safe_run u s = (case pu_run u s of (Inl _, s') \<Rightarrow> (OUTCOME_FAILED, s') | (Inr r, s') \<Rightarrow> (r, s'))"

definition tally :: "scale_process_result \<Rightarrow> unit_outcome \<Rightarrow> scale_process_result" where
  "tally c r =
    (case r of
       OUTCOME_SUCCEEDED \<Rightarrow> c\<lparr>spr_succeeded := spr_succeeded c + 1\<rparr>
     | OUTCOME_SKIPPED \<Rightarrow> c\<lparr>spr_skipped := spr_skipped c + 1\<rparr>
     | OUTCOME_FAILED \<Rightarrow> c\<lparr>spr_failed := spr_failed c + 1\<rparr>)"

fun tally_units ::
  "'s planned_unit list \<Rightarrow> (analysis_scale \<Rightarrow> scale_process_result) \<Rightarrow> 's
    \<Rightarrow> (analysis_scale \<Rightarrow> scale_process_result) \<times> 's" where
  "tally_units [] totals s = (totals, s)"
| "tally_units (u # us) totals s =
    (case safe_run u s of (r, s') \<Rightarrow>
       tally_units us (totals(pu_scale u := tally (totals (pu_scale u)) r)) s')"

definition new_totals :: "nat \<Rightarrow> nat \<Rightarrow> analysis_scale \<Rightarrow> scale_process_result" where
  "new_totals n_default n_high scale =
    \<lparr>spr_total = (if scale = DEFAULT_SEGMENT then n_default else if scale = HIGH_FREQ_EVENT then n_high else 0),
     spr_succeeded = 0, spr_failed = 0, spr_skipped = 0\<rparr>"

definition scheduler_run ::
  "int \<Rightarrow> int \<Rightarrow> ('s planned_unit list \<Rightarrow> 's planned_unit list) \<Rightarrow> 's planned_unit list \<Rightarrow> 's planned_unit list
    \<Rightarrow> 's \<Rightarrow> (analysis_scale \<Rightarrow> scale_process_result) \<times> 's" where
  "scheduler_run max_workers high_freq_quota completion high_freq_units default_units s =
    (let ordered = dispatch_order high_freq_units default_units (max 1 high_freq_quota);
         totals = new_totals (length default_units) (length high_freq_units)
     in if ordered = [] then (totals, s)
     else if max 1 max_workers = 1 then tally_units ordered totals s
     else tally_units (completion ordered) totals s)"

section \<open>The dispatch order is fair\<close>

lemma dispatch_loop_Nil [simp]: "dispatch_loop q [] [] = []"
  by (subst dispatch_loop.simps) simp

lemma dispatch_loop_hf: "0 < q \<Longrightarrow> dispatch_loop q hf [] = hf"
proof (induction "length hf" arbitrary: hf rule: less_induct)
  case less
  show ?case
  proof (cases "drop q hf = []")
    case True
    then show ?thesis using less.prems by (subst dispatch_loop.simps) auto
  next
    case False
    then have "length (drop q hf) < length hf" using less.prems by auto
    with less have "dispatch_loop q (drop q hf) [] = drop q hf" by blast
    with False less.prems show ?thesis by (subst dispatch_loop.simps) (auto simp: append_take_drop_id)
  qed
qed

lemma dispatch_loop_df:
  "0 < q \<Longrightarrow> dispatch_loop q hf (d # ds) = take q hf @ d # dispatch_loop q (drop q hf) ds"
  by (subst dispatch_loop.simps) simp

lemma dispatch_loop_mset: "0 < q \<Longrightarrow> mset (dispatch_loop q hf df) = mset hf + mset df"
proof (induction df arbitrary: hf)
  case (Cons d ds)
  have "mset (take q hf) + mset (drop q hf) = mset hf" by (metis append_take_drop_id mset_append)
  with Cons show ?case by (simp add: dispatch_loop_df)
qed (simp add: dispatch_loop_hf)

lemma dispatch_loop_default_position:
  "0 < q \<Longrightarrow> k < length df \<Longrightarrow>
    min ((k + 1) * q) (length hf) + k < length (dispatch_loop q hf df) \<and>
    dispatch_loop q hf df ! (min ((k + 1) * q) (length hf) + k) = df ! k"
proof (induction df arbitrary: hf k)
  case (Cons d ds)
  show ?case
  proof (cases k)
    case 0
    have "min q (length hf) = length (take q hf)" by (simp add: min.commute)
    with 0 Cons.prems show ?thesis by (simp add: dispatch_loop_df nth_append)
  next
    case (Suc k')
    let ?p = "min ((k' + 1) * q) (length (drop q hf)) + k'"
    have len: "length (take q hf) = min q (length hf)" by (simp add: min.commute)
    have pos: "min ((k + 1) * q) (length hf) + k = length (take q hf) + Suc ?p"
      using Suc by (auto simp: min_def)
    have "dispatch_loop q hf (d # ds) ! (length (take q hf) + Suc ?p) =
        (d # dispatch_loop q (drop q hf) ds) ! Suc ?p"
      unfolding dispatch_loop_df [OF Cons.prems(1)] by (rule nth_append_length_plus)
    moreover have "length (dispatch_loop q hf (d # ds)) =
        length (take q hf) + Suc (length (dispatch_loop q (drop q hf) ds))"
      unfolding dispatch_loop_df [OF Cons.prems(1)] by simp
    ultimately show ?thesis
      using Cons.IH [of k' "drop q hf"] Cons.prems Suc unfolding pos by simp
  qed
qed simp

lemma dispatch_loop_filter_hf:
  assumes "0 < q" and "\<forall>u \<in> set hf. P u" and "\<forall>u \<in> set df. \<not> P u"
  shows "filter P (dispatch_loop q hf df) = hf \<and> filter (\<lambda>u. \<not> P u) (dispatch_loop q hf df) = df"
  using assms
proof (induction df arbitrary: hf)
  case Nil
  then show ?case by (simp add: dispatch_loop_hf)
next
  case (Cons d ds)
  have "\<forall>u \<in> set (take q hf). P u" "\<forall>u \<in> set (drop q hf). P u"
    using Cons.prems by (auto dest: in_set_takeD in_set_dropD)
  moreover from this Cons have "filter P (dispatch_loop q (drop q hf) ds) = drop q hf \<and>
      filter (\<lambda>u. \<not> P u) (dispatch_loop q (drop q hf) ds) = ds" by simp
  moreover have "filter P (take q hf) = take q hf \<and> filter (\<lambda>u. \<not> P u) (take q hf) = []"
    using calculation(1) by (auto simp: filter_empty_conv)
  ultimately show ?case using Cons.prems by (simp add: dispatch_loop_df)
qed

text \<open>
  C13. Dispatch is complete, stable and starvation-free: every planned unit appears exactly
  once; each scale keeps its own order; and the \<open>k\<close>-th default unit is dispatched right after
  \<open>(k + 1) * quota\<close> high-frequency units (or all of them when there are fewer) and the \<open>k\<close>
  default units before it, however many high-frequency units there are.
\<close>

theorem dispatch_is_fair:
  fixes hf df :: "'u list"
  assumes "q = nat (max 1 quota)" and "\<forall>u \<in> set hf. P u" and "\<forall>u \<in> set df. \<not> P u"
  shows "mset (dispatch_order hf df quota) = mset hf + mset df \<and>
    filter P (dispatch_order hf df quota) = hf \<and> filter (\<lambda>u. \<not> P u) (dispatch_order hf df quota) = df \<and>
    (\<forall>k < length df. dispatch_order hf df quota ! (min ((k + 1) * q) (length hf) + k) = df ! k)"
proof -
  have q: "0 < q" using assms(1) by simp
  show ?thesis
    unfolding dispatch_order_def assms(1) [symmetric]
    using dispatch_loop_mset [OF q] dispatch_loop_filter_hf [OF q assms(2,3)]
      dispatch_loop_default_position [OF q, of _ df hf] by blast
qed

theorem dispatch_is_fair_witness:
  "dispatch_order [1, 2, 3, 4, 5, 6, 7 :: int] [-1, -2] 3 ! 3 = -1 \<and>
   dispatch_order [1, 2, 3, 4, 5, 6, 7 :: int] [-1, -2] 3 ! 7 = -2"
proof -
  have "\<forall>k < length [-1, -2 :: int]. dispatch_order [1, 2, 3, 4, 5, 6, 7 :: int] [-1, -2] 3 !
      (min ((k + 1) * 3) (length [1, 2, 3, 4, 5, 6, 7 :: int]) + k) = [-1, -2] ! k"
    using dispatch_is_fair [of 3 3 "[1, 2, 3, 4, 5, 6, 7 :: int]" "\<lambda>u. 0 < u" "[-1, -2]"] by simp
  from this [rule_format, of 0] this [rule_format, of 1] show ?thesis by (simp add: numeral_eq_Suc)
qed

section \<open>Every unit is counted once\<close>

lemma tally_total: "spr_total (tally c r) = spr_total c"
  and tally_sum: "spr_succeeded (tally c r) + spr_failed (tally c r) + spr_skipped (tally c r) =
    spr_succeeded c + spr_failed c + spr_skipped c + 1"
  by (simp_all add: tally_def split: unit_outcome.split)

definition tallied :: "scale_process_result \<Rightarrow> nat" where
  "tallied c = spr_succeeded c + spr_failed c + spr_skipped c"

lemma tallied_tally [simp]: "tallied (tally c r) = tallied c + 1"
  by (simp add: tallied_def tally_sum)

lemma tally_units_counts:
  "tallied (fst (tally_units us totals s) sc) = tallied (totals sc) + count_where (\<lambda>u. pu_scale u = sc) us \<and>
    spr_total (fst (tally_units us totals s) sc) = spr_total (totals sc)"
proof (induction us arbitrary: totals s)
  case (Cons u us)
  then show ?case by (simp add: case_prod_beta tally_total)
qed simp

text \<open>
  The scheduler accounts for every unit, whatever the units do (return any outcome,
  raise, change the state) and in whatever order they complete: for both scales the
  succeeded, failed and skipped counts add up to the number of units planned.
\<close>

theorem scheduler_accounts_for_every_unit:
  assumes "\<forall>u \<in> set hf. pu_scale u = HIGH_FREQ_EVENT" and "\<forall>u \<in> set df. pu_scale u = DEFAULT_SEGMENT"
    and "\<And>us. mset (completion us) = mset us"
    and "res = fst (scheduler_run workers quota completion hf df s)"
  shows "spr_succeeded (res DEFAULT_SEGMENT) + spr_failed (res DEFAULT_SEGMENT) + spr_skipped (res DEFAULT_SEGMENT) =
      spr_total (res DEFAULT_SEGMENT) \<and> spr_total (res DEFAULT_SEGMENT) = length df \<and>
    spr_succeeded (res HIGH_FREQ_EVENT) + spr_failed (res HIGH_FREQ_EVENT) + spr_skipped (res HIGH_FREQ_EVENT) =
      spr_total (res HIGH_FREQ_EVENT) \<and> spr_total (res HIGH_FREQ_EVENT) = length hf"
proof -
  let ?o = "dispatch_order hf df (max 1 quota)" and ?t = "new_totals (length df) (length hf)"
  have m: "mset ?o = mset hf + mset df"
    unfolding dispatch_order_def by (rule dispatch_loop_mset) simp
  have cnt: "count_where (\<lambda>u. pu_scale u = DEFAULT_SEGMENT) us = length df \<and>
      count_where (\<lambda>u. pu_scale u = HIGH_FREQ_EVENT) us = length hf" if "mset us = mset ?o" for us
  proof -
    have "count_where P us = count_where P (hf @ df)" for P
      using that m by (intro count_where_mset) simp
    then show ?thesis using assms(1,2) by (simp add: count_where_def)
  qed
  have "\<exists>us. mset us = mset ?o \<and> res = fst (tally_units us ?t s)"
    using assms(3,4) by (auto simp: scheduler_run_def Let_def intro: exI [of _ "[]"])
  then obtain us where "mset us = mset ?o" "res = fst (tally_units us ?t s)" by blast
  then show ?thesis
    using cnt tally_units_counts [of us ?t s DEFAULT_SEGMENT] tally_units_counts [of us ?t s HIGH_FREQ_EVENT]
    by (simp add: tallied_def new_totals_def)
qed

theorem scheduler_accounts_for_every_unit_witness:
  "spr_failed (fst (scheduler_run 1 3 rev [] [\<lparr>pu_scale = DEFAULT_SEGMENT, pu_run = (\<lambda>s. (Inl (RuntimeError ''boom''), s))\<rparr>] ()) DEFAULT_SEGMENT) = 1 \<and>
   spr_total (fst (scheduler_run 1 3 rev [] [\<lparr>pu_scale = DEFAULT_SEGMENT, pu_run = (\<lambda>s. (Inl (RuntimeError ''boom''), s))\<rparr>] ()) DEFAULT_SEGMENT) = 1"
proof -
  let ?u = "\<lparr>pu_scale = DEFAULT_SEGMENT, pu_run = (\<lambda>s :: unit. (Inl (RuntimeError ''boom''), s))\<rparr>"
  have "spr_total (fst (scheduler_run 1 3 rev [] [?u] ()) DEFAULT_SEGMENT) = 1"
    using scheduler_accounts_for_every_unit [of "[]" "[?u]" rev, OF _ _ _ refl] by simp
  moreover have "spr_failed (fst (scheduler_run 1 3 rev [] [?u] ()) DEFAULT_SEGMENT) = 1"
    by (simp add: scheduler_run_def dispatch_order_def dispatch_loop_df safe_run_def tally_def new_totals_def)
  ultimately show ?thesis by blast
qed

end
