(* ===== verification/Cctv_Store.thy ===== *)
theory Cctv_Store
  imports Cctv_Queue Cctv_Scheduler
begin

text \<open>
  The analysis tables and their repositories (\<^verbatim>\<open>infrastructure/db/repositories/admin.py\<close>) and the
  orchestrator that guards their status columns (\<^verbatim>\<open>application/analysis_orchestrator.py\<close>). One
  value of type \<open>db\<close> is the content of the database as a session sees it; a repository
  method is a computation on it. A session commits when its block ends normally and rolls
  back when it raises (\<open>write_session\<close>).
\<close>

section \<open>Timestamps as text\<close>

text \<open>
  \<^verbatim>\<open>datetime.isoformat()\<close> of an aware datetime: the local wall clock in microseconds and the
  offset from UTC in minutes. The text is the wall clock with fixed-width fields followed by
  the sign and the digits of the offset, and \<open>iso_key\<close> orders such values as the texts compare.
\<close>

type_synonym iso = "int \<times> int"

definition iso_of :: "int \<Rightarrow> int \<Rightarrow> iso" where
  "iso_of now tz = (now + tz * 60000000, tz)"

definition iso_key :: "iso \<Rightarrow> int \<times> bool \<times> int" where
  "iso_key t = (fst t, snd t < 0, \<bar>snd t\<bar>)"

section \<open>Rows\<close>

record analysis_job =
  aj_analysis_job_id :: string
  aj_video_id :: string
  aj_job_status :: job_status
  aj_idempotency_key :: string
  aj_analysis_options :: "(string \<times> bool) list"
  aj_model_version :: "string option"
  aj_prompt_version :: "string option"
  aj_pipeline_version :: "string option"
  aj_created_record_ids :: "string list"
  aj_updated_record_ids :: "string list"
  aj_archived_record_ids :: "string list"
  aj_created_at :: int
  aj_started_at :: "int option"
  aj_finished_at :: "int option"
  aj_error_code :: "string option"
  aj_error_message :: "string option"

record analysis_scale_task =
  ast_scale_task_id :: string
  ast_analysis_job_id :: string
  ast_analysis_scale :: analysis_scale
  ast_status :: task_status
  ast_total_units :: nat
  ast_succeeded_units :: nat
  ast_failed_units :: nat
  ast_skipped_reason :: "string option"
  ast_created_at :: int
  ast_error_code :: "string option"

record high_freq_trigger =
  hft_trigger_id :: string
  hft_analysis_job_id :: string
  hft_scale_task_id :: string
  hft_video_id :: string
  hft_trigger_start_ms :: int
  hft_trigger_end_ms :: int
  hft_motion_score :: "real option"
  hft_change_score :: "real option"
  hft_trigger_reason :: string
  hft_status :: trigger_status
  hft_idempotency_key :: string
  hft_error_code :: "string option"

record analysis_unit =
  au_unit_id :: string
  au_analysis_job_id :: string
  au_scale_task_id :: string
  au_video_id :: string
  au_analysis_scale :: analysis_scale
  au_unit_kind :: string
  au_segment_start_ms :: int
  au_segment_end_ms :: int
  au_window_index :: int
  au_trigger_id :: "string option"
  au_status :: task_status
  au_attempt_count :: int
  au_last_error_code :: "string option"
  au_last_error_message :: "string option"
  au_latest_model_call_id :: "string option"
  au_successful_model_call_id :: "string option"
  au_produced_record_ids :: "string list"
  au_idempotency_key :: string
  au_started_at :: "iso option"
  au_finished_at :: "iso option"

record video_source =
  vs_video_id :: string
  vs_tenant_id :: string
  vs_source_type :: source_type
  vs_source_uri :: string
  vs_camera_id :: string
  vs_video_start_time :: iso
  vs_video_end_time :: "iso option"
  vs_duration_ms :: "int option"
  vs_source_status :: string
  vs_external_source_id :: "string option"
  vs_access_policy_id :: "string option"

record db =
  db_jobs :: "analysis_job list"
  db_scale_tasks :: "analysis_scale_task list"
  db_triggers :: "high_freq_trigger list"
  db_units :: "analysis_unit list"
  db_videos :: "video_source list"
  db_tasks :: "task list"

abbreviation get_job_row :: "string \<Rightarrow> db \<Rightarrow> analysis_job option" where
  "get_job_row k s \<equiv> row_get aj_analysis_job_id k (db_jobs s)"

abbreviation get_scale_row :: "string \<Rightarrow> db \<Rightarrow> analysis_scale_task option" where
  "get_scale_row k s \<equiv> row_get ast_scale_task_id k (db_scale_tasks s)"

abbreviation get_unit_row :: "string \<Rightarrow> db \<Rightarrow> analysis_unit option" where
  "get_unit_row k s \<equiv> row_get au_unit_id k (db_units s)"

section \<open>Jobs\<close>

definition create_job :: "analysis_job \<Rightarrow> (db, exn, analysis_job) se" where
  "create_job job s =
    (case find (\<lambda>j. aj_idempotency_key j = aj_idempotency_key job) (db_jobs s) of
       Some existing \<Rightarrow>
         if aj_video_id existing \<noteq> aj_video_id job
         then (Inl (IdempotencyConflictError ''AnalysisJob idempotency_key reused with different video_id''), s)
         else (Inr existing, s)
     | None \<Rightarrow>
        (case row_ins aj_analysis_job_id job (db_jobs s) of
           None \<Rightarrow> (Inl (IdempotencyConflictError ''UNIQUE constraint failed''), s)
         | Some rows \<Rightarrow> (Inr job, s\<lparr>db_jobs := rows\<rparr>)))"

definition get_jobs_for_video :: "string \<Rightarrow> db \<Rightarrow> analysis_job list" where
  "get_jobs_for_video video_id s = filter (\<lambda>j. aj_video_id j = video_id) (db_jobs s)"

definition list_jobs :: "int \<Rightarrow> db \<Rightarrow> analysis_job list" where
  "list_jobs limit s = order_by_limit aj_created_at limit (db_jobs s)"

definition job_update_status ::
  "string \<Rightarrow> job_status \<Rightarrow> int option \<Rightarrow> int option \<Rightarrow> string option \<Rightarrow> string option \<Rightarrow> db \<Rightarrow> db" where
  "job_update_status job_id status started_at finished_at error_code error_message s =
    s\<lparr>db_jobs := row_upd aj_analysis_job_id job_id
      (\<lambda>j. j\<lparr>aj_job_status := status,
            aj_started_at := (case started_at of None \<Rightarrow> aj_started_at j | Some t \<Rightarrow> Some t),
            aj_finished_at := (case finished_at of None \<Rightarrow> aj_finished_at j | Some t \<Rightarrow> Some t),
            aj_error_code := error_code, aj_error_message := error_message\<rparr>) (db_jobs s)\<rparr>"

definition append_record_publish_summary ::
  "string \<Rightarrow> string list \<Rightarrow> string list \<Rightarrow> string list \<Rightarrow> db \<Rightarrow> db" where
  "append_record_publish_summary job_id created_ids updated_ids archived_ids s =
    s\<lparr>db_jobs := row_upd aj_analysis_job_id job_id
      (\<lambda>j. j\<lparr>aj_created_record_ids := aj_created_record_ids j @ created_ids,
            aj_updated_record_ids := aj_updated_record_ids j @ updated_ids,
            aj_archived_record_ids := aj_archived_record_ids j @ archived_ids\<rparr>) (db_jobs s)\<rparr>"

section \<open>Scale tasks\<close>

definition create_scale_task :: "analysis_scale_task \<Rightarrow> (db, exn, analysis_scale_task) se" where
  "create_scale_task t s =
    (if \<exists>x \<in> set (db_scale_tasks s). ast_analysis_job_id x = ast_analysis_job_id t \<and>
         ast_analysis_scale x = ast_analysis_scale t
     then (Inl (ConflictError ''UNIQUE constraint failed''), s)
     else (case row_ins ast_scale_task_id t (db_scale_tasks s) of
         None \<Rightarrow> (Inl (ConflictError ''UNIQUE constraint failed''), s)
       | Some rows \<Rightarrow> (Inr t, s\<lparr>db_scale_tasks := rows\<rparr>)))"

definition get_by_job_and_scale :: "string \<Rightarrow> analysis_scale \<Rightarrow> db \<Rightarrow> analysis_scale_task option" where
  "get_by_job_and_scale job_id scale s =
    find (\<lambda>t. ast_analysis_job_id t = job_id \<and> ast_analysis_scale t = scale) (db_scale_tasks s)"

definition scale_list_by_job :: "string \<Rightarrow> db \<Rightarrow> analysis_scale_task list" where
  "scale_list_by_job job_id s =
    sort_key ast_created_at (filter (\<lambda>t. ast_analysis_job_id t = job_id) (db_scale_tasks s))"

definition update_counters :: "string \<Rightarrow> nat \<Rightarrow> nat \<Rightarrow> nat \<Rightarrow> db \<Rightarrow> db" where
  "update_counters scale_task_id n_total succeeded failed s =
    s\<lparr>db_scale_tasks := row_upd ast_scale_task_id scale_task_id
      (\<lambda>t. t\<lparr>ast_total_units := n_total, ast_succeeded_units := succeeded, ast_failed_units := failed\<rparr>)
      (db_scale_tasks s)\<rparr>"

definition scale_update_status ::
  "string \<Rightarrow> task_status \<Rightarrow> string option \<Rightarrow> string option \<Rightarrow> db \<Rightarrow> db" where
  "scale_update_status scale_task_id status error_code skipped_reason s =
    s\<lparr>db_scale_tasks := row_upd ast_scale_task_id scale_task_id
      (\<lambda>t. t\<lparr>ast_status := status, ast_error_code := error_code, ast_skipped_reason := skipped_reason\<rparr>)
      (db_scale_tasks s)\<rparr>"

section \<open>Triggers\<close>

definition trigger_create_or_get :: "high_freq_trigger \<Rightarrow> (db, exn, high_freq_trigger) se" where
  "trigger_create_or_get trigger s =
    (case find (\<lambda>t. hft_idempotency_key t = hft_idempotency_key trigger) (db_triggers s) of
       Some existing \<Rightarrow> (Inr existing, s)
     | None \<Rightarrow>
        (case row_ins hft_trigger_id trigger (db_triggers s) of
           None \<Rightarrow> (Inl (IdempotencyConflictError ''UNIQUE constraint failed''), s)
         | Some rows \<Rightarrow> (Inr trigger, s\<lparr>db_triggers := rows\<rparr>)))"

definition trigger_list_by_job :: "string \<Rightarrow> db \<Rightarrow> high_freq_trigger list" where
  "trigger_list_by_job job_id s = filter (\<lambda>t. hft_analysis_job_id t = job_id) (db_triggers s)"

definition trigger_update_status :: "string \<Rightarrow> trigger_status \<Rightarrow> string option \<Rightarrow> db \<Rightarrow> db" where
  "trigger_update_status trigger_id status error_code s =
    s\<lparr>db_triggers := row_upd hft_trigger_id trigger_id
      (\<lambda>t. t\<lparr>hft_status := status, hft_error_code := error_code\<rparr>) (db_triggers s)\<rparr>"

section \<open>Units\<close>

definition unit_create_or_get :: "analysis_unit \<Rightarrow> (db, exn, analysis_unit) se" where
  "unit_create_or_get u s =
    (case find (\<lambda>x. au_idempotency_key x = au_idempotency_key u) (db_units s) of
       Some existing \<Rightarrow> (Inr existing, s)
     | None \<Rightarrow>
        (case row_ins au_unit_id u (db_units s) of
           None \<Rightarrow> (Inl (IdempotencyConflictError ''UNIQUE constraint failed''), s)
         | Some rows \<Rightarrow> (Inr u, s\<lparr>db_units := rows\<rparr>)))"

definition unit_list_by_scale_task :: "string \<Rightarrow> db \<Rightarrow> analysis_unit list" where
  "unit_list_by_scale_task scale_task_id s =
    sort_key au_window_index (filter (\<lambda>u. au_scale_task_id u = scale_task_id) (db_units s))"

abbreviation upd_unit :: "string \<Rightarrow> (analysis_unit \<Rightarrow> analysis_unit) \<Rightarrow> db \<Rightarrow> db" where
  "upd_unit unit_id f s \<equiv> s\<lparr>db_units := row_upd au_unit_id unit_id f (db_units s)\<rparr>"

text \<open>\<^verbatim>\<open>a or b\<close> on optional strings: the empty string counts as absent.\<close>

definition str_or :: "string option \<Rightarrow> string option \<Rightarrow> string option" where
  "str_or a b = (case a of None \<Rightarrow> b | Some x \<Rightarrow> if x = [] then b else a)"

definition unit_mark_running :: "iso \<Rightarrow> string \<Rightarrow> string option \<Rightarrow> db \<Rightarrow> db" where
  "unit_mark_running now unit_id model_call_id =
    upd_unit unit_id (\<lambda>u. u\<lparr>au_status := TASK_RUNNING, au_attempt_count := au_attempt_count u + 1,
      au_latest_model_call_id := model_call_id,
      au_started_at := (case au_started_at u of None \<Rightarrow> Some now | Some t \<Rightarrow> Some t)\<rparr>)"

definition unit_mark_succeeded ::
  "iso \<Rightarrow> string \<Rightarrow> string option \<Rightarrow> string list \<Rightarrow> int option \<Rightarrow> db \<Rightarrow> db" where
  "unit_mark_succeeded now unit_id model_call_id record_ids attempt_count =
    upd_unit unit_id (\<lambda>u. u\<lparr>au_status := TASK_SUCCEEDED, au_latest_model_call_id := model_call_id,
      au_successful_model_call_id := model_call_id, au_produced_record_ids := record_ids,
      au_attempt_count := (case attempt_count of None \<Rightarrow> au_attempt_count u | Some n \<Rightarrow> n),
      au_finished_at := Some now, au_last_error_code := None, au_last_error_message := None\<rparr>)"

definition unit_mark_failed ::
  "iso \<Rightarrow> string \<Rightarrow> string \<Rightarrow> string option \<Rightarrow> string option \<Rightarrow> int option \<Rightarrow> db \<Rightarrow> db" where
  "unit_mark_failed now unit_id error_code error_message model_call_id attempt_count =
    upd_unit unit_id (\<lambda>u. u\<lparr>au_status := TASK_FAILED,
      au_latest_model_call_id := str_or model_call_id (au_latest_model_call_id u),
      au_attempt_count := (case attempt_count of None \<Rightarrow> au_attempt_count u | Some n \<Rightarrow> n),
      au_last_error_code := Some error_code, au_last_error_message := error_message,
      au_finished_at := Some now\<rparr>)"

definition unit_mark_skipped :: "iso \<Rightarrow> string \<Rightarrow> string \<Rightarrow> string option \<Rightarrow> db \<Rightarrow> db" where
  "unit_mark_skipped now unit_id skipped_reason model_call_id =
    upd_unit unit_id (\<lambda>u. u\<lparr>au_status := TASK_SKIPPED,
      au_latest_model_call_id := str_or model_call_id (au_latest_model_call_id u),
      au_last_error_code := Some skipped_reason, au_last_error_message := None,
      au_finished_at := Some now\<rparr>)"

definition list_stale_running :: "iso \<Rightarrow> int \<Rightarrow> db \<Rightarrow> analysis_unit list" where
  "list_stale_running cutoff limit s =
    (if limit \<le> 0 then []
     else order_by_limit (\<lambda>u. case au_started_at u of None \<Rightarrow> (0, False, 0) | Some t \<Rightarrow> iso_key t) limit
       (filter (\<lambda>u. au_status u = TASK_RUNNING \<and>
          (case au_started_at u of None \<Rightarrow> False | Some t \<Rightarrow> iso_key t < iso_key cutoff)) (db_units s)))"

section \<open>Videos\<close>

definition mark_video_status :: "string \<Rightarrow> string \<Rightarrow> db \<Rightarrow> db" where
  "mark_video_status video_id status s =
    s\<lparr>db_videos := row_upd vs_video_id video_id (\<lambda>v. v\<lparr>vs_source_status := status\<rparr>) (db_videos s)\<rparr>"

section \<open>Sessions\<close>

definition write_session :: "(db, exn, 'a) se \<Rightarrow> (db, exn, 'a) se" where
  "write_session work s = (case work s of (Inl e, _) \<Rightarrow> (Inl e, s) | (Inr a, s') \<Rightarrow> (Inr a, s'))"

section \<open>The orchestrator\<close>

definition transition_job ::
  "int \<Rightarrow> string \<Rightarrow> job_status \<Rightarrow> string option \<Rightarrow> string option \<Rightarrow> (db, exn, unit) se" where
  "transition_job now job_id target error_code error_message s =
    (case get_job_row job_id s of
       None \<Rightarrow> (Inl (NotFoundError (''job '' @ job_id @ '' not found'')), s)
     | Some job \<Rightarrow>
        if aj_job_status job = target then (Inr (), s)
        else if \<not> can_transition_job (aj_job_status job) target
        then (Inl (InvalidStateTransitionError (''job '' @ job_id @ '': '' @ job_status_value (aj_job_status job)
            @ '' -> '' @ job_status_value target)), s)
        else (Inr (), job_update_status job_id target
            (if target = JOB_RUNNING then Some now else None)
            (if target \<in> {JOB_SUCCEEDED, JOB_PARTIAL_FAILED, JOB_FAILED} then Some now else None)
            error_code error_message s))"

definition transition_scale_task ::
  "string \<Rightarrow> task_status \<Rightarrow> string option \<Rightarrow> string option \<Rightarrow> (db, exn, unit) se" where
  "transition_scale_task scale_task_id target error_code skipped_reason s =
    (case get_scale_row scale_task_id s of
       None \<Rightarrow> (Inl (NotFoundError (''scale task '' @ scale_task_id @ '' not found'')), s)
     | Some t \<Rightarrow>
        if ast_status t = target then (Inr (), s)
        else if \<not> can_transition_task (ast_status t) target
        then (Inl (InvalidStateTransitionError (''scale_task '' @ scale_task_id @ '': '' @ task_status_value (ast_status t)
            @ '' -> '' @ task_status_value target)), s)
        else (Inr (), scale_update_status scale_task_id target error_code skipped_reason s))"

section \<open>Guarded status columns\<close>

text \<open>
  What a client of a guarded status column relies on: a transition either raises and leaves
  the state alone, or moves exactly the named row along an edge of the graph (or is a no-op
  on a row already there).
\<close>

locale guarded_status = status_graph can start working early final
  for can :: "'st \<Rightarrow> 'st \<Rightarrow> bool" and start working :: 'st and early final :: "'st \<Rightarrow> bool" +
  fixes status :: "'s \<Rightarrow> 'k \<Rightarrow> 'st option"
    and move :: "'a \<Rightarrow> 'k \<Rightarrow> 'st \<Rightarrow> ('s, exn, unit) se"
  assumes move_missing: "status s k = None \<Longrightarrow> \<exists>m. move a k t s = (Inl (NotFoundError m), s)"
    and move_same: "status s k = Some t \<Longrightarrow> move a k t s = (Inr (), s)"
    and move_illegal: "status s k = Some c \<Longrightarrow> c \<noteq> t \<Longrightarrow> \<not> can c t \<Longrightarrow>
      \<exists>m. move a k t s = (Inl (InvalidStateTransitionError m), s)"
    and move_legal: "status s k = Some c \<Longrightarrow> c \<noteq> t \<Longrightarrow> can c t \<Longrightarrow> fst (move a k t s) = Inr ()"
    and status_move: "status (snd (move a k t s)) j =
      (if j = k \<and> (\<exists>c. status s k = Some c \<and> (c = t \<or> can c t)) then Some t else status s j)"
begin

definition moves :: "('a \<times> 'k \<times> 'st) list \<Rightarrow> 's \<Rightarrow> 's" where
  "moves ms s = fold (\<lambda>(a, k, t) s. snd (move a k t s)) ms s"

lemma move_ok_iff: "fst (move a k t s) = Inr () \<longleftrightarrow> (\<exists>c. status s k = Some c \<and> (c = t \<or> can c t))"
proof (cases "status s k")
  case None
  with move_missing [of s k a t] show ?thesis by auto
next
  case (Some c)
  with move_same [of s k t a] move_illegal [of s k c t a] move_legal [of s k c t a] show ?thesis by force
qed

lemma move_raises: "fst (move a k t s) = Inl e \<Longrightarrow> snd (move a k t s) = s"
proof (cases "status s k")
  case None
  with move_missing [of s k a t] show ?thesis by auto
next
  case (Some c)
  assume "fst (move a k t s) = Inl e"
  with Some move_same [of s k t a] move_illegal [of s k c t a] move_legal [of s k c t a] show ?thesis by force
qed

lemma moves_follow_graph:
  "status s k = Some c \<Longrightarrow> \<exists>c'. status (moves ms s) k = Some c' \<and> can\<^sup>*\<^sup>* c c'"
proof (induction ms arbitrary: s c)
  case (Cons m ms)
  obtain a j t where m: "m = (a, j, t)" by (cases m)
  have "\<exists>d. status (snd (move a j t s)) k = Some d \<and> can\<^sup>*\<^sup>* c d"
    using Cons.prems by (auto simp: status_move)
  then obtain d where d: "status (snd (move a j t s)) k = Some d" "can\<^sup>*\<^sup>* c d" by blast
  with Cons.IH [OF d(1)] show ?case by (auto simp: moves_def m intro: rtranclp_trans)
qed (auto simp: moves_def)

lemma final_kept: "status s k = Some c \<Longrightarrow> final c \<Longrightarrow> status (moves ms s) k = Some c"
  using moves_follow_graph [of s k c ms] final_stuck by (metis converse_rtranclpE)

end

definition job_status_of :: "db \<Rightarrow> string \<Rightarrow> job_status option" where
  "job_status_of s k = map_option aj_job_status (get_job_row k s)"

definition scale_status_of :: "db \<Rightarrow> string \<Rightarrow> task_status option" where
  "scale_status_of s k = map_option ast_status (get_scale_row k s)"

lemma get_job_row_update [simp]:
  "get_job_row k (job_update_status j st a b ec em s) =
    (if k = j then map_option (\<lambda>x. x\<lparr>aj_job_status := st,
        aj_started_at := (case a of None \<Rightarrow> aj_started_at x | Some t \<Rightarrow> Some t),
        aj_finished_at := (case b of None \<Rightarrow> aj_finished_at x | Some t \<Rightarrow> Some t),
        aj_error_code := ec, aj_error_message := em\<rparr>) (get_job_row k s) else get_job_row k s)"
  by (simp add: job_update_status_def row_get_upd)

lemma get_scale_row_update [simp]:
  "get_scale_row k (scale_update_status j st ec sr s) =
    (if k = j then map_option (\<lambda>x. x\<lparr>ast_status := st, ast_error_code := ec, ast_skipped_reason := sr\<rparr>) (get_scale_row k s)
     else get_scale_row k s)"
  by (simp add: scale_update_status_def row_get_upd)

interpretation jobs: guarded_status can_transition_job JOB_QUEUED JOB_RUNNING
  "\<lambda>t. t = JOB_CANCELLED" "\<lambda>t. t = JOB_CANCELLED \<or> t = JOB_SUCCEEDED" job_status_of
  "\<lambda>(now, ec, em) k t. transition_job now k t ec em"
proof unfold_locales
  fix s :: db and k j and a :: "int \<times> string option \<times> string option" and c t
  obtain now ec em where a: "a = (now, ec, em)" by (cases a)
  show "job_status_of s k = None \<Longrightarrow>
      \<exists>m. (case a of (now, ec, em) \<Rightarrow> \<lambda>k t. transition_job now k t ec em) k t s = (Inl (NotFoundError m), s)"
    by (auto simp: a transition_job_def job_status_of_def)
  show "job_status_of s k = Some t \<Longrightarrow>
      (case a of (now, ec, em) \<Rightarrow> \<lambda>k t. transition_job now k t ec em) k t s = (Inr (), s)"
    by (auto simp: a transition_job_def job_status_of_def)
  show "job_status_of s k = Some c \<Longrightarrow> c \<noteq> t \<Longrightarrow> \<not> can_transition_job c t \<Longrightarrow>
      \<exists>m. (case a of (now, ec, em) \<Rightarrow> \<lambda>k t. transition_job now k t ec em) k t s = (Inl (InvalidStateTransitionError m), s)"
    by (auto simp: a transition_job_def job_status_of_def)
  show "job_status_of s k = Some c \<Longrightarrow> c \<noteq> t \<Longrightarrow> can_transition_job c t \<Longrightarrow>
      fst ((case a of (now, ec, em) \<Rightarrow> \<lambda>k t. transition_job now k t ec em) k t s) = Inr ()"
    by (auto simp: a transition_job_def job_status_of_def)
  show "job_status_of (snd ((case a of (now, ec, em) \<Rightarrow> \<lambda>k t. transition_job now k t ec em) k t s)) j =
      (if j = k \<and> (\<exists>c. job_status_of s k = Some c \<and> (c = t \<or> can_transition_job c t)) then Some t else job_status_of s j)"
    by (cases "get_job_row k s") (auto simp: a transition_job_def job_status_of_def)
qed

interpretation scales: guarded_status can_transition_task TASK_PENDING TASK_RUNNING
  "\<lambda>t. t = TASK_SKIPPED" "\<lambda>t. t = TASK_SKIPPED \<or> t = TASK_SUCCEEDED" scale_status_of
  "\<lambda>(ec, sr) k t. transition_scale_task k t ec sr"
proof unfold_locales
  fix s :: db and k j and a :: "string option \<times> string option" and c t
  obtain ec sr where a: "a = (ec, sr)" by (cases a)
  show "scale_status_of s k = None \<Longrightarrow>
      \<exists>m. (case a of (ec, sr) \<Rightarrow> \<lambda>k t. transition_scale_task k t ec sr) k t s = (Inl (NotFoundError m), s)"
    by (auto simp: a transition_scale_task_def scale_status_of_def)
  show "scale_status_of s k = Some t \<Longrightarrow>
      (case a of (ec, sr) \<Rightarrow> \<lambda>k t. transition_scale_task k t ec sr) k t s = (Inr (), s)"
    by (auto simp: a transition_scale_task_def scale_status_of_def)
  show "scale_status_of s k = Some c \<Longrightarrow> c \<noteq> t \<Longrightarrow> \<not> can_transition_task c t \<Longrightarrow>
      \<exists>m. (case a of (ec, sr) \<Rightarrow> \<lambda>k t. transition_scale_task k t ec sr) k t s = (Inl (InvalidStateTransitionError m), s)"
    by (auto simp: a transition_scale_task_def scale_status_of_def)
  show "scale_status_of s k = Some c \<Longrightarrow> c \<noteq> t \<Longrightarrow> can_transition_task c t \<Longrightarrow>
      fst ((case a of (ec, sr) \<Rightarrow> \<lambda>k t. transition_scale_task k t ec sr) k t s) = Inr ()"
    by (auto simp: a transition_scale_task_def scale_status_of_def)
  show "scale_status_of (snd ((case a of (ec, sr) \<Rightarrow> \<lambda>k t. transition_scale_task k t ec sr) k t s)) j =
      (if j = k \<and> (\<exists>c. scale_status_of s k = Some c \<and> (c = t \<or> can_transition_task c t)) then Some t else scale_status_of s j)"
    by (cases "get_scale_row k s") (auto simp: a transition_scale_task_def scale_status_of_def)
qed

text \<open>The edges of \<^verbatim>\<open>docs/contracts/job-state-machine-contract.md\<close>.\<close>

definition job_edges :: "(job_status \<times> job_status) set" where
  "job_edges = {(JOB_QUEUED, JOB_RUNNING), (JOB_QUEUED, JOB_CANCELLED),
     (JOB_RUNNING, JOB_SUCCEEDED), (JOB_RUNNING, JOB_PARTIAL_FAILED), (JOB_RUNNING, JOB_FAILED),
     (JOB_RUNNING, JOB_CANCELLED), (JOB_PARTIAL_FAILED, JOB_RUNNING), (JOB_PARTIAL_FAILED, JOB_SUCCEEDED),
     (JOB_FAILED, JOB_RUNNING)}"

definition task_edges :: "(task_status \<times> task_status) set" where
  "task_edges = {(TASK_PENDING, TASK_RUNNING), (TASK_PENDING, TASK_SKIPPED),
     (TASK_RUNNING, TASK_SUCCEEDED), (TASK_RUNNING, TASK_PARTIAL_FAILED), (TASK_RUNNING, TASK_FAILED),
     (TASK_PARTIAL_FAILED, TASK_RUNNING), (TASK_FAILED, TASK_RUNNING)}"

lemma can_transition_job_edges: "can_transition_job c t \<longleftrightarrow> (c, t) \<in> job_edges"
  by (cases c) (auto simp: can_transition_job_def job_edges_def)

lemma can_transition_task_edges: "can_transition_task c t \<longleftrightarrow> (c, t) \<in> task_edges"
  by (cases c) (auto simp: can_transition_task_def task_edges_def)

lemma scale_rows_of_job_update [simp]: "get_scale_row i (job_update_status j st a b ec em s) = get_scale_row i s"
  by (simp add: job_update_status_def)

lemma job_rows_of_scale_update [simp]: "get_job_row i (scale_update_status j st ec sr s) = get_job_row i s"
  by (simp add: scale_update_status_def)

lemma final_statuses_stay:
  assumes "job_status_of s k = Some c" and "scale_status_of s k' = Some d"
    and "s1 = fold (\<lambda>(now, ec, em, j, t) s. snd (transition_job now j t ec em s)) js s"
    and "s2 = fold (\<lambda>(ec, sr, j, t) s. snd (transition_scale_task j t ec sr s)) ts s"
  shows "(c \<in> {JOB_SUCCEEDED, JOB_CANCELLED} \<longrightarrow> job_status_of s1 k = Some c) \<and>
    (d \<in> {TASK_SUCCEEDED, TASK_SKIPPED} \<longrightarrow> scale_status_of s2 k' = Some d)"
proof -
  have "s1 = jobs.moves (map (\<lambda>(now, ec, em, j, t). ((now, ec, em), j, t)) js) s"
    unfolding assms(3) jobs.moves_def fold_map comp_def by (rule arg_cong2 [of _ _ _ _ "\<lambda>f. fold f js"]) auto
  moreover have "s2 = scales.moves (map (\<lambda>(ec, sr, j, t). ((ec, sr), j, t)) ts) s"
    unfolding assms(4) scales.moves_def fold_map comp_def by (rule arg_cong2 [of _ _ _ _ "\<lambda>f. fold f ts"]) auto
  ultimately show ?thesis
    using jobs.final_kept [OF assms(1)] scales.final_kept [OF assms(2)] by auto
qed

text \<open>
  C16. Status columns move exactly along the contract's graphs. A transition of a job or of a scale task to the
  status it has does nothing; along an edge of the graph it succeeds and changes that row only: the status is the
  target, the error fields are the ones given, a job that starts to run is stamped as started and one that ends is
  stamped as finished; along any other pair it raises an invalid-transition error and changes nothing. So after
  any sequence of transitions, whether or not they raise, a succeeded or cancelled job and a succeeded or skipped
  scale task are what they were.
\<close>

theorem statuses_follow_the_graph:
  assumes "get_job_row k s = Some j" and "get_scale_row k' s = Some st"
  shows "(if aj_job_status j = t then transition_job now k t ec em s = (Inr (), s)
     else if (aj_job_status j, t) \<in> job_edges
     then \<exists>s'. transition_job now k t ec em s = (Inr (), s') \<and>
       (\<forall>i. get_scale_row i s' = get_scale_row i s) \<and> (\<forall>i. i \<noteq> k \<longrightarrow> get_job_row i s' = get_job_row i s) \<and>
       get_job_row k s' = Some (j\<lparr>aj_job_status := t,
         aj_started_at := (if t = JOB_RUNNING then Some now else aj_started_at j),
         aj_finished_at := (if t \<in> {JOB_SUCCEEDED, JOB_PARTIAL_FAILED, JOB_FAILED} then Some now else aj_finished_at j),
         aj_error_code := ec, aj_error_message := em\<rparr>)
     else \<exists>m. transition_job now k t ec em s = (Inl (InvalidStateTransitionError m), s)) \<and>
    (if ast_status st = u then transition_scale_task k' u ec sr s = (Inr (), s)
     else if (ast_status st, u) \<in> task_edges
     then \<exists>s'. transition_scale_task k' u ec sr s = (Inr (), s') \<and>
       (\<forall>i. get_job_row i s' = get_job_row i s) \<and> (\<forall>i. i \<noteq> k' \<longrightarrow> get_scale_row i s' = get_scale_row i s) \<and>
       get_scale_row k' s' = Some (st\<lparr>ast_status := u, ast_error_code := ec, ast_skipped_reason := sr\<rparr>)
     else \<exists>m. transition_scale_task k' u ec sr s = (Inl (InvalidStateTransitionError m), s)) \<and>
    (aj_job_status j \<in> {JOB_SUCCEEDED, JOB_CANCELLED} \<longrightarrow>
      job_status_of (fold (\<lambda>(now, ec, em, j, t) s. snd (transition_job now j t ec em s)) js s) k = Some (aj_job_status j)) \<and>
    (ast_status st \<in> {TASK_SUCCEEDED, TASK_SKIPPED} \<longrightarrow>
      scale_status_of (fold (\<lambda>(ec, sr, j, t) s. snd (transition_scale_task j t ec sr s)) ts s) k' = Some (ast_status st))"
proof (intro conjI)
  have "job_status_of s k = Some (aj_job_status j)" "scale_status_of s k' = Some (ast_status st)"
    using assms by (simp_all add: job_status_of_def scale_status_of_def)
  note stay = final_statuses_stay [OF this refl refl]
  show "aj_job_status j \<in> {JOB_SUCCEEDED, JOB_CANCELLED} \<longrightarrow>
      job_status_of (fold (\<lambda>(now, ec, em, j, t) s. snd (transition_job now j t ec em s)) js s) k = Some (aj_job_status j)"
    by (rule stay [THEN conjunct1])
  show "ast_status st \<in> {TASK_SUCCEEDED, TASK_SKIPPED} \<longrightarrow>
      scale_status_of (fold (\<lambda>(ec, sr, j, t) s. snd (transition_scale_task j t ec sr s)) ts s) k' = Some (ast_status st)"
    by (rule stay [THEN conjunct2])
qed (use assms in \<open>auto simp: transition_job_def transition_scale_task_def can_transition_job_edges
  can_transition_task_edges\<close>)

definition ex_job :: "job_status \<Rightarrow> analysis_job" where
  "ex_job st = \<lparr>aj_analysis_job_id = ''j'', aj_video_id = ''v'', aj_job_status = st, aj_idempotency_key = ''k'',
     aj_analysis_options = [], aj_model_version = None, aj_prompt_version = None, aj_pipeline_version = None, aj_created_record_ids = [], aj_updated_record_ids = [], aj_archived_record_ids = [],
     aj_created_at = 0, aj_started_at = None, aj_finished_at = None, aj_error_code = None, aj_error_message = None\<rparr>"

definition ex_scale :: "string \<Rightarrow> analysis_scale \<Rightarrow> task_status \<Rightarrow> analysis_scale_task" where
  "ex_scale sid sc st = \<lparr>ast_scale_task_id = sid, ast_analysis_job_id = ''j'', ast_analysis_scale = sc, ast_status = st,
     ast_total_units = 0, ast_succeeded_units = 0, ast_failed_units = 0, ast_skipped_reason = None, ast_created_at = 0,
     ast_error_code = None\<rparr>"

definition ex_video :: video_source where
  "ex_video = \<lparr>vs_video_id = ''v'', vs_tenant_id = ''tenant_default'', vs_source_type = FILE, vs_source_uri = ''f.mp4'',
     vs_camera_id = ''cam'', vs_video_start_time = (0, 0), vs_video_end_time = None, vs_duration_ms = None,
     vs_source_status = ''registered'', vs_external_source_id = None, vs_access_policy_id = None\<rparr>"

definition ex_db :: "job_status \<Rightarrow> analysis_scale_task list \<Rightarrow> task list \<Rightarrow> db" where
  "ex_db st sts ts = \<lparr>db_jobs = [ex_job st], db_scale_tasks = sts, db_triggers = [], db_units = [],
     db_videos = [ex_video], db_tasks = ts\<rparr>"

theorem statuses_follow_the_graph_witness:
  "let s = ex_db JOB_SUCCEEDED [ex_scale ''d'' DEFAULT_SEGMENT TASK_PENDING] [] in
   (\<exists>m. transition_job 0 ''j'' JOB_RUNNING None None s = (Inl (InvalidStateTransitionError m), s)) \<and>
   (\<exists>s'. transition_scale_task ''d'' TASK_RUNNING None None s = (Inr (), s')) \<and>
   job_status_of (fold (\<lambda>(now, ec, em, j, t) s. snd (transition_job now j t ec em s))
     [(0, None, None, ''j'', JOB_RUNNING), (0, None, None, ''j'', JOB_QUEUED)] s) ''j'' = Some JOB_SUCCEEDED"
proof -
  let ?s = "ex_db JOB_SUCCEEDED [ex_scale ''d'' DEFAULT_SEGMENT TASK_PENDING] []"
  have rows: "get_job_row ''j'' ?s = Some (ex_job JOB_SUCCEEDED)"
    "get_scale_row ''d'' ?s = Some (ex_scale ''d'' DEFAULT_SEGMENT TASK_PENDING)"
    by (simp_all add: ex_db_def ex_job_def ex_scale_def)
  have st: "aj_job_status (ex_job JOB_SUCCEEDED) = JOB_SUCCEEDED"
    "ast_status (ex_scale ''d'' DEFAULT_SEGMENT TASK_PENDING) = TASK_PENDING"
    by (simp_all add: ex_job_def ex_scale_def)
  have edges: "(JOB_SUCCEEDED, JOB_RUNNING) \<notin> job_edges" "(TASK_PENDING, TASK_RUNNING) \<in> task_edges"
    by (simp_all add: job_edges_def task_edges_def)
  show ?thesis
    using statuses_follow_the_graph [OF rows, where t = JOB_RUNNING and u = TASK_RUNNING and now = 0 and ec = None
        and em = None and sr = None and ts = "[]"
        and js = "[(0, None, None, ''j'', JOB_RUNNING), (0, None, None, ''j'', JOB_QUEUED)]"]
    unfolding Let_def st by (auto simp: edges)
qed

section \<open>Idempotent creation\<close>

lemma find_append: "find P (xs @ ys) = (case find P xs of None \<Rightarrow> find P ys | Some x \<Rightarrow> Some x)"
  by (induction xs) auto

text \<open>
  Creation by idempotency key: a known key gives back the row that has it (or raises when the
  request does not agree with that row); a new key inserts the row or raises.
\<close>

locale keyed_create =
  fixes rows :: "'s \<Rightarrow> 'r list"
    and ikey :: "'r \<Rightarrow> 'i"
    and agree :: "'r \<Rightarrow> 'r \<Rightarrow> bool"
    and create :: "'r \<Rightarrow> ('s, exn, 'r) se"
  assumes create_known: "find (\<lambda>y. ikey y = ikey r) (rows s) = Some x \<Longrightarrow>
      (if agree x r then create r s = (Inr x, s) else \<exists>e. create r s = (Inl e, s))"
    and create_new: "find (\<lambda>y. ikey y = ikey r) (rows s) = None \<Longrightarrow>
      (\<exists>e. create r s = (Inl e, s)) \<or> (\<exists>s'. create r s = (Inr r, s') \<and> rows s' = rows s @ [r])"
    and agree_refl: "agree r r"
begin

lemma create_cases:
  obtains (known) x where "create r s = (Inr x, s)" "find (\<lambda>y. ikey y = ikey r) (rows s) = Some x" "agree x r"
  | (new) s' where "create r s = (Inr r, s')" "rows s' = rows s @ [r]" "find (\<lambda>y. ikey y = ikey r) (rows s) = None"
  | (raised) e where "create r s = (Inl e, s)"
proof (cases "find (\<lambda>y. ikey y = ikey r) (rows s)")
  case None
  with create_new [of r s] new raised show thesis by blast
next
  case (Some x)
  with create_known [OF Some] known raised show thesis by (cases "agree x r") auto
qed

lemma create_again:
  assumes "create r s = (Inr x, s')"
  shows "create r s' = (Inr x, s')"
proof (cases rule: create_cases [of r s])
  case (known y)
  then show ?thesis using assms by simp
next
  case (new t)
  then have "find (\<lambda>y. ikey y = ikey r) (rows s') = Some r" "x = r"
    using assms by (simp_all add: find_append)
  with create_known [of r s' r] agree_refl show ?thesis by simp
next
  case raised
  then show ?thesis using assms by simp
qed

lemma keys_distinct:
  assumes "distinct (map ikey (rows s))"
  shows "distinct (map ikey (rows (snd (create r s))))"
proof (cases rule: create_cases [of r s])
  case (new t)
  then have "\<forall>y \<in> set (rows s). ikey y \<noteq> ikey r" by (auto simp: find_None_iff)
  with new assms show ?thesis by auto
qed (use assms in auto)

end

interpretation create_jobs: keyed_create db_jobs aj_idempotency_key "\<lambda>x r. aj_video_id x = aj_video_id r" create_job
  by unfold_locales (auto simp: create_job_def row_ins_def)

interpretation create_triggers: keyed_create db_triggers hft_idempotency_key "\<lambda>x r. True" trigger_create_or_get
  by unfold_locales (auto simp: trigger_create_or_get_def row_ins_def)

interpretation create_units: keyed_create db_units au_idempotency_key "\<lambda>x r. True" unit_create_or_get
  by unfold_locales (auto simp: unit_create_or_get_def row_ins_def)

text \<open>
  Creating jobs, triggers and units is idempotent: once a creation has returned a row,
  repeating it returns the same row and changes nothing; and creation, whether it succeeds or
  raises, keeps idempotency keys unique in all three tables.
\<close>

theorem creation_is_idempotent:
  "(create_job j s = (Inr x, s') \<longrightarrow> create_job j s' = (Inr x, s')) \<and>
   (trigger_create_or_get t s = (Inr y, s') \<longrightarrow> trigger_create_or_get t s' = (Inr y, s')) \<and>
   (unit_create_or_get u s = (Inr z, s') \<longrightarrow> unit_create_or_get u s' = (Inr z, s')) \<and>
   (distinct (map aj_idempotency_key (db_jobs s)) \<longrightarrow>
     distinct (map aj_idempotency_key (db_jobs (snd (create_job j s))))) \<and>
   (distinct (map hft_idempotency_key (db_triggers s)) \<longrightarrow>
     distinct (map hft_idempotency_key (db_triggers (snd (trigger_create_or_get t s))))) \<and>
   (distinct (map au_idempotency_key (db_units s)) \<longrightarrow>
     distinct (map au_idempotency_key (db_units (snd (unit_create_or_get u s)))))"
  using create_jobs.create_again create_triggers.create_again create_units.create_again
    create_jobs.keys_distinct create_triggers.keys_distinct create_units.keys_distinct
  by blast

theorem creation_is_idempotent_witness:
  "create_job (ex_job JOB_QUEUED) (ex_db JOB_RUNNING [] []) = (Inr (ex_job JOB_RUNNING), ex_db JOB_RUNNING [] [])"
proof -
  let ?s = "ex_db JOB_RUNNING [] []\<lparr>db_jobs := []\<rparr>"
  have "create_job (ex_job JOB_RUNNING) ?s = (Inr (ex_job JOB_RUNNING), ex_db JOB_RUNNING [] [])"
    by (simp add: create_job_def ex_db_def ex_job_def row_ins_def)
  then have "create_job (ex_job JOB_RUNNING) (ex_db JOB_RUNNING [] []) = (Inr (ex_job JOB_RUNNING), ex_db JOB_RUNNING [] [])"
    using creation_is_idempotent [of "ex_job JOB_RUNNING" ?s] by blast
  then show ?thesis by (simp add: create_job_def ex_db_def ex_job_def)
qed

section \<open>The stale sweep on a host that is not on UTC\<close>

text \<open>
  The stale sweep compares wall clocks, not instants. \<^verbatim>\<open>started_at\<close> is stored in the host's
  zone and compared as text with a UTC cutoff: on a host \<open>tz\<close> minutes east of UTC a running unit is
  reported exactly when it started more than the stale time plus \<open>tz\<close> minutes ago, so
  east of UTC dead units are missed that long, and west of UTC live ones are reported as stale.
\<close>

theorem stale_sweep_shifts_with_offset:
  assumes "au_status u = TASK_RUNNING" and "au_started_at u = Some (iso_of t tz)" and "tz \<noteq> 0"
    and "0 < limit" and "db_units s = [u]"
  shows "u \<in> set (list_stale_running (iso_of cutoff 0) limit s) \<longleftrightarrow> t + tz * 60000000 < cutoff"
proof -
  have "iso_key (iso_of t tz) < iso_key (iso_of cutoff 0) \<longleftrightarrow> t + tz * 60000000 < cutoff"
    using assms(3) by (auto simp: iso_key_def iso_of_def)
  then show ?thesis using assms
    by (auto simp: list_stale_running_def order_by_limit_def)
qed

definition ex_unit :: "iso \<Rightarrow> analysis_unit" where
  "ex_unit st = \<lparr>au_unit_id = ''u'', au_analysis_job_id = ''j'', au_scale_task_id = ''d'', au_video_id = ''v'',
     au_analysis_scale = DEFAULT_SEGMENT, au_unit_kind = ''default_segment_window'', au_segment_start_ms = 0, au_segment_end_ms = 1000, au_window_index = 0, au_trigger_id = None,
     au_status = TASK_RUNNING, au_attempt_count = 1, au_last_error_code = None, au_last_error_message = None,
     au_latest_model_call_id = None, au_successful_model_call_id = None, au_produced_record_ids = [],
     au_idempotency_key = ''ku'', au_started_at = Some st, au_finished_at = None\<rparr>"

theorem stale_sweep_shifts_with_offset_witness:
  "ex_unit (iso_of 10 (-300)) \<in> set (list_stale_running (iso_of 0 0) 5
     (ex_db JOB_RUNNING [] [] \<lparr>db_units := [ex_unit (iso_of 10 (-300))]\<rparr>))"
  using stale_sweep_shifts_with_offset [of "ex_unit (iso_of 10 (-300))" 10 "-300" 5
      "ex_db JOB_RUNNING [] [] \<lparr>db_units := [ex_unit (iso_of 10 (-300))]\<rparr>" 0]
  by (simp add: ex_unit_def)

end
