(* ===== verification/Cctv_Worker.thy ===== *)
theory Cctv_Worker
  imports Cctv_Store
begin

text \<open>
  The analysis worker (\<^verbatim>\<open>workers/analysis_worker.py\<close>): claim a task, run its scale tasks one after
  the other or as one interleaved pool, settle units, scale tasks, job and queue task, and
  recover orphans. The processors that extract frames, call the model and publish records
  are injected and run in sessions of their own; here they are computations of the
  environment that may do anything to the database and may raise. The clock, the host's zone
  and the worker settings are in the environment too. Timeline events are not modelled.
\<close>

section \<open>The environment\<close>

record worker_env =
  we_now :: int
  we_tz :: int
  we_worker_id :: string
  we_lease_seconds :: int
  we_cross_scale :: bool
  we_unit_workers :: int
  we_high_freq_quota :: int
  we_completion :: "db planned_unit list \<Rightarrow> db planned_unit list"
  we_run_default :: "string \<Rightarrow> string \<Rightarrow> string \<Rightarrow> (db, exn, scale_process_result) se"
  we_run_motion :: "string \<Rightarrow> string \<Rightarrow> string \<Rightarrow> (db, exn, nat) se"
  we_run_high_freq :: "string \<Rightarrow> string \<Rightarrow> (db, exn, scale_process_result) se"
  we_plan_default :: "string \<Rightarrow> string \<Rightarrow> string \<Rightarrow> (db, exn, db planned_unit list) se"
  we_plan_high_freq :: "string \<Rightarrow> string \<Rightarrow> string \<Rightarrow> (db, exn, db planned_unit list) se"
  we_orphan_recovery_enabled :: bool
  we_orphan_stale_seconds :: int
  we_orphan_batch_limit :: int

abbreviation local_now :: "worker_env \<Rightarrow> iso" where
  "local_now env \<equiv> iso_of (we_now env) (we_tz env)"

section \<open>Settling scale tasks\<close>

definition classify_error :: "exn \<Rightarrow> string" where
  "classify_error e =
    (if is_instance e ''VlmSchemaValidationError'' then ''vlm_schema_validation_failed''
     else if is_instance e ''VlmProviderError'' then ''vlm_provider_error''
     else if ''RuntimeError'' \<in> set (exn_mro e) then ''video_decode_error''
     else ''analysis_unit_failed'')"

definition transition_running :: "string \<Rightarrow> (db, exn, unit) se" where
  "transition_running scale_task_id =
    write_session (transition_scale_task scale_task_id TASK_RUNNING None None)"

definition skip_scale_task :: "string \<Rightarrow> string \<Rightarrow> (db, exn, unit) se" where
  "skip_scale_task scale_task_id reason =
    write_session (transition_scale_task scale_task_id TASK_SKIPPED None (Some reason))"

definition fail_scale_task :: "string \<Rightarrow> exn \<Rightarrow> (db, exn, unit) se" where
  "fail_scale_task scale_task_id e =
    write_session (transition_scale_task scale_task_id TASK_FAILED (Some (classify_error e)) None)"

definition final_scale_status :: "nat \<Rightarrow> nat \<Rightarrow> task_status" where
  "final_scale_status succeeded failed =
    (if failed \<noteq> 0 \<and> succeeded \<noteq> 0 then TASK_PARTIAL_FAILED
     else if failed \<noteq> 0 then TASK_FAILED else TASK_SUCCEEDED)"

definition finalize_scale_task :: "string \<Rightarrow> nat \<Rightarrow> nat \<Rightarrow> nat \<Rightarrow> (db, exn, unit) se" where
  "finalize_scale_task scale_task_id n_total succeeded failed =
    se_then (se_write (update_counters scale_task_id n_total succeeded failed))
      (transition_scale_task scale_task_id (final_scale_status succeeded failed) None None)"

definition has_triggers :: "string \<Rightarrow> string \<Rightarrow> db \<Rightarrow> bool" where
  "has_triggers job_id video_id s = (\<exists>t \<in> set (trigger_list_by_job job_id s). hft_video_id t = video_id)"

definition process_scale_task ::
  "worker_env \<Rightarrow> string \<Rightarrow> string \<Rightarrow> analysis_scale_task \<Rightarrow> (db, exn, scale_process_result option) se" where
  "process_scale_task env job_id video_id st =
    (let scale = ast_analysis_scale st; sid = ast_scale_task_id st in
     if scale \<notin> {DEFAULT_SEGMENT, MOTION_SCAN, HIGH_FREQ_EVENT}
     then se_then (skip_scale_task sid ''not_enabled'') (se_ret None)
     else se_bind (se_read (has_triggers job_id video_id)) (\<lambda>triggered.
       if scale = HIGH_FREQ_EVENT \<and> \<not> triggered
       then se_then (skip_scale_task sid ''no_motion_trigger'') (se_ret None)
       else se_then (transition_running sid)
         (se_bind
           (if scale = HIGH_FREQ_EVENT then we_run_high_freq env job_id video_id
            else if scale = MOTION_SCAN
            then se_bind (we_run_motion env job_id video_id sid) (\<lambda>produced.
              se_ret \<lparr>spr_total = produced, spr_succeeded = produced, spr_failed = 0, spr_skipped = 0\<rparr>)
            else we_run_default env job_id video_id sid)
           (\<lambda>result. se_then
             (write_session (finalize_scale_task sid (spr_total result) (spr_succeeded result) (spr_failed result)))
             (se_ret (Some result))))))"

section \<open>Settling the job\<close>

text \<open>The closure of \<^verbatim>\<open>_reconcile_running_units_for_job\<close>: units still running are failed.\<close>

definition reconcile_unit :: "worker_env \<Rightarrow> analysis_unit \<Rightarrow> db \<Rightarrow> db" where
  "reconcile_unit env u s =
    (if au_status u = TASK_RUNNING
     then unit_mark_failed (local_now env) (au_unit_id u) ''analysis_unit_failed''
       (Some ''residual running reconciled at job finalize (terminal write did not persist)'')
       (au_latest_model_call_id u) None s
     else s)"

definition reconcile_running_units_for_job :: "worker_env \<Rightarrow> string \<Rightarrow> db \<Rightarrow> db" where
  "reconcile_running_units_for_job env job_id s =
    fold (\<lambda>st s. fold (reconcile_unit env) (unit_list_by_scale_task (ast_scale_task_id st) s) s)
      (scale_list_by_job job_id s) s"

definition finalize_job :: "worker_env \<Rightarrow> string \<Rightarrow> string \<Rightarrow> string \<Rightarrow> job_status \<Rightarrow> (db, exn, unit) se" where
  "finalize_job env task_id job_id video_id final_status =
    write_session
      (se_then (transition_job (we_now env) job_id final_status None None)
      (se_then (se_write (mark_video_status video_id ''ready''))
        (se_write (\<lambda>s. s\<lparr>db_tasks := mark_succeeded task_id (db_tasks s)\<rparr>))))"

definition handle_required_failure :: "worker_env \<Rightarrow> string \<Rightarrow> string \<Rightarrow> exn \<Rightarrow> (db, exn, unit) se" where
  "handle_required_failure env task_id job_id e =
    (let code = classify_error e;
         message = exn_type_name e @ '': '' @ take 200 (exn_message e)
     in write_session
      (se_bind (se_read (get_by_job_and_scale job_id DEFAULT_SEGMENT)) (\<lambda>d.
       se_then
        (case d of
           None \<Rightarrow> se_ret ()
         | Some t \<Rightarrow> if ast_status t = TASK_RUNNING
             then transition_scale_task (ast_scale_task_id t) TASK_FAILED (Some code) None
             else se_ret ())
        (se_then (transition_job (we_now env) job_id JOB_FAILED (Some code) (Some message))
          (se_write (\<lambda>s. s\<lparr>db_tasks := mark_failed task_id code (Some message) (db_tasks s)\<rparr>))))))"

definition no_usable_result :: "scale_process_result \<Rightarrow> exn option" where
  "no_usable_result r =
    (if spr_total r > 0 \<and> spr_succeeded r = 0
     then Some (RuntimeError (if spr_failed r \<noteq> 0 then ''all default_segment units failed''
       else ''default_segment produced no usable frames''))
     else None)"

section \<open>The sequential path\<close>

text \<open>The loop over the scale tasks; its value is the required failure and whether any part failed.\<close>

fun scale_loop ::
  "worker_env \<Rightarrow> string \<Rightarrow> string \<Rightarrow> bool \<Rightarrow> analysis_scale_task list \<Rightarrow> (db, exn, exn option \<times> bool) se" where
  "scale_loop env job_id video_id any_partial [] s = (Inr (None, any_partial), s)"
| "scale_loop env job_id video_id any_partial (st # sts) s =
    (case process_scale_task env job_id video_id st s of
       (Inr result, s') \<Rightarrow>
         (case (result, ast_analysis_scale st = DEFAULT_SEGMENT) of
            (Some r, True) \<Rightarrow>
              (case no_usable_result r of
                 Some e \<Rightarrow> (Inr (Some e, any_partial), s')
               | None \<Rightarrow> scale_loop env job_id video_id (any_partial \<or> spr_failed r \<noteq> 0) sts s')
          | (Some r, False) \<Rightarrow> scale_loop env job_id video_id (any_partial \<or> spr_failed r \<noteq> 0) sts s'
          | (None, _) \<Rightarrow> scale_loop env job_id video_id any_partial sts s')
     | (Inl e, s') \<Rightarrow>
         if ast_analysis_scale st = DEFAULT_SEGMENT then (Inr (Some e, any_partial), s')
         else (case fail_scale_task (ast_scale_task_id st) e s' of
             (Inl e2, s'') \<Rightarrow> (Inl e2, s'')
           | (Inr _, s'') \<Rightarrow> scale_loop env job_id video_id True sts s''))"

definition process_sequential ::
  "worker_env \<Rightarrow> string \<Rightarrow> string \<Rightarrow> string \<Rightarrow> analysis_scale_task list \<Rightarrow> (db, exn, string) se" where
  "process_sequential env task_id job_id video_id sts =
    se_bind (scale_loop env job_id video_id False sts) (\<lambda>(required_failed, any_partial).
      case required_failed of
        Some e \<Rightarrow> se_then (handle_required_failure env task_id job_id e) (se_ret task_id)
      | None \<Rightarrow>
          se_then (write_session (se_write (reconcile_running_units_for_job env job_id)))
         (se_then (finalize_job env task_id job_id video_id (if any_partial then JOB_PARTIAL_FAILED else JOB_SUCCEEDED))
           (se_ret task_id)))"

section \<open>The cross-scale path\<close>

definition scale_of :: "analysis_scale \<Rightarrow> analysis_scale_task list \<Rightarrow> analysis_scale_task option" where
  "scale_of scale sts = map_of (map (\<lambda>st. (ast_analysis_scale st, st)) (rev sts)) scale"

text \<open>Phase 1: motion scan; the value says whether it failed.\<close>

definition motion_phase ::
  "worker_env \<Rightarrow> string \<Rightarrow> string \<Rightarrow> analysis_scale_task option \<Rightarrow> (db, exn, bool) se" where
  "motion_phase env job_id video_id motion =
    (case motion of
       None \<Rightarrow> se_ret False
     | Some st \<Rightarrow> se_try
         (se_bind (process_scale_task env job_id video_id st) (\<lambda>_. se_ret False))
         (\<lambda>e. se_then (fail_scale_task (ast_scale_task_id st) e) (se_ret True)))"

text \<open>Phase 2: skip the scales that do not run; the value says whether high-frequency analysis is active.\<close>

definition skip_phase ::
  "string \<Rightarrow> string \<Rightarrow> analysis_scale_task option \<Rightarrow> analysis_scale_task list \<Rightarrow> (db, exn, bool) se" where
  "skip_phase job_id video_id high_freq sts =
    se_bind (se_read (\<lambda>s. high_freq \<noteq> None \<and> has_triggers job_id video_id s)) (\<lambda>active.
    se_then
      (case high_freq of
         None \<Rightarrow> se_ret ()
       | Some st \<Rightarrow> if active then se_ret () else skip_scale_task (ast_scale_task_id st) ''no_motion_trigger'')
    (se_then
      (se_iter (\<lambda>st. if ast_analysis_scale st \<notin> {DEFAULT_SEGMENT, MOTION_SCAN, HIGH_FREQ_EVENT}
         then skip_scale_task (ast_scale_task_id st) ''not_enabled'' else se_ret ()) sts)
      (se_ret active)))"

text \<open>Phase 3: plan the units of one scale.\<close>

definition plan_phase ::
  "(string \<Rightarrow> string \<Rightarrow> string \<Rightarrow> (db, exn, db planned_unit list) se) \<Rightarrow> string \<Rightarrow> string \<Rightarrow> analysis_scale_task
    \<Rightarrow> (db, exn, db planned_unit list) se" where
  "plan_phase plan job_id video_id st =
    se_then (transition_running (ast_scale_task_id st)) (plan job_id video_id (ast_scale_task_id st))"

definition finalize_scales ::
  "analysis_scale_task option \<Rightarrow> analysis_scale_task option \<Rightarrow> (analysis_scale \<Rightarrow> scale_process_result)
    \<Rightarrow> (db, exn, unit) se" where
  "finalize_scales default_task high_freq results =
    write_session (se_then
      (case default_task of None \<Rightarrow> se_ret () | Some st \<Rightarrow>
        (let ds = results DEFAULT_SEGMENT in
         finalize_scale_task (ast_scale_task_id st) (spr_total ds) (spr_succeeded ds) (spr_failed ds)))
      (case high_freq of None \<Rightarrow> se_ret () | Some st \<Rightarrow>
        (let hf = results HIGH_FREQ_EVENT in
         finalize_scale_task (ast_scale_task_id st) (spr_total hf) (spr_succeeded hf) (spr_failed hf))))"

text \<open>
  Phases 4 to 6: dispatch, reconcile, finalize the scales and the job. \<open>high_freq\<close> is the
  high-frequency scale task if it is active.
\<close>

definition settle_cross_scale ::
  "worker_env \<Rightarrow> string \<Rightarrow> string \<Rightarrow> string \<Rightarrow> analysis_scale_task option \<Rightarrow> analysis_scale_task option \<Rightarrow> bool
    \<Rightarrow> db planned_unit list \<Rightarrow> db planned_unit list \<Rightarrow> (db, exn, string) se" where
  "settle_cross_scale env task_id job_id video_id default_task high_freq any_partial high_freq_units default_units =
    se_bind (\<lambda>s. case scheduler_run (we_unit_workers env) (we_high_freq_quota env) (we_completion env)
        high_freq_units default_units s of (r, s') \<Rightarrow> (Inr r, s')) (\<lambda>results.
    se_then (write_session (se_write (reconcile_running_units_for_job env job_id)))
   (se_then (finalize_scales default_task high_freq results)
    (let ds = results DEFAULT_SEGMENT in
     case (if default_task = None then None else no_usable_result ds) of
       Some e \<Rightarrow> se_then (handle_required_failure env task_id job_id e) (se_ret task_id)
     | None \<Rightarrow>
         let partial = any_partial \<or> spr_failed ds \<noteq> 0 \<or>
               (high_freq \<noteq> None \<and> spr_failed (results HIGH_FREQ_EVENT) \<noteq> 0)
         in se_then (finalize_job env task_id job_id video_id (if partial then JOB_PARTIAL_FAILED else JOB_SUCCEEDED))
             (se_ret task_id))))"

definition process_cross_scale ::
  "worker_env \<Rightarrow> string \<Rightarrow> string \<Rightarrow> string \<Rightarrow> analysis_scale_task list \<Rightarrow> (db, exn, string) se" where
  "process_cross_scale env task_id job_id video_id sts =
    se_bind (motion_phase env job_id video_id (scale_of MOTION_SCAN sts)) (\<lambda>motion_failed.
    se_bind (skip_phase job_id video_id (scale_of HIGH_FREQ_EVENT sts) sts) (\<lambda>active.
    let default_task = scale_of DEFAULT_SEGMENT sts;
        high_freq = (if active then scale_of HIGH_FREQ_EVENT sts else None)
    in se_bind
        (se_try
          (case default_task of
             None \<Rightarrow> se_ret (Inr [])
           | Some st \<Rightarrow> se_bind (plan_phase (we_plan_default env) job_id video_id st) (\<lambda>us. se_ret (Inr us)))
          (\<lambda>e. se_ret (Inl e)))
        (\<lambda>planned. case planned of
           Inl e \<Rightarrow> se_then (handle_required_failure env task_id job_id e) (se_ret task_id)
         | Inr default_units \<Rightarrow>
            (case high_freq of
               None \<Rightarrow> settle_cross_scale env task_id job_id video_id default_task None motion_failed [] default_units
             | Some st \<Rightarrow>
                se_bind
                  (se_try
                    (se_bind (plan_phase (we_plan_high_freq env) job_id video_id st) (\<lambda>us. se_ret (Some us)))
                    (\<lambda>e. se_then (fail_scale_task (ast_scale_task_id st) e) (se_ret None)))
                  (\<lambda>r. case r of
                     Some us \<Rightarrow> settle_cross_scale env task_id job_id video_id default_task high_freq motion_failed us default_units
                   | None \<Rightarrow> settle_cross_scale env task_id job_id video_id default_task None True [] default_units)))))"

section \<open>One task\<close>

definition scale_order :: "analysis_scale \<Rightarrow> nat" where
  "scale_order scale = (case scale of DEFAULT_SEGMENT \<Rightarrow> 0 | MOTION_SCAN \<Rightarrow> 1 | HIGH_FREQ_EVENT \<Rightarrow> 2 | LOW_FREQ_SUMMARY \<Rightarrow> 3)"

definition payload_get :: "task \<Rightarrow> string \<Rightarrow> exn + string" where
  "payload_get t k =
    (case map_of (tk_payload t) k of
       None \<Rightarrow> Inl (OtherException [''KeyError'', ''LookupError'', ''Exception''] k)
     | Some v \<Rightarrow> Inr v)"

definition process_claimed_task :: "worker_env \<Rightarrow> task \<Rightarrow> (db, exn, string) se" where
  "process_claimed_task env t =
    (case (payload_get t ''analysis_job_id'', payload_get t ''video_id'') of
       (Inl e, _) \<Rightarrow> se_raise e
     | (Inr _, Inl e) \<Rightarrow> se_raise e
     | (Inr job_id, Inr video_id) \<Rightarrow>
        se_bind (write_session (se_then (transition_job (we_now env) job_id JOB_RUNNING None None)
            (se_read (scale_list_by_job job_id)))) (\<lambda>rows.
        let sts = sort_key (\<lambda>st. scale_order (ast_analysis_scale st)) rows in
        if we_cross_scale env then process_cross_scale env (tk_task_id t) job_id video_id sts
        else process_sequential env (tk_task_id t) job_id video_id sts))"

text \<open>Claiming runs in its own session with the database to itself; the heartbeat's refreshes are left out.\<close>

definition process_one :: "worker_env \<Rightarrow> (db, exn, string option) se" where
  "process_one env s =
    (case claim_task (\<lambda>_ r. r) (we_worker_id env) (we_now env) (we_lease_seconds env) (db_tasks s) of
       (None, rows) \<Rightarrow> (Inr None, s\<lparr>db_tasks := rows\<rparr>)
     | (Some t, rows) \<Rightarrow>
        (case process_claimed_task env t (s\<lparr>db_tasks := rows\<rparr>) of
           (Inl e, s') \<Rightarrow> (Inl e, s')
         | (Inr tid, s') \<Rightarrow> (Inr (Some tid), s')))"

section \<open>Orphan recovery\<close>

definition reconcile_scale_task :: "string \<Rightarrow> (db, exn, unit) se" where
  "reconcile_scale_task scale_task_id s =
    (case get_scale_row scale_task_id s of
       None \<Rightarrow> (Inr (), s)
     | Some t \<Rightarrow>
        if ast_status t \<noteq> TASK_RUNNING then (Inr (), s)
        else let units = unit_list_by_scale_task scale_task_id s in
          if \<exists>u \<in> set units. au_status u = TASK_RUNNING \<or> au_status u = TASK_PENDING then (Inr (), s)
          else finalize_scale_task scale_task_id (length units)
            (count_where (\<lambda>u. au_status u = TASK_SUCCEEDED) units)
            (count_where (\<lambda>u. au_status u = TASK_FAILED) units) s)"

definition reconcile_job :: "worker_env \<Rightarrow> string \<Rightarrow> (db, exn, unit) se" where
  "reconcile_job env job_id s =
    (case get_job_row job_id s of
       None \<Rightarrow> (Inr (), s)
     | Some job \<Rightarrow>
        if aj_job_status job \<noteq> JOB_RUNNING then (Inr (), s)
        else let sts = scale_list_by_job job_id s in
          if \<exists>st \<in> set sts. ast_status st \<in> {TASK_RUNNING, TASK_PENDING} then (Inr (), s)
          else case find (\<lambda>st. ast_analysis_scale st = DEFAULT_SEGMENT) sts of
              Some d \<Rightarrow>
                if ast_total_units d > 0 \<and> ast_succeeded_units d = 0
                then transition_job (we_now env) job_id JOB_FAILED (Some ''analysis_unit_failed'')
                  (Some ''default_segment produced no records (orphan recovery)'') s
                else transition_job (we_now env) job_id
                  (if \<exists>st \<in> set sts. ast_status st \<in> {TASK_FAILED, TASK_PARTIAL_FAILED}
                   then JOB_PARTIAL_FAILED else JOB_SUCCEEDED) None None s
            | None \<Rightarrow> transition_job (we_now env) job_id
                  (if \<exists>st \<in> set sts. ast_status st \<in> {TASK_FAILED, TASK_PARTIAL_FAILED}
                   then JOB_PARTIAL_FAILED else JOB_SUCCEEDED) None None s)"

text \<open>The sets of ids are visited in the order in which the sweep met them.\<close>

definition recover_orphans :: "worker_env \<Rightarrow> (db, exn, nat) se" where
  "recover_orphans env =
    (if \<not> we_orphan_recovery_enabled env then se_ret 0
     else let cutoff = iso_of (we_now env - we_orphan_stale_seconds env * 1000000) 0 in
       write_session (se_bind (se_read (list_stale_running cutoff (we_orphan_batch_limit env))) (\<lambda>stale.
         se_then (se_write (fold (\<lambda>u. unit_mark_failed (local_now env) (au_unit_id u) ''orphan_timeout''
             (Some ''unit running past stale cutoff; recovered by sweep'') None None) stale))
        (se_then (se_iter reconcile_scale_task (remdups (map au_scale_task_id stale)))
        (se_then (se_iter (reconcile_job env) (remdups (map au_analysis_job_id stale)))
          (se_ret (length stale)))))))"

section \<open>What the settling steps leave\<close>

definition running_units :: "db \<Rightarrow> analysis_unit set" where
  "running_units s = {u \<in> set (db_units s). au_status u = TASK_RUNNING}"

definition job_scale_ids :: "string \<Rightarrow> db \<Rightarrow> string set" where
  "job_scale_ids job_id s = ast_scale_task_id ` {t \<in> set (db_scale_tasks s). ast_analysis_job_id t = job_id}"

definition no_running_unit :: "string \<Rightarrow> db \<Rightarrow> bool" where
  "no_running_unit job_id s \<longleftrightarrow> (\<forall>u \<in> running_units s. au_scale_task_id u \<notin> job_scale_ids job_id s)"

definition job_settled :: "string \<Rightarrow> string \<Rightarrow> db \<Rightarrow> bool" where
  "job_settled job_id task_id s \<longleftrightarrow>
    (\<exists>st \<in> {JOB_SUCCEEDED, JOB_PARTIAL_FAILED, JOB_FAILED}. job_status_of s job_id = Some st \<and>
      (\<forall>t. get_task task_id (db_tasks s) = Some t \<longrightarrow> tk_lease_owner t = None \<and>
        (if st = JOB_FAILED then tk_status t \<in> {''retry_scheduled'', ''failed''} else tk_status t = ''succeeded'')) \<and>
      (st \<noteq> JOB_FAILED \<longrightarrow> no_running_unit job_id s))"

lemma se_ok_write_session: "se_ok P m Q \<Longrightarrow> se_ok P (write_session m) Q"
  unfolding se_ok_def write_session_def by (fastforce split: prod.splits sum.splits)

lemma transition_job_result:
  assumes "transition_job now k t ec em s = (Inr a, s')"
  shows "job_status_of s' k = Some t \<and> (s' = s \<or> (\<exists>x y. s' = job_update_status k t x y ec em s))"
proof (cases "get_job_row k s")
  case None
  with assms show ?thesis by (simp add: transition_job_def)
next
  case (Some job)
  show ?thesis
  proof (cases "aj_job_status job = t")
    case True
    with Some assms show ?thesis by (simp add: transition_job_def job_status_of_def)
  next
    case False
    with Some assms have "\<exists>x y. s' = job_update_status k t x y ec em s"
      by (auto simp: transition_job_def split del: if_split split: if_splits)
    with Some show ?thesis by (auto simp: job_status_of_def)
  qed
qed

lemma se_ok_transition_job:
  assumes "\<And>s a b ec em. P s \<Longrightarrow> R (job_update_status job_id target a b ec em s)" and "\<And>s. P s \<Longrightarrow> R s"
  shows "se_ok P (transition_job now job_id target ec em) (\<lambda>_ s. job_status_of s job_id = Some target \<and> R s)"
  by (rule se_okI) (metis assms transition_job_result)

lemma se_ok_transition_scale:
  assumes "\<And>s ec sr. P s \<Longrightarrow> P (scale_update_status k target ec sr s)"
  shows "se_ok P (transition_scale_task k target ec sr) (\<lambda>_. P)"
  by (rule se_okI) (auto simp: transition_scale_task_def assms split: option.splits if_splits)

lemma no_running_frame [simp]:
  "no_running_unit j (job_update_status k st a b ec em s) = no_running_unit j s"
  "no_running_unit j (mark_video_status v vst s) = no_running_unit j s"
  "no_running_unit j (s\<lparr>db_tasks := ts\<rparr>) = no_running_unit j s"
  by (simp_all add: no_running_unit_def running_units_def job_scale_ids_def job_update_status_def mark_video_status_def)

lemma job_status_frame [simp]:
  "job_status_of (mark_video_status v st s) j = job_status_of s j"
  "job_status_of (s\<lparr>db_tasks := ts\<rparr>) j = job_status_of s j"
  "job_status_of (s\<lparr>db_units := us\<rparr>) j = job_status_of s j"
  by (simp_all add: job_status_of_def mark_video_status_def)

lemma db_tasks_frame [simp]:
  "db_tasks (job_update_status k st a b ec em s) = db_tasks s"
  "db_tasks (mark_video_status v st' s) = db_tasks s"
  by (simp_all add: job_update_status_def mark_video_status_def)

lemma job_scale_ids_upd:
  assumes "\<And>t. ast_scale_task_id (f t) = ast_scale_task_id t" and "\<And>t. ast_analysis_job_id (f t) = ast_analysis_job_id t"
  shows "job_scale_ids j (s\<lparr>db_scale_tasks := row_upd ast_scale_task_id k f (db_scale_tasks s)\<rparr>) = job_scale_ids j s"
proof -
  let ?g = "\<lambda>t. if ast_scale_task_id t = k then f t else t"
  have "{t \<in> ?g ` set (db_scale_tasks s). ast_analysis_job_id t = j} = ?g ` {t \<in> set (db_scale_tasks s). ast_analysis_job_id t = j}"
    using assms(2) by auto
  moreover have "ast_scale_task_id ` ?g ` A = ast_scale_task_id ` A" for A
    unfolding image_image by (rule image_cong) (simp_all add: assms(1))
  ultimately show ?thesis by (simp add: job_scale_ids_def row_upd_def)
qed

lemma no_running_scale_frame [simp]:
  "no_running_unit j (update_counters k a b c s) = no_running_unit j s"
  "no_running_unit j (scale_update_status k st ec sr s) = no_running_unit j s"
proof -
  have "job_scale_ids j (update_counters k a b c s) = job_scale_ids j s"
    unfolding update_counters_def by (rule job_scale_ids_upd) simp_all
  moreover have "job_scale_ids j (scale_update_status k st ec sr s) = job_scale_ids j s"
    unfolding scale_update_status_def by (rule job_scale_ids_upd) simp_all
  moreover have "running_units (update_counters k a b c s) = running_units s"
    "running_units (scale_update_status k st ec sr s) = running_units s"
    by (simp_all add: running_units_def update_counters_def scale_update_status_def)
  ultimately show "no_running_unit j (update_counters k a b c s) = no_running_unit j s"
    and "no_running_unit j (scale_update_status k st ec sr s) = no_running_unit j s"
    by (simp_all add: no_running_unit_def)
qed

lemma finalize_scale_keeps: "se_ok (no_running_unit j) (finalize_scale_task k a b c) (\<lambda>_. no_running_unit j)"
  unfolding finalize_scale_task_def
  by (rule se_ok_then [OF se_ok_write se_ok_transition_scale]) simp_all

lemma finalize_scales_keeps: "se_ok (no_running_unit j) (finalize_scales d h r) (\<lambda>_. no_running_unit j)"
proof -
  have "se_ok (no_running_unit j) (case d of None \<Rightarrow> se_ret () | Some st \<Rightarrow> finalize_scale_task (f st) (a st) (b st) (c st))
      (\<lambda>_. no_running_unit j)" for d :: "analysis_scale_task option" and f a b c
    by (cases d) (simp_all add: finalize_scale_keeps se_ok_ret)
  then show ?thesis unfolding finalize_scales_def Let_def
    by (intro se_ok_write_session se_ok_then [where R = "no_running_unit j"])
qed

lemma finalize_job_settles:
  assumes "st \<in> {JOB_SUCCEEDED, JOB_PARTIAL_FAILED}"
  shows "se_ok (no_running_unit job_id) (finalize_job env task_id job_id video_id st) (\<lambda>_. job_settled job_id task_id)"
proof -
  let ?P = "\<lambda>s. job_status_of s job_id = Some st \<and> no_running_unit job_id s"
  have 1: "se_ok (no_running_unit job_id) (transition_job (we_now env) job_id st None None) (\<lambda>_. ?P)"
    by (rule se_ok_transition_job) simp_all
  have 2: "se_ok ?P (se_write (mark_video_status video_id ''ready'')) (\<lambda>_. ?P)"
    by (rule se_ok_write) simp
  have 3: "se_ok ?P (se_write (\<lambda>s. s\<lparr>db_tasks := mark_succeeded task_id (db_tasks s)\<rparr>)) (\<lambda>_. job_settled job_id task_id)"
    by (rule se_ok_write) (use assms in \<open>auto simp: job_settled_def\<close>)
  show ?thesis unfolding finalize_job_def
    by (rule se_ok_write_session, rule se_ok_then [OF 1], rule se_ok_then [OF 2 3])
qed

lemma required_failure_settles:
  "se_ok (\<lambda>_. True) (handle_required_failure env task_id job_id e) (\<lambda>_. job_settled job_id task_id)"
proof -
  have 1: "se_ok (\<lambda>_. True) (transition_job (we_now env) job_id JOB_FAILED ec em)
      (\<lambda>_ s. job_status_of s job_id = Some JOB_FAILED \<and> True)" for ec em
    by (rule se_ok_transition_job) simp_all
  have 2: "se_ok (\<lambda>s. job_status_of s job_id = Some JOB_FAILED \<and> True)
      (se_write (\<lambda>s. s\<lparr>db_tasks := mark_failed task_id code msg (db_tasks s)\<rparr>)) (\<lambda>_. job_settled job_id task_id)" for code msg
    by (rule se_ok_write) (auto simp: job_settled_def)
  show ?thesis unfolding handle_required_failure_def Let_def
    by (rule se_ok_write_session, rule se_ok_bind [OF se_ok_True], rule se_ok_then [OF se_ok_True],
        rule se_ok_then [OF 1 2])
qed

section \<open>Reconciliation\<close>

lemma running_reconcile_unit:
  "running_units (reconcile_unit env u s) \<subseteq> {x \<in> running_units s. au_status u = TASK_RUNNING \<longrightarrow> au_unit_id x \<noteq> au_unit_id u}"
  by (auto simp: running_units_def reconcile_unit_def unit_mark_failed_def set_row_upd
      dest: arg_cong [where f = au_status] split: if_splits)

lemma running_reconcile_units:
  "running_units (fold (reconcile_unit env) us s) \<subseteq>
    {x \<in> running_units s. \<forall>u \<in> set us. au_status u = TASK_RUNNING \<longrightarrow> au_unit_id x \<noteq> au_unit_id u}"
proof (induction us arbitrary: s)
  case (Cons u us)
  show ?case using Cons.IH [of "reconcile_unit env u s"] running_reconcile_unit [of env u s] by force
qed simp

lemma scale_tasks_reconcile_units [simp]: "db_scale_tasks (fold (reconcile_unit env) us s) = db_scale_tasks s"
  by (induction us arbitrary: s) (simp_all add: reconcile_unit_def unit_mark_failed_def)

lemma running_reconcile_scales:
  fixes sts :: "analysis_scale_task list"
  defines "step \<equiv> \<lambda>env st s. fold (reconcile_unit env) (unit_list_by_scale_task (ast_scale_task_id st) s) s"
  shows "running_units (fold (step env) sts s) \<subseteq>
      {x \<in> running_units s. \<forall>st \<in> set sts. au_scale_task_id x \<noteq> ast_scale_task_id st} \<and>
    db_scale_tasks (fold (step env) sts s) = db_scale_tasks s"
proof (induction sts arbitrary: s)
  case (Cons st sts)
  have "running_units (step env st s) \<subseteq> {x \<in> running_units s. au_scale_task_id x \<noteq> ast_scale_task_id st}"
    using running_reconcile_units [of env "unit_list_by_scale_task (ast_scale_task_id st) s" s]
    by (auto simp: step_def unit_list_by_scale_task_def running_units_def)
  moreover have "db_scale_tasks (step env st s) = db_scale_tasks s" by (simp add: step_def)
  ultimately show ?case using Cons.IH [of "step env st s"] by auto
qed simp

lemma reconcile_leaves_no_running: "no_running_unit job_id (reconcile_running_units_for_job env job_id s)"
  using running_reconcile_scales [of env "scale_list_by_job job_id s" s]
  by (force simp: no_running_unit_def job_scale_ids_def reconcile_running_units_for_job_def scale_list_by_job_def)

lemma se_ok_reconcile:
  "se_ok P (write_session (se_write (reconcile_running_units_for_job env job_id))) (\<lambda>_. no_running_unit job_id)"
  by (rule se_ok_write_session, rule se_ok_write) (rule reconcile_leaves_no_running)

lemma se_ok_then_ret: "se_ok P m (\<lambda>_. Q) \<Longrightarrow> se_ok P (se_then m (se_ret x)) (\<lambda>_. Q)"
  by (rule se_ok_then [where R = Q]) (simp_all add: se_ok_ret)

lemma settle_cross_scale_settles:
  "se_ok P (settle_cross_scale env task_id job_id video_id d h p hu du) (\<lambda>_. job_settled job_id task_id)"
proof -
  have fin: "se_ok (no_running_unit job_id)
      (se_then (finalize_job env task_id job_id video_id st) (se_ret task_id))
      (\<lambda>_. job_settled job_id task_id)" if "st \<in> {JOB_SUCCEEDED, JOB_PARTIAL_FAILED}" for st
    by (rule se_ok_then_ret, rule finalize_job_settles) (rule that)
  have req: "se_ok (no_running_unit job_id) (se_then (handle_required_failure env task_id job_id e) (se_ret task_id))
      (\<lambda>_. job_settled job_id task_id)" for e
    by (rule se_ok_then_ret, rule se_ok_weaken [OF required_failure_settles]) simp_all
  show ?thesis unfolding settle_cross_scale_def Let_def
    by (rule se_ok_bind [OF se_ok_True], rule se_ok_then [OF se_ok_reconcile], rule se_ok_then [OF finalize_scales_keeps])
      (simp add: fin req split: option.split)
qed

lemma process_cross_scale_settles:
  "se_ok P (process_cross_scale env task_id job_id video_id sts) (\<lambda>_. job_settled job_id task_id)"
proof -
  have req: "se_ok Q (se_then (handle_required_failure env task_id job_id e) (se_ret task_id))
      (\<lambda>_. job_settled job_id task_id)" for Q e
    by (rule se_ok_then_ret, rule se_ok_weaken [OF required_failure_settles]) simp_all
  show ?thesis unfolding process_cross_scale_def Let_def
    by (rule se_ok_bind [OF se_ok_True], rule se_ok_bind [OF se_ok_True], rule se_ok_bind [OF se_ok_True])
      (auto split: sum.split option.split intro: req settle_cross_scale_settles intro!: se_ok_bind [OF se_ok_True])
qed

lemma process_sequential_settles:
  "se_ok P (process_sequential env task_id job_id video_id sts) (\<lambda>_. job_settled job_id task_id)"
proof -
  have req: "se_ok Q (se_then (handle_required_failure env task_id job_id e) (se_ret task_id))
      (\<lambda>_. job_settled job_id task_id)" for Q e
    by (rule se_ok_then_ret, rule se_ok_weaken [OF required_failure_settles]) simp_all
  have fin: "se_ok Q (se_then (write_session (se_write (reconcile_running_units_for_job env job_id)))
      (se_then (finalize_job env task_id job_id video_id st) (se_ret task_id))) (\<lambda>_. job_settled job_id task_id)"
    if "st \<in> {JOB_SUCCEEDED, JOB_PARTIAL_FAILED}" for Q st
    by (rule se_ok_then [OF se_ok_reconcile], rule se_ok_then_ret, rule finalize_job_settles) (rule that)
  show ?thesis unfolding process_sequential_def
    by (intro se_ok_bind [OF se_ok_True]) (auto split: option.split intro: req fin)
qed

section \<open>Properties of the worker\<close>

text \<open>
  C17. Processing a claimed task settles the job, whatever the processors, planners and units
  did to the database: when it returns, the job is succeeded, partially failed or failed; the
  queue task has given up its lease and is \<^verbatim>\<open>succeeded\<close> exactly for the first two and
  \<^verbatim>\<open>retry_scheduled\<close> or \<^verbatim>\<open>failed\<close> for the last; and a job that is not failed has no unit left running
  in any of its scale tasks.
\<close>

theorem worker_settles_job:
  assumes "process_claimed_task env t s = (Inr tid, s')" and "payload_get t ''analysis_job_id'' = Inr job_id"
  shows "job_settled job_id (tk_task_id t) s'"
proof -
  obtain video_id where v: "payload_get t ''video_id'' = Inr video_id"
    using assms by (auto simp: process_claimed_task_def split: sum.splits)
  have "se_ok (\<lambda>_. True) (process_claimed_task env t) (\<lambda>_. job_settled job_id (tk_task_id t))"
    unfolding process_claimed_task_def assms(2) v prod.case sum.case Let_def
    by (rule se_ok_bind [OF se_ok_True]) (simp add: process_cross_scale_settles process_sequential_settles)
  from se_okD [OF this TrueI assms(1)] show ?thesis .
qed

definition ex_env_worker :: "bool \<Rightarrow> worker_env" where
  "ex_env_worker cross = \<lparr>we_now = 100, we_tz = 0, we_worker_id = ''w'', we_lease_seconds = 60, we_cross_scale = cross,
     we_unit_workers = 1, we_high_freq_quota = 3, we_completion = id,
     we_run_default = (\<lambda>_ _ _. se_ret \<lparr>spr_total = 2, spr_succeeded = 1, spr_failed = 1, spr_skipped = 0\<rparr>),
     we_run_motion = (\<lambda>_ _ _. se_ret 0), we_run_high_freq = (\<lambda>_ _. se_raise (RuntimeError ''no decoder'')),
     we_plan_default = (\<lambda>_ _ _. se_ret []), we_plan_high_freq = (\<lambda>_ _ _. se_ret []),
     we_orphan_recovery_enabled = True, we_orphan_stale_seconds = 10, we_orphan_batch_limit = 5\<rparr>"

definition ex_claimed :: task where
  "ex_claimed = (ex_task ''t'' 0)\<lparr>tk_payload := [(''analysis_job_id'', ''j''), (''video_id'', ''v'')],
     tk_status := ''running'', tk_lease_owner := Some ''w''\<rparr>"

theorem worker_settles_job_witness:
  "\<exists>s'. process_claimed_task (ex_env_worker False) ex_claimed
      (ex_db JOB_QUEUED [ex_scale ''d'' DEFAULT_SEGMENT TASK_PENDING] [ex_claimed]) = (Inr ''t'', s') \<and>
    job_status_of s' ''j'' = Some JOB_PARTIAL_FAILED \<and> job_settled ''j'' ''t'' s'"
proof -
  let ?run = "process_claimed_task (ex_env_worker False) ex_claimed
      (ex_db JOB_QUEUED [ex_scale ''d'' DEFAULT_SEGMENT TASK_PENDING] [ex_claimed])"
  have pay: "payload_get ex_claimed ''analysis_job_id'' = Inr ''j''" "payload_get ex_claimed ''video_id'' = Inr ''v''"
    by (simp_all add: payload_get_def ex_claimed_def)
  have run: "fst ?run = Inr ''t'' \<and> job_status_of (snd ?run) ''j'' = Some JOB_PARTIAL_FAILED"
    by (simp add: process_claimed_task_def payload_get_def Let_def process_sequential_def se_bind_def se_then_def write_session_def
        transition_job_def ex_db_def ex_job_def can_transition_job_def job_update_status_def ex_env_worker_def
        scale_list_by_job_def ex_scale_def process_scale_task_def transition_running_def transition_scale_task_def
        can_transition_task_def scale_update_status_def finalize_scale_task_def update_counters_def final_scale_status_def
        no_usable_result_def reconcile_running_units_for_job_def unit_list_by_scale_task_def finalize_job_def
        mark_video_status_def mark_succeeded_def ex_claimed_def ex_task_def job_status_of_def)
  then have eq: "?run = (Inr ''t'', snd ?run)" by (metis prod.collapse)
  have "job_settled ''j'' (tk_task_id ex_claimed) (snd ?run)" by (rule worker_settles_job [OF eq pay(1)])
  then have "job_settled ''j'' ''t'' (snd ?run)" by (simp add: ex_claimed_def ex_task_def)
  with run eq show ?thesis by blast
qed

text \<open>
  A cross-scale job that is claimed again after its motion scan has succeeded (its worker
  died, the lease ran out) can never be finished: the run raises an illegal-transition error
  at the motion scan and leaves the database exactly as it was, with the job running and the
  task leased, so the next claim does the same.
\<close>

theorem cross_scale_rerun_never_finishes:
  assumes "we_cross_scale env" and "payload_get t ''analysis_job_id'' = Inr job_id" and "payload_get t ''video_id'' = Inr video_id"
    and "job_status_of s job_id = Some JOB_RUNNING" and "keys_ok ast_scale_task_id (db_scale_tasks s)"
    and "st \<in> set (db_scale_tasks s)" and "ast_analysis_job_id st = job_id" and "ast_analysis_scale st = MOTION_SCAN"
    and "ast_status st = TASK_SUCCEEDED"
    and "\<forall>x \<in> set (db_scale_tasks s). ast_analysis_job_id x = job_id \<and> ast_analysis_scale x = MOTION_SCAN \<longrightarrow> x = st"
  shows "\<exists>m. process_claimed_task env t s = (Inl (InvalidStateTransitionError m), s)"
proof -
  define sts where "sts = sort_key (\<lambda>st. scale_order (ast_analysis_scale st)) (scale_list_by_job job_id s)"
  have "st \<in> set sts" "\<forall>x \<in> set sts. ast_analysis_scale x = MOTION_SCAN \<longrightarrow> x = st"
  proof -
    have "set sts = {x \<in> set (db_scale_tasks s). ast_analysis_job_id x = job_id}"
      by (simp add: sts_def scale_list_by_job_def)
    with assms(6,7,10) show "st \<in> set sts" "\<forall>x \<in> set sts. ast_analysis_scale x = MOTION_SCAN \<longrightarrow> x = st" by blast+
  qed
  then have "map_of (map (\<lambda>st. (ast_analysis_scale st, st)) xs) MOTION_SCAN = Some st"
    if "set xs = set sts" for xs
  proof -
    have "(MOTION_SCAN, st) \<in> set (map (\<lambda>st. (ast_analysis_scale st, st)) xs)"
      using \<open>st \<in> set sts\<close> assms(8) that by (simp add: image_iff)
    then obtain y where y: "map_of (map (\<lambda>st. (ast_analysis_scale st, st)) xs) MOTION_SCAN = Some y"
      by (metis weak_map_of_SomeI)
    from map_of_SomeD [OF y] have "y \<in> set sts" "ast_analysis_scale y = MOTION_SCAN" using that by auto
    with y \<open>\<forall>x \<in> set sts. _\<close> show ?thesis by blast
  qed
  from this [of "rev sts"] have motion: "scale_of MOTION_SCAN sts = Some st" by (simp add: scale_of_def)
  have row: "get_scale_row (ast_scale_task_id st) s = Some st" using assms(5,6) by (simp add: row_get_iff)
  let ?to = "\<lambda>v. InvalidStateTransitionError (''scale_task '' @ ast_scale_task_id st @ '': succeeded -> '' @ v)"
  have "process_scale_task env job_id video_id st s = (Inl (?to ''running''), s)"
    using row assms(8,9)
    by (simp add: process_scale_task_def Let_def se_bind_def se_then_def transition_running_def write_session_def
        transition_scale_task_def can_transition_task_def)
  then have "motion_phase env job_id video_id (Some st) s = (Inl (?to ''failed''), s)"
    using row assms(9)
    by (simp add: motion_phase_def se_bind_def se_then_def se_try_def fail_scale_task_def write_session_def
        transition_scale_task_def can_transition_task_def)
  then have "process_cross_scale env (tk_task_id t) job_id video_id sts s = (Inl (?to ''failed''), s)"
    unfolding process_cross_scale_def motion by (simp add: se_bind_def)
  moreover have "transition_job (we_now env) job_id JOB_RUNNING None None s = (Inr (), s)"
    using assms(4) by (auto simp: transition_job_def job_status_of_def)
  ultimately show ?thesis
    using assms(1-3) by (simp add: process_claimed_task_def se_bind_def se_then_def write_session_def sts_def)
qed

theorem cross_scale_rerun_never_finishes_witness:
  "\<exists>m. process_claimed_task (ex_env_worker True) ex_claimed
      (ex_db JOB_RUNNING [ex_scale ''m'' MOTION_SCAN TASK_SUCCEEDED] [ex_claimed]) =
    (Inl (InvalidStateTransitionError m), ex_db JOB_RUNNING [ex_scale ''m'' MOTION_SCAN TASK_SUCCEEDED] [ex_claimed])"
  by (rule cross_scale_rerun_never_finishes [where st = "ex_scale ''m'' MOTION_SCAN TASK_SUCCEEDED"])
    (simp_all add: ex_env_worker_def payload_get_def ex_claimed_def ex_db_def ex_scale_def job_status_of_def ex_job_def keys_ok_def)

section \<open>Properties of orphan recovery\<close>

lemma get_scale_counters [simp]:
  "get_scale_row k (update_counters j a b c s) =
    (if k = j then map_option (\<lambda>t. t\<lparr>ast_total_units := a, ast_succeeded_units := b, ast_failed_units := c\<rparr>) (get_scale_row k s)
     else get_scale_row k s)"
  by (simp add: update_counters_def row_get_upd)

lemma final_scale_reachable: "can_transition_task TASK_RUNNING (final_scale_status a b)"
  by (simp add: final_scale_status_def can_transition_task_def)

lemma final_scale_not_running: "final_scale_status a b \<noteq> TASK_RUNNING"
  by (simp add: final_scale_status_def)

lemma finalize_running_scale:
  assumes "get_scale_row sid s = Some t" and "ast_status t = TASK_RUNNING"
  shows "\<exists>s'. finalize_scale_task sid n a b s = (Inr (), s') \<and> get_scale_row sid s' =
    Some (t\<lparr>ast_total_units := n, ast_succeeded_units := a, ast_failed_units := b, ast_status := final_scale_status a b,
           ast_error_code := None, ast_skipped_reason := None\<rparr>) \<and> db_units s' = db_units s \<and> db_jobs s' = db_jobs s"
  using assms final_scale_reachable [of a b] final_scale_not_running [of a b]
  by (auto simp: finalize_scale_task_def se_then_def se_bind_def transition_scale_task_def
      scale_update_status_def update_counters_def row_get_upd)

text \<open>
  A recovered scale task is settled from its unit rows: if it is running and none of its
  units is running or pending, recovery gives it the number of its units, of succeeded and of
  failed ones as counters and the status they imply (failed if all that count failed, partially
  failed if some did, succeeded if none did); a scale task with an unfinished unit, or not
  running, is left exactly as it is.
\<close>

theorem recovered_scale_matches_units:
  assumes "get_scale_row sid s = Some t" and "units = filter (\<lambda>u. au_scale_task_id u = sid) (db_units s)"
  shows "if ast_status t = TASK_RUNNING \<and> (\<forall>u \<in> set units. au_status u \<notin> {TASK_RUNNING, TASK_PENDING})
    then \<exists>s'. reconcile_scale_task sid s = (Inr (), s') \<and> get_scale_row sid s' =
      Some (t\<lparr>ast_total_units := length units,
             ast_succeeded_units := count_where (\<lambda>u. au_status u = TASK_SUCCEEDED) units,
             ast_failed_units := count_where (\<lambda>u. au_status u = TASK_FAILED) units,
             ast_status := (if \<forall>u \<in> set units. au_status u \<noteq> TASK_FAILED then TASK_SUCCEEDED
               else if \<exists>u \<in> set units. au_status u = TASK_SUCCEEDED then TASK_PARTIAL_FAILED else TASK_FAILED),
             ast_error_code := None, ast_skipped_reason := None\<rparr>)
    else reconcile_scale_task sid s = (Inr (), s)"
proof -
  let ?us = "unit_list_by_scale_task sid s"
  have m: "mset ?us = mset units" by (simp add: unit_list_by_scale_task_def assms(2))
  have set: "set ?us = set units" using m by (rule mset_eq_setD)
  have len: "length ?us = length units" using m by (rule mset_eq_length)
  have cnt: "count_where P ?us = count_where P units" for P using m by (rule count_where_mset)
  have st: "final_scale_status (count_where (\<lambda>u. au_status u = TASK_SUCCEEDED) units) (count_where (\<lambda>u. au_status u = TASK_FAILED) units) =
      (if \<forall>u \<in> set units. au_status u \<noteq> TASK_FAILED then TASK_SUCCEEDED
       else if \<exists>u \<in> set units. au_status u = TASK_SUCCEEDED then TASK_PARTIAL_FAILED else TASK_FAILED)"
    by (auto simp: final_scale_status_def count_where_0_iff)
  show ?thesis
  proof (cases "ast_status t = TASK_RUNNING \<and> (\<forall>u \<in> set units. au_status u \<notin> {TASK_RUNNING, TASK_PENDING})")
    case True
    then have eq: "reconcile_scale_task sid s = finalize_scale_task sid (length units)
        (count_where (\<lambda>u. au_status u = TASK_SUCCEEDED) units) (count_where (\<lambda>u. au_status u = TASK_FAILED) units) s"
      by (simp add: reconcile_scale_task_def assms(1) Let_def set len cnt)
    note fin = finalize_running_scale [OF assms(1) conjunct1 [OF True], of "length units"
        "count_where (\<lambda>u. au_status u = TASK_SUCCEEDED) units" "count_where (\<lambda>u. au_status u = TASK_FAILED) units", unfolded st]
    show ?thesis using fin unfolding if_P [OF True] eq by blast
  next
    case False
    then have "reconcile_scale_task sid s = (Inr (), s)"
      by (auto simp: reconcile_scale_task_def assms(1) Let_def set)
    with False show ?thesis by auto
  qed
qed

theorem recovered_scale_matches_units_witness:
  "\<exists>s' t'. reconcile_scale_task ''d''
      (ex_db JOB_RUNNING [ex_scale ''d'' DEFAULT_SEGMENT TASK_RUNNING] [] \<lparr>db_units := [(ex_unit (0, 0))\<lparr>au_status := TASK_FAILED\<rparr>]\<rparr>) =
      (Inr (), s') \<and> get_scale_row ''d'' s' = Some t' \<and> ast_status t' = TASK_FAILED \<and> ast_failed_units t' = 1"
proof -
  let ?s = "ex_db JOB_RUNNING [ex_scale ''d'' DEFAULT_SEGMENT TASK_RUNNING] [] \<lparr>db_units := [(ex_unit (0, 0))\<lparr>au_status := TASK_FAILED\<rparr>]\<rparr>"
  have row: "get_scale_row ''d'' ?s = Some (ex_scale ''d'' DEFAULT_SEGMENT TASK_RUNNING)"
    by (simp add: ex_db_def ex_scale_def)
  show ?thesis
    using recovered_scale_matches_units [OF row refl]
    by (simp add: ex_unit_def ex_scale_def) (elim exE conjE, auto)
qed

end
