(* ===== verification/Cctv_Records.thy ===== *)
theory Cctv_Records
  imports Cctv_Store Cctv_Text Cctv_Ranking
begin

text \<open>
  Observation records: the read repository (\<^verbatim>\<open>infrastructure/db/repositories/observation_read.py\<close>),
  the FTS index helpers (\<^verbatim>\<open>infrastructure/db/fts.py\<close>), the vector store (\<^verbatim>\<open>index_store.py\<close>), the audit
  repository and the atomic publication (\<^verbatim>\<open>publication.py\<close>), which is the only writer of active
  records. A row is kept as its DTO; a stored time is the pair \<open>iso\<close> of \<^verbatim>\<open>Cctv_Store\<close> and compares
  as text by \<open>iso_key\<close>, an instant is \<open>iso_instant\<close>. What SQLite's FTS5 matches and how it scores is
  a parameter.
\<close>

section \<open>Data\<close>

record observation_record =
  ob_record_id :: string
  ob_tenant_id :: string
  ob_video_id :: string
  ob_analysis_job_id :: string
  ob_analysis_scale :: analysis_scale
  ob_segment_start_ms :: int
  ob_segment_end_ms :: int
  ob_observed_start_time :: iso
  ob_observed_end_time :: iso
  ob_camera_id :: string
  ob_location_id :: string
  ob_static_description_text :: string
  ob_dynamic_description_text :: string
  ob_tags :: "string list"
  ob_clip_uri :: "string option"
  ob_thumbnail_uri :: "string option"
  ob_attributes :: string
  ob_access_policy_id :: string
  ob_security_level :: security_level
  ob_model_version :: "string option"
  ob_prompt_version :: "string option"
  ob_pipeline_version :: "string option"
  ob_created_at :: "iso option"
  ob_updated_at :: "iso option"

definition validate_record :: "observation_record \<Rightarrow> exn + observation_record" where
  "validate_record r =
    (if ob_segment_start_ms r < 0 \<or> ob_segment_end_ms r < 0
       then Inl (PydanticValidationError ''Input should be greater than or equal to 0'')
     else if ob_segment_start_ms r \<ge> ob_segment_end_ms r
       then Inl (PydanticValidationError ''segment_start_ms must be strictly before segment_end_ms'')
     else Inr r)"

record observation_record_history =
  hr_history_id :: string
  hr_old_record_id :: string
  hr_replaced_by_record_id :: "string option"
  hr_archived_by_analysis_job_id :: string
  hr_archived_at :: iso
  hr_archive_reason :: string
  hr_record_snapshot :: observation_record

record fts_tables =
  fts_static :: "(string \<times> string) list"
  fts_dynamic :: "(string \<times> string) list"
  fts_tags :: "(string \<times> string) list"

record stored_vector =
  sv_record_id :: string
  sv_vector_type :: string
  sv_embedding :: "real list"
  sv_model_id :: string
  sv_dimension :: int
  sv_metadata :: "(string \<times> string) list"

record audit_event =
  ae_audit_event_id :: string
  ae_event_type :: string
  ae_request_id :: "string option"
  ae_principal_id :: "string option"
  ae_session_id :: "string option"
  ae_context_id :: "string option"
  ae_resource_scope_hash :: "string option"
  ae_record_ids :: "string list"
  ae_video_id :: "string option"
  ae_camera_id :: "string option"
  ae_metadata :: "(string \<times> string) list"
  ae_created_at :: iso

text \<open>
  The content of the database on the search and publication side; \<open>mem_fts\<close> is \<^term>\<open>None\<close> when the
  FTS5 tables do not exist, and \<open>mem_db\<close> holds the analysis tables.
\<close>

record memory =
  mem_db :: db
  mem_records :: "observation_record list"
  mem_history :: "observation_record_history list"
  mem_fts :: "fts_tables option"
  mem_vectors :: "stored_vector list"
  mem_audit :: "audit_event list"

text \<open>\<^verbatim>\<open>runtime.session()\<close>: commit when the block ends normally, roll back when it raises.\<close>

definition session_scope :: "('s, exn, 'a) se \<Rightarrow> ('s, exn, 'a) se" where
  "session_scope work s = (case work s of (Inl e, _) \<Rightarrow> (Inl e, s) | (Inr a, s') \<Rightarrow> (Inr a, s'))"

lemma session_scope_cases:
  "snd (session_scope m s) = s \<or> (\<exists>a. m s = (Inr a, snd (session_scope m s)))"
  by (simp add: session_scope_def split: prod.split sum.split)

lemma se_keeps_session: "se_keeps P m \<Longrightarrow> se_keeps P (session_scope m)"
  by (rule se_keepsI) (metis session_scope_cases se_keepsD snd_conv)

definition iso_instant :: "iso \<Rightarrow> int" where
  "iso_instant t = fst t - snd t * 60000000"

section \<open>The read repository\<close>

definition obs_resource :: "observation_record \<Rightarrow> resource_row" where
  "obs_resource r =
    \<lparr>rr_tenant_id = ob_tenant_id r, rr_camera_id = ob_camera_id r, rr_location_id = ob_location_id r,
     rr_access_policy_id = ob_access_policy_id r,
     rr_security_level = security_level_value (ob_security_level r)\<rparr>"

abbreviation in_scope :: "authorized_scope \<Rightarrow> observation_record \<Rightarrow> bool" where
  "in_scope sc r \<equiv> authorized_observation_filter sc (obs_resource r)"

definition get_authorized_active_by_id ::
  "('a memory_scheme) \<Rightarrow> string \<Rightarrow> authorized_scope \<Rightarrow> observation_record option" where
  "get_authorized_active_by_id s record_id sc =
    find (\<lambda>r. ob_record_id r = record_id \<and> in_scope sc r) (mem_records s)"

definition get_authorized_active_by_ids ::
  "('a memory_scheme) \<Rightarrow> string list \<Rightarrow> authorized_scope \<Rightarrow> observation_record list" where
  "get_authorized_active_by_ids s record_ids sc =
    (if record_ids = [] then []
     else filter (\<lambda>r. ob_record_id r \<in> set record_ids \<and> in_scope sc r) (mem_records s))"

definition list_active_by_video ::
  "('a memory_scheme) \<Rightarrow> string \<Rightarrow> authorized_scope \<Rightarrow> int \<Rightarrow> observation_record list" where
  "list_active_by_video s video_id sc limit =
    order_by_limit ob_segment_start_ms limit
      (filter (\<lambda>r. ob_video_id r = video_id \<and> in_scope sc r) (mem_records s))"

definition count_authorized :: "('a memory_scheme) \<Rightarrow> authorized_scope \<Rightarrow> nat" where
  "count_authorized s sc = count_where (in_scope sc) (mem_records s)"

text \<open>The structural filters; an empty or missing list filters nothing.\<close>

record pool_filter =
  pf_time_start :: "iso option"
  pf_time_end :: "iso option"
  pf_camera_ids :: "string list"
  pf_location_ids :: "string list"
  pf_video_ids :: "string list"
  pf_analysis_scales :: "analysis_scale list"
  pf_tag_filters :: "string list"

definition time_filter :: "iso option \<Rightarrow> iso option \<Rightarrow> observation_record \<Rightarrow> bool" where
  "time_filter time_start time_end r =
    ((case time_start of None \<Rightarrow> True | Some t \<Rightarrow> iso_key (ob_observed_end_time r) \<ge> iso_key t) \<and>
     (case time_end of None \<Rightarrow> True | Some t \<Rightarrow> iso_key (ob_observed_start_time r) \<le> iso_key t))"

definition structural_filter :: "pool_filter \<Rightarrow> observation_record \<Rightarrow> bool" where
  "structural_filter f r =
    ((pf_camera_ids f = [] \<or> ob_camera_id r \<in> set (pf_camera_ids f)) \<and>
     (pf_location_ids f = [] \<or> ob_location_id r \<in> set (pf_location_ids f)) \<and>
     (pf_video_ids f = [] \<or> ob_video_id r \<in> set (pf_video_ids f)) \<and>
     (pf_analysis_scales f = [] \<or>
        analysis_scale_value (ob_analysis_scale r) \<in> set (map analysis_scale_value (pf_analysis_scales f))) \<and>
     time_filter (pf_time_start f) (pf_time_end f) r \<and>
     list_all (\<lambda>tag. tag_like tag (ob_tags r)) (pf_tag_filters f))"

definition pool_key :: "observation_record \<Rightarrow> (int \<times> bool \<times> int) \<times> string" where
  "pool_key r = (iso_key (ob_observed_start_time r), ob_record_id r)"

definition authorized_candidate_pool ::
  "('a memory_scheme) \<Rightarrow> authorized_scope \<Rightarrow> pool_filter \<Rightarrow> int \<Rightarrow> observation_record list" where
  "authorized_candidate_pool s sc f limit =
    order_by_limit pool_key limit (filter (\<lambda>r. in_scope sc r \<and> structural_filter f r) (mem_records s))"

definition text_filter :: "string option \<Rightarrow> observation_record \<Rightarrow> bool" where
  "text_filter query_text r =
    (case query_text of
       None \<Rightarrow> True
     | Some q \<Rightarrow> q = [] \<or>
         (let pat = ''%'' @ py_lower q @ ''%''
          in like pat (sql_lower (ob_static_description_text r)) \<or>
             like pat (sql_lower (ob_dynamic_description_text r)) \<or>
             like pat (sql_lower (json_dumps_list (ob_tags r)))))"

definition search_authorized_candidates ::
  "('a memory_scheme) \<Rightarrow> authorized_scope \<Rightarrow> string option \<Rightarrow> pool_filter \<Rightarrow> int \<Rightarrow> observation_record list" where
  "search_authorized_candidates s sc query_text f limit =
    order_by_limit pool_key limit
      (filter (\<lambda>r. in_scope sc r \<and> structural_filter f r \<and> text_filter query_text r) (mem_records s))"

definition find_overlapping ::
  "('a memory_scheme) \<Rightarrow> string \<Rightarrow> authorized_scope \<Rightarrow> analysis_scale list \<Rightarrow> int \<Rightarrow> int \<Rightarrow>
   observation_record list" where
  "find_overlapping s record_id sc scales time_padding_ms limit =
    (case get_authorized_active_by_id s record_id sc of
       None \<Rightarrow> []
     | Some target \<Rightarrow>
         let lo = ob_segment_start_ms target - time_padding_ms;
             hi = ob_segment_end_ms target + time_padding_ms
         in order_by_limit ob_segment_start_ms limit
              (filter (\<lambda>r. in_scope sc r \<and> ob_video_id r = ob_video_id target \<and>
                 ob_record_id r \<noteq> record_id \<and> ob_segment_start_ms r < hi \<and> ob_segment_end_ms r > lo \<and>
                 (scales = [] \<or> analysis_scale_value (ob_analysis_scale r) \<in> set (map analysis_scale_value scales)))
               (mem_records s)))"

section \<open>Full-text search\<close>

text \<open>
  The engine's part of a query: for a table, a match expression and one of its rows, the
  \<^verbatim>\<open>bm25\<close> score if the row matches.
\<close>

type_synonym bm25 = "(string \<times> string) list \<Rightarrow> string \<Rightarrow> string \<times> string \<Rightarrow> real option"

definition fts_available :: "('a memory_scheme) \<Rightarrow> bool" where
  "fts_available s = (mem_fts s \<noteq> None)"

fun join_or :: "string list \<Rightarrow> string" where
  "join_or [] = []"
| "join_or [t] = t"
| "join_or (t # u # ts) = t @ '' OR '' @ join_or (u # ts)"

definition to_match_query :: "string \<Rightarrow> string" where
  "to_match_query q = join_or (map (\<lambda>t. CHR 0x22 # t @ [CHR 0x22]) (filter py_isalnum (query_terms q)))"

definition fts_search ::
  "bm25 \<Rightarrow> (string \<times> string) list \<Rightarrow> string \<Rightarrow> string list \<Rightarrow> (string \<times> real) list" where
  "fts_search bm25 table query record_ids =
    (if record_ids = [] \<or> py_split query = [] then []
     else let match_query = to_match_query query
     in if match_query = [] then []
     else fold (\<lambda>row result.
            case bm25 table match_query row of
              None \<Rightarrow> result
            | Some score \<Rightarrow> dict_set (fst row) (- score) result)
          (filter (\<lambda>row. fst row \<in> set record_ids) table) [])"

definition fts_rank ::
  "bm25 \<Rightarrow> ('a memory_scheme) \<Rightarrow> string \<Rightarrow> string list \<Rightarrow> string \<Rightarrow> (string \<times> real) list" where
  "fts_rank bm25 s query_text candidate_ids field =
    (case mem_fts s of
       None \<Rightarrow> []
     | Some t \<Rightarrow>
         if field = ''static'' then fts_search bm25 (fts_static t) query_text candidate_ids
         else if field = ''dynamic'' then fts_search bm25 (fts_dynamic t) query_text candidate_ids
         else if field = ''tags'' then fts_search bm25 (fts_tags t) query_text candidate_ids
         else [])"

fun join_space :: "string list \<Rightarrow> string" where
  "join_space [] = []"
| "join_space [t] = t"
| "join_space (t # u # ts) = t @ CHR '' '' # join_space (u # ts)"

definition index_record ::
  "string \<Rightarrow> string \<Rightarrow> string \<Rightarrow> string list \<Rightarrow> fts_tables option \<Rightarrow> fts_tables option" where
  "index_record record_id static_text dynamic_text tags = map_option (\<lambda>t.
    \<lparr>fts_static = fts_static t @ [(record_id, static_text)],
     fts_dynamic = fts_dynamic t @ [(record_id, dynamic_text)],
     fts_tags = fts_tags t @ [(record_id, join_space tags)]\<rparr>)"

definition deindex_record :: "string \<Rightarrow> fts_tables option \<Rightarrow> fts_tables option" where
  "deindex_record record_id = map_option (\<lambda>t.
    \<lparr>fts_static = filter (\<lambda>row. fst row \<noteq> record_id) (fts_static t),
     fts_dynamic = filter (\<lambda>row. fst row \<noteq> record_id) (fts_dynamic t),
     fts_tags = filter (\<lambda>row. fst row \<noteq> record_id) (fts_tags t)\<rparr>)"

section \<open>Vectors\<close>

definition sv_key :: "stored_vector \<Rightarrow> string \<times> string" where
  "sv_key v = (sv_record_id v, sv_vector_type v)"

definition upsert_vector :: "stored_vector \<Rightarrow> stored_vector list \<Rightarrow> stored_vector list" where
  "upsert_vector v rows =
    (if sv_key v \<in> sv_key ` set rows
     then row_upd sv_key (sv_key v) (\<lambda>_. v) rows else rows @ [v])"

definition upsert_vectors :: "stored_vector list \<Rightarrow> stored_vector list \<Rightarrow> nat \<times> stored_vector list" where
  "upsert_vectors vectors rows =
    (if vectors = [] then (0, rows) else (length vectors, fold upsert_vector vectors rows))"

definition get_vectors_for_records ::
  "stored_vector list \<Rightarrow> string list \<Rightarrow> string option \<Rightarrow> stored_vector list" where
  "get_vectors_for_records rows record_ids vector_type =
    (if record_ids = [] then []
     else filter (\<lambda>v. sv_record_id v \<in> set record_ids \<and>
            (case vector_type of None \<Rightarrow> True | Some t \<Rightarrow> sv_vector_type v = t)) rows)"

definition delete_vectors_for_records :: "string list \<Rightarrow> stored_vector list \<Rightarrow> nat \<times> stored_vector list" where
  "delete_vectors_for_records record_ids rows =
    (if record_ids = [] then (0, rows)
     else (count_where (\<lambda>v. sv_record_id v \<in> set record_ids) rows,
           filter (\<lambda>v. sv_record_id v \<notin> set record_ids) rows))"

section \<open>Audit\<close>

definition append_event :: "audit_event \<Rightarrow> ('a memory_scheme, exn, unit) se" where
  "append_event ev s =
    (case row_ins ae_audit_event_id ev (mem_audit s) of
       None \<Rightarrow> (Inl (IntegrityError ''UNIQUE constraint failed: audit_events.audit_event_id''), s)
     | Some rows \<Rightarrow> (Inr (), s\<lparr>mem_audit := rows\<rparr>))"

lemma append_event_ok: "append_event ev s = (Inr u, s') \<Longrightarrow> s' = s\<lparr>mem_audit := mem_audit s @ [ev]\<rparr>"
  by (simp add: append_event_def row_ins_def split: option.splits if_splits)

definition list_events ::
  "string option \<Rightarrow> string option \<Rightarrow> int \<Rightarrow> ('a memory_scheme) \<Rightarrow> audit_event list" where
  "list_events principal_id event_type limit s =
    order_by_limit (\<lambda>e. iso_key (ae_created_at e)) limit
      (filter (\<lambda>e. (case principal_id of None \<Rightarrow> True | Some p \<Rightarrow> ae_principal_id e = Some p) \<and>
                   (case event_type of None \<Rightarrow> True | Some t \<Rightarrow> ae_event_type e = t)) (mem_audit s))"

section \<open>Publication\<close>

record publish_command =
  pc_schema_version :: string
  pc_command_id :: string
  pc_analysis_job_id :: string
  pc_records :: "observation_record list"
  pc_archive_reason :: string

record publication_result =
  pub_analysis_job_id :: string
  pub_created_record_ids :: "string list"
  pub_updated_record_ids :: "string list"
  pub_archived_record_ids :: "string list"

definition segment_key :: "observation_record \<Rightarrow> string \<times> int \<times> int \<times> string" where
  "segment_key r = (ob_video_id r, ob_segment_start_ms r, ob_segment_end_ms r,
     analysis_scale_value (ob_analysis_scale r))"

definition observation_to_orm :: "iso \<Rightarrow> observation_record \<Rightarrow> observation_record" where
  "observation_to_orm now r =
    r\<lparr>ob_created_at := Some (case ob_created_at r of None \<Rightarrow> now | Some t \<Rightarrow> t),
      ob_updated_at := Some (case ob_updated_at r of None \<Rightarrow> now | Some t \<Rightarrow> t)\<rparr>"

text \<open>Archive the replaced row and take it out of the table and the index.\<close>

definition archive_record ::
  "publish_command \<Rightarrow> iso \<Rightarrow> string \<Rightarrow> observation_record \<Rightarrow> string \<Rightarrow> ('a memory_scheme, exn, unit) se" where
  "archive_record command now history_id existing new_id s =
    (case row_ins hr_history_id
        \<lparr>hr_history_id = history_id, hr_old_record_id = ob_record_id existing,
         hr_replaced_by_record_id = Some new_id,
         hr_archived_by_analysis_job_id = pc_analysis_job_id command, hr_archived_at = now,
         hr_archive_reason = pc_archive_reason command, hr_record_snapshot = existing\<rparr> (mem_history s) of
       None \<Rightarrow> (Inl (IntegrityError ''UNIQUE constraint failed: observation_record_history.history_id''), s)
     | Some rows \<Rightarrow>
         (Inr (), s\<lparr>mem_history := rows,
            mem_records := filter (\<lambda>r. ob_record_id r \<noteq> ob_record_id existing) (mem_records s),
            mem_fts := deindex_record (ob_record_id existing) (mem_fts s)\<rparr>))"

definition insert_record :: "iso \<Rightarrow> observation_record \<Rightarrow> ('a memory_scheme, exn, unit) se" where
  "insert_record now record s =
    (case row_ins ob_record_id (observation_to_orm now record) (mem_records s) of
       None \<Rightarrow> (Inl (IntegrityError ''UNIQUE constraint failed: observation_records.record_id''), s)
     | Some rows \<Rightarrow>
         (Inr (), s\<lparr>mem_records := rows,
            mem_fts := index_record (ob_record_id record) (ob_static_description_text record)
              (ob_dynamic_description_text record) (ob_tags record) (mem_fts s)\<rparr>))"

text \<open>One turn of the publication loop; it returns the record it replaced.\<close>

definition publish_one ::
  "publish_command \<Rightarrow> iso \<Rightarrow> string \<Rightarrow> observation_record \<Rightarrow>
   ('a memory_scheme, exn, observation_record option) se" where
  "publish_one command now history_id record =
    se_bind (se_read (\<lambda>s. find (\<lambda>r. segment_key r = segment_key record) (mem_records s))) (\<lambda>found.
      case found of
        Some existing \<Rightarrow>
          se_then (archive_record command now history_id existing (ob_record_id record))
            (se_then (insert_record now record) (se_ret found))
      | None \<Rightarrow> se_then (insert_record now record) (se_ret None))"

text \<open>The three lists \<^verbatim>\<open>created\<close>, \<^verbatim>\<open>updated\<close>, \<^verbatim>\<open>archived\<close>; \<open>hist n\<close> is the history id of the \<open>n\<close>th record.\<close>

fun publish_loop ::
  "publish_command \<Rightarrow> iso \<Rightarrow> (nat \<Rightarrow> string) \<Rightarrow> nat \<Rightarrow> observation_record list \<Rightarrow>
   string list \<times> string list \<times> string list \<Rightarrow> ('a memory_scheme, exn, string list \<times> string list \<times> string list) se" where
  "publish_loop command now hist n [] acc = se_ret acc"
| "publish_loop command now hist n (record # records) (created, updated, archived) =
    se_bind (publish_one command now (hist n) record) (\<lambda>found.
      publish_loop command now hist (Suc n) records
        (case found of
           Some existing \<Rightarrow> (created, updated @ [ob_record_id record], archived @ [ob_record_id existing])
         | None \<Rightarrow> (created @ [ob_record_id record], updated, archived)))"

definition publish_records_atomically ::
  "iso \<Rightarrow> (nat \<Rightarrow> string) \<Rightarrow> string \<Rightarrow> publish_command \<Rightarrow> ('a memory_scheme, exn, publication_result) se" where
  "publish_records_atomically now hist audit_id command = session_scope
    (se_bind (publish_loop command now hist 0 (pc_records command) ([], [], [])) (\<lambda>(created, updated, archived).
      se_then (se_write (\<lambda>s. s\<lparr>mem_db :=
          append_record_publish_summary (pc_analysis_job_id command) created updated archived (mem_db s)\<rparr>))
        (se_then (append_event
          \<lparr>ae_audit_event_id = audit_id, ae_event_type = ''publication_succeeded'', ae_request_id = None,
           ae_principal_id = None, ae_session_id = None, ae_context_id = None, ae_resource_scope_hash = None,
           ae_record_ids = created @ updated, ae_video_id = None, ae_camera_id = None,
           ae_metadata = [(''analysis_job_id'', pc_analysis_job_id command)], ae_created_at = now\<rparr>)
          (se_ret \<lparr>pub_analysis_job_id = pc_analysis_job_id command, pub_created_record_ids = created,
             pub_updated_record_ids = updated, pub_archived_record_ids = archived\<rparr>))))"


section \<open>What a reader sees\<close>

definition record_permitted :: "authorized_scope \<Rightarrow> observation_record \<Rightarrow> bool" where
  "record_permitted sc r = permits_resource sc (ob_tenant_id r) (ob_camera_id r) (ob_location_id r)
     (ob_access_policy_id r) (ob_security_level r)"

text \<open>The ids a scope may see among the active records.\<close>

definition visible_ids :: "observation_record set \<Rightarrow> authorized_scope \<Rightarrow> string set" where
  "visible_ids active sc = ob_record_id ` {r \<in> active. record_permitted sc r}"

lemma in_scope_iff: "in_scope sc r \<longleftrightarrow> record_permitted sc r"
  unfolding record_permitted_def obs_resource_def
  by (subst authorized_observation_filter_iff) simp_all

text \<open>
  The port \<^verbatim>\<open>ObservationRecordReadRepository\<close> as its clients rely on it: whatever it returns is an
  active record of the scope, and what it is asked for by id it finds if it may.
\<close>

locale authorized_reads =
  fixes active :: "'s \<Rightarrow> observation_record set"
    and by_id :: "'s \<Rightarrow> string \<Rightarrow> authorized_scope \<Rightarrow> observation_record option"
    and by_ids :: "'s \<Rightarrow> string list \<Rightarrow> authorized_scope \<Rightarrow> observation_record list"
    and pool :: "'s \<Rightarrow> authorized_scope \<Rightarrow> pool_filter \<Rightarrow> int \<Rightarrow> observation_record list"
    and overlapping :: "'s \<Rightarrow> string \<Rightarrow> authorized_scope \<Rightarrow> analysis_scale list \<Rightarrow> int \<Rightarrow> int \<Rightarrow> observation_record list"
  assumes by_id_sound: "by_id s i sc = Some r \<Longrightarrow> r \<in> active s \<and> ob_record_id r = i \<and> record_permitted sc r"
    and by_id_complete: "by_id s i sc = None \<Longrightarrow> r \<in> active s \<Longrightarrow> ob_record_id r = i \<Longrightarrow> \<not> record_permitted sc r"
    and set_by_ids: "set (by_ids s ids sc) = {r \<in> active s. ob_record_id r \<in> set ids \<and> record_permitted sc r}"
    and pool_sound: "r \<in> set (pool s sc f n) \<Longrightarrow> r \<in> active s \<and> record_permitted sc r"
    and overlapping_sound: "r \<in> set (overlapping s i sc scales pad n) \<Longrightarrow> r \<in> active s \<and> record_permitted sc r"
begin

lemma by_ids_visible: "ob_record_id ` set (by_ids s ids sc) \<subseteq> visible_ids (active s) sc \<inter> set ids"
  unfolding visible_ids_def set_by_ids by blast

lemma pool_visible: "ob_record_id ` set (pool s sc f n) \<subseteq> visible_ids (active s) sc"
  unfolding visible_ids_def using pool_sound by blast

lemma overlapping_visible: "ob_record_id ` set (overlapping s i sc scales pad n) \<subseteq> visible_ids (active s) sc"
  unfolding visible_ids_def using overlapping_sound by blast

lemma by_id_visible: "by_id s i sc = Some r \<Longrightarrow> i \<in> visible_ids (active s) sc"
  unfolding visible_ids_def using by_id_sound by blast

lemma by_id_None_iff: "by_id s i sc = None \<longleftrightarrow> i \<notin> visible_ids (active s) sc"
proof
  assume "by_id s i sc = None"
  then show "i \<notin> visible_ids (active s) sc" unfolding visible_ids_def using by_id_complete by blast
next
  assume "i \<notin> visible_ids (active s) sc"
  then show "by_id s i sc = None" using by_id_visible by (cases "by_id s i sc") blast+
qed

text \<open>A scope that permits less shows less.\<close>

lemma visible_mono:
  assumes "\<And>r. record_permitted sc' r \<Longrightarrow> record_permitted sc r"
  shows "visible_ids (active s) sc' \<subseteq> visible_ids (active s) sc"
  unfolding visible_ids_def using assms by blast

end

lemma find_Some_iff_in: "find P xs = Some x \<Longrightarrow> x \<in> set xs \<and> P x"
  by (induction xs) (auto split: if_splits)

interpretation sqlite_reads: authorized_reads
  "\<lambda>s :: 'a memory_scheme. set (mem_records s)" get_authorized_active_by_id get_authorized_active_by_ids
  authorized_candidate_pool find_overlapping
proof unfold_locales
  fix s :: "'a memory_scheme" and sc i r ids f n scales pad
  show "get_authorized_active_by_id s i sc = Some r \<Longrightarrow>
      r \<in> set (mem_records s) \<and> ob_record_id r = i \<and> record_permitted sc r"
    by (auto simp: get_authorized_active_by_id_def in_scope_iff dest: find_Some_iff_in)
  show "get_authorized_active_by_id s i sc = None \<Longrightarrow> r \<in> set (mem_records s) \<Longrightarrow> ob_record_id r = i \<Longrightarrow>
      \<not> record_permitted sc r"
    by (auto simp: get_authorized_active_by_id_def find_None_iff in_scope_iff)
  show "set (get_authorized_active_by_ids s ids sc) =
      {r \<in> set (mem_records s). ob_record_id r \<in> set ids \<and> record_permitted sc r}"
    by (auto simp: get_authorized_active_by_ids_def in_scope_iff)
  show "r \<in> set (mem_records s) \<and> record_permitted sc r" if "r \<in> set (authorized_candidate_pool s sc f n)"
    using that set_order_by_limit by (fastforce simp: authorized_candidate_pool_def in_scope_iff)
  show "r \<in> set (mem_records s) \<and> record_permitted sc r" if "r \<in> set (find_overlapping s i sc scales pad n)"
    using that set_order_by_limit
    by (fastforce simp: find_overlapping_def Let_def in_scope_iff split: option.splits)
qed

section \<open>Publication keeps one active record per segment and an index in step\<close>

definition fts_synced :: "'a memory_scheme \<Rightarrow> bool" where
  "fts_synced s = (case mem_fts s of None \<Rightarrow> True | Some t \<Rightarrow>
     fts_static t = map (\<lambda>r. (ob_record_id r, ob_static_description_text r)) (mem_records s) \<and>
     fts_dynamic t = map (\<lambda>r. (ob_record_id r, ob_dynamic_description_text r)) (mem_records s) \<and>
     fts_tags t = map (\<lambda>r. (ob_record_id r, join_space (ob_tags r))) (mem_records s))"

definition records_ok :: "'a memory_scheme \<Rightarrow> bool" where
  "records_ok s = (keys_ok ob_record_id (mem_records s) \<and> keys_ok segment_key (mem_records s) \<and> fts_synced s)"

definition active_at :: "'a memory_scheme \<Rightarrow> string \<times> int \<times> int \<times> string \<Rightarrow> observation_record option" where
  "active_at s k = row_get segment_key k (mem_records s)"

text \<open>The abstract publication: a map from segments to records, updated record by record.\<close>

definition publish_spec ::
  "iso \<Rightarrow> observation_record list \<Rightarrow> (string \<times> int \<times> int \<times> string \<Rightarrow> observation_record option) \<Rightarrow>
   string \<times> int \<times> int \<times> string \<Rightarrow> observation_record option" where
  "publish_spec now records m = fold (\<lambda>r m. m(segment_key r \<mapsto> observation_to_orm now r)) records m"

fun replaced_spec ::
  "iso \<Rightarrow> observation_record list \<Rightarrow> (string \<times> int \<times> int \<times> string \<Rightarrow> observation_record option) \<Rightarrow>
   observation_record list" where
  "replaced_spec now [] m = []"
| "replaced_spec now (r # rs) m =
    (case m (segment_key r) of None \<Rightarrow> [] | Some e \<Rightarrow> [e]) @
    replaced_spec now rs (m(segment_key r \<mapsto> observation_to_orm now r))"

lemma observation_to_orm_fields [simp]:
  "ob_record_id (observation_to_orm now r) = ob_record_id r"
  "segment_key (observation_to_orm now r) = segment_key r"
  "ob_static_description_text (observation_to_orm now r) = ob_static_description_text r"
  "ob_dynamic_description_text (observation_to_orm now r) = ob_dynamic_description_text r"
  "ob_tags (observation_to_orm now r) = ob_tags r"
  by (simp_all add: observation_to_orm_def segment_key_def)

lemma keys_ok_filter: "keys_ok key rows \<Longrightarrow> keys_ok key (filter P rows)"
  by (simp add: keys_ok_def distinct_map_filter)

lemma keys_ok_inj: "keys_ok key rows \<Longrightarrow> x \<in> set rows \<Longrightarrow> y \<in> set rows \<Longrightarrow> key x = key y \<longleftrightarrow> x = y"
  by (auto simp: keys_ok_def distinct_map inj_on_def)

lemma filter_other_key:
  assumes "keys_ok key rows" and "keys_ok key' rows" and "e \<in> set rows"
  shows "filter (\<lambda>r. key r \<noteq> key e) rows = filter (\<lambda>r. key' r \<noteq> key' e) rows"
  by (rule filter_cong [OF refl]) (use assms keys_ok_inj in metis)

lemma row_get_filter_other:
  "row_get key k (filter (\<lambda>r. key r \<noteq> j) rows) = (if k = j then None else row_get key k rows)"
  by (induction rows) auto

lemma row_get_snoc:
  "key r \<notin> key ` set rows \<Longrightarrow> row_get key k (rows @ [r]) = (if k = key r then Some r else row_get key k rows)"
  by (induction rows) auto

lemma deindex_synced:
  "fts_synced s \<Longrightarrow> fts_synced (s\<lparr>mem_history := h, mem_records := filter (\<lambda>r. ob_record_id r \<noteq> i) (mem_records s),
     mem_fts := deindex_record i (mem_fts s)\<rparr>)"
  by (auto simp: fts_synced_def deindex_record_def filter_map comp_def split: option.splits)

lemma index_synced:
  "fts_synced s \<Longrightarrow> fts_synced (s\<lparr>mem_records := mem_records s @ [observation_to_orm now r],
     mem_fts := index_record (ob_record_id r) (ob_static_description_text r) (ob_dynamic_description_text r)
       (ob_tags r) (mem_fts s)\<rparr>)"
  by (auto simp: fts_synced_def index_record_def split: option.splits)

text \<open>Archiving takes exactly the replaced record out.\<close>

lemma archive_record_ok:
  assumes ok: "records_ok s" and e: "e \<in> set (mem_records s)"
    and run: "archive_record command now hid e new s = (Inr u, s')"
  shows "records_ok s'" and "active_at s' = (active_at s)(segment_key e := None)"
    and "map hr_record_snapshot (mem_history s') = map hr_record_snapshot (mem_history s) @ [e]"
    and "ob_record_id ` set (mem_records s') = ob_record_id ` set (mem_records s) - {ob_record_id e}"
    and "hr_history_id ` set (mem_history s') = insert hid (hr_history_id ` set (mem_history s))"
    and "mem_db s' = mem_db s \<and> mem_vectors s' = mem_vectors s \<and> mem_audit s' = mem_audit s"
proof -
  from run obtain rows where ins: "row_ins hr_history_id
        \<lparr>hr_history_id = hid, hr_old_record_id = ob_record_id e, hr_replaced_by_record_id = Some new,
         hr_archived_by_analysis_job_id = pc_analysis_job_id command, hr_archived_at = now,
         hr_archive_reason = pc_archive_reason command, hr_record_snapshot = e\<rparr> (mem_history s) = Some rows"
    and s': "s' = s\<lparr>mem_history := rows,
            mem_records := filter (\<lambda>r. ob_record_id r \<noteq> ob_record_id e) (mem_records s),
            mem_fts := deindex_record (ob_record_id e) (mem_fts s)\<rparr>"
    by (auto simp: archive_record_def split: option.splits)
  have same: "filter (\<lambda>r. ob_record_id r \<noteq> ob_record_id e) (mem_records s) =
      filter (\<lambda>r. segment_key r \<noteq> segment_key e) (mem_records s)"
    using ok e by (intro filter_other_key) (auto simp: records_ok_def)
  show "records_ok s'" using ok deindex_synced [where s = s and h = rows] by (auto simp: records_ok_def s' keys_ok_filter)
  show "active_at s' = (active_at s)(segment_key e := None)"
    by (auto simp: fun_eq_iff active_at_def s' same row_get_filter_other)
  show "map hr_record_snapshot (mem_history s') = map hr_record_snapshot (mem_history s) @ [e]"
    and "hr_history_id ` set (mem_history s') = insert hid (hr_history_id ` set (mem_history s))"
    using ins by (auto simp: s' row_ins_def split: if_splits)
  show "ob_record_id ` set (mem_records s') = ob_record_id ` set (mem_records s) - {ob_record_id e}"
    by (auto simp: s')
  show "mem_db s' = mem_db s \<and> mem_vectors s' = mem_vectors s \<and> mem_audit s' = mem_audit s" by (simp add: s')
qed

lemma insert_record_ok:
  assumes ok: "records_ok s" and free: "active_at s (segment_key r) = None"
    and run: "insert_record now r s = (Inr u, s')"
  shows "records_ok s'" and "active_at s' = (active_at s)(segment_key r \<mapsto> observation_to_orm now r)"
    and "mem_history s' = mem_history s"
    and "ob_record_id ` set (mem_records s') = insert (ob_record_id r) (ob_record_id ` set (mem_records s))"
    and "mem_db s' = mem_db s \<and> mem_vectors s' = mem_vectors s \<and> mem_audit s' = mem_audit s"
proof -
  from run have new: "ob_record_id r \<notin> ob_record_id ` set (mem_records s)"
    and s': "s' = s\<lparr>mem_records := mem_records s @ [observation_to_orm now r],
            mem_fts := index_record (ob_record_id r) (ob_static_description_text r)
              (ob_dynamic_description_text r) (ob_tags r) (mem_fts s)\<rparr>"
    by (auto simp: insert_record_def row_ins_def split: option.splits if_splits)
  have fresh: "segment_key r \<notin> segment_key ` set (mem_records s)"
    using free unfolding active_at_def row_get_None_iff .
  show "records_ok s'" using ok index_synced [where s = s and now = now and r = r] new fresh by (auto simp: records_ok_def s' keys_ok_def)
  show "active_at s' = (active_at s)(segment_key r \<mapsto> observation_to_orm now r)"
    using fresh by (auto simp: fun_eq_iff active_at_def s' row_get_snoc)
  show "mem_history s' = mem_history s"
    and "ob_record_id ` set (mem_records s') = insert (ob_record_id r) (ob_record_id ` set (mem_records s))"
    and "mem_db s' = mem_db s \<and> mem_vectors s' = mem_vectors s \<and> mem_audit s' = mem_audit s"
    by (simp_all add: s')
qed

lemma publish_one_ok:
  assumes ok: "records_ok s" and run: "publish_one command now hid r s = (Inr found, s')"
  shows "found = active_at s (segment_key r)"
    and "records_ok s'" and "active_at s' = (active_at s)(segment_key r \<mapsto> observation_to_orm now r)"
    and "map hr_record_snapshot (mem_history s') = map hr_record_snapshot (mem_history s) @
      (case found of None \<Rightarrow> [] | Some e \<Rightarrow> [e])"
    and "mem_db s' = mem_db s \<and> mem_vectors s' = mem_vectors s \<and> mem_audit s' = mem_audit s"
proof -
  have found: "find (\<lambda>x. segment_key x = segment_key r) (mem_records s) = active_at s (segment_key r)"
    by (simp add: active_at_def row_get_def)
  have "found = active_at s (segment_key r) \<and> records_ok s' \<and>
    active_at s' = (active_at s)(segment_key r \<mapsto> observation_to_orm now r) \<and>
    map hr_record_snapshot (mem_history s') = map hr_record_snapshot (mem_history s) @
      (case found of None \<Rightarrow> [] | Some e \<Rightarrow> [e]) \<and>
    mem_db s' = mem_db s \<and> mem_vectors s' = mem_vectors s \<and> mem_audit s' = mem_audit s"
  proof (cases "active_at s (segment_key r)")
    case None
    with run obtain u where "insert_record now r s = (Inr u, s')" and "found = None"
      by (auto simp: publish_one_def se_simps found split: prod.splits sum.splits)
    with insert_record_ok [OF ok None] None show ?thesis by auto
  next
    case (Some e)
    with run obtain u s1 where arch: "archive_record command now hid e (ob_record_id r) s = (Inr u, s1)"
      and ins: "insert_record now r s1 = (Inr u, s')" and "found = Some e"
      by (auto simp: publish_one_def se_simps found split: prod.splits sum.splits)
    have e: "e \<in> set (mem_records s)" and key: "segment_key e = segment_key r"
      using Some row_get_Some unfolding active_at_def by metis+
    note a = archive_record_ok [OF ok e arch]
    have "active_at s1 (segment_key r) = None" by (simp add: a(2) key)
    from insert_record_ok [OF a(1) this ins] a \<open>found = Some e\<close> Some key show ?thesis by auto
  qed
  then show "found = active_at s (segment_key r)" and "records_ok s'"
    and "active_at s' = (active_at s)(segment_key r \<mapsto> observation_to_orm now r)"
    and "map hr_record_snapshot (mem_history s') = map hr_record_snapshot (mem_history s) @
      (case found of None \<Rightarrow> [] | Some e \<Rightarrow> [e])"
    and "mem_db s' = mem_db s \<and> mem_vectors s' = mem_vectors s \<and> mem_audit s' = mem_audit s"
    by blast+
qed

text \<open>The new ids by whether a segment was occupied.\<close>

fun created_spec :: "iso \<Rightarrow> observation_record list \<Rightarrow> (string \<times> int \<times> int \<times> string \<Rightarrow> observation_record option) \<Rightarrow>
   bool \<Rightarrow> string list" where
  "created_spec now [] m occupied = []"
| "created_spec now (r # rs) m occupied =
    (if (m (segment_key r) \<noteq> None) = occupied then [ob_record_id r] else []) @
    created_spec now rs (m(segment_key r \<mapsto> observation_to_orm now r)) occupied"

lemma publish_loop_ok:
  assumes "records_ok s" and "publish_loop command now hist n records (c, u, a) s = (Inr (c', u', a'), s')"
  shows "records_ok s' \<and> active_at s' = publish_spec now records (active_at s) \<and>
    map hr_record_snapshot (mem_history s') =
      map hr_record_snapshot (mem_history s) @ replaced_spec now records (active_at s) \<and>
    c' = c @ created_spec now records (active_at s) False \<and>
    u' = u @ created_spec now records (active_at s) True \<and>
    a' = a @ map ob_record_id (replaced_spec now records (active_at s)) \<and>
    mem_db s' = mem_db s \<and> mem_vectors s' = mem_vectors s \<and> mem_audit s' = mem_audit s"
  using assms
proof (induction records arbitrary: s n c u a)
  case Nil
  then show ?case by (simp add: publish_spec_def)
next
  case (Cons r records)
  from Cons.prems(2) obtain found s1 where one: "publish_one command now (hist n) r s = (Inr found, s1)"
    and rest: "publish_loop command now hist (Suc n) records
        (case found of Some e \<Rightarrow> (c, u @ [ob_record_id r], a @ [ob_record_id e])
         | None \<Rightarrow> (c @ [ob_record_id r], u, a)) s1 = (Inr (c', u', a'), s')"
    by (auto simp: se_bind_apply split: prod.splits sum.splits)
  note o = publish_one_ok [OF Cons.prems(1) one]
  show ?case
  proof (cases found)
    case None
    have ih: "active_at s (segment_key r) = None" using o(1) None by simp
    from Cons.IH [OF o(2) rest [unfolded None option.case], unfolded o(3)] o(4,5) show ?thesis
      by (simp add: publish_spec_def ih None fun_upd_def)
  next
    case (Some e)
    have ih: "active_at s (segment_key r) = Some e" using o(1) Some by simp
    from Cons.IH [OF o(2) rest [unfolded Some option.case], unfolded o(3)] o(4,5) show ?thesis
      by (simp add: publish_spec_def ih Some fun_upd_def)
  qed
qed

lemma length_created: "length (created_spec now rs m False) + length (created_spec now rs m True) = length rs"
  by (induction rs arbitrary: m) auto

section \<open>When a publication succeeds\<close>

lemma publish_one_progress:
  assumes "records_ok s" and "ob_record_id r \<notin> ob_record_id ` set (mem_records s)"
    and "hid \<notin> hr_history_id ` set (mem_history s)"
  shows "\<exists>found s'. publish_one command now hid r s = (Inr found, s') \<and>
    ob_record_id ` set (mem_records s') \<subseteq> insert (ob_record_id r) (ob_record_id ` set (mem_records s)) \<and>
    hr_history_id ` set (mem_history s') \<subseteq> insert hid (hr_history_id ` set (mem_history s))"
  using assms
  by (auto simp: publish_one_def se_simps archive_record_def insert_record_def row_ins_def split: option.split)

lemma publish_loop_progress:
  assumes "records_ok s" and "distinct (map ob_record_id records)"
    and "ob_record_id ` set records \<inter> ob_record_id ` set (mem_records s) = {}"
    and "inj hist" and "\<forall>m \<ge> n. hist m \<notin> hr_history_id ` set (mem_history s)"
  shows "\<exists>acc' s'. publish_loop command now hist n records (c, u, a) s = (Inr acc', s')"
  using assms
proof (induction records arbitrary: s n c u a)
  case Nil
  then show ?case by simp
next
  case (Cons r records)
  obtain found s1 where one: "publish_one command now (hist n) r s = (Inr found, s1)"
    and ids: "ob_record_id ` set (mem_records s1) \<subseteq> insert (ob_record_id r) (ob_record_id ` set (mem_records s))"
    and hids: "hr_history_id ` set (mem_history s1) \<subseteq> insert (hist n) (hr_history_id ` set (mem_history s))"
    using publish_one_progress [of s r "hist n"] Cons.prems by (metis disjoint_iff image_insert insertI1 list.simps(15) order_refl)
  have "records_ok s1" by (rule publish_one_ok(2) [OF Cons.prems(1) one])
  moreover have "ob_record_id ` set records \<inter> ob_record_id ` set (mem_records s1) = {}"
    using ids Cons.prems(2,3) by (simp add: disjoint_iff) (metis imageI insertE subsetD)
  moreover have "\<forall>m \<ge> Suc n. hist m \<notin> hr_history_id ` set (mem_history s1)"
    using hids Cons.prems(4,5) by (metis Suc_leD Suc_n_not_le_n injD insertE subsetD)
  ultimately show ?case
    using Cons.IH Cons.prems(2,4) one by (cases found) (simp_all add: se_bind_apply)
qed

section \<open>Time filters\<close>

lemma iso_key_instant:
  assumes "snd a = snd b"
  shows "iso_key a \<le> iso_key b \<longleftrightarrow> iso_instant a \<le> iso_instant b"
  using assms by (auto simp: iso_key_def iso_instant_def)

lemma iso_key_fst: "fst a < fst b \<Longrightarrow> iso_key a < iso_key b"
  by (auto simp: iso_key_def)

section \<open>Properties\<close>

lemma publish_ok:
  assumes "records_ok s"
  shows "case publish_records_atomically now hist audit_id command s of
      (Inl e, s') \<Rightarrow> s' = s
    | (Inr res, s') \<Rightarrow>
        records_ok s' \<and>
        active_at s' = publish_spec now (pc_records command) (active_at s) \<and>
        map hr_record_snapshot (mem_history s') =
          map hr_record_snapshot (mem_history s) @ replaced_spec now (pc_records command) (active_at s) \<and>
        pub_archived_record_ids res = map ob_record_id (replaced_spec now (pc_records command) (active_at s)) \<and>
        length (pub_created_record_ids res) + length (pub_updated_record_ids res) = length (pc_records command) \<and>
        mem_db s' = append_record_publish_summary (pc_analysis_job_id command) (pub_created_record_ids res)
          (pub_updated_record_ids res) (pub_archived_record_ids res) (mem_db s)"
proof (cases "publish_loop command now hist 0 (pc_records command) ([], [], []) s")
  case (Pair out s1)
  show ?thesis
  proof (cases out)
    case (Inl e)
    then show ?thesis using Pair
      by (simp add: publish_records_atomically_def session_scope_def se_simps)
  next
    case (Inr acc)
    obtain c u a where acc: "acc = (c, u, a)" by (cases acc) auto
    have loop: "publish_loop command now hist 0 (pc_records command) ([], [], []) s = (Inr (c, u, a), s1)"
      using Pair Inr acc by simp
    note ok = publish_loop_ok [OF assms loop]
    have unaffected: "records_ok (s1\<lparr>mem_db := d, mem_audit := au\<rparr>) = records_ok s1"
      "active_at (s1\<lparr>mem_db := d, mem_audit := au\<rparr>) = active_at s1" for d au
      by (simp_all add: records_ok_def fts_synced_def active_at_def fun_eq_iff split: option.split)
    show ?thesis
      using ok length_created [of now "pc_records command" "active_at s"]
      by (auto simp: publish_records_atomically_def session_scope_def se_simps loop append_event_def unaffected
          split: option.splits)
  qed
qed

text \<open>
  C18. Publication is one update of the map from segments (video, bounds, scale) to their active
  record. If it returns, every published segment holds its newest record, no other segment
  changed, ids and segments stay unique and the FTS tables list exactly the active records; the
  history gains exactly the replaced records, in order, and created, updated and archived ids are
  reported and appended to the job. If it raises, nothing changed.
\<close>

theorem publication_refines_map:
  assumes "records_ok s"
  shows "case publish_records_atomically now hist audit_id command s of
      (Inl e, s') \<Rightarrow> s' = s
    | (Inr res, s') \<Rightarrow>
        records_ok s' \<and>
        active_at s' = publish_spec now (pc_records command) (active_at s) \<and>
        map hr_record_snapshot (mem_history s') =
          map hr_record_snapshot (mem_history s) @ replaced_spec now (pc_records command) (active_at s) \<and>
        pub_archived_record_ids res = map ob_record_id (replaced_spec now (pc_records command) (active_at s)) \<and>
        length (pub_created_record_ids res) + length (pub_updated_record_ids res) = length (pc_records command) \<and>
        mem_db s' = append_record_publish_summary (pc_analysis_job_id command) (pub_created_record_ids res)
          (pub_updated_record_ids res) (pub_archived_record_ids res) (mem_db s)"
  using assms by (rule publish_ok)

definition ex_record :: "string \<Rightarrow> string \<Rightarrow> observation_record" where
  "ex_record i text =
    \<lparr>ob_record_id = i, ob_tenant_id = ''t'', ob_video_id = ''v'', ob_analysis_job_id = ''j'',
     ob_analysis_scale = DEFAULT_SEGMENT, ob_segment_start_ms = 0, ob_segment_end_ms = 10,
     ob_observed_start_time = (0, 480), ob_observed_end_time = (10000, 480), ob_camera_id = ''c'',
     ob_location_id = ''l'', ob_static_description_text = text, ob_dynamic_description_text = [],
     ob_tags = [''red''], ob_clip_uri = None, ob_thumbnail_uri = None, ob_attributes = [], ob_access_policy_id = ''p'',
     ob_security_level = PUBLIC, ob_model_version = None, ob_prompt_version = None, ob_pipeline_version = None,
     ob_created_at = None, ob_updated_at = None\<rparr>"

definition ex_memory :: memory where
  "ex_memory =
    \<lparr>mem_db = \<lparr>db_jobs = [], db_scale_tasks = [], db_triggers = [], db_units = [], db_videos = [], db_tasks = []\<rparr>,
     mem_records = [observation_to_orm (0, 0) (ex_record ''r1'' ''old'')], mem_history = [],
     mem_fts = Some \<lparr>fts_static = [(''r1'', ''old'')], fts_dynamic = [(''r1'', [])], fts_tags = [(''r1'', ''red'')]\<rparr>,
     mem_vectors = [], mem_audit = []\<rparr>"

definition ex_command :: publish_command where
  "ex_command = \<lparr>pc_schema_version = ''v1'', pc_command_id = ''cmd'', pc_analysis_job_id = ''j'', pc_records = [ex_record ''r2'' ''new''], pc_archive_reason = ''rerun''\<rparr>"

lemmas ex_records_defs = ex_record_def ex_memory_def ex_command_def

lemma ex_memory_ok: "records_ok ex_memory"
  by (simp add: ex_records_defs records_ok_def keys_ok_def fts_synced_def observation_to_orm_def)

theorem publication_refines_map_witness:
  "\<exists>res s'. publish_records_atomically (5, 0) (\<lambda>n. replicate (Suc n) CHR ''h'') ''a'' ex_command ex_memory = (Inr res, s') \<and>
     pub_archived_record_ids res = [''r1''] \<and>
     active_at s' = publish_spec (5, 0) [ex_record ''r2'' ''new''] (active_at ex_memory)"
proof -
  obtain res s' where run: "publish_records_atomically (5, 0) (\<lambda>n. replicate (Suc n) CHR ''h'') ''a'' ex_command ex_memory =
      (Inr res, s')"
    by (simp add: ex_records_defs publish_records_atomically_def publish_one_def archive_record_def insert_record_def
        append_event_def row_ins_def session_scope_def se_simps segment_key_def observation_to_orm_def)
  have replaced: "map ob_record_id (replaced_spec (5, 0) (pc_records ex_command) (active_at ex_memory)) = [''r1'']"
    by (simp add: ex_records_defs active_at_def row_get_def segment_key_def observation_to_orm_def)
  have recs: "pc_records ex_command = [ex_record ''r2'' ''new'']" by (simp add: ex_command_def)
  show ?thesis
    using publication_refines_map [OF ex_memory_ok, where now = "(5, 0)" and hist = "\<lambda>n. replicate (Suc n) CHR ''h''" and audit_id = "''a''"
        and command = ex_command]
      run replaced recs by auto
qed

text \<open>
  A publication whose record ids are new and distinct, with fresh history and audit ids, always
  returns, whichever of its segments are occupied.
\<close>

theorem publication_succeeds:
  assumes "records_ok s" and "distinct (map ob_record_id (pc_records command))"
    and "ob_record_id ` set (pc_records command) \<inter> ob_record_id ` set (mem_records s) = {}"
    and "inj hist" and "\<forall>n. hist n \<notin> hr_history_id ` set (mem_history s)"
    and "audit_id \<notin> ae_audit_event_id ` set (mem_audit s)"
  shows "\<exists>res s'. publish_records_atomically now hist audit_id command s = (Inr res, s')"
proof -
  obtain acc s1 where loop: "publish_loop command now hist 0 (pc_records command) ([], [], []) s = (Inr acc, s1)"
    using publish_loop_progress [OF assms(1-4), of 0] assms(5) by blast
  obtain c u a where acc: "acc = (c, u, a)" by (cases acc) auto
  have "mem_audit s1 = mem_audit s" using publish_loop_ok [OF assms(1) loop [unfolded acc]] by simp
  with loop acc assms(6) show ?thesis
    by (simp add: publish_records_atomically_def session_scope_def se_simps append_event_def row_ins_def)
qed

theorem publication_succeeds_witness:
  "\<exists>res s'. publish_records_atomically (5, 0) (\<lambda>n. replicate (Suc n) CHR ''h'') ''a'' ex_command ex_memory = (Inr res, s')"
  by (rule publication_succeeds [OF ex_memory_ok])
    (simp_all add: ex_records_defs observation_to_orm_def inj_def replicate_eq_replicate)

text \<open>
  The time filter of a search keeps the records that overlap the range in real time when the
  range is given in the records' own UTC offset. The comparison is on the stored text, so a range
  in another offset is shifted by the difference: a record whose end lies before the shifted start
  is dropped, even where it overlaps the range in real time.
\<close>

theorem time_filter_needs_equal_offsets:
  fixes r :: observation_record and a b :: iso
  shows "(snd (ob_observed_start_time r) = snd b \<and> snd (ob_observed_end_time r) = snd a \<longrightarrow>
      time_filter (Some a) (Some b) r =
        (iso_instant a \<le> iso_instant (ob_observed_end_time r) \<and> iso_instant (ob_observed_start_time r) \<le> iso_instant b)) \<and>
    (iso_instant (ob_observed_end_time r) < iso_instant a - (snd (ob_observed_end_time r) - snd a) * 60000000 \<longrightarrow>
      \<not> time_filter (Some a) te r)"
proof (intro conjI impI)
  show "time_filter (Some a) (Some b) r =
        (iso_instant a \<le> iso_instant (ob_observed_end_time r) \<and> iso_instant (ob_observed_start_time r) \<le> iso_instant b)"
    if "snd (ob_observed_start_time r) = snd b \<and> snd (ob_observed_end_time r) = snd a"
    using that iso_key_instant by (simp add: time_filter_def)
  assume "iso_instant (ob_observed_end_time r) < iso_instant a - (snd (ob_observed_end_time r) - snd a) * 60000000"
  then have "fst (ob_observed_end_time r) < fst a" by (simp add: iso_instant_def algebra_simps)
  then have "\<not> iso_key a \<le> iso_key (ob_observed_end_time r)" by (simp add: iso_key_fst not_le)
  then show "\<not> time_filter (Some a) te r" by (simp add: time_filter_def)
qed

theorem time_filter_needs_equal_offsets_witness:
  "time_filter (Some (0, 480)) (Some (20000, 480)) (ex_record ''r'' ''x'') \<and>
   \<not> time_filter (Some (20000, 540)) (Some (5000000, 540)) (ex_record ''r'' ''x'') \<and>
   iso_instant (20000, 540) \<le> iso_instant (ob_observed_end_time (ex_record ''r'' ''x''))"
proof (intro conjI)
  show "time_filter (Some (0, 480)) (Some (20000, 480)) (ex_record ''r'' ''x'')"
    using time_filter_needs_equal_offsets [of "ex_record ''r'' ''x''" "(20000, 480)" "(0, 480)"]
    by (simp add: ex_record_def iso_instant_def)
  show "\<not> time_filter (Some (20000, 540)) (Some (5000000, 540)) (ex_record ''r'' ''x'')"
    using time_filter_needs_equal_offsets [of "ex_record ''r'' ''x''" "(0, 0)" "(20000, 540)"]
    by (simp add: ex_record_def iso_instant_def)
  show "iso_instant (20000, 540) \<le> iso_instant (ob_observed_end_time (ex_record ''r'' ''x''))"
    by (simp add: ex_record_def iso_instant_def)
qed

text \<open>
  A tag filter in printable ASCII without quote and backslash keeps every record that carries
  the tag, in any letter case; a tag filter with a character outside ASCII keeps no record, even
  one that carries exactly this tag, because the stored JSON text escapes such characters.
\<close>

theorem tag_filter_finds_ascii_only:
  "(\<forall>t \<in> set (ob_tags r). list_all json_plain t \<and> list_all json_plain tag \<and> sql_lower tag = sql_lower t \<longrightarrow>
      structural_filter (f\<lparr>pf_tag_filters := tag # tags\<rparr>) r = structural_filter (f\<lparr>pf_tag_filters := tags\<rparr>) r) \<and>
   (\<forall>c \<in> set tag. 128 \<le> code c \<longrightarrow>
      authorized_candidate_pool s sc (f\<lparr>pf_tag_filters := tag # tags\<rparr>) limit = [])"
proof (intro conjI ballI impI)
  fix t assume "t \<in> set (ob_tags r)" "list_all json_plain t \<and> list_all json_plain tag \<and> sql_lower tag = sql_lower t"
  then have "tag_like tag (ob_tags r)" using tag_like_finds by blast
  then show "structural_filter (f\<lparr>pf_tag_filters := tag # tags\<rparr>) r = structural_filter (f\<lparr>pf_tag_filters := tags\<rparr>) r"
    by (simp add: structural_filter_def)
next
  fix c assume "c \<in> set tag" "128 \<le> code c"
  then have "\<not> structural_filter (f\<lparr>pf_tag_filters := tag # tags\<rparr>) r" for r
    using tag_like_misses by (simp add: structural_filter_def)
  then show "authorized_candidate_pool s sc (f\<lparr>pf_tag_filters := tag # tags\<rparr>) limit = []"
    by (simp add: authorized_candidate_pool_def order_by_limit_def)
qed

definition ex_scope :: authorized_scope where
  "ex_scope = \<lparr>sc_tenant_id = ''t'', sc_principal_id = ''u'', sc_allowed_camera_ids = [''c''],
     sc_allowed_location_ids = [''l''], sc_allowed_access_policy_ids = [''p''], sc_max_security_level = INTERNAL,
     sc_capabilities = [OBSERVATION_SEARCH, OBSERVATION_READ_DETAIL, OBSERVATION_READ_LOCATOR, VIDEO_PLAYBACK],
     sc_scope_hash = ''h''\<rparr>"

definition ex_filter :: pool_filter where
  "ex_filter = \<lparr>pf_time_start = None, pf_time_end = None, pf_camera_ids = [], pf_location_ids = [], pf_video_ids = [],
     pf_analysis_scales = [], pf_tag_filters = []\<rparr>"

theorem tag_filter_finds_ascii_only_witness:
  "structural_filter (ex_filter\<lparr>pf_tag_filters := [''RED'']\<rparr>) (ex_record ''r'' ''x'') \<and>
   authorized_candidate_pool ex_memory ex_scope (ex_filter\<lparr>pf_tag_filters := [[CHR 0xE9]]\<rparr>) 100 = []"
proof
  have lower: "sql_lower ''RED'' = sql_lower ''red''" by code_simp
  have plain: "list_all json_plain ''RED''" "list_all json_plain ''red''" by code_simp+
  show "structural_filter (ex_filter\<lparr>pf_tag_filters := [''RED'']\<rparr>) (ex_record ''r'' ''x'')"
    using tag_filter_finds_ascii_only [where r = "ex_record ''r'' ''x''" and tag = "''RED''" and f = ex_filter and tags = "[]"]
      lower plain by (simp add: ex_record_def ex_filter_def structural_filter_def time_filter_def)
  show "authorized_candidate_pool ex_memory ex_scope (ex_filter\<lparr>pf_tag_filters := [[CHR 0xE9]]\<rparr>) 100 = []"
    using tag_filter_finds_ascii_only [where tag = "[CHR 0xE9]" and f = ex_filter and tags = "[]" and s = ex_memory
        and sc = ex_scope and limit = 100] by simp
qed

end
