(* ===== verification/Cctv_Json.thy ===== *)
theory Cctv_Json
  imports Cctv_Text Cctv_Ranking
begin

text \<open>
  JSON values as Python holds them after \<^verbatim>\<open>json.loads\<close> or \<^verbatim>\<open>model_dump(mode="json")\<close>, with what the
  program does to them: \<^verbatim>\<open>dict.get\<close>, \<^verbatim>\<open>str()\<close>, \<^verbatim>\<open>float()\<close> and the compact text that it hashes. An
  object is the list of its items in insertion order. How the interpreter writes and reads floats, and
  how it writes a nested value with \<^verbatim>\<open>str()\<close>, is in \<open>py_env\<close>, with the hash function.
\<close>

section \<open>Numbers as text\<close>

fun show_nat :: "nat \<Rightarrow> string" where
  "show_nat n = (if n < 10 then [char_of (48 + n)] else show_nat (n div 10) @ [char_of (48 + n mod 10)])"

definition show_int :: "int \<Rightarrow> string" where
  "show_int i = (if i < 0 then CHR ''-'' # show_nat (nat (- i)) else show_nat (nat i))"

section \<open>Values\<close>

datatype json =
    JsNull
  | JsBool bool
  | JsInt int
  | JsReal real
  | JsStr string
  | JsArr "json list"
  | JsObj "(string \<times> json) list"

type_synonym jdict = "(string \<times> json) list"

record py_env =
  py_fl :: "real \<Rightarrow> real"
  py_repr_float :: "real \<Rightarrow> string"
  py_parse_float :: "string \<Rightarrow> real option"
  py_repr :: "json \<Rightarrow> string"
  py_hexdigest :: "string \<Rightarrow> string"

abbreviation TypeError :: "string \<Rightarrow> exn" where
  "TypeError m \<equiv> OtherException [''TypeError'', ''Exception''] m"

definition js_get :: "jdict \<Rightarrow> string \<Rightarrow> json \<Rightarrow> json" where
  "js_get d k dflt = (case map_of d k of None \<Rightarrow> dflt | Some v \<Rightarrow> v)"

text \<open>Truth of a value, as \<^verbatim>\<open>if d.get(k)\<close> tests it.\<close>

fun js_truthy :: "json \<Rightarrow> bool" where
  "js_truthy JsNull = False"
| "js_truthy (JsBool b) = b"
| "js_truthy (JsInt i) = (i \<noteq> 0)"
| "js_truthy (JsReal x) = (x \<noteq> 0)"
| "js_truthy (JsStr s) = (s \<noteq> [])"
| "js_truthy (JsArr vs) = (vs \<noteq> [])"
| "js_truthy (JsObj d) = (d \<noteq> [])"

fun js_str :: "py_env \<Rightarrow> json \<Rightarrow> string" where
  "js_str pe (JsStr s) = s"
| "js_str pe JsNull = ''None''"
| "js_str pe (JsBool b) = (if b then ''True'' else ''False'')"
| "js_str pe (JsInt i) = show_int i"
| "js_str pe (JsReal x) = py_repr_float pe x"
| "js_str pe v = py_repr pe v"

fun js_float :: "py_env \<Rightarrow> json \<Rightarrow> exn + real" where
  "js_float pe (JsReal x) = Inr x"
| "js_float pe (JsInt i) = Inr (py_fl pe (of_int i))"
| "js_float pe (JsBool b) = Inr (if b then 1 else 0)"
| "js_float pe (JsStr s) =
    (case py_parse_float pe s of None \<Rightarrow> Inl (ValueError ''could not convert string to float'') | Some x \<Rightarrow> Inr x)"
| "js_float pe _ = Inl (TypeError ''float() argument must be a string or a real number'')"

section \<open>Compact text\<close>

text \<open>\<^verbatim>\<open>json.dumps(value, sort_keys=True, separators=(",", ":"))\<close>.\<close>

fun comma_sep :: "string list \<Rightarrow> string" where
  "comma_sep [] = []"
| "comma_sep [s] = s"
| "comma_sep (s # ss) = s @ CHR '','' # comma_sep ss"

fun js_dumps :: "py_env \<Rightarrow> json \<Rightarrow> string" where
  "js_dumps pe JsNull = ''null''"
| "js_dumps pe (JsBool b) = (if b then ''true'' else ''false'')"
| "js_dumps pe (JsInt i) = show_int i"
| "js_dumps pe (JsReal x) = py_repr_float pe x"
| "js_dumps pe (JsStr s) = json_string s"
| "js_dumps pe (JsArr vs) = CHR ''['' # comma_sep (map (js_dumps pe) vs) @ [CHR '']'']"
| "js_dumps pe (JsObj d) =
    CHR ''{'' # comma_sep (map snd (sort_key fst (map (\<lambda>(k, v). (k, json_field k (js_dumps pe v))) d))) @ [CHR ''}'']"

text \<open>\<^verbatim>\<open>json.dumps(value)\<close> with the default separators and the items in their order.\<close>

fun comma_space_sep :: "string list \<Rightarrow> string" where
  "comma_space_sep [] = []"
| "comma_space_sep [s] = s"
| "comma_space_sep (s # ss) = s @ '', '' @ comma_space_sep ss"

fun js_text :: "py_env \<Rightarrow> json \<Rightarrow> string" where
  "js_text pe JsNull = ''null''"
| "js_text pe (JsBool b) = (if b then ''true'' else ''false'')"
| "js_text pe (JsInt i) = show_int i"
| "js_text pe (JsReal x) = py_repr_float pe x"
| "js_text pe (JsStr s) = json_string s"
| "js_text pe (JsArr vs) = CHR ''['' # comma_space_sep (map (js_text pe) vs) @ [CHR '']'']"
| "js_text pe (JsObj d) =
    CHR ''{'' # comma_space_sep (map (\<lambda>(k, v). json_string k @ '': '' @ js_text pe v) d) @ [CHR ''}'']"

text \<open>\<^verbatim>\<open>d.update(other)\<close>.\<close>

definition js_update :: "jdict \<Rightarrow> jdict \<Rightarrow> jdict" where
  "js_update d other = fold (\<lambda>(k, v). dict_set k v) other d"

definition hash_json :: "py_env \<Rightarrow> json \<Rightarrow> string" where
  "hash_json pe v = ''sha256:'' @ py_hexdigest pe (js_dumps pe v)"

text \<open>\<^verbatim>\<open>os.path.basename\<close> of a POSIX path.\<close>

definition basename :: "string \<Rightarrow> string" where
  "basename p = rev (takeWhile (\<lambda>c. c \<noteq> CHR ''/'') (rev p))"

definition js_opt :: "('a \<Rightarrow> json) \<Rightarrow> 'a option \<Rightarrow> json" where
  "js_opt f v = (case v of None \<Rightarrow> JsNull | Some x \<Rightarrow> f x)"

section \<open>Loops that may raise\<close>

text \<open>A comprehension or loop over a list whose body may raise: the first exception ends it.\<close>

fun map_raise :: "('a \<Rightarrow> 'e + 'b) \<Rightarrow> 'a list \<Rightarrow> 'e + 'b list" where
  "map_raise f [] = Inr []"
| "map_raise f (x # xs) =
    (case f x of Inl e \<Rightarrow> Inl e
     | Inr y \<Rightarrow> (case map_raise f xs of Inl e \<Rightarrow> Inl e | Inr ys \<Rightarrow> Inr (y # ys)))"

lemma map_raise_Inr: "map_raise f xs = Inr ys \<longleftrightarrow> list_all2 (\<lambda>x y. f x = Inr y) xs ys"
proof (induction xs arbitrary: ys)
  case Nil
  then show ?case by auto
next
  case (Cons x xs)
  show ?case
    by (cases "f x"; cases "map_raise f xs") (auto simp: list_all2_Cons1 Cons.IH [symmetric])
qed

lemma map_raise_total: "(\<And>x. x \<in> set xs \<Longrightarrow> f x = Inr (g x)) \<Longrightarrow> map_raise f xs = Inr (map g xs)"
  by (induction xs) auto

end
