(* ===== verification/Cctv_Search.thy ===== *)
theory Cctv_Search
  imports Cctv_Records Cctv_Json
begin

text \<open>
  The search use case (\<^verbatim>\<open>application/search.py\<close>) over the context store
  (\<^verbatim>\<open>infrastructure/db/repositories/search_context.py\<close>): start, refine, facets and close. The state
  extends \<open>memory\<close> by the contexts, revisions and candidates. The service's collaborators outside
  the repository are fields of \<open>search_service\<close>: the embedder, the reranker, the FTS engine and the
  rounding of floats. Ids and clock readings of a request come in \<open>search_env\<close>.
\<close>

section \<open>Data\<close>

text \<open>
  A value of a JSON object. Of a list the code only takes \<^verbatim>\<open>str()\<close> of its elements, so a list is
  kept as these texts; floats and objects, which it ignores, are \<open>JOther\<close>.
\<close>

datatype jval = JNull | JBool bool | JInt int | JStr string | JList "string list" | JOther

type_synonym params = "(string \<times> jval) list"

definition str_list :: "jval option \<Rightarrow> string list" where
  "str_list v = (case v of Some (JList vs) \<Rightarrow> vs | _ \<Rightarrow> [])"

text \<open>The extra keys \<^verbatim>\<open>rerank_score\<close>, \<^verbatim>\<open>rerank_model\<close>, \<^verbatim>\<open>prefusion_score\<close> of a reranked candidate.\<close>

type_synonym detail = "score_detail \<times> (real \<times> string \<times> real) option"
type_synonym ranked = "(string \<times> real \<times> detail) list"

record facets =
  fa_candidate_count :: nat
  fa_top_tags :: "(string \<times> nat) list"
  fa_camera_distribution :: "(string \<times> nat) list"
  fa_location_distribution :: "(string \<times> nat) list"
  fa_time_distribution :: "(iso \<times> nat) list"
  fa_analysis_scale_distribution :: "(string \<times> nat) list"

record search_context =
  sx_context_id :: string
  sx_tenant_id :: string
  sx_principal_id :: string
  sx_session_id :: "string option"
  sx_authorized_scope_hash :: string
  sx_dataset_revision :: string
  sx_mode :: context_mode
  sx_default_revision_id :: "string option"
  sx_created_at :: iso
  sx_last_accessed_at :: iso
  sx_expires_at :: iso
  sx_status :: string

record search_revision =
  rv_revision_id :: string
  rv_context_id :: string
  rv_parent_revision_id :: "string option"
  rv_op :: string
  rv_op_params :: params
  rv_candidate_count :: nat
  rv_facets :: facets
  rv_created_at :: iso

record search_candidate =
  cd_revision_id :: string
  cd_record_id :: string
  cd_rank :: int
  cd_score :: real
  cd_score_detail :: detail

datatype scale_strategy = PREFER_DEFAULT_SEGMENT | PREFER_HIGH_FREQ | BALANCED

record start_request =
  sr_query_text :: "string option"
  sr_time_range :: "(iso \<times> iso) option"
  sr_camera_ids :: "string list"
  sr_location_ids :: "string list"
  sr_video_ids :: "string list"
  sr_tag_filters :: "string list"
  sr_preferred_text_fields :: "string list"
  sr_analysis_scale_filter :: "analysis_scale list"
  sr_preferred_analysis_scales :: "analysis_scale list"
  sr_scale_strategy :: "scale_strategy option"
  sr_search_mode :: search_mode
  sr_top_k :: int
  sr_score_threshold :: "real option"

record refine_request =
  rq_base_revision_id :: string
  rq_op :: refine_op
  rq_params :: params

record result_item =
  ri_record_id :: string
  ri_rank :: int
  ri_score :: real
  ri_score_detail :: detail
  ri_preview_text :: string
  ri_analysis_scale :: analysis_scale
  ri_observed_start_time :: iso
  ri_observed_end_time :: iso

record search_response =
  rp_context_id :: string
  rp_revision_id :: string
  rp_candidate_count :: nat
  rp_facets :: facets
  rp_results :: "result_item list"

record search_db = memory +
  sdb_contexts :: "search_context list"
  sdb_revisions :: "search_revision list"
  sdb_candidates :: "search_candidate list"

record search_service =
  ss_context_ttl_seconds :: int
  ss_context_idle_seconds :: int
  ss_max_top_k :: int
  ss_max_candidates_per_revision :: int
  ss_max_revisions_per_context :: int
  ss_weights :: rrf_weights
  ss_embedder :: "(string \<Rightarrow> exn + real list) option"
  ss_index :: bool
  ss_vector_search_enabled :: bool
  ss_reranker :: "((string \<Rightarrow> (string \<times> string) list \<Rightarrow> exn + (string \<times> real) list) \<times> string) option"
  ss_rerank_enabled :: bool
  ss_rerank_top_n :: int
  ss_bm25 :: bm25
  ss_fl :: "real \<Rightarrow> real"

record search_env =
  en_context_id :: string
  en_revision_id :: string
  en_audit_id :: string
  en_now :: int
  en_revision_now :: int
  en_touch_now :: int
  en_audit_now :: int
  en_tz :: int

section \<open>The context store\<close>

definition create_context :: "search_context \<Rightarrow> (search_db, exn, unit) se" where
  "create_context ctx s =
    (case row_ins sx_context_id ctx (sdb_contexts s) of
       None \<Rightarrow> (Inl (IntegrityError ''UNIQUE constraint failed: search_contexts.context_id''), s)
     | Some rows \<Rightarrow> (Inr (), s\<lparr>sdb_contexts := rows\<rparr>))"

abbreviation get_context :: "string \<Rightarrow> search_db \<Rightarrow> search_context option" where
  "get_context k s \<equiv> row_get sx_context_id k (sdb_contexts s)"

abbreviation get_revision :: "string \<Rightarrow> search_db \<Rightarrow> search_revision option" where
  "get_revision k s \<equiv> row_get rv_revision_id k (sdb_revisions s)"

definition store_close_context :: "string \<Rightarrow> search_db \<Rightarrow> search_db" where
  "store_close_context context_id s =
    s\<lparr>sdb_contexts := row_upd sx_context_id context_id (\<lambda>c. c\<lparr>sx_status := ''closed''\<rparr>) (sdb_contexts s)\<rparr>"

definition expire_contexts :: "int \<Rightarrow> search_db \<Rightarrow> search_db" where
  "expire_contexts now s =
    s\<lparr>sdb_contexts := map (\<lambda>c. if sx_status c = ''active'' \<and> iso_key (sx_expires_at c) < iso_key (now, 0)
       then c\<lparr>sx_status := ''expired''\<rparr> else c) (sdb_contexts s)\<rparr>"

definition add_candidate :: "search_candidate \<Rightarrow> (search_db, exn, unit) se" where
  "add_candidate c s =
    (case row_ins (\<lambda>c. (cd_revision_id c, cd_record_id c)) c (sdb_candidates s) of
       None \<Rightarrow> (Inl (IntegrityError ''UNIQUE constraint failed: search_candidates''), s)
     | Some rows \<Rightarrow> (Inr (), s\<lparr>sdb_candidates := rows\<rparr>))"

definition create_revision :: "search_revision \<Rightarrow> search_candidate list \<Rightarrow> (search_db, exn, unit) se" where
  "create_revision rvn candidates s =
    (if get_revision (rv_revision_id rvn) s \<noteq> None
     then (Inl (ConflictError (''Revision '' @ rv_revision_id rvn @ '' already exists (immutable)'')), s)
     else se_iter add_candidate candidates (s\<lparr>sdb_revisions := sdb_revisions s @ [rvn]\<rparr>))"

definition count_revisions :: "string \<Rightarrow> search_db \<Rightarrow> int" where
  "count_revisions context_id s = int (count_where (\<lambda>r. rv_context_id r = context_id) (sdb_revisions s))"

definition list_candidates :: "string \<Rightarrow> int \<Rightarrow> search_db \<Rightarrow> search_candidate list" where
  "list_candidates revision_id limit s =
    order_by_limit cd_rank limit (filter (\<lambda>c. cd_revision_id c = revision_id) (sdb_candidates s))"

definition replace_default_revision :: "string \<Rightarrow> string \<Rightarrow> iso \<Rightarrow> search_db \<Rightarrow> search_db" where
  "replace_default_revision context_id revision_id now s =
    s\<lparr>sdb_contexts := row_upd sx_context_id context_id
      (\<lambda>c. c\<lparr>sx_default_revision_id := Some revision_id, sx_last_accessed_at := now\<rparr>) (sdb_contexts s)\<rparr>"

section \<open>Channels\<close>

definition text_hits :: "string list \<Rightarrow> string \<Rightarrow> nat" where
  "text_hits terms text = count_where (\<lambda>t. contains t text) terms"

definition field_text :: "string \<Rightarrow> observation_record \<Rightarrow> string" where
  "field_text field rec =
    (if field = ''static'' then py_lower (ob_static_description_text rec)
     else if field = ''dynamic'' then py_lower (ob_dynamic_description_text rec)
     else py_lower (join_space (ob_tags rec)))"

definition keyword_relevance :: "observation_record list \<Rightarrow> string \<Rightarrow> string \<Rightarrow> (string \<times> real) list" where
  "keyword_relevance records query field =
    (let terms = query_terms query
     in if terms = [] then []
     else fold (\<lambda>rec out. let hits = text_hits terms (field_text field rec)
          in if hits = 0 then out else dict_set (ob_record_id rec) (of_nat hits) out) records [])"

definition channel_scores ::
  "search_service \<Rightarrow> search_db \<Rightarrow> observation_record list \<Rightarrow> string \<Rightarrow> string \<Rightarrow> (string \<times> real) list" where
  "channel_scores svc s records query_text field =
    (let scores = if fts_available s
                  then fts_rank (ss_bm25 svc) s query_text (map ob_record_id records) field else []
     in if scores \<noteq> [] then scores else keyword_relevance records query_text field)"

definition tag_boosts :: "(real \<Rightarrow> real) \<Rightarrow> observation_record list \<Rightarrow> string list \<Rightarrow> (string \<times> real) list" where
  "tag_boosts fl records tag_filters =
    (if tag_filters = [] then []
     else fold (\<lambda>r out. let matched = count_where (\<lambda>t. t \<in> set (map py_lower (ob_tags r))) (map py_lower tag_filters)
          in if matched = 0 then out else dict_set (ob_record_id r) (fl (fl (5 / 100) * of_nat matched)) out)
        records [])"

definition scale_boosts ::
  "(real \<Rightarrow> real) \<Rightarrow> observation_record list \<Rightarrow> analysis_scale list \<Rightarrow> (string \<times> real) list" where
  "scale_boosts fl records preferred =
    (if preferred = [] then []
     else fold (\<lambda>r out. if analysis_scale_value (ob_analysis_scale r) \<in> set (map analysis_scale_value preferred)
          then dict_set (ob_record_id r) (fl (1 / 10)) out else out) records [])"

definition vector_enabled :: "search_service \<Rightarrow> bool" where
  "vector_enabled svc = (ss_vector_search_enabled svc \<and> ss_embedder svc \<noteq> None \<and> ss_index svc)"

definition vector_channel ::
  "search_service \<Rightarrow> search_db \<Rightarrow> string list \<Rightarrow> string \<Rightarrow> string \<Rightarrow> exn + (string \<times> real) list" where
  "vector_channel svc s candidate_ids query_text vector_type =
    (case ss_embedder svc of
       None \<Rightarrow> Inr []
     | Some embed_query \<Rightarrow>
       if \<not> ss_index svc then Inr []
       else let stored = get_vectors_for_records (mem_vectors s) candidate_ids (Some vector_type)
       in if stored = [] then Inr []
       else case embed_query query_text of
         Inl e \<Rightarrow> if is_instance e ''EmbeddingError'' then Inr [] else Inl e
       | Inr query_vec \<Rightarrow> Inr (fold (\<lambda>sv out.
           let similarity = cosine_similarity (ss_fl svc) query_vec (sv_embedding sv)
           in if similarity > 0 then dict_set (sv_record_id sv) similarity out else out) stored []))"

definition combined_vec ::
  "string list \<Rightarrow> (string \<times> real) list \<Rightarrow> (string \<times> real) list \<Rightarrow> (string \<times> real) list" where
  "combined_vec candidate_ids static_vec dynamic_vec =
    fold (\<lambda>rid out. case (map_of static_vec rid, map_of dynamic_vec rid) of
        (Some a, Some b) \<Rightarrow> dict_set rid (max a b) out
      | (Some a, None) \<Rightarrow> dict_set rid a out
      | (None, Some b) \<Rightarrow> dict_set rid b out
      | (None, None) \<Rightarrow> out) candidate_ids []"

section \<open>Ranking\<close>

definition records_index :: "observation_record list \<Rightarrow> (string \<times> observation_record) list" where
  "records_index records = fold (\<lambda>r d. dict_set (ob_record_id r) r d) records []"

definition recency_key :: "observation_record list \<Rightarrow> string \<Rightarrow> int \<times> string" where
  "recency_key records rid =
    ((case map_of (records_index records) rid of None \<Rightarrow> 0 | Some r \<Rightarrow> iso_instant (ob_observed_start_time r)), rid)"

definition empty_channels :: channel_inputs where
  "empty_channels = \<lparr>ci_static_ranks = [], ci_dynamic_ranks = [], ci_tag_boosts = [], ci_scale_boosts = [],
     ci_vector_ranks = [], ci_static_vector_scores = [], ci_dynamic_vector_scores = []\<rparr>"

definition fuse_and_order ::
  "search_service \<Rightarrow> string list \<Rightarrow> channel_inputs \<Rightarrow> exn + ranked" where
  "fuse_and_order svc rids inputs =
    (case rrf_fuse (ss_fl svc) rids inputs (ss_weights svc) of
       Inl e \<Rightarrow> Inl e
     | Inr fused \<Rightarrow> Inr (map (\<lambda>(rid, score, detail). (rid, score, (detail, None))) (order_candidates fused)))"

definition uses_static :: "search_mode \<Rightarrow> bool" where
  "uses_static m = (m \<in> {STATIC_ATTRIBUTE, HYBRID, AUTO_BY_EXTERNAL_AI})"

definition uses_dynamic :: "search_mode \<Rightarrow> bool" where
  "uses_dynamic m = (m \<in> {DYNAMIC_EVENT, HYBRID, AUTO_BY_EXTERNAL_AI})"

text \<open>
  The set of matched ids has no order in Python; the list here is one of its orders, and the sort
  in \<open>order_candidates\<close> ends with the id, so that every order gives the same result.
\<close>

definition matched_ids :: "channel_inputs \<Rightarrow> string list" where
  "matched_ids inputs =
    remdups (map fst (ci_static_ranks inputs) @ map fst (ci_dynamic_ranks inputs) @ map fst (ci_vector_ranks inputs))"

definition rank_records ::
  "search_service \<Rightarrow> search_db \<Rightarrow> observation_record list \<Rightarrow> string option \<Rightarrow> search_mode \<Rightarrow> string list \<Rightarrow>
   analysis_scale list \<Rightarrow> bool option \<Rightarrow> exn + ranked" where
  "rank_records svc s records query_text mode tag_filters preferred use_vector =
    (let candidate_ids = map ob_record_id records
     in if candidate_ids = [] then Inr []
     else if \<not> truthy query_text
     then let ordered_ids = sort_key (recency_key records) candidate_ids
          in fuse_and_order svc ordered_ids
               (empty_channels\<lparr>ci_static_ranks :=
                  fold (\<lambda>i d. dict_set (ordered_ids ! i) (int i + 1) d) [0..<length ordered_ids] []\<rparr>)
     else let q = the query_text;
              static_scores = if uses_static mode then channel_scores svc s records q ''static'' else [];
              dynamic_scores = if uses_dynamic mode then channel_scores svc s records q ''dynamic'' else [];
              want_vector = (case use_vector of None \<Rightarrow> vector_enabled svc | Some b \<Rightarrow> b \<and> vector_enabled svc)
     in case (if want_vector \<and> uses_static mode then vector_channel svc s candidate_ids q ''static'' else Inr []) of
       Inl e \<Rightarrow> Inl e
     | Inr static_vec \<Rightarrow>
     (case (if want_vector \<and> uses_dynamic mode then vector_channel svc s candidate_ids q ''dynamic'' else Inr []) of
       Inl e \<Rightarrow> Inl e
     | Inr dynamic_vec \<Rightarrow>
       let inputs = \<lparr>ci_static_ranks = to_rank_map static_scores, ci_dynamic_ranks = to_rank_map dynamic_scores,
             ci_tag_boosts = tag_boosts (ss_fl svc) records tag_filters,
             ci_scale_boosts = scale_boosts (ss_fl svc) records preferred,
             ci_vector_ranks = to_rank_map (combined_vec candidate_ids static_vec dynamic_vec),
             ci_static_vector_scores = static_vec, ci_dynamic_vector_scores = dynamic_vec\<rparr>
       in fuse_and_order svc (if matched_ids inputs \<noteq> [] then matched_ids inputs else candidate_ids) inputs))"

definition slice_from :: "int \<Rightarrow> 'a list \<Rightarrow> 'a list" where
  "slice_from k xs = (if 0 \<le> k then drop (nat k) xs else drop (length xs - nat (- k)) xs)"

definition apply_cross_encoder ::
  "search_service \<Rightarrow> ranked \<Rightarrow> observation_record list \<Rightarrow> string option \<Rightarrow> exn + ranked" where
  "apply_cross_encoder svc ranked records query_text =
    (case ss_reranker svc of
       None \<Rightarrow> Inr ranked
     | Some (rerank, model_id) \<Rightarrow>
       if \<not> ss_rerank_enabled svc \<or> \<not> truthy query_text \<or> ranked = [] then Inr ranked
       else let text_by_id = map_of (records_index records);
                head = slice_to (ss_rerank_top_n svc) ranked;
                tail = slice_from (ss_rerank_top_n svc) ranked;
                documents = map (\<lambda>x. (fst x, case text_by_id (fst x) of None \<Rightarrow> [] | Some r \<Rightarrow> ob_static_description_text r)) head
       in case rerank (the query_text) documents of
         Inl e \<Rightarrow> if is_instance e ''RerankerError'' then Inr ranked else Inl e
       | Inr scores \<Rightarrow>
         let score_by_id = fold (\<lambda>x d. dict_set (fst x) (snd x) d) scores [];
             rescored = map (\<lambda>(rid, prior, detail).
               let v = dict_get score_by_id rid 0
               in (rid, v, (fst detail, Some (py_round (ss_fl svc) 6 v, model_id, py_round (ss_fl svc) 6 prior)))) head
         in Inr (sort_key (\<lambda>x. (- fst (snd x), fst x)) rescored @ tail))"

definition apply_refine_op ::
  "search_service \<Rightarrow> search_db \<Rightarrow> refine_op \<Rightarrow> observation_record list \<Rightarrow> params \<Rightarrow> string option \<Rightarrow> exn + ranked" where
  "apply_refine_op svc s op records params query_text =
    (let tag_filters = str_list (map_of params ''tags'')
     in case op of
       NARROW_BY_TAGS \<Rightarrow>
         rank_records svc s (filter (\<lambda>r. set tag_filters \<subseteq> set (ob_tags r)) records) None HYBRID tag_filters [] None
     | SEARCH_STATIC_TEXT \<Rightarrow> rank_records svc s records query_text STATIC_ATTRIBUTE [] [] None
     | SEARCH_DYNAMIC_TEXT \<Rightarrow> rank_records svc s records query_text DYNAMIC_EVENT [] [] None
     | HYBRID_SEARCH_TEXT \<Rightarrow> rank_records svc s records query_text HYBRID tag_filters [] None
     | FILTER_BY_ANALYSIS_SCALE \<Rightarrow>
         let scales = str_list (map_of params ''analysis_scales'')
         in rank_records svc s
              (if scales = [] then records
               else filter (\<lambda>r. analysis_scale_value (ob_analysis_scale r) \<in> set scales) records)
              query_text HYBRID [] [] None
     | RERANK_CURRENT_CANDIDATES \<Rightarrow>
         (case rank_records svc s records query_text HYBRID tag_filters [] (Some True) of
            Inl e \<Rightarrow> Inl e
          | Inr ranked \<Rightarrow> apply_cross_encoder svc ranked records query_text)
     | _ \<Rightarrow> rank_records svc s records query_text HYBRID tag_filters [] None)"

section \<open>Facets\<close>

definition counter_add :: "'k \<Rightarrow> ('k \<times> nat) list \<Rightarrow> ('k \<times> nat) list" where
  "counter_add k d = dict_set k (dict_get d k 0 + 1) d"

definition counter :: "'k list \<Rightarrow> ('k \<times> nat) list" where
  "counter ks = fold counter_add ks []"

definition most_common :: "('k \<times> nat) list \<Rightarrow> ('k \<times> nat) list" where
  "most_common d = sort_key (\<lambda>kv. - int (snd kv)) d"

definition hour_bucket :: "iso \<Rightarrow> iso" where
  "hour_bucket t = (fst t - fst t mod 3600000000, snd t)"

definition build_facets :: "observation_record list \<Rightarrow> facets" where
  "build_facets records =
    \<lparr>fa_candidate_count = length records,
     fa_top_tags = take 10 (most_common (counter (concat (map ob_tags records)))),
     fa_camera_distribution = most_common (counter (map ob_camera_id records)),
     fa_location_distribution = most_common (counter (map ob_location_id records)),
     fa_time_distribution =
       sort_key (\<lambda>kv. (iso_key (fst kv), snd kv)) (counter (map (\<lambda>r. hour_bucket (ob_observed_start_time r)) records)),
     fa_analysis_scale_distribution =
       most_common (counter (map (\<lambda>r. analysis_scale_value (ob_analysis_scale r)) records))\<rparr>"

section \<open>The service\<close>

definition authorized_pool :: "search_service \<Rightarrow> start_request \<Rightarrow> authorized_scope \<Rightarrow> search_db \<Rightarrow> observation_record list" where
  "authorized_pool svc request sc s =
    authorized_candidate_pool s sc
      \<lparr>pf_time_start = map_option fst (sr_time_range request), pf_time_end = map_option snd (sr_time_range request),
       pf_camera_ids = sr_camera_ids request, pf_location_ids = sr_location_ids request,
       pf_video_ids = sr_video_ids request, pf_analysis_scales = sr_analysis_scale_filter request,
       pf_tag_filters = sr_tag_filters request\<rparr> (ss_max_candidates_per_revision svc)"

definition revision_records :: "ranked \<Rightarrow> (string \<times> observation_record) list \<Rightarrow> observation_record list" where
  "revision_records ordered pool_by_id = List.map_filter (\<lambda>x. map_of pool_by_id (fst x)) ordered"

definition persist_revision ::
  "search_env \<Rightarrow> string \<Rightarrow> string option \<Rightarrow> string \<Rightarrow> params \<Rightarrow> ranked \<Rightarrow>
   (string \<times> observation_record) list \<Rightarrow> (search_db, exn, search_revision) se" where
  "persist_revision env context_id parent op op_params ordered pool_by_id =
    (let rvn = \<lparr>rv_revision_id = en_revision_id env, rv_context_id = context_id, rv_parent_revision_id = parent,
           rv_op = op, rv_op_params = op_params, rv_candidate_count = length ordered,
           rv_facets = build_facets (revision_records ordered pool_by_id), rv_created_at = (en_revision_now env, 0)\<rparr>;
         candidates = map (\<lambda>(i, (rid, score, detail)).
           \<lparr>cd_revision_id = en_revision_id env, cd_record_id = rid, cd_rank = int i + 1, cd_score = score,
            cd_score_detail = detail\<rparr>) (enumerate 0 ordered)
     in se_then (create_revision rvn candidates) (se_ret rvn))"

definition to_results :: "ranked \<Rightarrow> (string \<times> observation_record) list \<Rightarrow> result_item list" where
  "to_results ordered pool_by_id = List.map_filter (\<lambda>(i, (rid, score, detail)).
     map_option (\<lambda>rec.
       \<lparr>ri_record_id = rid, ri_rank = int i + 1, ri_score = score, ri_score_detail = detail,
        ri_preview_text = take 200 (ob_static_description_text rec), ri_analysis_scale = ob_analysis_scale rec,
        ri_observed_start_time = ob_observed_start_time rec, ri_observed_end_time = ob_observed_end_time rec\<rparr>)
     (map_of pool_by_id rid)) (enumerate 0 ordered)"

definition audit_query ::
  "search_env \<Rightarrow> string option \<Rightarrow> authorized_scope \<Rightarrow> string \<Rightarrow> string option \<Rightarrow> string list \<Rightarrow> (search_db, exn, unit) se" where
  "audit_query env request_id sc context_id session_id record_ids = append_event
    \<lparr>ae_audit_event_id = en_audit_id env, ae_event_type = ''query'', ae_request_id = request_id,
     ae_principal_id = Some (sc_principal_id sc), ae_session_id = session_id, ae_context_id = Some context_id,
     ae_resource_scope_hash = Some (sc_scope_hash sc), ae_record_ids = record_ids, ae_video_id = None,
     ae_camera_id = None, ae_metadata = [(''candidate_count'', show_nat (length record_ids))],
     ae_created_at = iso_of (en_audit_now env) (en_tz env)\<rparr>"

text \<open>What start and refine share after ranking: the revision, the default revision, the results and the audit.\<close>

definition finish_search ::
  "search_env \<Rightarrow> authorized_scope \<Rightarrow> string option \<Rightarrow> string \<Rightarrow> string option \<Rightarrow> string option \<Rightarrow> string \<Rightarrow> params \<Rightarrow>
   ranked \<Rightarrow> observation_record list \<Rightarrow> (search_db, exn, search_response) se" where
  "finish_search env sc request_id context_id session_id parent op op_params ordered records =
    (let pool_by_id = records_index records
     in se_bind (persist_revision env context_id parent op op_params ordered pool_by_id) (\<lambda>rvn.
        se_then (se_write (replace_default_revision context_id (rv_revision_id rvn) (iso_of (en_touch_now env) (en_tz env))))
          (let results = to_results ordered pool_by_id
           in se_then (audit_query env request_id sc context_id session_id (map ri_record_id results))
             (se_ret \<lparr>rp_context_id = context_id, rp_revision_id = rv_revision_id rvn,
                rp_candidate_count = length results, rp_facets = rv_facets rvn, rp_results = results\<rparr>))))"

fun search_mode_value :: "search_mode \<Rightarrow> string" where
  "search_mode_value STATIC_ATTRIBUTE = ''static_attribute''"
| "search_mode_value DYNAMIC_EVENT = ''dynamic_event''"
| "search_mode_value HYBRID = ''hybrid''"
| "search_mode_value AUTO_BY_EXTERNAL_AI = ''auto_by_external_ai''"

fun refine_op_value :: "refine_op \<Rightarrow> string" where
  "refine_op_value NARROW_BY_TAGS = ''narrow_by_tags''"
| "refine_op_value SEARCH_STATIC_TEXT = ''search_static_text''"
| "refine_op_value SEARCH_DYNAMIC_TEXT = ''search_dynamic_text''"
| "refine_op_value HYBRID_SEARCH_TEXT = ''hybrid_search_text''"
| "refine_op_value FILTER_BY_ANALYSIS_SCALE = ''filter_by_analysis_scale''"
| "refine_op_value APPLY_RRF_FUSION = ''apply_rrf_fusion''"
| "refine_op_value RERANK_CURRENT_CANDIDATES = ''rerank_current_candidates''"

definition start_search ::
  "search_service \<Rightarrow> search_env \<Rightarrow> start_request \<Rightarrow> authorized_scope \<Rightarrow> string option \<Rightarrow> string option \<Rightarrow>
   (search_db, exn, search_response) se" where
  "start_search svc env request sc session_id request_id =
    (if OBSERVATION_SEARCH \<notin> set (sc_capabilities sc) then se_raise (CapabilityDeniedError ''observation.search required'')
     else if sr_top_k request > ss_max_top_k svc
     then se_raise (LimitExceededError (''top_k exceeds max '' @ show_int (ss_max_top_k svc)))
     else let top_k = min (sr_top_k request) (ss_max_top_k svc)
     in se_bind (se_read (authorized_pool svc request sc)) (\<lambda>pool.
        se_bind (se_lift (\<lambda>s. rank_records svc s pool (sr_query_text request) (sr_search_mode request)
            (sr_tag_filters request) (sr_preferred_analysis_scales request) None)) (\<lambda>ranked.
        se_then (create_context
            \<lparr>sx_context_id = en_context_id env, sx_tenant_id = sc_tenant_id sc, sx_principal_id = sc_principal_id sc,
             sx_session_id = session_id, sx_authorized_scope_hash = sc_scope_hash sc,
             sx_dataset_revision = ''data_rev_mvp'', sx_mode = SNAPSHOT, sx_default_revision_id = None,
             sx_created_at = (en_now env, 0), sx_last_accessed_at = (en_now env, 0),
             sx_expires_at = (en_now env + ss_context_ttl_seconds svc * 1000000, 0), sx_status = ''active''\<rparr>)
          (finish_search env sc request_id (en_context_id env) session_id None ''start''
            [(''query_text'', case sr_query_text request of None \<Rightarrow> JNull | Some q \<Rightarrow> JStr q),
             (''search_mode'', JStr (search_mode_value (sr_search_mode request))), (''top_k'', JInt top_k)]
            (slice_to top_k ranked) pool))))"

definition active_context ::
  "search_service \<Rightarrow> int \<Rightarrow> string \<Rightarrow> authorized_scope \<Rightarrow> (search_db, exn, search_context) se" where
  "active_context svc now context_id sc =
    se_bind (se_read (get_context context_id)) (\<lambda>found.
      case found of
        None \<Rightarrow> se_raise (NotFoundError ''context not found'')
      | Some ctx \<Rightarrow>
        if sx_principal_id ctx \<noteq> sc_principal_id sc then se_raise (NotFoundError ''context not found'')
        else if sx_authorized_scope_hash ctx \<noteq> sc_scope_hash sc
        then se_then (se_write (store_close_context context_id))
               (se_raise (ContextExpiredError ''authorized scope changed; restart search''))
        else if sx_status ctx \<noteq> ''active'' then se_raise (ContextExpiredError ''context is not active'')
        else if now > iso_instant (sx_expires_at ctx)
        then se_then (se_write (expire_contexts now)) (se_raise (ContextExpiredError ''context expired''))
        else if now > iso_instant (sx_last_accessed_at ctx) + ss_context_idle_seconds svc * 1000000
        then se_then (se_write (expire_contexts now)) (se_raise (ContextExpiredError ''context idle-expired''))
        else se_ret ctx)"

definition enforce_revision_limit :: "search_service \<Rightarrow> string \<Rightarrow> (search_db, exn, unit) se" where
  "enforce_revision_limit svc context_id =
    se_bind (se_read (count_revisions context_id)) (\<lambda>n.
      if n \<ge> ss_max_revisions_per_context svc
      then se_raise (LimitExceededError (''context revisions exceed max '' @ show_int (ss_max_revisions_per_context svc)))
      else se_ret ())"

text \<open>\<^verbatim>\<open>isinstance(x, int)\<close> also holds of a bool.\<close>

definition refine_top_k :: "search_service \<Rightarrow> params \<Rightarrow> int" where
  "refine_top_k svc params =
    min (case map_of params ''top_k'' of
           Some (JInt i) \<Rightarrow> i
         | Some (JBool b) \<Rightarrow> of_bool b
         | _ \<Rightarrow> ss_max_top_k svc) (ss_max_top_k svc)"

definition refine_search ::
  "search_service \<Rightarrow> search_env \<Rightarrow> string \<Rightarrow> refine_request \<Rightarrow> authorized_scope \<Rightarrow> string option \<Rightarrow>
   (search_db, exn, search_response) se" where
  "refine_search svc env context_id request sc request_id =
    (if OBSERVATION_SEARCH \<notin> set (sc_capabilities sc) then se_raise (CapabilityDeniedError ''observation.search required'')
     else se_bind (active_context svc (en_now env) context_id sc) (\<lambda>ctx.
       se_bind (se_read (get_revision (rq_base_revision_id request))) (\<lambda>found.
       case found of
         None \<Rightarrow> se_raise (NotFoundError ''base revision not found in context'')
       | Some base \<Rightarrow>
         if rv_context_id base \<noteq> context_id then se_raise (NotFoundError ''base revision not found in context'')
         else se_bind (se_read (\<lambda>s. get_authorized_active_by_ids s
                (map cd_record_id (list_candidates (rv_revision_id base) (ss_max_candidates_per_revision svc) s)) sc))
           (\<lambda>records.
           let params = rq_params request;
               query_text = (case map_of params ''query_text'' of Some (JStr q) \<Rightarrow> Some q | _ \<Rightarrow> None)
           in se_bind (se_lift (\<lambda>s. apply_refine_op svc s (rq_op request) records params query_text)) (\<lambda>ranked.
              se_then (enforce_revision_limit svc context_id)
                (finish_search env sc request_id context_id (sx_session_id ctx) (Some (rv_revision_id base))
                  (refine_op_value (rq_op request)) params (slice_to (refine_top_k svc params) ranked) records))))))"

fun batch_refine_search ::
  "search_service \<Rightarrow> string \<Rightarrow> (search_env \<times> refine_request) list \<Rightarrow> authorized_scope \<Rightarrow> string option \<Rightarrow>
   (search_db, exn, search_response list) se" where
  "batch_refine_search svc context_id [] sc request_id = se_ret []"
| "batch_refine_search svc context_id ((env, req) # reqs) sc request_id =
    se_bind (refine_search svc env context_id req sc request_id) (\<lambda>resp.
      se_bind (batch_refine_search svc context_id reqs sc request_id) (\<lambda>resps. se_ret (resp # resps)))"

definition search_facets :: "search_service \<Rightarrow> int \<Rightarrow> string \<Rightarrow> authorized_scope \<Rightarrow> (search_db, exn, facets) se" where
  "search_facets svc now context_id sc =
    (if OBSERVATION_SEARCH \<notin> set (sc_capabilities sc) then se_raise (CapabilityDeniedError ''observation.search required'')
     else se_bind (active_context svc now context_id sc) (\<lambda>ctx.
       case sx_default_revision_id ctx of
         None \<Rightarrow> se_ret (build_facets [])
       | Some rid \<Rightarrow> se_read (\<lambda>s. build_facets (get_authorized_active_by_ids s
           (map cd_record_id (list_candidates rid (ss_max_candidates_per_revision svc) s)) sc))))"

definition search_close :: "string \<Rightarrow> authorized_scope \<Rightarrow> (search_db, exn, unit) se" where
  "search_close context_id sc =
    se_bind (se_read (get_context context_id)) (\<lambda>found.
      case found of
        None \<Rightarrow> se_raise (NotFoundError ''context not found'')
      | Some ctx \<Rightarrow>
        if sx_principal_id ctx \<noteq> sc_principal_id sc then se_raise (NotFoundError ''context not found'')
        else se_write (store_close_context context_id))"

section \<open>Ranking stays within its candidates\<close>

lemma keys_fold_dict:
  assumes "\<And>x d. x \<in> set xs \<Longrightarrow> fst ` set (g x d) \<subseteq> insert (k x) (fst ` set d)"
  shows "fst ` set (fold g xs d) \<subseteq> k ` set xs \<union> fst ` set d"
  using assms
proof (induction xs arbitrary: d)
  case Nil
  then show ?case by simp
next
  case (Cons x xs)
  from Cons.IH [of "g x d"] Cons.prems have "fst ` set (fold g xs (g x d)) \<subseteq> k ` set xs \<union> fst ` set (g x d)" by simp
  moreover have "fst ` set (g x d) \<subseteq> insert (k x) (fst ` set d)" using Cons.prems by simp
  ultimately show ?case by auto
qed

lemma keys_fold_dict_Nil:
  assumes "\<And>x d. x \<in> set xs \<Longrightarrow> fst ` set (g x d) \<subseteq> insert (k x) (fst ` set d)"
  shows "fst ` set (fold g xs []) \<subseteq> k ` set xs"
  using keys_fold_dict [of xs g k "[]", OF assms] by simp

lemma to_rank_map_keys: "fst ` set (to_rank_map d) = fst ` set d"
proof -
  let ?o = "sort_key (\<lambda>kv. (- snd kv, fst kv)) d"
  have "fst ` set (to_rank_map d) = (\<lambda>i. fst (?o ! i)) ` {0..<length ?o}"
    unfolding to_rank_map_def Let_def by force
  also have "\<dots> = fst ` set ?o" by (force simp: set_conv_nth)
  finally show ?thesis by simp
qed

lemma fts_search_keys: "fst ` set (fts_search bm25 table q ids) \<subseteq> set ids"
proof -
  have sub: "fst ` set (filter (\<lambda>row. fst row \<in> set ids) table) \<subseteq> set ids" by auto
  have keys: "fst ` set (fold (\<lambda>row result. case bm25 table m row of None \<Rightarrow> result | Some score \<Rightarrow> dict_set (fst row) (- score) result)
      (filter (\<lambda>row. fst row \<in> set ids) table) []) \<subseteq> fst ` set (filter (\<lambda>row. fst row \<in> set ids) table)" for m
    by (rule keys_fold_dict_Nil) (auto simp: keys_dict_set split: option.split)
  show ?thesis unfolding fts_search_def Let_def using order_trans [OF keys sub] by simp
qed

lemma fts_rank_keys: "fst ` set (fts_rank bm25 s q ids field) \<subseteq> set ids"
  by (cases "mem_fts s"; cases "field = ''tags''") (simp_all add: fts_rank_def fts_search_keys)

lemma keyword_relevance_keys: "fst ` set (keyword_relevance records q field) \<subseteq> ob_record_id ` set records"
proof -
  have "fst ` set (fold (\<lambda>rec out. let hits = text_hits terms (field_text field rec)
      in if hits = 0 then out else dict_set (ob_record_id rec) (of_nat hits) out) records []) \<subseteq> ob_record_id ` set records"
    for terms
    by (rule keys_fold_dict_Nil) (auto simp: keys_dict_set Let_def)
  then show ?thesis by (auto simp: keyword_relevance_def Let_def)
qed

lemma channel_scores_keys: "fst ` set (channel_scores svc s records q field) \<subseteq> ob_record_id ` set records"
  using fts_rank_keys [of "ss_bm25 svc" s q "map ob_record_id records" field] keyword_relevance_keys
  unfolding channel_scores_def Let_def by (auto split: if_splits)

lemma vector_channel_keys: "vector_channel svc s ids q t = Inr d \<Longrightarrow> fst ` set d \<subseteq> set ids"
proof -
  assume run: "vector_channel svc s ids q t = Inr d"
  let ?stored = "get_vectors_for_records (mem_vectors s) ids (Some t)"
  have fold: "fst ` set (fold (\<lambda>sv out. let similarity = cosine_similarity (ss_fl svc) qv (sv_embedding sv)
      in if similarity > 0 then dict_set (sv_record_id sv) similarity out else out) ?stored []) \<subseteq> sv_record_id ` set ?stored"
    for qv
    by (rule keys_fold_dict_Nil) (auto simp: keys_dict_set Let_def)
  have "sv_record_id ` set ?stored \<subseteq> set ids" by (auto simp: get_vectors_for_records_def)
  with fold run show ?thesis
    by (auto simp: vector_channel_def Let_def split: option.splits if_splits sum.splits dest!: subsetD)
qed

lemma combined_vec_keys: "fst ` set (combined_vec ids a b) \<subseteq> set ids"
proof -
  have "fst ` set (combined_vec ids a b) \<subseteq> (\<lambda>i. i) ` set ids"
    unfolding combined_vec_def by (rule keys_fold_dict_Nil) (auto simp: keys_dict_set split: option.split)
  then show ?thesis by simp
qed

lemma fuse_and_order_ids:
  assumes "fuse_and_order svc rids inputs = Inr res"
  shows "fst ` set res = set rids" and "distinct (map fst res)"
proof -
  from assms obtain fused where fused: "rrf_fuse (ss_fl svc) rids inputs (ss_weights svc) = Inr fused"
    and res: "res = map (\<lambda>(rid, score, detail). (rid, score, (detail, None))) (order_candidates fused)"
    by (auto simp: fuse_and_order_def split: sum.splits)
  have ids: "map fst res = map fst (order_candidates fused)" unfolding res by (induction "order_candidates fused") auto
  have loop: "fst ` set fused = set rids" "distinct (map fst fused)"
    using rrf_loop_result [OF fused [unfolded rrf_fuse_def]] by simp_all
  have "fst ` set res = set (map fst (order_candidates fused))" by (simp flip: ids)
  also have "\<dots> = fst ` set fused" by (simp add: order_candidates_def)
  finally show "fst ` set res = set rids" using loop(1) by simp
  show "distinct (map fst res)"
    using ids loop(2) by (simp add: order_candidates_def distinct_map_sort_key)
qed

lemma matched_ids_keys:
  "set (matched_ids inputs) =
    fst ` set (ci_static_ranks inputs) \<union> fst ` set (ci_dynamic_ranks inputs) \<union> fst ` set (ci_vector_ranks inputs)"
  by (auto simp: matched_ids_def)

lemma rank_records_ids:
  assumes "rank_records svc s records q mode tags preferred uv = Inr res"
  shows "fst ` set res \<subseteq> ob_record_id ` set records \<and> distinct (map fst res)"
proof (cases "records = []")
  case True
  with assms show ?thesis by (simp add: rank_records_def)
next
  case False
  have "\<exists>rids inputs. fuse_and_order svc rids inputs = Inr res \<and> set rids \<subseteq> ob_record_id ` set records"
  proof (cases "truthy q")
    case False
    with assms \<open>records \<noteq> []\<close> show ?thesis by (fastforce simp: rank_records_def Let_def)
  next
    case True
    note keys = channel_scores_keys [of svc s records] combined_vec_keys [of "map ob_record_id records"]
    from assms True \<open>records \<noteq> []\<close> obtain sv dv inputs where
      fo: "fuse_and_order svc (if matched_ids inputs \<noteq> [] then matched_ids inputs else map ob_record_id records) inputs = Inr res"
      and st: "ci_static_ranks inputs = to_rank_map (if uses_static mode then channel_scores svc s records (the q) ''static'' else [])"
      and dy: "ci_dynamic_ranks inputs = to_rank_map (if uses_dynamic mode then channel_scores svc s records (the q) ''dynamic'' else [])"
      and ve: "ci_vector_ranks inputs = to_rank_map (combined_vec (map ob_record_id records) sv dv)"
      by (auto simp: rank_records_def Let_def split: sum.splits)
    have "set (matched_ids inputs) \<subseteq> ob_record_id ` set records"
      unfolding matched_ids_keys st dy ve to_rank_map_keys by (intro Un_least) (use keys in \<open>auto split: if_splits dest!: subsetD\<close>)
    with fo show ?thesis by (intro exI [of _ "if matched_ids inputs \<noteq> [] then matched_ids inputs else map ob_record_id records"]) auto
  qed
  then show ?thesis using fuse_and_order_ids by blast
qed

lemma slice_split: "slice_to k xs @ slice_from k xs = xs"
  by (simp add: slice_to_def slice_from_def)

lemma set_slice_to: "set (slice_to k xs) \<subseteq> set xs"
  by (metis Un_upper1 set_append slice_split)

lemma distinct_slice_to: "distinct (map f xs) \<Longrightarrow> distinct (map f (slice_to k xs))"
  by (metis distinct_append map_append slice_split)

lemma cross_encoder_permutes:
  assumes "apply_cross_encoder svc ranked records q = Inr res"
  shows "mset (map fst res) = mset (map fst ranked)"
proof (cases "res = ranked")
  case True
  then show ?thesis by simp
next
  case False
  with assms obtain g where
    res: "res = sort_key (\<lambda>x. (- fst (snd x), fst x)) (map g (slice_to (ss_rerank_top_n svc) ranked)) @
      slice_from (ss_rerank_top_n svc) ranked"
    and g: "\<And>x. fst (g x) = fst x"
    by (auto simp: apply_cross_encoder_def Let_def split: option.splits if_splits sum.splits)
  have "mset (map fst res) = mset (map fst (slice_to (ss_rerank_top_n svc) ranked @ slice_from (ss_rerank_top_n svc) ranked))"
    by (simp add: res g multiset.map_comp comp_def)
  then show ?thesis by (simp only: slice_split)
qed

lemma apply_refine_op_ids:
  assumes "apply_refine_op svc s op records params q = Inr res"
  shows "fst ` set res \<subseteq> ob_record_id ` set records \<and> distinct (map fst res)"
proof -
  have sub: "rank_records svc s rs q' m t p uv = Inr res \<Longrightarrow> set rs \<subseteq> set records \<Longrightarrow> ?thesis" for rs q' m t p uv
    using rank_records_ids by blast
  have rer: "?thesis" if "rank_records svc s records q HYBRID t [] (Some True) = Inr ranked"
    and "apply_cross_encoder svc ranked records q = Inr res" for t ranked
  proof -
    have "mset (map fst res) = mset (map fst ranked)" by (rule cross_encoder_permutes [OF that(2)])
    then have "set (map fst res) = set (map fst ranked)" "distinct (map fst res) = distinct (map fst ranked)"
      by (rule mset_eq_setD, rule mset_eq_imp_distinct_iff)
    with rank_records_ids [OF that(1)] show ?thesis by simp
  qed
  have "(\<exists>rs q' m t p uv. rank_records svc s rs q' m t p uv = Inr res \<and> set rs \<subseteq> set records) \<or>
    (\<exists>t ranked. rank_records svc s records q HYBRID t [] (Some True) = Inr ranked \<and>
       apply_cross_encoder svc ranked records q = Inr res)"
    using assms unfolding apply_refine_op_def Let_def
    by (cases op) (simp_all split: sum.splits if_splits, (metis filter_is_subset order_refl)+)
  then show ?thesis using sub rer by blast
qed

section \<open>What a search stores and returns\<close>

lemma records_index_snoc: "records_index (rs @ [r]) = dict_set (ob_record_id r) r (records_index rs)"
  by (simp add: records_index_def)

lemma records_index_Some: "map_of (records_index rs) i = Some r \<Longrightarrow> r \<in> set rs \<and> ob_record_id r = i"
  by (induction rs rule: rev_induct) (auto simp: records_index_snoc map_of_dict_set records_index_def [of "[]"] split: if_splits)

lemma records_index_None: "i \<in> ob_record_id ` set rs \<Longrightarrow> map_of (records_index rs) i \<noteq> None"
  by (induction rs rule: rev_induct) (auto simp: records_index_snoc map_of_dict_set)

lemma map_filter_all_Some:
  "(\<And>x. x \<in> set xs \<Longrightarrow> f x \<noteq> None) \<Longrightarrow> List.map_filter f xs = map (\<lambda>x. the (f x)) xs"
  by (simp add: List.map_filter_def comp_def)

lemma map_enumerate_snd: "map (\<lambda>p. g (snd p)) (enumerate n xs) = map g xs"
  by (induction xs arbitrary: n) simp_all

lemma map_enumerate_fst: "map (\<lambda>p. g (fst p)) (enumerate n xs) = map g [n..<n + length xs]"
  by (induction xs arbitrary: n) (simp_all add: upt_rec)

lemma in_enumerate: "p \<in> set (enumerate n xs) \<Longrightarrow> snd p \<in> set xs"
  by (induction xs arbitrary: n) auto

lemma to_results_fields:
  assumes "fst ` set ordered \<subseteq> ob_record_id ` set records"
  shows "map ri_record_id (to_results ordered (records_index records)) = map fst ordered"
    and "map ri_rank (to_results ordered (records_index records)) = map (\<lambda>i. int i + 1) [0..<length ordered]"
proof -
  have ex: "map_of (records_index records) (fst (snd p)) \<noteq> None" if "p \<in> set (enumerate 0 ordered)" for p
    using that assms by (intro records_index_None) (auto dest: in_enumerate)
  have res: "to_results ordered (records_index records) = map (\<lambda>p. the (case p of (i, (rid, score, detail)) \<Rightarrow>
     map_option (\<lambda>rec.
       \<lparr>ri_record_id = rid, ri_rank = int i + 1, ri_score = score, ri_score_detail = detail,
        ri_preview_text = take 200 (ob_static_description_text rec), ri_analysis_scale = ob_analysis_scale rec,
        ri_observed_start_time = ob_observed_start_time rec, ri_observed_end_time = ob_observed_end_time rec\<rparr>)
     (map_of (records_index records) rid))) (enumerate 0 ordered)"
    unfolding to_results_def using ex by (intro map_filter_all_Some) (fastforce split: prod.splits)
  have "map ri_record_id (to_results ordered (records_index records)) = map (\<lambda>p. fst (snd p)) (enumerate 0 ordered)"
    unfolding res using ex by (fastforce split: prod.splits)
  then show "map ri_record_id (to_results ordered (records_index records)) = map fst ordered"
    by (simp add: map_enumerate_snd [of fst])
  have "map ri_rank (to_results ordered (records_index records)) = map (\<lambda>p. int (fst p) + 1) (enumerate 0 ordered)"
    unfolding res using ex by (fastforce split: prod.splits)
  then show "map ri_rank (to_results ordered (records_index records)) = map (\<lambda>i. int i + 1) [0..<length ordered]"
    by (simp add: map_enumerate_fst [of "\<lambda>i. int i + 1"])
qed

lemma revision_records_fields:
  assumes "fst ` set ordered \<subseteq> ob_record_id ` set records"
  shows "set (revision_records ordered (records_index records)) \<subseteq> set records"
    and "map ob_record_id (revision_records ordered (records_index records)) = map fst ordered"
proof -
  have ex: "\<exists>r. map_of (records_index records) (fst x) = Some r \<and> r \<in> set records \<and> ob_record_id r = fst x"
    if "x \<in> set ordered" for x
    using that assms records_index_None [of "fst x" records] records_index_Some [of records "fst x"] by auto
  have "revision_records ordered (records_index records) = map (\<lambda>x. the (map_of (records_index records) (fst x))) ordered"
    unfolding revision_records_def by (rule map_filter_all_Some) (use ex in fastforce)
  then show "set (revision_records ordered (records_index records)) \<subseteq> set records"
    and "map ob_record_id (revision_records ordered (records_index records)) = map fst ordered"
    using ex by fastforce+
qed

lemma add_candidate_ok: "add_candidate c s = (Inr u, s') \<Longrightarrow> s' = s\<lparr>sdb_candidates := sdb_candidates s @ [c]\<rparr>"
  by (simp add: add_candidate_def row_ins_def split: option.splits if_splits)

lemma add_candidates_ok:
  "se_iter add_candidate cs s = (Inr u, s') \<Longrightarrow> s' = s\<lparr>sdb_candidates := sdb_candidates s @ cs\<rparr>"
proof (induction cs arbitrary: s)
  case Nil
  then show ?case by simp
next
  case (Cons c cs)
  then obtain s1 where "add_candidate c s = (Inr (), s1)" and "se_iter add_candidate cs s1 = (Inr u, s')"
    by (auto simp: se_simps split: prod.splits sum.splits)
  with Cons.IH [of s1] add_candidate_ok [of c s "()" s1] show ?case by simp
qed

text \<open>The candidate rows of a ranking.\<close>

definition candidate_rows :: "string \<Rightarrow> ranked \<Rightarrow> search_candidate list" where
  "candidate_rows revision_id ordered = map (\<lambda>(i, (rid, score, detail)).
     \<lparr>cd_revision_id = revision_id, cd_record_id = rid, cd_rank = int i + 1, cd_score = score,
      cd_score_detail = detail\<rparr>) (enumerate 0 ordered)"

lemma candidate_rows_fields:
  "map cd_record_id (candidate_rows k ordered) = map fst ordered"
  "c \<in> set (candidate_rows k ordered) \<Longrightarrow> cd_revision_id c = k"
proof -
  have "map cd_record_id (candidate_rows k ordered) = map (\<lambda>p. fst (snd p)) (enumerate 0 ordered)"
    unfolding candidate_rows_def by (auto split: prod.splits)
  then show "map cd_record_id (candidate_rows k ordered) = map fst ordered" by (simp add: map_enumerate_snd [of fst])
  show "c \<in> set (candidate_rows k ordered) \<Longrightarrow> cd_revision_id c = k"
    by (auto simp: candidate_rows_def split: prod.splits)
qed

lemma finish_search_ok:
  assumes run: "finish_search env sc rq cid sid parent op ps ordered records s = (Inr resp, s')"
    and ids: "fst ` set ordered \<subseteq> ob_record_id ` set records"
  obtains rvn where
    "map ri_record_id (rp_results resp) = map fst ordered"
    "map ri_rank (rp_results resp) = map (\<lambda>i. int i + 1) [0..<length ordered]"
    "rp_candidate_count resp = length ordered" "rp_revision_id resp = en_revision_id env" "rp_context_id resp = cid"
    "rp_facets resp = build_facets (revision_records ordered (records_index records))"
    "sdb_revisions s' = sdb_revisions s @ [rvn]" "get_revision (en_revision_id env) s = None"
    "rv_revision_id rvn = en_revision_id env" "rv_context_id rvn = cid" "rv_facets rvn = rp_facets resp"
    "rv_candidate_count rvn = length ordered"
    "sdb_candidates s' = sdb_candidates s @ candidate_rows (en_revision_id env) ordered"
    "sdb_contexts s' = sdb_contexts (replace_default_revision cid (en_revision_id env) (iso_of (en_touch_now env) (en_tz env)) s)"
    "mem_records s' = mem_records s"
    "\<exists>ev. mem_audit s' = mem_audit s @ [ev] \<and> ae_record_ids ev = map fst ordered \<and> ae_principal_id ev = Some (sc_principal_id sc)"
proof -
  define rvn where "rvn = \<lparr>rv_revision_id = en_revision_id env, rv_context_id = cid, rv_parent_revision_id = parent,
           rv_op = op, rv_op_params = ps, rv_candidate_count = length ordered,
           rv_facets = build_facets (revision_records ordered (records_index records)), rv_created_at = (en_revision_now env, 0)\<rparr>"
  have rid: "rv_revision_id rvn = en_revision_id env" by (simp add: rvn_def)
  from run obtain s1 where create: "create_revision rvn (candidate_rows (en_revision_id env) ordered) s = (Inr (), s1)"
    and audit: "audit_query env rq sc cid sid (map ri_record_id (to_results ordered (records_index records)))
       (replace_default_revision cid (en_revision_id env) (iso_of (en_touch_now env) (en_tz env)) s1) = (Inr (), s')"
    and resp: "resp = \<lparr>rp_context_id = cid, rp_revision_id = en_revision_id env,
       rp_candidate_count = length (to_results ordered (records_index records)), rp_facets = rv_facets rvn,
       rp_results = to_results ordered (records_index records)\<rparr>"
    by (auto simp: finish_search_def persist_revision_def Let_def se_simps candidate_rows_def [symmetric]
        rvn_def [symmetric] rid split: prod.splits sum.splits)
  from create have fresh: "get_revision (en_revision_id env) s = None"
    and "se_iter add_candidate (candidate_rows (en_revision_id env) ordered)
      (s\<lparr>sdb_revisions := sdb_revisions s @ [rvn]\<rparr>) = (Inr (), s1)"
    by (auto simp: create_revision_def rid split: if_splits)
  then have s1: "s1 = s\<lparr>sdb_revisions := sdb_revisions s @ [rvn],
      sdb_candidates := sdb_candidates s @ candidate_rows (en_revision_id env) ordered\<rparr>"
    using add_candidates_ok by fastforce
  note fields = to_results_fields [OF ids]
  have len: "length (to_results ordered (records_index records)) = length ordered"
    by (metis fields(1) length_map)
  note s' = append_event_ok [OF audit [unfolded audit_query_def]]
  show thesis
    by (rule that [of rvn]) (simp_all add: resp s' s1 rvn_def fields len fresh replace_default_revision_def)
qed

section \<open>The steps of start and refine\<close>

lemma start_search_ok:
  assumes run: "start_search svc env request sc sid rid s = (Inr resp, s')"
  obtains ctx ranked where
    "OBSERVATION_SEARCH \<in> set (sc_capabilities sc)" "sr_top_k request \<le> ss_max_top_k svc"
    "rank_records svc s (authorized_pool svc request sc s) (sr_query_text request) (sr_search_mode request)
       (sr_tag_filters request) (sr_preferred_analysis_scales request) None = Inr ranked"
    "sx_context_id ctx = en_context_id env" "get_context (en_context_id env) s = None"
    "sx_principal_id ctx = sc_principal_id sc" "sx_authorized_scope_hash ctx = sc_scope_hash sc"
    "\<exists>op ps. finish_search env sc rid (en_context_id env) sid None op ps
       (slice_to (sr_top_k request) ranked) (authorized_pool svc request sc s)
       (s\<lparr>sdb_contexts := sdb_contexts s @ [ctx]\<rparr>) = (Inr resp, s')"
proof -
  define ctx where "ctx = \<lparr>sx_context_id = en_context_id env, sx_tenant_id = sc_tenant_id sc,
             sx_principal_id = sc_principal_id sc,
             sx_session_id = sid, sx_authorized_scope_hash = sc_scope_hash sc,
             sx_dataset_revision = ''data_rev_mvp'', sx_mode = SNAPSHOT, sx_default_revision_id = None,
             sx_created_at = (en_now env, 0), sx_last_accessed_at = (en_now env, 0),
             sx_expires_at = (en_now env + ss_context_ttl_seconds svc * 1000000, 0), sx_status = ''active''\<rparr>"
  have cap: "OBSERVATION_SEARCH \<in> set (sc_capabilities sc)" and top: "sr_top_k request \<le> ss_max_top_k svc"
    using run by (auto simp: start_search_def split: if_splits)
  note run' = run [unfolded start_search_def, folded ctx_def]
  from run' cap top obtain ranked s1 where
    rank: "rank_records svc s (authorized_pool svc request sc s) (sr_query_text request) (sr_search_mode request)
       (sr_tag_filters request) (sr_preferred_analysis_scales request) None = Inr ranked"
    and create: "create_context ctx s = (Inr (), s1)"
    and fin: "\<exists>op ps. finish_search env sc rid (en_context_id env) sid None op ps
       (slice_to (sr_top_k request) ranked) (authorized_pool svc request sc s) s1 = (Inr resp, s')"
    by (auto simp: Let_def se_simps split: prod.splits sum.splits)
  from create have "s1 = s\<lparr>sdb_contexts := sdb_contexts s @ [ctx]\<rparr>" and "get_context (en_context_id env) s = None"
    by (auto simp: create_context_def row_ins_def row_get_None_iff ctx_def split: option.splits if_splits)
  with fin rank cap top show thesis by (intro that [of ranked ctx]) (simp_all add: ctx_def)
qed

lemma active_context_ok:
  assumes "active_context svc now cid sc s = (Inr ctx, s')"
  shows "s' = s" and "get_context cid s = Some ctx" and "sx_principal_id ctx = sc_principal_id sc"
    and "sx_authorized_scope_hash ctx = sc_scope_hash sc" and "sx_status ctx = ''active''"
    and "now \<le> iso_instant (sx_expires_at ctx)"
    and "now \<le> iso_instant (sx_last_accessed_at ctx) + ss_context_idle_seconds svc * 1000000"
  using assms by (auto simp: active_context_def se_simps split: option.splits if_splits)

lemma refine_search_ok:
  assumes run: "refine_search svc env cid request sc rid s = (Inr resp, s')"
  obtains ctx base ranked records where
    "OBSERVATION_SEARCH \<in> set (sc_capabilities sc)"
    "active_context svc (en_now env) cid sc s = (Inr ctx, s)"
    "get_revision (rq_base_revision_id request) s = Some base" "rv_context_id base = cid"
    "records = get_authorized_active_by_ids s
       (map cd_record_id (list_candidates (rv_revision_id base) (ss_max_candidates_per_revision svc) s)) sc"
    "fst ` set ranked \<subseteq> ob_record_id ` set records" "distinct (map fst ranked)"
    "count_revisions cid s < ss_max_revisions_per_context svc"
    "\<exists>sid op. finish_search env sc rid cid sid (Some (rv_revision_id base)) op (rq_params request)
       (slice_to (refine_top_k svc (rq_params request)) ranked) records s = (Inr resp, s')"
proof -
  have cap: "OBSERVATION_SEARCH \<in> set (sc_capabilities sc)"
    using run by (auto simp: refine_search_def split: if_splits)
  with run obtain ctx s1 where act: "active_context svc (en_now env) cid sc s = (Inr ctx, s1)"
    by (cases "active_context svc (en_now env) cid sc s"; cases "fst (active_context svc (en_now env) cid sc s)")
      (auto simp: refine_search_def se_simps)
  note s1 = active_context_ok(1) [OF act]
  from run cap act s1 obtain base where base: "get_revision (rq_base_revision_id request) s = Some base"
    and ctxid: "rv_context_id base = cid"
    by (auto simp: refine_search_def se_simps split: option.splits if_splits)
  define records where "records = get_authorized_active_by_ids s
       (map cd_record_id (list_candidates (rv_revision_id base) (ss_max_candidates_per_revision svc) s)) sc"
  define q where "q = (case map_of (rq_params request) ''query_text'' of Some (JStr q) \<Rightarrow> Some q | _ \<Rightarrow> None)"
  have run': "(case apply_refine_op svc s (rq_op request) records (rq_params request) q of Inl e \<Rightarrow> (Inl e, s)
     | Inr ranked \<Rightarrow> se_then (enforce_revision_limit svc cid)
         (finish_search env sc rid cid (sx_session_id ctx) (Some (rv_revision_id base)) (refine_op_value (rq_op request))
           (rq_params request) (slice_to (refine_top_k svc (rq_params request)) ranked) records) s) = (Inr resp, s')"
    using run cap act base ctxid s1
    by (simp add: refine_search_def se_bind_apply Let_def records_def [symmetric] q_def [symmetric] split: sum.splits)
  then obtain ranked where op: "apply_refine_op svc s (rq_op request) records (rq_params request) q = Inr ranked"
    and rest: "se_then (enforce_revision_limit svc cid)
         (finish_search env sc rid cid (sx_session_id ctx) (Some (rv_revision_id base)) (refine_op_value (rq_op request))
           (rq_params request) (slice_to (refine_top_k svc (rq_params request)) ranked) records) s = (Inr resp, s')"
    by (auto split: sum.splits)
  have lim: "count_revisions cid s < ss_max_revisions_per_context svc"
    using rest by (auto simp: enforce_revision_limit_def se_simps split: if_splits)
  with rest have "finish_search env sc rid cid (sx_session_id ctx) (Some (rv_revision_id base)) (refine_op_value (rq_op request))
           (rq_params request) (slice_to (refine_top_k svc (rq_params request)) ranked) records s = (Inr resp, s')"
    by (simp add: enforce_revision_limit_def se_simps)
  with that [OF cap _ base ctxid records_def _ _ lim] act s1 apply_refine_op_ids [OF op] show thesis by blast
qed

lemma slice_to_ids:
  "fst ` set ranked \<subseteq> ids \<Longrightarrow> fst ` set (slice_to k ranked) \<subseteq> ids"
  using set_slice_to by fastforce

lemma length_slice_to: "0 \<le> k \<Longrightarrow> int (length (slice_to k xs)) \<le> k"
  by (simp add: slice_to_def)

section \<open>Revisions\<close>

definition search_ok :: "search_service \<Rightarrow> search_db \<Rightarrow> bool" where
  "search_ok svc s = (keys_ok sx_context_id (sdb_contexts s) \<and> keys_ok rv_revision_id (sdb_revisions s) \<and>
     (\<forall>r \<in> set (sdb_revisions s). rv_context_id r \<in> sx_context_id ` set (sdb_contexts s)) \<and>
     (\<forall>c. count_revisions c s \<le> max 1 (ss_max_revisions_per_context svc)))"

text \<open>One request, or one publication beside it, each in its own transaction.\<close>

inductive search_step :: "search_service \<Rightarrow> search_db \<Rightarrow> search_db \<Rightarrow> bool" for svc where
  start: "search_step svc s (snd (session_scope (start_search svc env request sc sid rid) s))"
| refine: "search_step svc s (snd (session_scope (refine_search svc env cid rq sc rid) s))"
| batch: "search_step svc s (snd (session_scope (batch_refine_search svc cid reqs sc rid) s))"
| facets: "search_step svc s (snd (session_scope (search_facets svc now cid sc) s))"
| close: "search_step svc s (snd (session_scope (search_close cid sc) s))"
| publish: "search_step svc s (snd (publish_records_atomically t hist audit_id command s))"

text \<open>What every step keeps: the invariant, and the revisions and candidates there are.\<close>

definition search_extends :: "search_db \<Rightarrow> search_db \<Rightarrow> bool" where
  "search_extends s s' =
    ((\<exists>new. sdb_revisions s' = sdb_revisions s @ new \<and>
        (\<forall>r \<in> set new. get_revision (rv_revision_id r) s = None)) \<and>
     (\<exists>cs. sdb_candidates s' = sdb_candidates s @ cs \<and>
        (\<forall>c \<in> set cs. get_revision (cd_revision_id c) s = None)))"

lemma search_extends_refl: "search_extends s s"
  by (simp add: search_extends_def)

lemma search_extends_trans: "search_extends s t \<Longrightarrow> search_extends t u \<Longrightarrow> search_extends s u"
proof -
  assume st: "search_extends s t" and tu: "search_extends t u"
  then obtain n1 c1 where t: "sdb_revisions t = sdb_revisions s @ n1" "sdb_candidates t = sdb_candidates s @ c1"
    and fresh1: "\<forall>r \<in> set n1. get_revision (rv_revision_id r) s = None" "\<forall>c \<in> set c1. get_revision (cd_revision_id c) s = None"
    by (auto simp: search_extends_def)
  from tu obtain n2 c2 where u: "sdb_revisions u = sdb_revisions t @ n2" "sdb_candidates u = sdb_candidates t @ c2"
    and fresh2: "\<forall>r \<in> set n2. get_revision (rv_revision_id r) t = None" "\<forall>c \<in> set c2. get_revision (cd_revision_id c) t = None"
    by (auto simp: search_extends_def)
  have "get_revision k s = None" if "get_revision k t = None" for k
    using that by (simp add: row_get_None_iff t image_Un)
  with fresh2 fresh1 t u show ?thesis unfolding search_extends_def by auto
qed

lemma finish_search_keeps:
  assumes ok: "search_ok svc s" and known: "cid \<in> sx_context_id ` set (sdb_contexts s)"
    and room: "count_revisions cid s < max 1 (ss_max_revisions_per_context svc)"
    and run: "finish_search env sc rq cid sid parent op ps ordered records s = (Inr resp, s')"
    and ids: "fst ` set ordered \<subseteq> ob_record_id ` set records"
  shows "search_ok svc s' \<and> search_extends s s'"
proof -
  obtain rvn where rev: "sdb_revisions s' = sdb_revisions s @ [rvn]" "get_revision (en_revision_id env) s = None"
    "rv_revision_id rvn = en_revision_id env" "rv_context_id rvn = cid"
    and cand: "sdb_candidates s' = sdb_candidates s @ candidate_rows (en_revision_id env) ordered"
    and ctxs: "sdb_contexts s' = sdb_contexts (replace_default_revision cid (en_revision_id env) (iso_of (en_touch_now env) (en_tz env)) s)"
    using finish_search_ok [OF run ids] by blast
  have keys: "map sx_context_id (sdb_contexts s') = map sx_context_id (sdb_contexts s)"
    by (simp add: ctxs replace_default_revision_def map_key_row_upd)
  then have same: "sx_context_id ` set (sdb_contexts s') = sx_context_id ` set (sdb_contexts s)"
    by (metis list.set_map)
  have cnt: "count_revisions c s' = count_revisions c s + (if c = cid then 1 else 0)" for c
    by (simp add: count_revisions_def rev)
  have "rv_revision_id rvn \<notin> rv_revision_id ` set (sdb_revisions s)" using rev(2,3) by (simp add: row_get_None_iff)
  moreover have "count_revisions c s' \<le> max 1 (ss_max_revisions_per_context svc)" for c
  proof -
    have "count_revisions c s \<le> max 1 (ss_max_revisions_per_context svc)" using ok by (simp add: search_ok_def)
    with room show ?thesis by (simp add: cnt)
  qed
  ultimately have "search_ok svc s'"
    using ok known keys by (auto simp: search_ok_def rev same keys_ok_def)
  moreover have "search_extends s s'"
    using rev candidate_rows_fields(2) by (fastforce simp: search_extends_def cand)
  ultimately show ?thesis ..
qed

lemma start_keeps:
  assumes ok: "search_ok svc s" and run: "start_search svc env request sc sid rid s = (Inr resp, s')"
  shows "search_ok svc s' \<and> search_extends s s'"
proof -
  obtain ctx ranked op ps where
    rank: "rank_records svc s (authorized_pool svc request sc s) (sr_query_text request) (sr_search_mode request)
       (sr_tag_filters request) (sr_preferred_analysis_scales request) None = Inr ranked"
    and ctx: "sx_context_id ctx = en_context_id env" and new: "get_context (en_context_id env) s = None"
    and fin: "finish_search env sc rid (en_context_id env) sid None op ps
       (slice_to (sr_top_k request) ranked) (authorized_pool svc request sc s)
       (s\<lparr>sdb_contexts := sdb_contexts s @ [ctx]\<rparr>) = (Inr resp, s')"
    using start_search_ok [OF run] by metis
  let ?s = "s\<lparr>sdb_contexts := sdb_contexts s @ [ctx]\<rparr>"
  have fresh: "en_context_id env \<notin> sx_context_id ` set (sdb_contexts s)" using new by (simp add: row_get_None_iff)
  with ok have "\<forall>r \<in> set (sdb_revisions s). rv_context_id r \<noteq> en_context_id env"
    unfolding search_ok_def by metis
  then have "count_revisions (en_context_id env) ?s = 0" by (simp add: count_revisions_def count_where_0_iff)
  moreover have "search_ok svc ?s" using ok fresh ctx by (auto simp: search_ok_def keys_ok_def count_revisions_def)
  moreover have "fst ` set (slice_to (sr_top_k request) ranked) \<subseteq> ob_record_id ` set (authorized_pool svc request sc s)"
    by (rule slice_to_ids) (use rank_records_ids [OF rank] in blast)
  ultimately have "search_ok svc s' \<and> search_extends ?s s'"
    using finish_search_keeps [OF _ _ _ fin] ctx by force
  then show ?thesis by (simp add: search_extends_def)
qed

lemma refine_keeps:
  assumes ok: "search_ok svc s" and run: "refine_search svc env cid rq sc rid s = (Inr resp, s')"
  shows "search_ok svc s' \<and> search_extends s s'"
proof -
  obtain ctx ranked records sid op parent where
    act: "active_context svc (en_now env) cid sc s = (Inr ctx, s)"
    and ids: "fst ` set ranked \<subseteq> ob_record_id ` set records"
    and room: "count_revisions cid s < ss_max_revisions_per_context svc"
    and fin: "finish_search env sc rid cid sid parent op (rq_params rq)
       (slice_to (refine_top_k svc (rq_params rq)) ranked) records s = (Inr resp, s')"
    using refine_search_ok [OF run] by metis
  have "cid \<in> sx_context_id ` set (sdb_contexts s)"
    using row_get_Some [OF active_context_ok(2) [OF act]] by blast
  from finish_search_keeps [OF ok this _ fin slice_to_ids [OF ids]] room show ?thesis by simp
qed

lemma batch_keeps:
  "search_ok svc s \<Longrightarrow> batch_refine_search svc cid reqs sc rid s = (Inr resps, s') \<Longrightarrow>
   search_ok svc s' \<and> search_extends s s'"
proof (induction reqs arbitrary: s resps)
  case Nil
  then show ?case by (simp add: search_extends_refl)
next
  case (Cons q reqs)
  obtain env req where q: "q = (env, req)" by (cases q)
  from Cons.prems obtain r s1 rs where one: "refine_search svc env cid req sc rid s = (Inr r, s1)"
    and rest: "batch_refine_search svc cid reqs sc rid s1 = (Inr rs, s')"
    by (auto simp: q se_simps split: prod.splits sum.splits)
  from refine_keeps [OF Cons.prems(1) one] Cons.IH [OF _ rest] show ?case using search_extends_trans by blast
qed

lemma session_keeps:
  assumes "search_ok svc t" and "\<And>a u. m t = (Inr a, u) \<Longrightarrow> search_ok svc u \<and> search_extends t u"
  shows "search_ok svc (snd (session_scope m t)) \<and> search_extends t (snd (session_scope m t))"
  using session_scope_cases [of m t]
proof
  assume "snd (session_scope m t) = t"
  then show ?thesis using assms(1) search_extends_refl by simp
next
  assume "\<exists>a. m t = (Inr a, snd (session_scope m t))"
  then show ?thesis using assms(2) by blast
qed

lemma facets_keeps: "search_facets svc now cid sc s = (Inr r, s') \<Longrightarrow> s' = s"
proof -
  assume run: "search_facets svc now cid sc s = (Inr r, s')"
  then obtain ctx s1 where act: "active_context svc now cid sc s = (Inr ctx, s1)"
    by (cases "active_context svc now cid sc s"; cases "fst (active_context svc now cid sc s)")
      (auto simp: search_facets_def se_simps split: if_splits)
  from run act active_context_ok(1) [OF act] show ?thesis
    by (auto simp: search_facets_def se_simps split: if_splits option.splits)
qed

lemma close_keeps:
  assumes "search_ok svc s" and "search_close cid sc s = (Inr r, s')"
  shows "search_ok svc s' \<and> search_extends s s'"
proof -
  from assms(2) have s': "s' = store_close_context cid s"
    by (auto simp: search_close_def se_simps split: option.splits if_splits)
  have keys: "map sx_context_id (sdb_contexts s') = map sx_context_id (sdb_contexts s)"
    by (simp add: s' store_close_context_def map_key_row_upd)
  then have "sx_context_id ` set (sdb_contexts s') = sx_context_id ` set (sdb_contexts s)" by (metis list.set_map)
  with assms(1) keys show ?thesis
    by (simp add: search_ok_def s' store_close_context_def count_revisions_def keys_ok_def search_extends_def)
qed

lemma publish_keeps_more: "memory.more (snd (publish_records_atomically t hist audit_id command s)) = memory.more s"
proof -
  let ?P = "\<lambda>s'. memory.more s' = memory.more s"
  have one: "se_keeps ?P (publish_one command t h r)" for h r
    unfolding publish_one_def archive_record_def insert_record_def
    by (auto intro!: se_keepsI se_keeps_bind simp: se_simps row_ins_def split: option.splits if_splits)
  have loop: "se_keeps ?P (publish_loop command t hist n rs acc)" for n rs acc
    by (induction rs arbitrary: n acc) (use one in \<open>auto simp: se_keeps_ret split: prod.splits option.split intro!: se_keeps_bind\<close>)
  have "se_keeps ?P (append_event ev)" for ev
    by (auto intro!: se_keepsI simp: append_event_def row_ins_def split: option.splits if_splits)
  then have "se_keeps ?P (publish_records_atomically t hist audit_id command)"
    unfolding publish_records_atomically_def
    by (intro se_keeps_session se_keeps_bind loop)
      (auto split: prod.split intro!: se_keeps_then se_keeps_ret se_keeps_write)
  then show ?thesis by (simp add: se_keeps_def)
qed

section \<open>Properties\<close>

lemma pool_permitted:
  "r \<in> set (authorized_pool svc request sc s) \<Longrightarrow> r \<in> set (mem_records s) \<and> record_permitted sc r"
  unfolding authorized_pool_def by (rule sqlite_reads.pool_sound)

lemma finish_search_visible:
  assumes run: "finish_search env sc rq cid sid parent op ps ordered records s = (Inr resp, s')"
    and ids: "fst ` set ordered \<subseteq> ob_record_id ` set records" and dist: "distinct (map fst ordered)"
    and perm: "\<forall>r \<in> set records. r \<in> active \<and> record_permitted sc r"
  shows "map ri_record_id (rp_results resp) = map fst ordered"
    and "set (map ri_record_id (rp_results resp)) \<subseteq> visible_ids active sc"
    and "distinct (map ri_record_id (rp_results resp))"
    and "map ri_rank (rp_results resp) = map (\<lambda>i. int i + 1) [0..<length (rp_results resp)]"
    and "\<exists>rs. rp_facets resp = build_facets rs \<and> map ob_record_id rs = map ri_record_id (rp_results resp) \<and>
       (\<forall>r \<in> set rs. r \<in> active \<and> record_permitted sc r)"
    and "\<exists>cs. sdb_candidates s' = sdb_candidates s @ cs \<and> map cd_record_id cs = map ri_record_id (rp_results resp)"
    and "\<exists>ev. mem_audit s' = mem_audit s @ [ev] \<and> ae_record_ids ev = map ri_record_id (rp_results resp)"
proof -
  obtain rvn where res: "map ri_record_id (rp_results resp) = map fst ordered"
    and ranks: "map ri_rank (rp_results resp) = map (\<lambda>i. int i + 1) [0..<length ordered]"
    and fac: "rp_facets resp = build_facets (revision_records ordered (records_index records))"
    and cand: "sdb_candidates s' = sdb_candidates s @ candidate_rows (en_revision_id env) ordered"
    and aud: "\<exists>ev. mem_audit s' = mem_audit s @ [ev] \<and> ae_record_ids ev = map fst ordered \<and>
      ae_principal_id ev = Some (sc_principal_id sc)"
    by (rule finish_search_ok [OF run ids])
  have len: "length (rp_results resp) = length ordered" by (metis length_map res)
  show "map ri_record_id (rp_results resp) = map fst ordered" by (rule res)
  have "ob_record_id ` set records \<subseteq> visible_ids active sc" using perm unfolding visible_ids_def by blast
  with ids show "set (map ri_record_id (rp_results resp)) \<subseteq> visible_ids active sc" by (simp add: res)
  show "distinct (map ri_record_id (rp_results resp))" using dist by (simp only: res)
  show "map ri_rank (rp_results resp) = map (\<lambda>i. int i + 1) [0..<length (rp_results resp)]" by (simp only: ranks len)
  show "\<exists>rs. rp_facets resp = build_facets rs \<and> map ob_record_id rs = map ri_record_id (rp_results resp) \<and>
       (\<forall>r \<in> set rs. r \<in> active \<and> record_permitted sc r)"
    using fac revision_records_fields [OF ids] perm res by (metis subsetD)
  show "\<exists>cs. sdb_candidates s' = sdb_candidates s @ cs \<and> map cd_record_id cs = map ri_record_id (rp_results resp)"
    using cand candidate_rows_fields(1) res by metis
  show "\<exists>ev. mem_audit s' = mem_audit s @ [ev] \<and> ae_record_ids ev = map ri_record_id (rp_results resp)"
    using aud res by metis
qed

text \<open>
  C19. Whatever a started search returns, stores and counts lies in the caller's scope: the results
  are distinct active records that the scope permits, ranked 1 to n with n at most \<^verbatim>\<open>top_k\<close>; the facets
  are those of exactly these records; the stored candidates and the audited ids are exactly the
  results.
\<close>

theorem start_search_stays_in_scope:
  assumes "start_search svc env request sc sid rid s = (Inr resp, s')" and "1 \<le> sr_top_k request"
  shows "set (map ri_record_id (rp_results resp)) \<subseteq> visible_ids (set (mem_records s)) sc \<and>
    distinct (map ri_record_id (rp_results resp)) \<and>
    int (length (rp_results resp)) \<le> sr_top_k request \<and>
    map ri_rank (rp_results resp) = map (\<lambda>i. int i + 1) [0..<length (rp_results resp)] \<and>
    (\<exists>rs. rp_facets resp = build_facets rs \<and> map ob_record_id rs = map ri_record_id (rp_results resp) \<and>
       (\<forall>r \<in> set rs. r \<in> set (mem_records s) \<and> record_permitted sc r)) \<and>
    (\<exists>cs. sdb_candidates s' = sdb_candidates s @ cs \<and> map cd_record_id cs = map ri_record_id (rp_results resp)) \<and>
    (\<exists>ev. mem_audit s' = mem_audit s @ [ev] \<and> ae_record_ids ev = map ri_record_id (rp_results resp))"
proof -
  let ?pool = "authorized_pool svc request sc s"
  obtain ctx ranked op ps where
    rank: "rank_records svc s ?pool (sr_query_text request) (sr_search_mode request)
       (sr_tag_filters request) (sr_preferred_analysis_scales request) None = Inr ranked"
    and fin: "finish_search env sc rid (en_context_id env) sid None op ps
       (slice_to (sr_top_k request) ranked) ?pool (s\<lparr>sdb_contexts := sdb_contexts s @ [ctx]\<rparr>) = (Inr resp, s')"
    using start_search_ok [OF assms(1)] by metis
  let ?o = "slice_to (sr_top_k request) ranked"
  note in_pool = rank_records_ids [OF rank, THEN conjunct1] rank_records_ids [OF rank, THEN conjunct2]
  have ids: "fst ` set ?o \<subseteq> ob_record_id ` set ?pool" by (rule slice_to_ids [OF in_pool(1)])
  have dist: "distinct (map fst ?o)" by (rule distinct_slice_to [OF in_pool(2)])
  have perm: "\<forall>r \<in> set ?pool. r \<in> set (mem_records s) \<and> record_permitted sc r"
    by (intro ballI) (rule pool_permitted)
  note vis = finish_search_visible [OF fin ids dist perm]
  have "int (length ?o) \<le> sr_top_k request" using assms(2) by (intro length_slice_to) simp
  moreover have "length (rp_results resp) = length ?o" using vis(1) by (metis length_map)
  ultimately show ?thesis using vis(2-7) by simp
qed

definition ex_search_db :: search_db where
  "ex_search_db = \<lparr>mem_db = mem_db ex_memory, mem_records = [ex_record ''r1'' ''red car''], mem_history = [], mem_fts = None,
     mem_vectors = [], mem_audit = [], sdb_contexts = [], sdb_revisions = [], sdb_candidates = []\<rparr>"

definition ex_service :: search_service where
  "ex_service = \<lparr>ss_context_ttl_seconds = 900, ss_context_idle_seconds = 300, ss_max_top_k = 100,
     ss_max_candidates_per_revision = 1000, ss_max_revisions_per_context = 8, ss_weights = ex_weights,
     ss_embedder = None, ss_index = False, ss_vector_search_enabled = False, ss_reranker = None,
     ss_rerank_enabled = False, ss_rerank_top_n = 50, ss_bm25 = (\<lambda>_ _ _. None), ss_fl = (\<lambda>x. x)\<rparr>"

definition ex_env :: "string \<Rightarrow> search_env" where
  "ex_env k = \<lparr>en_context_id = ''ctx'', en_revision_id = k, en_audit_id = k, en_now = 0, en_revision_now = 0,
     en_touch_now = 0, en_audit_now = 0, en_tz = 0\<rparr>"

definition ex_start :: start_request where
  "ex_start = \<lparr>sr_query_text = None, sr_time_range = None, sr_camera_ids = [], sr_location_ids = [], sr_video_ids = [],
     sr_tag_filters = [], sr_preferred_text_fields = [], sr_analysis_scale_filter = [], sr_preferred_analysis_scales = [],
     sr_scale_strategy = None, sr_search_mode = HYBRID, sr_top_k = 10, sr_score_threshold = None\<rparr>"

lemmas ex_search_defs = ex_search_db_def ex_service_def ex_env_def ex_start_def ex_scope_def ex_record_def ex_weights_def

lemma ex_pool: "authorized_pool ex_service ex_start ex_scope ex_search_db = [ex_record ''r1'' ''red car'']"
  by (simp add: authorized_pool_def authorized_candidate_pool_def ex_search_defs authorized_observation_filter_def
      obs_resource_def allowed_levels_def all_security_levels_def allows_def structural_filter_def time_filter_def
      order_by_limit_def)

lemma ex_rank: "\<exists>x. rank_records ex_service ex_search_db [ex_record ''r1'' ''red car''] None HYBRID [] [] None = Inr [(''r1'', x)]"
  by (simp add: rank_records_def truthy_def fuse_and_order_def rrf_fuse_def rrf_one_def rrf_component_def
      order_candidates_def ex_search_defs empty_channels_def Let_def)

lemma ex_start_returns:
  "\<exists>resp s'. start_search ex_service (ex_env ''v1'') ex_start ex_scope None None ex_search_db = (Inr resp, s')"
proof -
  obtain x where rank: "rank_records ex_service ex_search_db [ex_record ''r1'' ''red car''] None HYBRID [] [] None = Inr [(''r1'', x)]"
    using ex_rank by blast
  have start: "sr_query_text ex_start = None" "sr_search_mode ex_start = HYBRID" "sr_tag_filters ex_start = []"
    "sr_preferred_analysis_scales ex_start = []" "sr_top_k ex_start = 10" "ss_max_top_k ex_service = 100"
    "OBSERVATION_SEARCH \<in> set (sc_capabilities ex_scope)" by (simp_all add: ex_search_defs)
  have db: "sdb_contexts ex_search_db = []" "sdb_revisions ex_search_db = []" "sdb_candidates ex_search_db = []"
    "mem_audit ex_search_db = []" by (simp_all add: ex_search_db_def)
  obtain y z where x: "x = (y, z)" by (cases x)
  show ?thesis
    by (simp add: start_search_def start ex_pool rank Let_def se_simps create_context_def row_ins_def
        finish_search_def persist_revision_def create_revision_def add_candidate_def audit_query_def append_event_def
        replace_default_revision_def db ex_env_def slice_to_def x)
qed

theorem start_search_stays_in_scope_witness:
  "\<exists>resp s'. start_search ex_service (ex_env ''v1'') ex_start ex_scope None None ex_search_db = (Inr resp, s') \<and>
     set (map ri_record_id (rp_results resp)) \<subseteq> visible_ids (set (mem_records ex_search_db)) ex_scope"
proof -
  obtain resp s' where run: "start_search ex_service (ex_env ''v1'') ex_start ex_scope None None ex_search_db = (Inr resp, s')"
    using ex_start_returns by blast
  have "1 \<le> sr_top_k ex_start" by (simp add: ex_start_def)
  from start_search_stays_in_scope [OF run this] run show ?thesis by blast
qed

text \<open>
  C20. Refining never widens: a refinement returns only on an active, unexpired, not idle context
  that the same principal started under the same scope hash and that has fewer revisions than the
  limit, and its results are records that the scope permits now and that are candidates of the base
  revision, which belongs to this context.
\<close>

theorem refine_never_widens:
  assumes "refine_search svc env cid rq sc rid s = (Inr resp, s')"
  shows "set (map ri_record_id (rp_results resp)) \<subseteq> visible_ids (set (mem_records s)) sc \<inter>
      {cd_record_id c | c. c \<in> set (sdb_candidates s) \<and> cd_revision_id c = rq_base_revision_id rq} \<and>
    distinct (map ri_record_id (rp_results resp)) \<and>
    (\<exists>base. get_revision (rq_base_revision_id rq) s = Some base \<and> rv_context_id base = cid) \<and>
    count_revisions cid s < ss_max_revisions_per_context svc \<and>
    (\<exists>ctx. get_context cid s = Some ctx \<and> sx_principal_id ctx = sc_principal_id sc \<and>
       sx_authorized_scope_hash ctx = sc_scope_hash sc \<and> sx_status ctx = ''active'' \<and>
       en_now env \<le> iso_instant (sx_expires_at ctx) \<and>
       en_now env \<le> iso_instant (sx_last_accessed_at ctx) + ss_context_idle_seconds svc * 1000000)"
proof -
  obtain ctx base ranked records sid op where
    act: "active_context svc (en_now env) cid sc s = (Inr ctx, s)"
    and base: "get_revision (rq_base_revision_id rq) s = Some base" "rv_context_id base = cid"
    and records: "records = get_authorized_active_by_ids s
       (map cd_record_id (list_candidates (rv_revision_id base) (ss_max_candidates_per_revision svc) s)) sc"
    and ids: "fst ` set ranked \<subseteq> ob_record_id ` set records" and dist: "distinct (map fst ranked)"
    and room: "count_revisions cid s < ss_max_revisions_per_context svc"
    and fin: "finish_search env sc rid cid sid (Some (rv_revision_id base)) op (rq_params rq)
       (slice_to (refine_top_k svc (rq_params rq)) ranked) records s = (Inr resp, s')"
    using refine_search_ok [OF assms] by metis
  have key: "rv_revision_id base = rq_base_revision_id rq" using base(1) by (rule row_get_key)
  have rec: "set records = {r \<in> set (mem_records s). ob_record_id r \<in> set (map cd_record_id
      (list_candidates (rv_revision_id base) (ss_max_candidates_per_revision svc) s)) \<and> record_permitted sc r}"
    unfolding records by (rule sqlite_reads.set_by_ids)
  have perm: "\<forall>r \<in> set records. r \<in> set (mem_records s) \<and> record_permitted sc r" unfolding rec by blast
  note vis = finish_search_visible [OF fin slice_to_ids [OF ids] distinct_slice_to [OF dist] perm]
  have "set (list_candidates k n s) \<subseteq> {c \<in> set (sdb_candidates s). cd_revision_id c = k}" for k n
    using set_order_by_limit unfolding list_candidates_def by fastforce
  then have cands: "ob_record_id ` set records \<subseteq>
      {cd_record_id c | c. c \<in> set (sdb_candidates s) \<and> cd_revision_id c = rq_base_revision_id rq}"
    unfolding rec key by fastforce
  have "set (map ri_record_id (rp_results resp)) \<subseteq> ob_record_id ` set records"
    using slice_to_ids [OF ids] by (simp add: vis(1))
  with cands vis(2) have sub: "set (map ri_record_id (rp_results resp)) \<subseteq> visible_ids (set (mem_records s)) sc \<inter>
      {cd_record_id c | c. c \<in> set (sdb_candidates s) \<and> cd_revision_id c = rq_base_revision_id rq}"
    by (meson Int_greatest order_trans)
  have "\<exists>ctx. get_context cid s = Some ctx \<and> sx_principal_id ctx = sc_principal_id sc \<and>
       sx_authorized_scope_hash ctx = sc_scope_hash sc \<and> sx_status ctx = ''active'' \<and>
       en_now env \<le> iso_instant (sx_expires_at ctx) \<and>
       en_now env \<le> iso_instant (sx_last_accessed_at ctx) + ss_context_idle_seconds svc * 1000000"
    using active_context_ok(2-7) [OF act] by (intro exI [of _ ctx]) simp
  with sub vis(3) room base show ?thesis by (simp only: simp_thms) blast
qed

text \<open>A context with one revision over the one record, for the examples.\<close>

definition ex_context :: search_context where
  "ex_context = \<lparr>sx_context_id = ''ctx'', sx_tenant_id = ''t'', sx_principal_id = ''u'', sx_session_id = None,
     sx_authorized_scope_hash = ''h'', sx_dataset_revision = ''data_rev_mvp'', sx_mode = SNAPSHOT,
     sx_default_revision_id = Some ''v1'', sx_created_at = (0, 0), sx_last_accessed_at = (0, 0),
     sx_expires_at = (900000000, 0), sx_status = ''active''\<rparr>"

definition ex_detail :: detail where
  "ex_detail = (\<lparr>sd_static_rank = Some 1, sd_dynamic_rank = None, sd_static_component = 0, sd_dynamic_component = 0,
     sd_tag_boost = 0, sd_analysis_scale_boost = 0, sd_rrf_score = 0, sd_final_score = 0, sd_config_version = [],
     sd_vector_rank = None, sd_vector_component = None, sd_static_score = None, sd_dynamic_score = None\<rparr>, None)"

definition ex_opened :: search_db where
  "ex_opened = ex_search_db\<lparr>sdb_contexts := [ex_context],
     sdb_revisions := [\<lparr>rv_revision_id = ''v1'', rv_context_id = ''ctx'', rv_parent_revision_id = None, rv_op = ''start'',
        rv_op_params = [], rv_candidate_count = 1, rv_facets = build_facets [], rv_created_at = (0, 0)\<rparr>],
     sdb_candidates := [\<lparr>cd_revision_id = ''v1'', cd_record_id = ''r1'', cd_rank = 1, cd_score = 0,
        cd_score_detail = ex_detail\<rparr>]\<rparr>"

definition ex_refine :: refine_request where
  "ex_refine = \<lparr>rq_base_revision_id = ''v1'', rq_op = NARROW_BY_TAGS, rq_params = [(''tags'', JList [''red''])]\<rparr>"

lemma ex_refine_returns:
  "\<exists>resp s'. refine_search ex_service (ex_env ''v2'') ''ctx'' ex_refine ex_scope None ex_opened = (Inr resp, s')"
proof -
  have db: "sdb_contexts ex_opened = [ex_context]" "mem_audit ex_opened = []" "mem_records ex_opened = [ex_record ''r1'' ''red car'']"
    by (simp_all add: ex_opened_def ex_search_db_def)
  have act: "active_context ex_service 0 ''ctx'' ex_scope ex_opened = (Inr ex_context, ex_opened)"
    by (simp add: active_context_def se_simps db ex_context_def ex_scope_def ex_service_def iso_instant_def)
  have base: "\<exists>b. get_revision ''v1'' ex_opened = Some b \<and> rv_context_id b = ''ctx'' \<and> rv_revision_id b = ''v1''"
    and fresh: "get_revision ''v2'' ex_opened = None" and cnt: "count_revisions ''ctx'' ex_opened = 1"
    by (simp_all add: ex_opened_def count_revisions_def)
  have recs: "get_authorized_active_by_ids ex_opened (map cd_record_id (list_candidates ''v1'' 1000 ex_opened)) ex_scope =
      [ex_record ''r1'' ''red car'']"
    by (simp add: get_authorized_active_by_ids_def list_candidates_def order_by_limit_def ex_opened_def ex_search_defs
        authorized_observation_filter_def obs_resource_def allowed_levels_def all_security_levels_def allows_def)
  have rank: "\<exists>x y. apply_refine_op ex_service ex_opened NARROW_BY_TAGS [ex_record ''r1'' ''red car''] [(''tags'', JList [''red''])] None
      = Inr [(''r1'', x, y)]"
    by (simp add: apply_refine_op_def str_list_def rank_records_def truthy_def fuse_and_order_def rrf_fuse_def rrf_one_def
        rrf_component_def order_candidates_def ex_search_defs empty_channels_def Let_def)
  have cand: "map (\<lambda>c. (cd_revision_id c, cd_record_id c)) (sdb_candidates ex_opened) = [(''v1'', ''r1'')]"
    by (simp add: ex_opened_def)
  have notin: "(''v2'', ''r1'') \<notin> (\<lambda>c. (cd_revision_id c, cd_record_id c)) ` set (sdb_candidates ex_opened)"
    by (simp add: ex_opened_def)
  obtain b where b: "get_revision ''v1'' ex_opened = Some b" "rv_context_id b = ''ctx''" "rv_revision_id b = ''v1''"
    using base by blast
  obtain x y where op: "apply_refine_op ex_service ex_opened NARROW_BY_TAGS [ex_record ''r1'' ''red car'']
      [(''tags'', JList [''red''])] None = Inr [(''r1'', x, y)]" using rank by blast
  have svc: "ss_max_candidates_per_revision ex_service = 1000" "ss_max_revisions_per_context ex_service = 8"
    "ss_max_top_k ex_service = 100" "OBSERVATION_SEARCH \<in> set (sc_capabilities ex_scope)"
    by (simp_all add: ex_service_def ex_scope_def)
  show ?thesis
    by (simp add: refine_search_def svc ex_refine_def ex_env_def se_simps act b recs op enforce_revision_limit_def cnt
        Let_def finish_search_def persist_revision_def create_revision_def add_candidate_def fresh row_ins_def notin
        audit_query_def append_event_def db replace_default_revision_def slice_to_def refine_top_k_def)
qed

theorem refine_never_widens_witness:
  "\<exists>resp s'. refine_search ex_service (ex_env ''v2'') ''ctx'' ex_refine ex_scope None ex_opened = (Inr resp, s') \<and>
     set (map ri_record_id (rp_results resp)) \<subseteq> visible_ids (set (mem_records ex_opened)) ex_scope"
proof -
  obtain resp s' where run: "refine_search ex_service (ex_env ''v2'') ''ctx'' ex_refine ex_scope None ex_opened = (Inr resp, s')"
    using ex_refine_returns by blast
  have "set (map ri_record_id (rp_results resp)) \<subseteq> visible_ids (set (mem_records ex_opened)) ex_scope"
    using refine_never_widens [OF run, THEN conjunct1] by (rule order_trans) (rule Int_lower1)
  with run show ?thesis by blast
qed

text \<open>
  C21. In every state that requests and publications reach, a context has at most the configured
  number of revisions (at least the first one), revision ids are unique and belong to known
  contexts; and no step ever changes or removes a revision or a candidate that is there, or adds
  a candidate to an existing revision.
\<close>

theorem revisions_are_immutable:
  assumes "(search_step svc)\<^sup>*\<^sup>* s s'" and "search_ok svc s"
  shows "search_ok svc s' \<and> search_extends s s'"
  using assms
proof (induction rule: rtranclp_induct)
  case base
  then show ?case by (simp add: search_extends_refl)
next
  case (step t u)
  then have ok: "search_ok svc t" and ext: "search_extends s t" by simp_all
  from step(2) have "search_ok svc u \<and> search_extends t u"
  proof cases
    case (start env request sc sid rid)
    show ?thesis unfolding start by (rule session_keeps [OF ok]) (rule start_keeps [OF ok])
  next
    case (refine env cid rq sc rid)
    show ?thesis unfolding refine by (rule session_keeps [OF ok]) (rule refine_keeps [OF ok])
  next
    case (batch cid reqs sc rid)
    show ?thesis unfolding batch by (rule session_keeps [OF ok]) (rule batch_keeps [OF ok])
  next
    case (facets now cid sc)
    show ?thesis unfolding facets
      by (rule session_keeps [OF ok]) (use facets_keeps [of svc now cid sc t] ok search_extends_refl in blast)
  next
    case (close cid sc)
    show ?thesis unfolding close by (rule session_keeps [OF ok]) (rule close_keeps [OF ok])
  next
    case (publish time hist aid command)
    have "memory.more u = memory.more t" unfolding publish by (rule publish_keeps_more)
    then have "sdb_contexts u = sdb_contexts t" "sdb_revisions u = sdb_revisions t" "sdb_candidates u = sdb_candidates t"
      by (cases u; cases t; simp)+
    then show ?thesis using ok by (simp add: search_ok_def search_extends_def count_revisions_def)
  qed
  with ext show ?case using search_extends_trans by blast
qed

theorem revisions_are_immutable_witness:
  "\<exists>s'. (search_step ex_service)\<^sup>*\<^sup>* ex_opened s' \<and> search_ok ex_service s' \<and> search_extends ex_opened s'"
proof -
  let ?s' = "snd (session_scope (search_close ''ctx'' ex_scope) ex_opened)"
  have step: "(search_step ex_service)\<^sup>*\<^sup>* ex_opened ?s'" by (rule r_into_rtranclp) (rule search_step.close)
  have "search_ok ex_service ex_opened"
    by (simp add: search_ok_def ex_opened_def keys_ok_def count_revisions_def ex_service_def ex_context_def)
  from revisions_are_immutable [OF step this] step show ?thesis by blast
qed

text \<open>
  C30. A refinement under a changed scope (another scope hash for the same principal) closes the
  context and raises \<^verbatim>\<open>ContextExpiredError\<close>; the transaction of the request then rolls back, so the
  context stays as it was and a request under the old scope hash finds it active again. An expired
  context likewise stays \<^verbatim>\<open>active\<close> in the table. A caller that is not the owner gets the error of a
  missing context.
\<close>

theorem closing_on_scope_change_is_rolled_back:
  assumes "get_context cid s = Some ctx" and "OBSERVATION_SEARCH \<in> set (sc_capabilities sc)"
  shows "(sx_principal_id ctx \<noteq> sc_principal_id sc \<longrightarrow>
      session_scope (refine_search svc env cid rq sc rid) s = (Inl (NotFoundError ''context not found''), s)) \<and>
    (sx_principal_id ctx = sc_principal_id sc \<and> sx_authorized_scope_hash ctx \<noteq> sc_scope_hash sc \<longrightarrow>
      refine_search svc env cid rq sc rid s =
        (Inl (ContextExpiredError ''authorized scope changed; restart search''), store_close_context cid s) \<and>
      session_scope (refine_search svc env cid rq sc rid) s =
        (Inl (ContextExpiredError ''authorized scope changed; restart search''), s)) \<and>
    (sx_principal_id ctx = sc_principal_id sc \<and> sx_authorized_scope_hash ctx = sc_scope_hash sc \<and>
      sx_status ctx = ''active'' \<and> iso_instant (sx_expires_at ctx) < en_now env \<longrightarrow>
      session_scope (refine_search svc env cid rq sc rid) s = (Inl (ContextExpiredError ''context expired''), s))"
  using assms by (auto simp: refine_search_def session_scope_def active_context_def se_simps)

theorem closing_on_scope_change_is_rolled_back_witness:
  "session_scope (refine_search ex_service (ex_env ''v2'') ''ctx'' ex_refine (ex_scope\<lparr>sc_scope_hash := ''new''\<rparr>) None) ex_opened =
     (Inl (ContextExpiredError ''authorized scope changed; restart search''), ex_opened)"
proof -
  have ctx: "get_context ''ctx'' ex_opened = Some ex_context" by (simp add: ex_opened_def ex_context_def)
  have cap: "OBSERVATION_SEARCH \<in> set (sc_capabilities (ex_scope\<lparr>sc_scope_hash := ''new''\<rparr>))" by (simp add: ex_scope_def)
  show ?thesis
    using closing_on_scope_change_is_rolled_back [OF ctx cap, where svc = ex_service and env = "ex_env ''v2''" and rq = ex_refine and rid = None]
    by (simp add: ex_context_def ex_scope_def)
qed

end
