(* ===== verification/Cctv_Playback.thy ===== *)
theory Cctv_Playback
  imports Cctv_Search
begin

text \<open>
  Details and locators (\<^verbatim>\<open>application/locator.py\<close>) and signed playback tokens
  (\<^verbatim>\<open>application/playback.py\<close>). Bytes are naturals below 256. URL-safe base64 is modelled as the
  interpreter does it, with its lenient decoder; the JSON text of a token and its HMAC-SHA256 are
  parameters, with what the code relies on as hypotheses of the theorems.
\<close>

section \<open>URL-safe base64\<close>

definition b64_alphabet :: string where
  "b64_alphabet = ''ABCDEFGHIJKLMNOPQRSTUVWXYZabcdefghijklmnopqrstuvwxyz0123456789-_''"

definition b64_char :: "nat \<Rightarrow> char" where
  "b64_char n = b64_alphabet ! n"

text \<open>\<^verbatim>\<open>urlsafe_b64encode(data).rstrip("=")\<close>.\<close>

fun b64url :: "nat list \<Rightarrow> string" where
  "b64url [] = []"
| "b64url [a] = [b64_char (a div 4), b64_char (a mod 4 * 16)]"
| "b64url [a, b] = [b64_char (a div 4), b64_char (a mod 4 * 16 + b div 16), b64_char (b mod 16 * 4)]"
| "b64url (a # b # c # bs) =
    [b64_char (a div 4), b64_char (a mod 4 * 16 + b div 16), b64_char (b mod 16 * 4 + c div 64), b64_char (c mod 64)] @
    b64url bs"

text \<open>The value of a character; both alphabets are accepted, as the decoder first maps \<^verbatim>\<open>-_\<close> to \<^verbatim>\<open>+/\<close>.\<close>

definition b64_value :: "char \<Rightarrow> nat option" where
  "b64_value c =
    (if 65 \<le> code c \<and> code c \<le> 90 then Some (code c - 65)
     else if 97 \<le> code c \<and> code c \<le> 122 then Some (code c - 71)
     else if 48 \<le> code c \<and> code c \<le> 57 then Some (code c + 4)
     else if c = CHR ''-'' \<or> c = CHR ''+'' then Some 62
     else if c = CHR ''_'' \<or> c = CHR ''/'' then Some 63 else None)"

text \<open>
  The decoder's loop: the position in the current group of four, the bits left over and the number
  of pad characters seen. A character outside the alphabet is skipped, a complete pad sequence ends
  the input, and an incomplete last group is an error.
\<close>

fun a2b :: "nat \<Rightarrow> nat \<Rightarrow> nat \<Rightarrow> string \<Rightarrow> nat list option" where
  "a2b q left pads [] = (if q = 0 then Some [] else None)"
| "a2b q left pads (c # cs) =
    (if c = CHR ''='' then
       (if 2 \<le> q \<and> 4 \<le> q + (pads + 1) then Some []
        else a2b q left (if 2 \<le> q then pads + 1 else pads) cs)
     else case b64_value c of
       None \<Rightarrow> a2b q left pads cs
     | Some v \<Rightarrow>
         if q = 0 then a2b 1 v 0 cs
         else if q = 1 then map_option ((#) (left * 4 + v div 16)) (a2b 2 (v mod 16) 0 cs)
         else if q = 2 then map_option ((#) (left * 16 + v div 4)) (a2b 3 (v mod 4) 0 cs)
         else map_option ((#) (left * 64 + v)) (a2b 0 0 0 cs))"

definition b64url_decode :: "string \<Rightarrow> nat list option" where
  "b64url_decode text =
    (if \<exists>c \<in> set text. 128 \<le> code c then None
     else a2b 0 0 0 (text @ replicate ((4 - length text mod 4) mod 4) CHR ''=''))"

section \<open>Tokens\<close>

record playback_payload =
  pp_principal_id :: string
  pp_record_id :: string
  pp_video_id :: string
  pp_segment_start_ms :: int
  pp_segment_end_ms :: int
  pp_exp :: real

text \<open>A value of a parsed token; a number carries its \<^verbatim>\<open>str()\<close> text beside its value.\<close>

datatype pval = PStr string | PNum real string | PBool bool | POther string

fun pval_str :: "pval \<Rightarrow> string" where
  "pval_str (PStr s) = s"
| "pval_str (PNum _ t) = t"
| "pval_str (PBool b) = (if b then ''True'' else ''False'')"
| "pval_str (POther t) = t"

fun pval_num :: "pval \<Rightarrow> real option" where
  "pval_num (PNum x _) = Some x"
| "pval_num (PBool b) = Some (of_bool b)"
| "pval_num _ = None"

text \<open>
  The key material and codecs of a service: \<^verbatim>\<open>hmac.new(key, body, sha256)\<close>, \<^verbatim>\<open>json.dumps\<close> of a payload and
  \<^verbatim>\<open>json.loads\<close> as a dict, which is \<^term>\<open>None\<close> when the bytes are no JSON object.
\<close>

record token_service =
  ts_hmac :: "nat list \<Rightarrow> nat list"
  ts_dumps :: "playback_payload \<Rightarrow> nat list"
  ts_loads :: "nat list \<Rightarrow> (string \<Rightarrow> pval option) option"
  ts_ttl_seconds :: int
  ts_fl :: "real \<Rightarrow> real"

text \<open>\<^verbatim>\<open>datetime.timestamp()\<close> of an instant in microseconds.\<close>

definition timestamp :: "(real \<Rightarrow> real) \<Rightarrow> int \<Rightarrow> real" where
  "timestamp fl us = fl (of_int us / 1000000)"

definition sign_token :: "token_service \<Rightarrow> playback_payload \<Rightarrow> string" where
  "sign_token ts payload =
    (let body = ts_dumps ts payload; signature = ts_hmac ts body
     in b64url body @ CHR ''.'' # b64url signature)"

text \<open>\<^verbatim>\<open>token.split(".", 1)\<close> as two parts.\<close>

definition split_token :: "string \<Rightarrow> (string \<times> string) option" where
  "split_token token =
    (if CHR ''.'' \<in> set token
     then Some (takeWhile (\<lambda>c. c \<noteq> CHR ''.'') token, tl (dropWhile (\<lambda>c. c \<noteq> CHR ''.'') token)) else None)"

definition verify_token :: "token_service \<Rightarrow> int \<Rightarrow> string \<Rightarrow> (string \<Rightarrow> pval option) option" where
  "verify_token ts now token =
    (case split_token token of
       None \<Rightarrow> None
     | Some (body_b64, sig_b64) \<Rightarrow>
       (case b64url_decode body_b64 of
          None \<Rightarrow> None
        | Some body \<Rightarrow>
          (case b64url_decode sig_b64 of
             None \<Rightarrow> None
           | Some signature \<Rightarrow>
             if signature \<noteq> ts_hmac ts body then None
             else case ts_loads ts body of
               None \<Rightarrow> None
             | Some payload \<Rightarrow>
               (case Option.bind (payload ''exp'') pval_num of
                  None \<Rightarrow> None
                | Some x \<Rightarrow> if timestamp (ts_fl ts) now > x then None else Some payload))))"

record locator_projection =
  lp_video_id :: string
  lp_camera_id :: string
  lp_segment_start_ms :: int
  lp_segment_end_ms :: int
  lp_absolute_start_time :: iso
  lp_absolute_end_time :: iso
  lp_playback_url :: "string option"
  lp_thumbnail_url :: "string option"
  lp_expires_at :: "iso option"

record playback_descriptor =
  pd_record_id :: string
  pd_video_id :: string
  pd_camera_id :: string
  pd_segment_start_ms :: int
  pd_segment_end_ms :: int
  pd_expires_at :: int

text \<open>The ids and clock readings of a request: \<open>n\<close>th generated id, \<open>n\<close>th reading.\<close>

record play_env =
  pe_id :: "nat \<Rightarrow> string"
  pe_now :: int
  pe_audit_now :: iso

definition play_event ::
  "play_env \<Rightarrow> nat \<Rightarrow> string \<Rightarrow> string option \<Rightarrow> authorized_scope \<Rightarrow> observation_record \<Rightarrow> (string \<times> string) list \<Rightarrow> audit_event" where
  "play_event env n event_type request_id sc rec metadata =
    \<lparr>ae_audit_event_id = ''audit_'' @ pe_id env n, ae_event_type = event_type, ae_request_id = request_id,
     ae_principal_id = Some (sc_principal_id sc), ae_session_id = None, ae_context_id = None,
     ae_resource_scope_hash = Some (sc_scope_hash sc), ae_record_ids = [ob_record_id rec],
     ae_video_id = Some (ob_video_id rec), ae_camera_id = Some (ob_camera_id rec), ae_metadata = metadata,
     ae_created_at = pe_audit_now env\<rparr>"

definition projection :: "observation_record \<Rightarrow> string \<Rightarrow> iso \<Rightarrow> locator_projection" where
  "projection rec token expires_at =
    \<lparr>lp_video_id = ob_video_id rec, lp_camera_id = ob_camera_id rec, lp_segment_start_ms = ob_segment_start_ms rec,
     lp_segment_end_ms = ob_segment_end_ms rec, lp_absolute_start_time = ob_observed_start_time rec,
     lp_absolute_end_time = ob_observed_end_time rec, lp_playback_url = Some (''/api/v1/playback/'' @ token),
     lp_thumbnail_url = None, lp_expires_at = Some expires_at\<rparr>"

text \<open>\<^verbatim>\<open>_sign\<close> is called with the bounds of the record and the common expiry.\<close>

definition record_payload :: "token_service \<Rightarrow> authorized_scope \<Rightarrow> observation_record \<Rightarrow> int \<Rightarrow> playback_payload" where
  "record_payload ts sc rec expires_at =
    \<lparr>pp_principal_id = sc_principal_id sc, pp_record_id = ob_record_id rec, pp_video_id = ob_video_id rec,
     pp_segment_start_ms = ob_segment_start_ms rec, pp_segment_end_ms = ob_segment_end_ms rec,
     pp_exp = timestamp (ts_fl ts) expires_at\<rparr>"

fun issue_loop ::
  "token_service \<Rightarrow> play_env \<Rightarrow> authorized_scope \<Rightarrow> string option \<Rightarrow> int \<Rightarrow> nat \<Rightarrow> observation_record list \<Rightarrow>
   ('a memory_scheme, exn, locator_projection list) se" where
  "issue_loop ts env sc request_id expires_at n [] = se_ret []"
| "issue_loop ts env sc request_id expires_at n (rec # recs) =
    se_then (append_event (play_event env n ''locator'' request_id sc rec [(''issued'', ''True'')]))
      (se_bind (issue_loop ts env sc request_id expires_at (Suc n) recs) (\<lambda>ps.
        se_ret (projection rec (sign_token ts (record_payload ts sc rec expires_at)) (expires_at, 0) # ps)))"

definition issue_locators ::
  "token_service \<Rightarrow> play_env \<Rightarrow> string list \<Rightarrow> authorized_scope \<Rightarrow> string option \<Rightarrow>
   ('a memory_scheme, exn, locator_projection list) se" where
  "issue_locators ts env record_ids sc request_id =
    (if OBSERVATION_READ_LOCATOR \<notin> set (sc_capabilities sc)
     then se_raise (CapabilityDeniedError ''observation.read_locator required'')
     else se_bind (se_read (\<lambda>s. get_authorized_active_by_ids s record_ids sc)) (\<lambda>records.
       issue_loop ts env sc request_id (pe_now env + ts_ttl_seconds ts * 1000000) 0 records))"

definition verify_playback ::
  "token_service \<Rightarrow> play_env \<Rightarrow> string \<Rightarrow> authorized_scope \<Rightarrow> string option \<Rightarrow>
   ('a memory_scheme, exn, playback_descriptor) se" where
  "verify_playback ts env token sc request_id =
    (if VIDEO_PLAYBACK \<notin> set (sc_capabilities sc) then se_raise (CapabilityDeniedError ''video.playback required'')
     else case verify_token ts (pe_now env) token of
       None \<Rightarrow> se_raise (NotFoundError ''playback token invalid or expired'')
     | Some payload \<Rightarrow>
       if payload ''principal_id'' \<noteq> Some (PStr (sc_principal_id sc))
       then se_raise (NotFoundError ''playback token invalid or expired'')
       else let record_id = (case payload ''record_id'' of None \<Rightarrow> ''None'' | Some v \<Rightarrow> pval_str v)
       in se_bind (se_read (\<lambda>s. get_authorized_active_by_id s record_id sc)) (\<lambda>found.
         case found of
           None \<Rightarrow> se_raise (NotFoundError ''playback target not found'')
         | Some record \<Rightarrow>
           let exp_ts = (case Option.bind (payload ''exp'') pval_num of None \<Rightarrow> 0 | Some x \<Rightarrow> x)
           in se_then (append_event (play_event env 0 ''playback_url_issued'' request_id sc record [(''verified'', ''True'')]))
             (se_ret \<lparr>pd_record_id = ob_record_id record, pd_video_id = ob_video_id record,
                pd_camera_id = ob_camera_id record, pd_segment_start_ms = ob_segment_start_ms record,
                pd_segment_end_ms = ob_segment_end_ms record, pd_expires_at = rne (exp_ts * 1000000)\<rparr>)))"

section \<open>Details\<close>

record details_request =
  dr_record_ids :: "string list"
  dr_include_locator :: bool

record details_item =
  di_record_id :: string
  di_static_description_text :: string
  di_dynamic_description_text :: string
  di_tags :: "string list"
  di_attributes :: string
  di_analysis_scale :: analysis_scale
  di_observed_start_time :: iso
  di_observed_end_time :: iso
  di_locator :: "locator_projection option"

text \<open>The unsigned placeholder token of a details locator and its audit event.\<close>

definition build_locator ::
  "play_env \<Rightarrow> nat \<Rightarrow> observation_record \<Rightarrow> authorized_scope \<Rightarrow> ('a memory_scheme, exn, locator_projection option) se" where
  "build_locator env n rec sc =
    se_bind (se_read (\<lambda>s. get_authorized_active_by_id s (ob_record_id rec) sc)) (\<lambda>reauthorized.
      case reauthorized of
        None \<Rightarrow> se_ret None
      | Some _ \<Rightarrow>
        let token = ''pbt_'' @ pe_id env (2 * n)
        in se_then (append_event (play_event env (2 * n + 1) ''locator'' None sc rec
              [(''playback_token'', token), (''placeholder'', ''True'')]))
            (se_ret (Some (projection rec token (pe_now env + 600 * 1000000, 0)))))"

definition details_item_of :: "observation_record \<Rightarrow> locator_projection option \<Rightarrow> details_item" where
  "details_item_of rec loc =
    \<lparr>di_record_id = ob_record_id rec, di_static_description_text = ob_static_description_text rec,
     di_dynamic_description_text = ob_dynamic_description_text rec, di_tags = ob_tags rec,
     di_attributes = ob_attributes rec, di_analysis_scale = ob_analysis_scale rec,
     di_observed_start_time = ob_observed_start_time rec, di_observed_end_time = ob_observed_end_time rec,
     di_locator = loc\<rparr>"

fun details_loop ::
  "play_env \<Rightarrow> bool \<Rightarrow> authorized_scope \<Rightarrow> nat \<Rightarrow> observation_record list \<Rightarrow> ('a memory_scheme, exn, details_item list) se" where
  "details_loop env include_locator sc n [] = se_ret []"
| "details_loop env include_locator sc n (rec # recs) =
    se_bind (if include_locator then build_locator env n rec sc else se_ret None) (\<lambda>loc.
      se_bind (details_loop env include_locator sc (Suc n) recs) (\<lambda>items.
        se_ret (details_item_of rec loc # items)))"

definition get_details ::
  "play_env \<Rightarrow> details_request \<Rightarrow> authorized_scope \<Rightarrow> string option \<Rightarrow> ('a memory_scheme, exn, details_item list) se" where
  "get_details env request sc request_id =
    (if OBSERVATION_READ_DETAIL \<notin> set (sc_capabilities sc)
     then se_raise (CapabilityDeniedError ''observation.read_detail required'')
     else if dr_include_locator request \<and> OBSERVATION_READ_LOCATOR \<notin> set (sc_capabilities sc)
     then se_raise (CapabilityDeniedError ''observation.read_locator required for locator'')
     else se_bind (se_read (\<lambda>s. get_authorized_active_by_ids s (dr_record_ids request) sc)) (\<lambda>records.
       se_bind (details_loop env (dr_include_locator request) sc 0 records) (\<lambda>items.
         se_then (append_event
           \<lparr>ae_audit_event_id = ''audit_'' @ pe_id env (2 * length records), ae_event_type = ''details'',
            ae_request_id = request_id, ae_principal_id = Some (sc_principal_id sc), ae_session_id = None,
            ae_context_id = None, ae_resource_scope_hash = Some (sc_scope_hash sc),
            ae_record_ids = map di_record_id items, ae_video_id = None, ae_camera_id = None,
            ae_metadata = [(''include_locator'', if dr_include_locator request then ''True'' else ''False'')],
            ae_created_at = pe_audit_now env\<rparr>)
           (se_ret items))))"

text \<open>The result items of an overlap query, with score 0 and the detail \<^verbatim>\<open>{"overlap": True}\<close>.\<close>

record overlap_item =
  oi_record_id :: string
  oi_rank :: int
  oi_score :: real
  oi_score_detail :: "(string \<times> bool) list"
  oi_preview_text :: string
  oi_analysis_scale :: analysis_scale
  oi_observed_start_time :: iso
  oi_observed_end_time :: iso

definition get_overlapping ::
  "string \<Rightarrow> analysis_scale list \<Rightarrow> int \<Rightarrow> int \<Rightarrow> authorized_scope \<Rightarrow> ('a memory_scheme, exn, overlap_item list) se" where
  "get_overlapping record_id scales time_padding_ms top_k sc =
    (if OBSERVATION_READ_DETAIL \<notin> set (sc_capabilities sc)
     then se_raise (CapabilityDeniedError ''observation.read_detail required'')
     else se_read (\<lambda>s. map (\<lambda>(i, rec).
       \<lparr>oi_record_id = ob_record_id rec, oi_rank = int i + 1, oi_score = 0, oi_score_detail = [(''overlap'', True)],
        oi_preview_text = take 200 (ob_static_description_text rec), oi_analysis_scale = ob_analysis_scale rec,
        oi_observed_start_time = ob_observed_start_time rec, oi_observed_end_time = ob_observed_end_time rec\<rparr>)
       (enumerate 0 (find_overlapping s record_id sc scales time_padding_ms top_k))))"

section \<open>Base64 round trip\<close>

lemma b64_alphabet_values: "map b64_value b64_alphabet = map Some [0..<64]"
  by (simp add: b64_alphabet_def b64_value_def upt_rec)

lemma b64_alphabet_chars: "list_all (\<lambda>c. c \<noteq> CHR ''='' \<and> c \<noteq> CHR ''.'' \<and> code c < 128) b64_alphabet"
  by (simp add: b64_alphabet_def)

lemma b64_char_ok:
  assumes "n < 64"
  shows "b64_value (b64_char n) = Some n" and "b64_char n \<noteq> CHR ''=''" and "b64_char n \<noteq> CHR ''.''"
    and "\<not> 128 \<le> code (b64_char n)"
proof -
  have len: "length b64_alphabet = 64" by (simp add: b64_alphabet_def)
  have "map b64_value b64_alphabet ! n = map Some [0..<64] ! n" by (simp only: b64_alphabet_values)
  then show "b64_value (b64_char n) = Some n" using assms len by (simp add: b64_char_def)
  have "b64_char n \<in> set b64_alphabet" using assms len by (simp add: b64_char_def)
  then show "b64_char n \<noteq> CHR ''=''" and "b64_char n \<noteq> CHR ''.''" and "\<not> 128 \<le> code (b64_char n)"
    using b64_alphabet_chars unfolding list_all_iff by fastforce+
qed

lemma a2b_char:
  assumes "v < 64"
  shows "a2b 0 l p (b64_char v # cs) = a2b (Suc 0) v 0 cs"
    and "a2b (Suc 0) l p (b64_char v # cs) = map_option ((#) (l * 4 + v div 16)) (a2b 2 (v mod 16) 0 cs)"
    and "a2b 2 l p (b64_char v # cs) = map_option ((#) (l * 16 + v div 4)) (a2b 3 (v mod 4) 0 cs)"
    and "a2b 3 l p (b64_char v # cs) = map_option ((#) (l * 64 + v)) (a2b 0 0 0 cs)"
  using b64_char_ok [OF assms] by simp_all

lemma a2b_pad: "a2b 2 l 0 [CHR ''='', CHR ''=''] = Some []" "a2b 3 l 0 [CHR ''=''] = Some []"
  by simp_all

declare a2b.simps(2) [simp del]

definition bytes_ok :: "nat list \<Rightarrow> bool" where
  "bytes_ok bs = list_all (\<lambda>b. b < 256) bs"

lemma group_bits:
  fixes a b c :: nat
  assumes "a < 256" and "b < 256" and "c < 256"
  shows "a div 4 < 64" "a mod 4 * 16 < 64" "a mod 4 * 16 + b div 16 < 64" "b mod 16 * 4 < 64"
    "b mod 16 * 4 + c div 64 < 64" "c mod 64 < 64"
    "(a mod 4 * 16 + b div 16) div 16 = a mod 4" "(a mod 4 * 16 + b div 16) mod 16 = b div 16"
    "(b mod 16 * 4 + c div 64) div 4 = b mod 16" "(b mod 16 * 4 + c div 64) mod 4 = c div 64"
proof -
  have "b div 16 < 16" "c div 64 < 4" using assms by (simp_all add: less_mult_imp_div_less)
  then show "a mod 4 * 16 + b div 16 < 64" "b mod 16 * 4 + c div 64 < 64"
    "(a mod 4 * 16 + b div 16) div 16 = a mod 4" "(a mod 4 * 16 + b div 16) mod 16 = b div 16"
    "(b mod 16 * 4 + c div 64) div 4 = b mod 16" "(b mod 16 * 4 + c div 64) mod 4 = c div 64"
    using mod_less_divisor [of 4 a] mod_less_divisor [of 16 b] by (simp_all add: mod_mult_self3)
  show "a div 4 < 64" "a mod 4 * 16 < 64" "b mod 16 * 4 < 64" "c mod 64 < 64"
    using assms mod_less_divisor [of 4 a] mod_less_divisor [of 16 b] by (simp_all add: less_mult_imp_div_less)
qed

lemma a2b_b64url:
  "bytes_ok bs \<Longrightarrow> a2b 0 0 0 (b64url bs @ replicate ((4 - length (b64url bs) mod 4) mod 4) CHR ''='') = Some bs"
proof (induction bs rule: b64url.induct)
  case 1
  then show ?case by simp
next
  case (2 a)
  then have "a < 256" by (simp add: bytes_ok_def)
  note g = group_bits [OF this this this]
  have two: "replicate 2 CHR ''='' = [CHR ''='', CHR ''='']" by (simp add: numeral_2_eq_2)
  show ?case by (simp add: a2b_char [OF g(1)] a2b_char [OF g(2)] two a2b_pad)
next
  case (3 a b)
  then have "a < 256" "b < 256" by (simp_all add: bytes_ok_def)
  note g = group_bits [OF this this(2)]
  have "b div 16 mod 16 = b div 16" using \<open>b < 256\<close> by (simp add: less_mult_imp_div_less)
  then show ?case by (simp add: a2b_char [OF g(1)] a2b_char [OF g(3)] a2b_char [OF g(4)] g a2b_pad)
next
  case (4 a b c bs)
  then have "a < 256" "b < 256" "c < 256" and "bytes_ok bs" by (simp_all add: bytes_ok_def)
  note g = group_bits [OF this(1-3)]
  have "b div 16 mod 16 = b div 16" "c div 64 mod 4 = c div 64"
    using \<open>b < 256\<close> \<open>c < 256\<close> by (simp_all add: less_mult_imp_div_less)
  then show ?case using 4(1) [OF \<open>bytes_ok bs\<close>] by (simp add: a2b_char [OF g(1)] a2b_char [OF g(3)] a2b_char [OF g(5)] a2b_char [OF g(6)] g)
qed

lemma b64url_chars: "bytes_ok bs \<Longrightarrow> c \<in> set (b64url bs) \<Longrightarrow> \<exists>n < 64. c = b64_char n"
proof (induction bs rule: b64url.induct)
  case (4 a b d bs)
  then have "a < 256" "b < 256" "d < 256" and "bytes_ok bs" by (simp_all add: bytes_ok_def)
  moreover have "d mod 64 < 64" by simp
  ultimately show ?case using 4 group_bits [of a b d] by (simp only: b64url.simps set_append Un_iff list.set insert_iff empty_iff) blast
next
  case (3 a b)
  then have "a < 256" "b < 256" by (simp_all add: bytes_ok_def)
  then show ?case using 3 group_bits [of a b b] by (simp only: b64url.simps list.set insert_iff empty_iff) blast
next
  case (2 a)
  then have "a < 256" by (simp add: bytes_ok_def)
  then show ?case using 2 group_bits [of a a a] by (simp only: b64url.simps list.set insert_iff empty_iff) blast
qed simp

lemma b64url_roundtrip: "bytes_ok bs \<Longrightarrow> b64url_decode (b64url bs) = Some bs"
  using b64url_chars [of bs] b64_char_ok(4) a2b_b64url [of bs] unfolding b64url_decode_def by fastforce

lemma b64url_no_dot: "bytes_ok bs \<Longrightarrow> CHR ''.'' \<notin> set (b64url bs)"
  using b64url_chars [of bs "CHR ''.''"] b64_char_ok(3) by metis

section \<open>Tokens and their service\<close>

lemma split_token_dot: "CHR ''.'' \<notin> set b \<Longrightarrow> split_token (b @ CHR ''.'' # r) = Some (b, r)"
  by (induction b) (auto simp: split_token_def)

text \<open>
  What the code relies on for one payload: its JSON text and its signature are bytes, and the text
  parses to an object with these fields.
\<close>

definition codec_ok :: "token_service \<Rightarrow> playback_payload \<Rightarrow> bool" where
  "codec_ok ts p = (bytes_ok (ts_dumps ts p) \<and> bytes_ok (ts_hmac ts (ts_dumps ts p)) \<and>
    (\<exists>m t. ts_loads ts (ts_dumps ts p) = Some m \<and> m ''principal_id'' = Some (PStr (pp_principal_id p)) \<and>
       m ''record_id'' = Some (PStr (pp_record_id p)) \<and> m ''exp'' = Some (PNum (pp_exp p) t)))"

lemma verify_signed:
  assumes "codec_ok ts p" and "timestamp (ts_fl ts) now \<le> pp_exp p"
  shows "\<exists>m t. verify_token ts now (sign_token ts p) = Some m \<and> m ''principal_id'' = Some (PStr (pp_principal_id p)) \<and>
    m ''record_id'' = Some (PStr (pp_record_id p)) \<and> m ''exp'' = Some (PNum (pp_exp p) t)"
proof -
  from assms(1) obtain m t where bytes: "bytes_ok (ts_dumps ts p)" "bytes_ok (ts_hmac ts (ts_dumps ts p))"
    and m: "ts_loads ts (ts_dumps ts p) = Some m" "m ''principal_id'' = Some (PStr (pp_principal_id p))"
      "m ''record_id'' = Some (PStr (pp_record_id p))" "m ''exp'' = Some (PNum (pp_exp p) t)"
    by (auto simp: codec_ok_def)
  have "verify_token ts now (sign_token ts p) = Some m"
    using assms(2) by (simp add: verify_token_def sign_token_def Let_def split_token_dot b64url_no_dot [OF bytes(1)]
        b64url_roundtrip [OF bytes(1)] b64url_roundtrip [OF bytes(2)] m(1,4))
  with m show ?thesis by blast
qed

lemma verify_token_Some:
  assumes "verify_token ts now token = Some payload"
  shows "\<exists>b g body x. split_token token = Some (b, g) \<and> b64url_decode b = Some body \<and>
    b64url_decode g = Some (ts_hmac ts body) \<and> ts_loads ts body = Some payload \<and>
    Option.bind (payload ''exp'') pval_num = Some x \<and> timestamp (ts_fl ts) now \<le> x"
  using assms by (auto simp: verify_token_def not_less split: option.splits prod.splits if_splits)

lemma issue_loop_ok:
  "issue_loop ts env sc rq expires n recs s = (Inr ps, s') \<Longrightarrow>
   ps = map (\<lambda>r. projection r (sign_token ts (record_payload ts sc r expires)) (expires, 0)) recs \<and>
   mem_records s' = mem_records s"
proof (induction recs arbitrary: n s ps)
  case Nil
  then show ?case by simp
next
  case (Cons r recs)
  then obtain s1 qs where "append_event (play_event env n ''locator'' rq sc r [(''issued'', ''True'')]) s = (Inr (), s1)"
    and "issue_loop ts env sc rq expires (Suc n) recs s1 = (Inr qs, s')"
    and "ps = projection r (sign_token ts (record_payload ts sc r expires)) (expires, 0) # qs"
    by (auto simp: se_simps split: prod.splits sum.splits)
  with Cons.IH [of "Suc n" s1 qs] append_event_ok [of _ s "()" s1] show ?case by fastforce
qed

lemma build_locator_ok:
  assumes "build_locator env n r sc s = (Inr loc, s')" and "r \<in> set (mem_records s)" and "record_permitted sc r"
  shows "loc = Some (projection r (''pbt_'' @ pe_id env (2 * n)) (pe_now env + 600 * 1000000, 0)) \<and>
    mem_records s' = mem_records s"
proof -
  obtain r' where some: "get_authorized_active_by_id s (ob_record_id r) sc = Some r'"
    using sqlite_reads.by_id_complete [of s "ob_record_id r" sc r] assms(2,3)
    by (cases "get_authorized_active_by_id s (ob_record_id r) sc") auto
  then obtain ev where "append_event ev s = (Inr (), s')"
    and loc: "loc = Some (projection r (''pbt_'' @ pe_id env (2 * n)) (pe_now env + 600 * 1000000, 0))"
    using assms(1) by (auto simp: build_locator_def se_simps Let_def split: prod.splits sum.splits)
  with append_event_ok show ?thesis by fastforce
qed

lemma details_loop_ok:
  assumes "details_loop env il sc n recs s = (Inr items, s')"
    and "\<forall>r \<in> set recs. r \<in> set (mem_records s) \<and> record_permitted sc r"
  shows "items = map (\<lambda>(k, r). details_item_of r (if il
      then Some (projection r (''pbt_'' @ pe_id env (2 * k)) (pe_now env + 600 * 1000000, 0)) else None)) (enumerate n recs)"
  using assms
proof (induction recs arbitrary: n s items)
  case Nil
  then show ?case by simp
next
  case (Cons r recs)
  from Cons.prems(1) obtain loc s1 its where
    loc: "(if il then build_locator env n r sc else se_ret None) s = (Inr loc, s1)"
    and rest: "details_loop env il sc (Suc n) recs s1 = (Inr its, s')" and items: "items = details_item_of r loc # its"
    by (auto simp: se_simps split: prod.splits sum.splits)
  have "loc = (if il then Some (projection r (''pbt_'' @ pe_id env (2 * n)) (pe_now env + 600 * 1000000, 0)) else None) \<and>
      mem_records s1 = mem_records s"
    using loc Cons.prems(2) build_locator_ok [of env n r sc s loc s1] by (cases il) auto
  with Cons.IH [OF rest] Cons.prems(2) items show ?case by simp
qed

section \<open>Properties\<close>

text \<open>
  C22. A playback token opens its record exactly while it should: a token issued to a principal for
  an authorized record is accepted, until its expiry, from the same principal as long as the record
  is still authorized, and the descriptor names this record.
\<close>

theorem playback_token_roundtrip:
  fixes s s1 s2 :: "'a memory_scheme"
  assumes "issue_locators ts env ids sc rq s = (Inr ps, s1)" and "ts_fl ts = fl64"
    and "expires = pe_now env + ts_ttl_seconds ts * 1000000"
    and "r \<in> set (get_authorized_active_by_ids s ids sc)"
    and "codec_ok ts (record_payload ts sc r expires)"
    and "sc_principal_id sc' = sc_principal_id sc" and "VIDEO_PLAYBACK \<in> set (sc_capabilities sc')"
    and "ob_record_id r \<in> visible_ids (set (mem_records s2)) sc'"
    and "pe_now env' \<le> expires" and "''audit_'' @ pe_id env' 0 \<notin> ae_audit_event_id ` set (mem_audit s2)"
  shows "\<exists>token. projection r token (expires, 0) \<in> set ps \<and>
    (\<exists>d s3. verify_playback ts env' token sc' rq' s2 = (Inr d, s3) \<and> pd_record_id d = ob_record_id r)"
proof -
  let ?p = "record_payload ts sc r expires"
  have "issue_loop ts env sc rq expires 0 (get_authorized_active_by_ids s ids sc) s = (Inr ps, s1)"
    using assms(1,3) by (auto simp: issue_locators_def se_simps split: if_splits)
  then have "projection r (sign_token ts ?p) (expires, 0) \<in> set ps" using issue_loop_ok assms(4) by fastforce
  moreover have "timestamp (ts_fl ts) (pe_now env') \<le> pp_exp ?p"
    using assms(9) by (auto simp: record_payload_def timestamp_def assms(2) intro!: ieee.fl_mono divide_right_mono)
  then obtain m t where ver: "verify_token ts (pe_now env') (sign_token ts ?p) = Some m"
    "m ''principal_id'' = Some (PStr (sc_principal_id sc'))" "m ''record_id'' = Some (PStr (ob_record_id r))"
    using verify_signed [OF assms(5)] assms(6) by (auto simp: record_payload_def)
  obtain r' where "get_authorized_active_by_id s2 (ob_record_id r) sc' = Some r'"
    using sqlite_reads.by_id_None_iff assms(8) by fastforce
  with ver assms(7,10) sqlite_reads.by_id_sound [of s2 "ob_record_id r" sc' r']
  have "\<exists>d s3. verify_playback ts env' (sign_token ts ?p) sc' rq' s2 = (Inr d, s3) \<and> pd_record_id d = ob_record_id r"
    by (simp add: verify_playback_def se_simps Let_def append_event_def row_ins_def play_event_def)
  ultimately show ?thesis by blast
qed

definition ex_tokens :: token_service where
  "ex_tokens = \<lparr>ts_hmac = (\<lambda>_. [7]), ts_dumps = (\<lambda>_. [1, 2]),
     ts_loads = (\<lambda>_. Some [''principal_id'' \<mapsto> PStr ''u'', ''record_id'' \<mapsto> PStr ''r1'', ''exp'' \<mapsto> PNum (fl64 600) ''600.0'']),
     ts_ttl_seconds = 600, ts_fl = fl64\<rparr>"

definition ex_play :: play_env where
  "ex_play = \<lparr>pe_id = (\<lambda>n. replicate n CHR ''x''), pe_now = 0, pe_audit_now = (0, 0)\<rparr>"

lemma ex_visible: "get_authorized_active_by_ids ex_search_db [''r1''] ex_scope = [ex_record ''r1'' ''red car'']"
  by (simp add: get_authorized_active_by_ids_def ex_search_defs
        authorized_observation_filter_def obs_resource_def allowed_levels_def all_security_levels_def allows_def)

lemma ex_play_facts:
  "OBSERVATION_READ_LOCATOR \<in> set (sc_capabilities ex_scope)" "OBSERVATION_READ_DETAIL \<in> set (sc_capabilities ex_scope)"
  "VIDEO_PLAYBACK \<in> set (sc_capabilities ex_scope)" "sc_principal_id ex_scope = ''u''" "mem_audit ex_search_db = []"
  by (simp_all add: ex_scope_def ex_search_db_def)

theorem playback_token_roundtrip_witness:
  "\<exists>token d s3. verify_playback ex_tokens ex_play token ex_scope None ex_search_db = (Inr d, s3) \<and> pd_record_id d = ''r1''"
proof -
  let ?r = "ex_record ''r1'' ''red car''"
  obtain ps s1 where issue: "issue_locators ex_tokens ex_play [''r1''] ex_scope None ex_search_db = (Inr ps, s1)"
    by (simp add: issue_locators_def ex_visible se_simps append_event_def row_ins_def ex_play_facts)
  have codec: "codec_ok ex_tokens (record_payload ex_tokens ex_scope ?r 600000000)"
    by (simp add: codec_ok_def ex_tokens_def bytes_ok_def record_payload_def ex_scope_def ex_record_def timestamp_def)
  have vis: "ob_record_id ?r \<in> visible_ids (set (mem_records ex_search_db)) ex_scope"
    using sqlite_reads.by_ids_visible [of ex_search_db "[''r1'']" ex_scope] by (auto simp: ex_visible)
  have "\<exists>token. projection ?r token (600000000, 0) \<in> set ps \<and>
    (\<exists>d s3. verify_playback ex_tokens ex_play token ex_scope None ex_search_db = (Inr d, s3) \<and> pd_record_id d = ob_record_id ?r)"
    by (rule playback_token_roundtrip [OF issue _ _ _ codec refl _ vis])
      (simp_all add: ex_visible, simp_all add: ex_tokens_def ex_play_def ex_scope_def ex_search_db_def)
  then show ?thesis by (auto simp: ex_record_def)
qed

text \<open>
  C23. No playback without a second authorization: whatever token is presented, a descriptor is only
  returned for a record that the caller's present scope permits, to a caller with the playback
  capability, and only for a token whose signature is the HMAC of its body, which names the caller
  and whose expiry has not passed.
\<close>

theorem playback_is_reauthorized:
  fixes s :: "'a memory_scheme"
  assumes "verify_playback ts env token sc rq s = (Inr d, s')"
  shows "VIDEO_PLAYBACK \<in> set (sc_capabilities sc) \<and> pd_record_id d \<in> visible_ids (set (mem_records s)) sc \<and>
    (\<exists>b g body payload x. split_token token = Some (b, g) \<and> b64url_decode b = Some body \<and>
       b64url_decode g = Some (ts_hmac ts body) \<and> ts_loads ts body = Some payload \<and>
       payload ''principal_id'' = Some (PStr (sc_principal_id sc)) \<and>
       Option.bind (payload ''exp'') pval_num = Some x \<and> timestamp (ts_fl ts) (pe_now env) \<le> x)"
proof -
  from assms obtain payload i r where cap: "VIDEO_PLAYBACK \<in> set (sc_capabilities sc)"
    and ver: "verify_token ts (pe_now env) token = Some payload"
    and pri: "payload ''principal_id'' = Some (PStr (sc_principal_id sc))"
    and found: "get_authorized_active_by_id s i sc = Some r" and d: "pd_record_id d = ob_record_id r"
    by (auto simp: verify_playback_def se_simps Let_def split: if_splits option.splits prod.splits sum.splits)
  have "pd_record_id d \<in> visible_ids (set (mem_records s)) sc"
    using sqlite_reads.by_id_visible [OF found] sqlite_reads.by_id_sound [OF found] d by simp
  with cap pri verify_token_Some [OF ver] show ?thesis by blast
qed

theorem playback_is_reauthorized_witness:
  "\<exists>d s'. verify_playback ex_tokens ex_play (sign_token ex_tokens (record_payload ex_tokens ex_scope (ex_record ''r1'' ''red car'') 600000000))
       ex_scope None ex_search_db = (Inr d, s') \<and> pd_record_id d \<in> visible_ids (set (mem_records ex_search_db)) ex_scope"
proof -
  let ?r = "ex_record ''r1'' ''red car''"
  let ?p = "record_payload ex_tokens ex_scope ?r 600000000"
  have codec: "codec_ok ex_tokens ?p"
    by (simp add: codec_ok_def ex_tokens_def bytes_ok_def record_payload_def ex_scope_def ex_record_def timestamp_def)
  have "timestamp (ts_fl ex_tokens) (pe_now ex_play) \<le> pp_exp ?p"
    by (simp add: ex_tokens_def ex_play_def record_payload_def timestamp_def ieee.fl_mono)
  then obtain m t where ver: "verify_token ex_tokens (pe_now ex_play) (sign_token ex_tokens ?p) = Some m"
    "m ''principal_id'' = Some (PStr ''u'')" "m ''record_id'' = Some (PStr ''r1'')"
    using verify_signed [OF codec] by (auto simp: record_payload_def ex_scope_def ex_record_def)
  have "get_authorized_active_by_id ex_search_db ''r1'' ex_scope = Some ?r"
    by (simp add: get_authorized_active_by_id_def ex_search_defs
        authorized_observation_filter_def obs_resource_def allowed_levels_def all_security_levels_def allows_def)
  with ver obtain d s' where run: "verify_playback ex_tokens ex_play (sign_token ex_tokens ?p) ex_scope None ex_search_db = (Inr d, s')"
    by (simp add: verify_playback_def se_simps Let_def append_event_def row_ins_def ex_play_facts)
  from playback_is_reauthorized [OF run] run show ?thesis by blast
qed

text \<open>
  Details are returned for exactly the requested records the scope permits, each with a locator
  if and only if locators were asked for. The playback URL of such a locator carries an unsigned
  placeholder token, which the playback endpoint never accepts.
\<close>

theorem details_locators_never_verify:
  fixes s :: "'a memory_scheme"
  assumes "get_details env request sc rq s = (Inr items, s')" and "\<forall>n. CHR ''.'' \<notin> set (pe_id env n)"
  shows "set (map di_record_id items) = visible_ids (set (mem_records s)) sc \<inter> set (dr_record_ids request) \<and>
    (\<forall>item \<in> set items. (di_locator item \<noteq> None) = dr_include_locator request \<and>
       (\<forall>loc token. di_locator item = Some loc \<and> lp_playback_url loc = Some (''/api/v1/playback/'' @ token) \<longrightarrow>
          verify_token ts now token = None))"
proof -
  let ?recs = "get_authorized_active_by_ids s (dr_record_ids request) sc"
  have set: "set ?recs = {r \<in> set (mem_records s). ob_record_id r \<in> set (dr_record_ids request) \<and> record_permitted sc r}"
    by (rule sqlite_reads.set_by_ids)
  from assms(1) obtain s1 where "details_loop env (dr_include_locator request) sc 0 ?recs s = (Inr items, s1)"
    by (auto simp: get_details_def se_simps split: if_splits prod.splits sum.splits)
  then have items: "items = map (\<lambda>(k, r). details_item_of r (if dr_include_locator request
      then Some (projection r (''pbt_'' @ pe_id env (2 * k)) (pe_now env + 600 * 1000000, 0)) else None)) (enumerate 0 ?recs)"
    by (rule details_loop_ok) (simp add: set)
  have "map di_record_id items = map (\<lambda>p. ob_record_id (snd p)) (enumerate 0 ?recs)"
    unfolding items by (auto simp: details_item_of_def split: prod.splits)
  then have "set (map di_record_id items) = ob_record_id ` set ?recs"
    by (simp add: map_enumerate_snd [of ob_record_id] del: set_map) simp
  then have ids: "set (map di_record_id items) = visible_ids (set (mem_records s)) sc \<inter> set (dr_record_ids request)"
    unfolding set visible_ids_def by auto
  have "verify_token ts now (''pbt_'' @ pe_id env k) = None" for k
    using assms(2) by (simp add: verify_token_def split_token_def)
  then show ?thesis using ids
    by (auto simp: items details_item_of_def projection_def split: prod.splits if_splits)
qed

theorem details_locators_never_verify_witness:
  "\<exists>items s'. get_details ex_play \<lparr>dr_record_ids = [''r1''], dr_include_locator = False\<rparr> ex_scope None ex_search_db = (Inr items, s') \<and>
     (\<forall>item \<in> set items. di_locator item = None)"
proof -
  let ?rq = "\<lparr>dr_record_ids = [''r1''], dr_include_locator = False\<rparr>"
  obtain items s' where run: "get_details ex_play ?rq ex_scope None ex_search_db = (Inr items, s')"
    by (simp add: get_details_def ex_visible se_simps append_event_def row_ins_def ex_play_facts)
  have "\<forall>n. CHR ''.'' \<notin> set (pe_id ex_play n)" by (simp add: ex_play_def)
  from details_locators_never_verify [OF run this] run show ?thesis by auto
qed

end
