(* ===== verification/Cctv_Gate.thy ===== *)
theory Cctv_Gate
  imports Cctv_Json
begin

text \<open>
  The pre-VLM gate: the contracts of \<^verbatim>\<open>contracts/pre_vlm_gate.py\<close>, the decision policy of
  \<^verbatim>\<open>domain/policies/pre_vlm_gate.py\<close>, the detector gate of \<^verbatim>\<open>workers/detector_gate.py\<close> that is
  built on it, the worker helper \<^verbatim>\<open>workers/pre_vlm_gate.py\<close> and the runner
  \<^verbatim>\<open>infrastructure/pre_vlm_gate/gate_runner.py\<close>. Frame evidence is untyped JSON, so reading it may
  raise; the lemmas say what the gate decides on evidence that the two detectors produce.
\<close>

section \<open>Contracts\<close>

datatype gate_signal_type = SIG_OBJECT_DETECTION | SIG_MOTION | SIG_QUALITY | SIG_CUSTOM

fun gate_signal_type_value :: "gate_signal_type \<Rightarrow> string" where
  "gate_signal_type_value SIG_OBJECT_DETECTION = ''object_detection''"
| "gate_signal_type_value SIG_MOTION = ''motion''"
| "gate_signal_type_value SIG_QUALITY = ''quality''"
| "gate_signal_type_value SIG_CUSTOM = ''custom''"

datatype gate_rule_action = RULE_CALL_VLM | RULE_SUPPRESS_VLM

fun gate_rule_action_value :: "gate_rule_action \<Rightarrow> string" where
  "gate_rule_action_value RULE_CALL_VLM = ''call_vlm''"
| "gate_rule_action_value RULE_SUPPRESS_VLM = ''suppress_vlm''"

datatype gate_suppression = PUBLISH_GATE_ONLY_RECORD | SKIP_WITHOUT_RECORD

fun gate_suppression_value :: "gate_suppression \<Rightarrow> string" where
  "gate_suppression_value PUBLISH_GATE_ONLY_RECORD = ''publish_gate_only_record''"
| "gate_suppression_value SKIP_WITHOUT_RECORD = ''skip_without_record''"

definition gate_suppression_of :: "string \<Rightarrow> gate_suppression option" where
  "gate_suppression_of s =
    find (\<lambda>p. gate_suppression_value p = s) [PUBLISH_GATE_ONLY_RECORD, SKIP_WITHOUT_RECORD]"

datatype gate_action = ACT_CALL_VLM | ACT_SUPPRESS_VLM | ACT_DISABLED | ACT_FORCE_VLM

fun gate_action_value :: "gate_action \<Rightarrow> string" where
  "gate_action_value ACT_CALL_VLM = ''call_vlm''"
| "gate_action_value ACT_SUPPRESS_VLM = ''suppress_vlm''"
| "gate_action_value ACT_DISABLED = ''disabled''"
| "gate_action_value ACT_FORCE_VLM = ''force_vlm''"

record gate_rule =
  gr_rule_id :: "string option"
  gr_signal_type :: gate_signal_type
  gr_label :: string
  gr_min_positive_frame_ratio :: real
  gr_min_confidence :: real
  gr_action :: gate_rule_action

record gate_profile =
  gp_profile_name :: string
  gp_enabled :: bool
  gp_analysis_scale :: analysis_scale
  gp_suppression_policy :: gate_suppression
  gp_provider :: string
  gp_model_id :: "string option"
  gp_rules :: "gate_rule list"
  gp_force_vlm_on_trigger_reasons :: "string list"

record gate_signal =
  gs_signal_type :: gate_signal_type
  gs_provider :: string
  gs_model_id :: "string option"
  gs_status :: string
  gs_frame_count :: int
  gs_summary :: jdict
  gs_frame_evidence :: "jdict list"

record gate_decision =
  gd_triggered_vlm :: bool
  gd_action :: gate_action
  gd_matched_rules :: "string list"
  gd_positive_frame_ratio_by_label :: "(string \<times> real) list"
  gd_reason :: string
  gd_evidence_hash :: string
  gd_rule_config_hash :: "string option"
  gd_suppression_policy :: "gate_suppression option"

record gate_bundle =
  gb_decision :: gate_decision
  gb_signals :: "gate_signal list"
  gb_frame_evidence :: "jdict list"
  gb_summary :: jdict

abbreviation gb_triggered_vlm :: "gate_bundle \<Rightarrow> bool" where
  "gb_triggered_vlm b \<equiv> gd_triggered_vlm (gb_decision b)"

section \<open>The decision policy\<close>

definition detection_matches :: "py_env \<Rightarrow> jdict \<Rightarrow> gate_rule \<Rightarrow> exn + bool" where
  "detection_matches pe detection rule =
    (if js_str pe (js_get detection ''label'' (JsStr [])) \<noteq> gr_label rule then Inr False
     else case js_float pe (js_get detection ''confidence'' (JsReal 0)) of
       Inl e \<Rightarrow> Inl e
     | Inr c \<Rightarrow> Inr (c \<ge> gr_min_confidence rule))"

text \<open>\<^verbatim>\<open>any(... for d in detections if isinstance(d, dict))\<close>.\<close>

fun any_detection :: "py_env \<Rightarrow> gate_rule \<Rightarrow> json list \<Rightarrow> exn + bool" where
  "any_detection pe rule [] = Inr False"
| "any_detection pe rule (JsObj d # ds) =
    (case detection_matches pe d rule of
       Inl e \<Rightarrow> Inl e
     | Inr b \<Rightarrow> if b then Inr True else any_detection pe rule ds)"
| "any_detection pe rule (v # ds) = any_detection pe rule ds"

text \<open>Iterating a string or a dict yields strings, which are not dicts; other values do not iterate.\<close>

definition frame_positive :: "py_env \<Rightarrow> gate_rule \<Rightarrow> jdict \<Rightarrow> exn + bool" where
  "frame_positive pe rule frame =
    (case js_get frame ''detections'' (JsArr []) of
       JsArr ds \<Rightarrow> any_detection pe rule ds
     | JsStr _ \<Rightarrow> Inr False
     | JsObj _ \<Rightarrow> Inr False
     | _ \<Rightarrow> Inl (TypeError ''object is not iterable''))"

definition positive_frames :: "py_env \<Rightarrow> gate_rule \<Rightarrow> jdict list \<Rightarrow> exn + nat" where
  "positive_frames pe rule frames =
    (case map_raise (frame_positive pe rule) frames of
       Inl e \<Rightarrow> Inl e
     | Inr bs \<Rightarrow> Inr (count_where (\<lambda>b. b) bs))"

definition rule_signals :: "gate_signal list \<Rightarrow> gate_rule \<Rightarrow> gate_signal list" where
  "rule_signals signals rule = filter (\<lambda>s. gs_signal_type s = gr_signal_type rule) signals"

definition positive_frame_ratio :: "py_env \<Rightarrow> gate_signal list \<Rightarrow> gate_rule \<Rightarrow> exn + real" where
  "positive_frame_ratio pe signals rule =
    (case map_raise (\<lambda>s. positive_frames pe rule (gs_frame_evidence s)) (rule_signals signals rule) of
       Inl e \<Rightarrow> Inl e
     | Inr counts \<Rightarrow>
       let frame_count = sum_list (map gs_frame_count (rule_signals signals rule))
       in if frame_count \<le> 0 then Inr 0
          else Inr (py_fl pe (of_nat (sum_list counts) / of_int frame_count)))"

definition combined_frame_evidence :: "gate_signal list \<Rightarrow> jdict list" where
  "combined_frame_evidence signals = concat (map gs_frame_evidence signals)"

definition rule_match_name :: "py_env \<Rightarrow> gate_rule \<Rightarrow> string" where
  "rule_match_name pe rule =
    (case gr_rule_id rule of Some (c # cs) \<Rightarrow> c # cs | _ \<Rightarrow> gr_label rule) @ ''.positive_frame_ratio>='' @
    py_repr_float pe (gr_min_positive_frame_ratio rule)"

definition rule_dump :: "gate_rule \<Rightarrow> json" where
  "rule_dump r = JsObj
    [(''rule_id'', js_opt JsStr (gr_rule_id r)),
     (''signal_type'', JsStr (gate_signal_type_value (gr_signal_type r))),
     (''label'', JsStr (gr_label r)),
     (''min_positive_frame_ratio'', JsReal (gr_min_positive_frame_ratio r)),
     (''min_confidence'', JsReal (gr_min_confidence r)),
     (''action'', JsStr (gate_rule_action_value (gr_action r)))]"

definition rule_hits :: "gate_rule \<Rightarrow> real \<Rightarrow> bool" where
  "rule_hits rule ratio \<longleftrightarrow> gr_action rule = RULE_CALL_VLM \<and> ratio \<ge> gr_min_positive_frame_ratio rule"

text \<open>The loop over the rules, with its two accumulators \<^verbatim>\<open>ratios\<close> and \<^verbatim>\<open>matched\<close>.\<close>

fun rules_loop ::
  "py_env \<Rightarrow> gate_signal list \<Rightarrow> gate_rule list \<Rightarrow> (string \<times> real) list \<times> string list \<Rightarrow>
   exn + (string \<times> real) list \<times> string list" where
  "rules_loop pe signals [] acc = Inr acc"
| "rules_loop pe signals (rule # rules) (ratios, matched) =
    (case positive_frame_ratio pe signals rule of
       Inl e \<Rightarrow> Inl e
     | Inr ratio \<Rightarrow>
       rules_loop pe signals rules
         (dict_set (gr_label rule) ratio ratios,
          if rule_hits rule ratio then matched @ [rule_match_name pe rule] else matched))"

definition trigger_reason :: "py_env \<Rightarrow> jdict option \<Rightarrow> string" where
  "trigger_reason pe context =
    js_str pe (js_get (case context of None \<Rightarrow> [] | Some d \<Rightarrow> d) ''trigger_reason'' (JsStr []))"

definition forced_by :: "py_env \<Rightarrow> jdict option \<Rightarrow> gate_profile option \<Rightarrow> bool" where
  "forced_by pe context profile \<longleftrightarrow>
    trigger_reason pe context \<noteq> [] \<and>
    trigger_reason pe context \<in> set (case profile of None \<Rightarrow> [] | Some p \<Rightarrow> gp_force_vlm_on_trigger_reasons p)"

definition gate_summary :: "analysis_scale \<Rightarrow> string \<Rightarrow> gate_decision \<Rightarrow> jdict" where
  "gate_summary scale policy d =
    [(''schema_version'', JsStr ''pre_vlm_gate_summary_v1''),
     (''analysis_scale'', JsStr (analysis_scale_value scale)),
     (''triggered_vlm'', JsBool (gd_triggered_vlm d)),
     (''action'', JsStr (gate_action_value (gd_action d))),
     (''matched_rules'', JsArr (map JsStr (gd_matched_rules d))),
     (''positive_frame_ratio_by_label'', JsObj (map (\<lambda>(l, x). (l, JsReal x)) (gd_positive_frame_ratio_by_label d))),
     (''evidence_hash'', JsStr (gd_evidence_hash d)),
     (''rule_config_hash'', js_opt JsStr (gd_rule_config_hash d)),
     (''suppression_policy'', JsStr policy)]"

definition decide_pre_vlm_gate ::
  "py_env \<Rightarrow> gate_signal list \<Rightarrow> gate_rule list \<Rightarrow> analysis_scale \<Rightarrow> string \<Rightarrow> jdict option \<Rightarrow>
   gate_profile option \<Rightarrow> exn + gate_bundle" where
  "decide_pre_vlm_gate pe signals rules scale suppression_policy context profile =
    (let evidence = combined_frame_evidence signals;
         evidence_hash = hash_json pe (JsArr (map JsObj evidence));
         rule_hash = hash_json pe (JsArr (map rule_dump rules))
     in case rules_loop pe signals rules ([], []) of
       Inl e \<Rightarrow> Inl e
     | Inr (ratios, matched) \<Rightarrow>
       (case gate_suppression_of suppression_policy of
          None \<Rightarrow> Inl (PydanticValidationError ''suppression_policy'')
        | Some policy \<Rightarrow>
          let decision =
            (if forced_by pe context profile then
               \<lparr>gd_triggered_vlm = True, gd_action = ACT_FORCE_VLM, gd_matched_rules = matched,
                gd_positive_frame_ratio_by_label = ratios,
                gd_reason = ''force_vlm_on_trigger_reason:'' @ trigger_reason pe context,
                gd_evidence_hash = evidence_hash, gd_rule_config_hash = Some rule_hash,
                gd_suppression_policy = Some policy\<rparr>
             else if matched \<noteq> [] then
               \<lparr>gd_triggered_vlm = True, gd_action = ACT_CALL_VLM, gd_matched_rules = matched,
                gd_positive_frame_ratio_by_label = ratios, gd_reason = ''matched gate rules'',
                gd_evidence_hash = evidence_hash, gd_rule_config_hash = Some rule_hash,
                gd_suppression_policy = Some policy\<rparr>
             else
               \<lparr>gd_triggered_vlm = False, gd_action = ACT_SUPPRESS_VLM, gd_matched_rules = [],
                gd_positive_frame_ratio_by_label = ratios, gd_reason = ''no gate rule matched'',
                gd_evidence_hash = evidence_hash, gd_rule_config_hash = Some rule_hash,
                gd_suppression_policy = Some policy\<rparr>)
          in Inr \<lparr>gb_decision = decision, gb_signals = signals, gb_frame_evidence = evidence,
               gb_summary = gate_summary scale suppression_policy decision\<rparr>))"


section \<open>The detector gate\<close>

record selected_frame =
  sf_uri :: string
  sf_frame_index :: int
  sf_timestamp_ms :: int
  sf_motion :: real
  sf_scene :: real
  sf_blur :: real
  sf_brightness :: real
  sf_decode_backend :: string
  sf_selection_reason :: string

text \<open>The frames of a unit: plain paths, or selected frames with their provenance.\<close>

datatype media_input = MediaPath string | MediaFrame selected_frame

record frame_input =
  fi_uri :: string
  fi_frame_index :: "int option"
  fi_timestamp_ms :: int
  fi_frame_hash :: "string option"

record detection =
  dt_label :: string
  dt_confidence :: real
  dt_bbox :: "real list"
  dt_bbox_format :: string

record frame_result =
  fr_frame :: frame_input
  fr_detections :: "detection list"

definition frame_input_of :: "(string \<Rightarrow> string option) \<Rightarrow> nat \<times> media_input \<Rightarrow> frame_input" where
  "frame_input_of file_sha256 ix =
    (case ix of
       (index, MediaFrame f) \<Rightarrow>
         \<lparr>fi_uri = sf_uri f, fi_frame_index = Some (sf_frame_index f), fi_timestamp_ms = sf_timestamp_ms f,
          fi_frame_hash = file_sha256 (sf_uri f)\<rparr>
     | (index, MediaPath uri) \<Rightarrow>
         \<lparr>fi_uri = uri, fi_frame_index = Some (int index), fi_timestamp_ms = int index,
          fi_frame_hash = file_sha256 uri\<rparr>)"

definition build_detector_frame_inputs :: "(string \<Rightarrow> string option) \<Rightarrow> media_input list \<Rightarrow> frame_input list" where
  "build_detector_frame_inputs file_sha256 items = map (frame_input_of file_sha256) (enumerate 0 items)"

definition detection_dump :: "detection \<Rightarrow> json" where
  "detection_dump d = JsObj
    [(''label'', JsStr (dt_label d)), (''confidence'', JsReal (dt_confidence d)),
     (''bbox'', JsArr (map JsReal (dt_bbox d))), (''bbox_format'', JsStr (dt_bbox_format d))]"

definition frame_result_to_evidence :: "frame_result \<Rightarrow> jdict" where
  "frame_result_to_evidence r =
    [(''frame_index'', js_opt JsInt (fi_frame_index (fr_frame r))),
     (''timestamp_ms'', JsInt (fi_timestamp_ms (fr_frame r))),
     (''uri_basename'', JsStr (basename (fi_uri (fr_frame r)))),
     (''frame_hash'', js_opt JsStr (fi_frame_hash (fr_frame r))),
     (''detections'', JsArr (map detection_dump (fr_detections r)))]"

record detector_rule =
  dr_label :: string
  dr_min_positive_frame_ratio :: real
  dr_min_confidence :: real
  dr_action :: string

text \<open>\<^verbatim>\<open>GateRule(...)\<close> accepts the two actions of its literal type and ratios in the unit interval.\<close>

definition gate_rule_of :: "detector_rule \<Rightarrow> exn + gate_rule" where
  "gate_rule_of r =
    (case find (\<lambda>a. gate_rule_action_value a = dr_action r) [RULE_CALL_VLM, RULE_SUPPRESS_VLM] of
       None \<Rightarrow> Inl (PydanticValidationError ''action'')
     | Some a \<Rightarrow>
       if 0 \<le> dr_min_positive_frame_ratio r \<and> dr_min_positive_frame_ratio r \<le> 1 \<and>
          0 \<le> dr_min_confidence r \<and> dr_min_confidence r \<le> 1
       then Inr \<lparr>gr_rule_id = None, gr_signal_type = SIG_OBJECT_DETECTION, gr_label = dr_label r,
              gr_min_positive_frame_ratio = dr_min_positive_frame_ratio r,
              gr_min_confidence = dr_min_confidence r, gr_action = a\<rparr>
       else Inl (PydanticValidationError ''ratio''))"

record detector_gate_bundle =
  dg_triggered_vlm :: bool
  dg_decision :: jdict
  dg_frame_evidence :: "jdict list"
  dg_evidence_hash :: string
  dg_rule_config_hash :: string
  dg_summary :: jdict

definition detector_signal :: "string \<Rightarrow> string \<Rightarrow> frame_result list \<Rightarrow> gate_signal" where
  "detector_signal provider model_id results =
    \<lparr>gs_signal_type = SIG_OBJECT_DETECTION, gs_provider = provider, gs_model_id = Some model_id,
     gs_status = ''succeeded'', gs_frame_count = int (length results), gs_summary = [],
     gs_frame_evidence = map frame_result_to_evidence results\<rparr>"

definition decide_detector_gate ::
  "py_env \<Rightarrow> frame_result list \<Rightarrow> detector_rule list \<Rightarrow> string \<Rightarrow> string \<Rightarrow> string \<Rightarrow> exn + detector_gate_bundle" where
  "decide_detector_gate pe results rules provider model_id gate_log_id =
    (case map_raise gate_rule_of rules of
       Inl e \<Rightarrow> Inl e
     | Inr gate_rules \<Rightarrow>
       (case decide_pre_vlm_gate pe [detector_signal provider model_id results] gate_rules DEFAULT_SEGMENT
           ''publish_gate_only_record'' None None of
          Inl e \<Rightarrow> Inl e
        | Inr b \<Rightarrow>
          let d = gb_decision b;
              rule_hash = (case gd_rule_config_hash d of Some (c # h) \<Rightarrow> c # h | _ \<Rightarrow> hash_json pe (JsArr []));
              ratios = JsObj (map (\<lambda>(l, x). (l, JsReal x)) (gd_positive_frame_ratio_by_label d));
              matched = JsArr (map JsStr (gd_matched_rules d))
          in Inr \<lparr>dg_triggered_vlm = gd_triggered_vlm d,
               dg_decision =
                 [(''schema_version'', JsStr ''detector_gate_decision_v1''),
                  (''triggered_vlm'', JsBool (gd_triggered_vlm d)), (''matched_rules'', matched),
                  (''positive_frame_ratio_by_label'', ratios), (''reason'', JsStr (gd_reason d)),
                  (''rule_config_hash'', JsStr rule_hash), (''evidence_hash'', JsStr (gd_evidence_hash d))],
               dg_frame_evidence = map frame_result_to_evidence results,
               dg_evidence_hash = gd_evidence_hash d, dg_rule_config_hash = rule_hash,
               dg_summary =
                 [(''schema_version'', JsStr ''detector_gate_summary_v1''), (''provider'', JsStr provider),
                  (''model_id'', JsStr model_id), (''gate_log_id'', JsStr gate_log_id),
                  (''triggered_vlm'', JsBool (gd_triggered_vlm d)), (''matched_rules'', matched),
                  (''positive_frame_ratio_by_label'', ratios), (''evidence_hash'', JsStr (gd_evidence_hash d)),
                  (''rule_config_hash'', JsStr rule_hash)]\<rparr>))"

section \<open>The worker helper\<close>

record pre_vlm_gate_request =
  pq_request_id :: string
  pq_gate_log_id :: string
  pq_analysis_job_id :: string
  pq_scale_task_id :: string
  pq_unit_id :: string
  pq_video_id :: string
  pq_analysis_scale :: analysis_scale
  pq_unit_kind :: string
  pq_segment_start_ms :: int
  pq_segment_end_ms :: int
  pq_provider :: string
  pq_model_id :: "string option"
  pq_profile :: gate_profile
  pq_frames :: "frame_input list"
  pq_trigger_context :: jdict

definition frame_input_ok :: "frame_input \<Rightarrow> bool" where
  "frame_input_ok f \<longleftrightarrow> 0 \<le> fi_timestamp_ms f \<and> (case fi_frame_index f of None \<Rightarrow> True | Some i \<Rightarrow> 0 \<le> i)"

definition gate_request_ok :: "pre_vlm_gate_request \<Rightarrow> bool" where
  "gate_request_ok q \<longleftrightarrow>
    list_all frame_input_ok (pq_frames q) \<and> 0 \<le> pq_segment_start_ms q \<and> 0 \<le> pq_segment_end_ms q \<and>
    pq_segment_start_ms q < pq_segment_end_ms q \<and> gp_analysis_scale (pq_profile q) = pq_analysis_scale q"

text \<open>\<open>q\<close> is the request with the caller's fields; the helper adds the profile and the frames.\<close>

definition run_pre_vlm_gate ::
  "(string \<Rightarrow> string option) \<Rightarrow> (pre_vlm_gate_request \<Rightarrow> ('s, exn, gate_bundle) se) option \<Rightarrow>
   gate_profile option \<Rightarrow> media_input list \<Rightarrow> (gate_profile \<Rightarrow> frame_input list \<Rightarrow> pre_vlm_gate_request) \<Rightarrow>
   ('s, exn, gate_bundle option) se" where
  "run_pre_vlm_gate file_sha256 gate profile items q =
    (case (gate, profile) of
       (Some evaluate, Some p) \<Rightarrow>
         if \<not> gp_enabled p then se_ret None
         else
           let request = q p (build_detector_frame_inputs file_sha256 items)
           in if \<not> gate_request_ok request then se_raise (PydanticValidationError ''PreVlmGateRequest'')
              else se_bind (evaluate request) (\<lambda>b. se_ret (Some b))
     | _ \<Rightarrow> se_ret None)"

section \<open>The gate runner\<close>

text \<open>What the runner keeps of the object-detection contracts; boxes and categories pass through as JSON.\<close>

record od_image =
  oi_image_id :: string
  oi_content_base64 :: "string option"
  oi_artifact_ref :: "string option"
  oi_frame_index :: "int option"
  oi_timestamp_ms :: int
  oi_sha256 :: "string option"

record od_request =
  oq_request_id :: string
  oq_provider :: string
  oq_images :: "od_image list"
  oq_max_results :: "int option"
  oq_min_confidence :: "real option"

record od_item =
  ot_label :: string
  ot_confidence :: real
  ot_bbox :: json
  ot_category :: "json option"
  ot_source_provider :: string

record od_image_result =
  or_image_id :: string
  or_frame_index :: "int option"
  or_timestamp_ms :: "int option"
  or_sha256 :: "string option"
  or_status :: string
  or_detections :: "od_item list"
  or_error :: "json option"

record od_batch_result =
  odb_provider :: string
  odb_model_id :: "string option"
  odb_results :: "od_image_result list"
  odb_usage :: "json option"

definition od_item_ok :: "od_item \<Rightarrow> bool" where
  "od_item_ok d \<longleftrightarrow> ot_label d \<noteq> [] \<and> 0 \<le> ot_confidence d \<and> ot_confidence d \<le> 1 \<and> ot_source_provider d \<noteq> []"

definition od_image_result_ok :: "od_image_result \<Rightarrow> bool" where
  "od_image_result_ok r \<longleftrightarrow> or_image_id r \<noteq> [] \<and> or_status r \<in> {''succeeded'', ''failed''} \<and>
    list_all od_item_ok (or_detections r) \<and> (or_status r = ''failed'' \<longrightarrow> or_error r \<noteq> None)"

definition od_batch_ok :: "od_batch_result \<Rightarrow> bool" where
  "od_batch_ok b \<longleftrightarrow> odb_provider b \<noteq> [] \<and> list_all od_image_result_ok (odb_results b)"

record runner_env =
  re_py :: py_env
  re_detect :: "nat \<Rightarrow> od_request \<Rightarrow> exn + od_batch_result"
  re_read_b64 :: "string \<Rightarrow> string option"
  re_max_results :: int
  re_min_confidence :: "real option"
  re_schema_regenerate_max_attempts :: int

definition image_input :: "runner_env \<Rightarrow> nat \<times> frame_input \<Rightarrow> exn + od_image" where
  "image_input env ix =
    (case ix of (index, frame) \<Rightarrow>
      (let content = re_read_b64 env (fi_uri frame);
           ref = (if content = None then Some (basename (fi_uri frame)) else None)
       in if content = Some [] \<or> ref = Some [] then Inl (PydanticValidationError ''ObjectDetectionImageInput'')
          else Inr \<lparr>oi_image_id = ''frame_'' @ show_nat index, oi_content_base64 = content, oi_artifact_ref = ref,
                 oi_frame_index = fi_frame_index frame, oi_timestamp_ms = fi_timestamp_ms frame,
                 oi_sha256 = fi_frame_hash frame\<rparr>))"

text \<open>One attempt: the provider's answer, validated again, with one result per image.\<close>

definition detect_once :: "runner_env \<Rightarrow> nat \<Rightarrow> od_request \<Rightarrow> exn + od_batch_result" where
  "detect_once env attempt request =
    (case re_detect env attempt request of
       Inl e \<Rightarrow> Inl e
     | Inr result \<Rightarrow>
       if \<not> od_batch_ok result then Inl (PydanticValidationError ''ObjectDetectionBatchResult'')
       else if length (odb_results result) \<noteq> length (oq_images request)
       then Inl (ObjectDetectionSchemaValidationError ''Object detection result count does not match request image count'')
       else Inr result)"

definition is_od_schema_error :: "exn \<Rightarrow> bool" where
  "is_od_schema_error e \<longleftrightarrow> ''ObjectDetectionSchemaValidationError'' \<in> set (exn_mro e)"

fun detect_loop :: "runner_env \<Rightarrow> od_request \<Rightarrow> nat \<Rightarrow> nat \<Rightarrow> exn + od_batch_result" where
  "detect_loop env request 0 attempt = Inl (OtherException [''AssertionError'', ''Exception''] [])"
| "detect_loop env request (Suc left) attempt =
    (case detect_once env attempt request of
       Inr result \<Rightarrow> Inr result
     | Inl e \<Rightarrow>
       if is_od_schema_error e \<and> left > 0 then detect_loop env request left (attempt + 1) else Inl e)"

definition detect_with_schema_retry :: "runner_env \<Rightarrow> od_request \<Rightarrow> exn + od_batch_result" where
  "detect_with_schema_retry env request =
    detect_loop env request (nat (1 + re_schema_regenerate_max_attempts env)) 1"

text \<open>\<^verbatim>\<open>int(text)\<close> of a text without underscores: blanks around a sign and decimal digits.\<close>

fun digits_value :: "nat \<Rightarrow> string \<Rightarrow> nat option" where
  "digits_value acc [] = Some acc"
| "digits_value acc (c # cs) =
    (if 48 \<le> code c \<and> code c \<le> 57 then digits_value (10 * acc + (code c - 48)) cs else None)"

definition py_int_text :: "string \<Rightarrow> int option" where
  "py_int_text t =
    (let u = rev (dropWhile py_isspace_char (rev (dropWhile py_isspace_char t)))
     in case u of
       [] \<Rightarrow> None
     | c # cs \<Rightarrow>
       if c = CHR ''-'' then (if cs = [] then None else map_option (\<lambda>n. - int n) (digits_value 0 cs))
       else if c = CHR ''+'' then (if cs = [] then None else map_option int (digits_value 0 cs))
       else map_option int (digits_value 0 u))"

definition basename_for :: "pre_vlm_gate_request \<Rightarrow> string \<Rightarrow> string option" where
  "basename_for q image_id =
    (if CHR ''_'' \<notin> set image_id then None
     else case py_int_text (rev (takeWhile (\<lambda>c. c \<noteq> CHR ''_'') (rev image_id))) of
       None \<Rightarrow> None
     | Some i \<Rightarrow> if i < 0 \<or> i \<ge> int (length (pq_frames q)) then None
         else Some (basename (fi_uri (pq_frames q ! nat i))))"

definition od_item_dump :: "od_item \<Rightarrow> json" where
  "od_item_dump d = JsObj
    [(''label'', JsStr (ot_label d)), (''confidence'', JsReal (ot_confidence d)), (''bbox'', ot_bbox d),
     (''category'', js_opt (\<lambda>c. c) (ot_category d)), (''source_provider'', JsStr (ot_source_provider d))]"

definition image_evidence :: "pre_vlm_gate_request \<Rightarrow> od_image_result \<Rightarrow> jdict" where
  "image_evidence q r =
    [(''frame_index'', js_opt JsInt (or_frame_index r)),
     (''timestamp_ms'', JsInt (case or_timestamp_ms r of None \<Rightarrow> 0 | Some t \<Rightarrow> t)),
     (''uri_basename'', js_opt JsStr (basename_for q (or_image_id r))),
     (''frame_hash'', js_opt JsStr (or_sha256 r)),
     (''detections'', JsArr (map od_item_dump (or_detections r))),
     (''error'', js_opt (\<lambda>e. e) (or_error r))]"

definition object_detection_signal :: "runner_env \<Rightarrow> pre_vlm_gate_request \<Rightarrow> exn + gate_signal" where
  "object_detection_signal env q =
    (case map_raise (image_input env) (enumerate 0 (pq_frames q)) of
       Inl e \<Rightarrow> Inl e
     | Inr images \<Rightarrow>
       if images = [] \<or> pq_provider q = [] then Inl (PydanticValidationError ''ObjectDetectionBatchRequest'')
       else case detect_with_schema_retry env
              \<lparr>oq_request_id = pq_request_id q @ '':object_detection'', oq_provider = pq_provider q,
               oq_images = images, oq_max_results = Some (re_max_results env),
               oq_min_confidence = re_min_confidence env\<rparr> of
         Inl e \<Rightarrow> Inl e
       | Inr result \<Rightarrow>
         Inr \<lparr>gs_signal_type = SIG_OBJECT_DETECTION, gs_provider = odb_provider result,
              gs_model_id = odb_model_id result,
              gs_status = (if list_ex (\<lambda>r. or_status r = ''failed'') (odb_results result) then ''failed'' else ''succeeded''),
              gs_frame_count = int (length (odb_results result)),
              gs_summary = [(''usage'', js_opt (\<lambda>u. u) (odb_usage result))],
              gs_frame_evidence = map (image_evidence q) (odb_results result)\<rparr>)"

definition disabled_bundle :: "pre_vlm_gate_request \<Rightarrow> gate_bundle" where
  "disabled_bundle q =
    \<lparr>gb_decision =
       \<lparr>gd_triggered_vlm = True, gd_action = ACT_DISABLED, gd_matched_rules = [],
        gd_positive_frame_ratio_by_label = [], gd_reason = ''pre_vlm_gate disabled'',
        gd_evidence_hash = ''sha256:disabled'', gd_rule_config_hash = None,
        gd_suppression_policy = Some (gp_suppression_policy (pq_profile q))\<rparr>,
     gb_signals = [], gb_frame_evidence = [],
     gb_summary = [(''schema_version'', JsStr ''pre_vlm_gate_summary_v1''), (''triggered_vlm'', JsBool True)]\<rparr>"

record pre_vlm_gate_log =
  pg_gate_log_id :: string
  pg_analysis_job_id :: string
  pg_scale_task_id :: string
  pg_unit_id :: string
  pg_video_id :: string
  pg_analysis_scale :: analysis_scale
  pg_profile_name :: string
  pg_segment_start_ms :: int
  pg_segment_end_ms :: int
  pg_status :: string
  pg_error_type :: "string option"
  pg_error_message :: "string option"
  pg_decision :: "gate_decision option"
  pg_signals :: "gate_signal list"
  pg_frame_evidence :: "jdict list"
  pg_evidence_hash :: string
  pg_rule_config_hash :: "string option"
  pg_suppression_policy :: "gate_suppression option"

definition gate_log_of :: "pre_vlm_gate_request \<Rightarrow> gate_bundle \<Rightarrow> pre_vlm_gate_log" where
  "gate_log_of q b =
    \<lparr>pg_gate_log_id = pq_gate_log_id q, pg_analysis_job_id = pq_analysis_job_id q,
     pg_scale_task_id = pq_scale_task_id q, pg_unit_id = pq_unit_id q, pg_video_id = pq_video_id q,
     pg_analysis_scale = pq_analysis_scale q, pg_profile_name = gp_profile_name (pq_profile q),
     pg_segment_start_ms = pq_segment_start_ms q, pg_segment_end_ms = pq_segment_end_ms q,
     pg_status = ''succeeded'', pg_error_type = None, pg_error_message = None,
     pg_decision = Some (gb_decision b), pg_signals = gb_signals b, pg_frame_evidence = gb_frame_evidence b,
     pg_evidence_hash = gd_evidence_hash (gb_decision b),
     pg_rule_config_hash = gd_rule_config_hash (gb_decision b),
     pg_suppression_policy = gd_suppression_policy (gb_decision b)\<rparr>"

definition failure_log_of :: "pre_vlm_gate_request \<Rightarrow> exn \<Rightarrow> pre_vlm_gate_log" where
  "failure_log_of q e =
    \<lparr>pg_gate_log_id = pq_gate_log_id q, pg_analysis_job_id = pq_analysis_job_id q,
     pg_scale_task_id = pq_scale_task_id q, pg_unit_id = pq_unit_id q, pg_video_id = pq_video_id q,
     pg_analysis_scale = pq_analysis_scale q, pg_profile_name = gp_profile_name (pq_profile q),
     pg_segment_start_ms = pq_segment_start_ms q, pg_segment_end_ms = pq_segment_end_ms q,
     pg_status = ''failed'', pg_error_type = Some (hd (exn_mro e)),
     pg_error_message = Some (take 500 (exn_message e)), pg_decision = None, pg_signals = [],
     pg_frame_evidence = [], pg_evidence_hash = ''sha256:schema_failure'', pg_rule_config_hash = None,
     pg_suppression_policy = Some (gp_suppression_policy (pq_profile q))\<rparr>"

definition write_gate_log ::
  "(pre_vlm_gate_log \<Rightarrow> ('s, exn, unit) se) option \<Rightarrow> pre_vlm_gate_log \<Rightarrow> ('s, exn, unit) se" where
  "write_gate_log writer entry =
    (case writer of
       None \<Rightarrow> se_raise (RuntimeError ''PreVlmGateRunner requires logs or log_writer'')
     | Some w \<Rightarrow> w entry)"

definition evaluate_gate ::
  "runner_env \<Rightarrow> (pre_vlm_gate_log \<Rightarrow> ('s, exn, unit) se) option \<Rightarrow> pre_vlm_gate_request \<Rightarrow>
   ('s, exn, gate_bundle) se" where
  "evaluate_gate env writer q =
    (if \<not> gp_enabled (pq_profile q)
     then se_then (write_gate_log writer (gate_log_of q (disabled_bundle q))) (se_ret (disabled_bundle q))
     else case object_detection_signal env q of
       Inl e \<Rightarrow>
         if is_od_schema_error e
         then se_then (write_gate_log writer (failure_log_of q e)) (se_raise e)
         else se_raise e
     | Inr signal \<Rightarrow>
       (case decide_pre_vlm_gate (re_py env) [signal] (gp_rules (pq_profile q)) (pq_analysis_scale q)
           (gate_suppression_value (gp_suppression_policy (pq_profile q))) (Some (pq_trigger_context q))
           (Some (pq_profile q)) of
          Inl e \<Rightarrow> se_raise e
        | Inr b \<Rightarrow> se_then (write_gate_log writer (gate_log_of q b)) (se_ret b)))"

section \<open>What the gate decides\<close>

text \<open>
  Evidence as the detectors write it: \<^verbatim>\<open>detections\<close> is a list whose objects have a text label and a
  number as confidence. A rule sees a frame when one of its detections has the label and enough
  confidence.
\<close>

fun dicts_in :: "json list \<Rightarrow> jdict list" where
  "dicts_in [] = []"
| "dicts_in (JsObj d # vs) = d # dicts_in vs"
| "dicts_in (v # vs) = dicts_in vs"

definition detections_of :: "jdict \<Rightarrow> jdict list" where
  "detections_of frame = (case js_get frame ''detections'' (JsArr []) of JsArr ds \<Rightarrow> dicts_in ds | _ \<Rightarrow> [])"

definition detection_ok :: "jdict \<Rightarrow> bool" where
  "detection_ok d \<longleftrightarrow>
    (case js_get d ''label'' (JsStr []) of JsStr _ \<Rightarrow> True | _ \<Rightarrow> False) \<and>
    (case js_get d ''confidence'' (JsReal 0) of JsReal _ \<Rightarrow> True | JsInt _ \<Rightarrow> True | JsBool _ \<Rightarrow> True | _ \<Rightarrow> False)"

definition frame_ok :: "jdict \<Rightarrow> bool" where
  "frame_ok frame \<longleftrightarrow>
    (case js_get frame ''detections'' (JsArr []) of JsArr _ \<Rightarrow> True | _ \<Rightarrow> False) \<and>
    list_all detection_ok (detections_of frame)"

definition detects :: "py_env \<Rightarrow> gate_rule \<Rightarrow> jdict \<Rightarrow> bool" where
  "detects pe rule d \<longleftrightarrow> js_get d ''label'' (JsStr []) = JsStr (gr_label rule) \<and>
    (case js_float pe (js_get d ''confidence'' (JsReal 0)) of Inl _ \<Rightarrow> False | Inr c \<Rightarrow> gr_min_confidence rule \<le> c)"

definition sees :: "py_env \<Rightarrow> gate_rule \<Rightarrow> jdict \<Rightarrow> bool" where
  "sees pe rule frame \<longleftrightarrow> list_ex (detects pe rule) (detections_of frame)"

text \<open>The share of the frames of a rule's signals in which the rule sees something, 0 when there is no frame.\<close>

definition seen_ratio :: "py_env \<Rightarrow> gate_signal list \<Rightarrow> gate_rule \<Rightarrow> real" where
  "seen_ratio pe signals rule =
    (let relevant = filter (\<lambda>s. gs_signal_type s = gr_signal_type rule) signals;
         n = sum_list (map gs_frame_count relevant)
     in if n \<le> 0 then 0
        else py_fl pe (of_nat (length (filter (sees pe rule) (concat (map gs_frame_evidence relevant)))) / of_int n))"

definition reason_forces :: "py_env \<Rightarrow> jdict option \<Rightarrow> gate_profile option \<Rightarrow> bool" where
  "reason_forces pe ctx profile \<longleftrightarrow>
    (\<exists>c p. ctx = Some c \<and> profile = Some p \<and>
      (let reason = js_str pe (js_get c ''trigger_reason'' (JsStr []))
       in reason \<noteq> [] \<and> reason \<in> set (gp_force_vlm_on_trigger_reasons p)))"

definition rule_calls :: "py_env \<Rightarrow> gate_signal list \<Rightarrow> gate_rule \<Rightarrow> bool" where
  "rule_calls pe signals r \<longleftrightarrow> gr_action r = RULE_CALL_VLM \<and> gr_min_positive_frame_ratio r \<le> seen_ratio pe signals r"

definition digest_of :: "py_env \<Rightarrow> json list \<Rightarrow> string" where
  "digest_of pe vs = ''sha256:'' @ py_hexdigest pe (js_dumps pe (JsArr vs))"

lemma seen_ratio_alt:
  "seen_ratio pe signals rule =
    (let relevant = rule_signals signals rule;
         n = sum_list (map gs_frame_count relevant)
     in if n \<le> 0 then 0
        else py_fl pe (of_nat (count_where (sees pe rule) (combined_frame_evidence relevant)) / of_int n))"
  unfolding seen_ratio_def rule_signals_def count_where_def combined_frame_evidence_def Let_def ..

lemma forced_by_iff: "forced_by pe ctx profile \<longleftrightarrow> reason_forces pe ctx profile"
  by (cases ctx; cases profile)
    (auto simp: forced_by_def reason_forces_def trigger_reason_def Let_def js_get_def)

lemma detection_matches_ok: "detection_ok d \<Longrightarrow> detection_matches pe d rule = Inr (detects pe rule d)"
  by (auto simp: detection_ok_def detection_matches_def detects_def split: json.splits)

lemma any_detection_ok:
  "list_all detection_ok (dicts_in ds) \<Longrightarrow> any_detection pe rule ds = Inr (list_ex (detects pe rule) (dicts_in ds))"
  by (induction ds rule: dicts_in.induct) (simp_all add: detection_matches_ok)

lemma frame_positive_ok: "frame_ok f \<Longrightarrow> frame_positive pe rule f = Inr (sees pe rule f)"
  by (auto simp: frame_ok_def frame_positive_def sees_def detections_of_def any_detection_ok split: json.splits)

lemma positive_frames_ok:
  assumes "list_all frame_ok fs"
  shows "positive_frames pe rule fs = Inr (count_where (sees pe rule) fs)"
proof -
  have "map_raise (frame_positive pe rule) fs = Inr (map (sees pe rule) fs)"
    using assms by (intro map_raise_total) (simp add: list_all_iff frame_positive_ok)
  then show ?thesis by (simp add: positive_frames_def count_where_def filter_map comp_def)
qed

lemma count_where_concat: "count_where P (concat xss) = sum_list (map (count_where P) xss)"
  by (induction xss) auto

lemma ratio_is_seen_ratio:
  assumes "\<And>s. s \<in> set signals \<Longrightarrow> list_all frame_ok (gs_frame_evidence s)"
  shows "positive_frame_ratio pe signals rule = Inr (seen_ratio pe signals rule)"
proof -
  have "map_raise (\<lambda>s. positive_frames pe rule (gs_frame_evidence s)) (rule_signals signals rule) =
      Inr (map (\<lambda>s. count_where (sees pe rule) (gs_frame_evidence s)) (rule_signals signals rule))"
    using assms by (intro map_raise_total) (auto simp: rule_signals_def positive_frames_ok)
  then show ?thesis
    by (simp add: positive_frame_ratio_def seen_ratio_alt combined_frame_evidence_def count_where_concat comp_def Let_def)
qed

lemma rules_loop_ok:
  assumes "\<And>s. s \<in> set signals \<Longrightarrow> list_all frame_ok (gs_frame_evidence s)"
  shows "rules_loop pe signals rules (ratios, matched) =
    Inr (fold (\<lambda>r d. dict_set (gr_label r) (seen_ratio pe signals r) d) rules ratios,
         matched @ map (rule_match_name pe) (filter (\<lambda>r. rule_hits r (seen_ratio pe signals r)) rules))"
  by (induction rules arbitrary: ratios matched) (simp_all add: ratio_is_seen_ratio [OF assms])

lemma gate_decision:
  assumes "\<forall>s \<in> set signals. list_all frame_ok (gs_frame_evidence s)"
    and "gate_suppression_of policy = Some p"
  shows "\<exists>b. decide_pre_vlm_gate pe signals rules scale policy ctx profile = Inr b \<and>
    (gb_triggered_vlm b \<longleftrightarrow> reason_forces pe ctx profile \<or> (\<exists>r \<in> set rules. rule_calls pe signals r)) \<and>
    (gd_action (gb_decision b) = ACT_FORCE_VLM \<longleftrightarrow> reason_forces pe ctx profile) \<and>
    (gd_action (gb_decision b) = ACT_SUPPRESS_VLM \<longleftrightarrow> \<not> gb_triggered_vlm b) \<and>
    gd_matched_rules (gb_decision b) = map (rule_match_name pe) (filter (rule_calls pe signals) rules) \<and>
    gd_positive_frame_ratio_by_label (gb_decision b) =
      fold (\<lambda>r. dict_set (gr_label r) (seen_ratio pe signals r)) rules [] \<and>
    gb_signals b = signals \<and> gb_frame_evidence b = concat (map gs_frame_evidence signals) \<and>
    gd_evidence_hash (gb_decision b) = digest_of pe (map JsObj (concat (map gs_frame_evidence signals))) \<and>
    gd_rule_config_hash (gb_decision b) = Some (digest_of pe (map rule_dump rules)) \<and>
    gd_suppression_policy (gb_decision b) = Some p"
proof -
  have hits: "rule_hits r (seen_ratio pe signals r) \<longleftrightarrow> rule_calls pe signals r" for r
    by (simp add: rule_hits_def rule_calls_def)
  have "rules_loop pe signals rules ([], []) =
    Inr (fold (\<lambda>r. dict_set (gr_label r) (seen_ratio pe signals r)) rules [],
         map (rule_match_name pe) (filter (rule_calls pe signals) rules))"
    using rules_loop_ok [of signals pe rules "[]" "[]"] assms(1) by (simp add: hits)
  moreover have "map (rule_match_name pe) (filter (rule_calls pe signals) rules) \<noteq> [] \<longleftrightarrow>
    (\<exists>r \<in> set rules. rule_calls pe signals r)"
    by (auto simp: filter_empty_conv)
  ultimately show ?thesis
    using assms(2) unfolding decide_pre_vlm_gate_def forced_by_iff
    by (auto simp: Let_def filter_empty_conv combined_frame_evidence_def hash_json_def digest_of_def)
qed

text \<open>
  C24. The gate decides by frame ratios and keeps the evidence it decided on. On evidence as the detectors write it
  and with a suppression policy of the contract, the decision is always made. The model is called exactly when the
  trigger reason is one that the profile forces, or some rule with the action \<^verbatim>\<open>call_vlm\<close> sees a detection of
  its label, confident enough, in at least its share of the frames of its kind of signal, computed with the
  rounding given; the action says which of the two it was. The matched rules are those rules in their order, the
  ratios are those of the rules by label, and the bundle carries the signals, all their frame evidence in order,
  the digest of exactly that evidence, the digest of the rules, and the policy.
\<close>

theorem gate_decides_by_ratio:
  assumes "\<forall>s \<in> set signals. list_all frame_ok (gs_frame_evidence s)"
    and "gate_suppression_of policy = Some p"
  shows "\<exists>b. decide_pre_vlm_gate pe signals rules scale policy ctx profile = Inr b \<and>
    (gb_triggered_vlm b \<longleftrightarrow> reason_forces pe ctx profile \<or> (\<exists>r \<in> set rules. rule_calls pe signals r)) \<and>
    (gd_action (gb_decision b) = ACT_FORCE_VLM \<longleftrightarrow> reason_forces pe ctx profile) \<and>
    (gd_action (gb_decision b) = ACT_SUPPRESS_VLM \<longleftrightarrow> \<not> gb_triggered_vlm b) \<and>
    gd_matched_rules (gb_decision b) = map (rule_match_name pe) (filter (rule_calls pe signals) rules) \<and>
    gd_positive_frame_ratio_by_label (gb_decision b) =
      fold (\<lambda>r. dict_set (gr_label r) (seen_ratio pe signals r)) rules [] \<and>
    gb_signals b = signals \<and> gb_frame_evidence b = concat (map gs_frame_evidence signals) \<and>
    gd_evidence_hash (gb_decision b) = digest_of pe (map JsObj (concat (map gs_frame_evidence signals))) \<and>
    gd_rule_config_hash (gb_decision b) = Some (digest_of pe (map rule_dump rules)) \<and>
    gd_suppression_policy (gb_decision b) = Some p"
  using assms by (rule gate_decision)

text \<open>A larger share of seen frames never turns a call into a suppression.\<close>

lemma count_where_list_all2:
  "list_all2 (\<lambda>x y. P x \<longrightarrow> Q y) xs ys \<Longrightarrow> count_where P xs \<le> count_where Q ys"
  by (induction rule: list_all2_induct) auto

definition richer :: "gate_signal \<Rightarrow> gate_signal \<Rightarrow> bool" where
  "richer s t \<longleftrightarrow> gs_signal_type s = gs_signal_type t \<and> gs_frame_count s = gs_frame_count t \<and>
    list_all2 (\<lambda>f g. set (detections_of f) \<subseteq> set (detections_of g)) (gs_frame_evidence s) (gs_frame_evidence t)"

lemma richer_rule_signals:
  "list_all2 richer signals signals' \<Longrightarrow> list_all2 richer (rule_signals signals rule) (rule_signals signals' rule)"
  unfolding rule_signals_def by (induction rule: list_all2_induct) (auto simp: richer_def)

lemma richer_counts:
  "list_all2 richer ss ts \<Longrightarrow> sum_list (map gs_frame_count ss) = sum_list (map gs_frame_count ts)"
  by (induction rule: list_all2_induct) (auto simp: richer_def)

lemma richer_seen:
  assumes "list_all2 richer ss ts"
  shows "count_where (sees pe rule) (combined_frame_evidence ss) \<le> count_where (sees pe rule) (combined_frame_evidence ts)"
  using assms
proof (induction rule: list_all2_induct)
  case Nil
  then show ?case by simp
next
  case (Cons s ss t ts)
  have "list_all2 (\<lambda>f g. sees pe rule f \<longrightarrow> sees pe rule g) (gs_frame_evidence s) (gs_frame_evidence t)"
    using Cons.hyps(1) unfolding richer_def by (auto simp: sees_def list_ex_iff elim!: list_all2_mono)
  then have "count_where (sees pe rule) (gs_frame_evidence s) \<le> count_where (sees pe rule) (gs_frame_evidence t)"
    by (rule count_where_list_all2)
  with Cons.IH show ?case by (simp add: combined_frame_evidence_def)
qed

context rounding
begin

lemma seen_ratio_mono:
  assumes "py_fl pe = fl" and "list_all2 richer signals signals'"
  shows "seen_ratio pe signals rule \<le> seen_ratio pe signals' rule"
proof -
  have counts: "sum_list (map gs_frame_count (rule_signals signals' rule)) =
      sum_list (map gs_frame_count (rule_signals signals rule))"
    using richer_counts [OF richer_rule_signals [OF assms(2)]] by simp
  show ?thesis
    using richer_seen [OF richer_rule_signals [OF assms(2)], of pe rule rule]
    by (auto simp: seen_ratio_alt Let_def counts assms(1) intro!: fl_mono divide_right_mono)
qed

lemma seen_ratio_unit:
  assumes "py_fl pe = fl" and "\<And>s. s \<in> set signals \<Longrightarrow> gs_frame_count s = int (length (gs_frame_evidence s))"
  shows "0 \<le> seen_ratio pe signals rule \<and> seen_ratio pe signals rule \<le> 1"
proof -
  let ?ss = "rule_signals signals rule"
  have "sum_list (map gs_frame_count ?ss) = int (length (combined_frame_evidence ?ss))"
    using assms(2) by (induction signals) (auto simp: rule_signals_def combined_frame_evidence_def)
  moreover have "real (count_where (sees pe rule) (combined_frame_evidence ?ss)) \<le> real (length (combined_frame_evidence ?ss))"
    by (simp add: count_where_le)
  ultimately show ?thesis
    by (auto simp: seen_ratio_alt Let_def assms(1) intro!: fl_nonneg fl_le_1)
qed

end

text \<open>
  More evidence never suppresses a call: in binary64, if the frames of a second run of the
  detectors carry at least the detections of the first, frame by frame, and the first run called the
  model, so does the second.
\<close>

theorem gate_is_monotone:
  assumes "py_fl pe = fl64" and "list_all2 richer signals signals'"
    and "\<forall>s \<in> set signals \<union> set signals'. list_all frame_ok (gs_frame_evidence s)"
    and "decide_pre_vlm_gate pe signals rules scale policy ctx profile = Inr b" and "gb_triggered_vlm b"
  shows "\<exists>b'. decide_pre_vlm_gate pe signals' rules scale policy ctx profile = Inr b' \<and> gb_triggered_vlm b'"
proof -
  obtain p where p: "gate_suppression_of policy = Some p"
    using assms(4) by (auto simp: decide_pre_vlm_gate_def Let_def split: sum.splits option.splits)
  have old: "reason_forces pe ctx profile \<or> (\<exists>r \<in> set rules. rule_calls pe signals r)"
    using gate_decision [OF _ p, of signals pe rules scale ctx profile] assms(3,4,5) by auto
  moreover have "seen_ratio pe signals r \<le> seen_ratio pe signals' r" for r
    by (rule ieee.seen_ratio_mono [OF assms(1,2)])
  ultimately have "reason_forces pe ctx profile \<or> (\<exists>r \<in> set rules. rule_calls pe signals' r)"
    unfolding rule_calls_def by (meson order_trans)
  then show ?thesis
    using gate_decision [OF _ p, of signals' pe rules scale ctx profile] assms(3) by auto
qed

definition ex_py :: py_env where
  "ex_py = \<lparr>py_fl = fl64, py_repr_float = (\<lambda>x. ''0.5''), py_parse_float = (\<lambda>s. None), py_repr = (\<lambda>v. []),
    py_hexdigest = (\<lambda>s. s)\<rparr>"

definition ex_signal :: "real \<Rightarrow> gate_signal" where
  "ex_signal c = \<lparr>gs_signal_type = SIG_OBJECT_DETECTION, gs_provider = ''mock'', gs_model_id = None,
     gs_status = ''succeeded'', gs_frame_count = 1, gs_summary = [],
     gs_frame_evidence = [[(''detections'', JsArr [JsObj [(''label'', JsStr ''person''), (''confidence'', JsReal c)]])]]\<rparr>"

definition ex_rule :: gate_rule where
  "ex_rule = \<lparr>gr_rule_id = None, gr_signal_type = SIG_OBJECT_DETECTION, gr_label = ''person'',
     gr_min_positive_frame_ratio = 1/2, gr_min_confidence = 1/2, gr_action = RULE_CALL_VLM\<rparr>"

lemma ex_frame_ok: "list_all frame_ok (gs_frame_evidence (ex_signal c))"
  by (simp add: ex_signal_def frame_ok_def detections_of_def detection_ok_def js_get_def)

lemma ex_seen_ratio: "1/2 \<le> c \<Longrightarrow> seen_ratio ex_py [ex_signal c] ex_rule = 1"
  by (simp add: seen_ratio_alt rule_signals_def ex_signal_def ex_rule_def combined_frame_evidence_def sees_def
    detections_of_def detects_def js_get_def ex_py_def ieee.fl_1)

lemma ex_rule_calls: "rule_calls ex_py [ex_signal (9/10)] ex_rule"
  by (simp add: rule_calls_def ex_seen_ratio) (simp add: ex_rule_def)

theorem gate_decides_by_ratio_witness:
  "\<exists>b. decide_pre_vlm_gate ex_py [ex_signal (9/10)] [ex_rule] DEFAULT_SEGMENT ''publish_gate_only_record'' None None = Inr b \<and>
    gb_triggered_vlm b \<and> gb_frame_evidence b = gs_frame_evidence (ex_signal (9/10))"
  using gate_decides_by_ratio [of "[ex_signal (9/10)]" "''publish_gate_only_record''" PUBLISH_GATE_ONLY_RECORD ex_py
      "[ex_rule]" DEFAULT_SEGMENT None None]
  by (auto simp: ex_frame_ok ex_rule_calls gate_suppression_of_def)

theorem gate_is_monotone_witness:
  "\<exists>b'. decide_pre_vlm_gate ex_py [ex_signal (9/10)] [ex_rule] DEFAULT_SEGMENT ''publish_gate_only_record'' None None = Inr b' \<and>
    gb_triggered_vlm b'"
proof -
  obtain b where b: "decide_pre_vlm_gate ex_py [ex_signal (9/10)] [ex_rule] DEFAULT_SEGMENT ''publish_gate_only_record'' None None = Inr b"
    "gb_triggered_vlm b"
    using gate_decision [of "[ex_signal (9/10)]" "''publish_gate_only_record''" PUBLISH_GATE_ONLY_RECORD ex_py
        "[ex_rule]" DEFAULT_SEGMENT None None]
    by (auto simp: ex_frame_ok ex_rule_calls gate_suppression_of_def)
  show ?thesis
    by (rule gate_is_monotone [OF _ _ _ b]) (simp_all add: ex_frame_ok ex_py_def richer_def list_all2_same)
qed

section \<open>The detector gate\<close>

definition detector_sees :: "gate_rule \<Rightarrow> frame_result \<Rightarrow> bool" where
  "detector_sees rule r \<longleftrightarrow>
    list_ex (\<lambda>d. dt_label d = gr_label rule \<and> gr_min_confidence rule \<le> dt_confidence d) (fr_detections r)"

lemma dicts_in_dump: "list_all detection_ok (dicts_in (map detection_dump ds))"
  "list_ex (detects pe rule) (dicts_in (map detection_dump ds)) \<longleftrightarrow>
   list_ex (\<lambda>d. dt_label d = gr_label rule \<and> gr_min_confidence rule \<le> dt_confidence d) ds"
  by (induction ds) (simp_all add: detection_dump_def detection_ok_def detects_def js_get_def)

lemma evidence_detections: "js_get (frame_result_to_evidence r) ''detections'' (JsArr []) = JsArr (map detection_dump (fr_detections r))"
  by (simp add: frame_result_to_evidence_def js_get_def)

lemma evidence_frame_ok: "frame_ok (frame_result_to_evidence r)"
  by (simp add: frame_ok_def detections_of_def evidence_detections dicts_in_dump)

lemma evidence_sees: "sees pe rule (frame_result_to_evidence r) = detector_sees rule r"
  by (simp add: sees_def detections_of_def evidence_detections dicts_in_dump detector_sees_def)

lemma gate_rule_of_type: "gate_rule_of r = Inr g \<Longrightarrow> gr_signal_type g = SIG_OBJECT_DETECTION"
  by (auto simp: gate_rule_of_def split: option.splits if_splits)

lemma detector_seen_ratio:
  assumes "gr_signal_type g = SIG_OBJECT_DETECTION"
  shows "seen_ratio pe [detector_signal provider model_id results] g =
    (if results = [] then 0 else py_fl pe (real (count_where (detector_sees g) results) / real (length results)))"
  by (simp add: seen_ratio_alt rule_signals_def detector_signal_def assms combined_frame_evidence_def
    count_where_def filter_map comp_def evidence_sees)

lemma detector_gate_decision:
  assumes "map_raise gate_rule_of rules = Inr gate_rules"
  shows "\<exists>b. decide_detector_gate pe results rules provider model_id gate_log_id = Inr b \<and>
    (dg_triggered_vlm b \<longleftrightarrow>
      (\<exists>g \<in> set gate_rules. gr_action g = RULE_CALL_VLM \<and> gr_min_positive_frame_ratio g \<le>
        (if results = [] then 0 else py_fl pe (real (count_where (detector_sees g) results) / real (length results)))))"
proof -
  let ?ss = "[detector_signal provider model_id results]"
  have types: "gr_signal_type g = SIG_OBJECT_DETECTION" if "g \<in> set gate_rules" for g
    using assms that unfolding map_raise_Inr by (induction rule: list_all2_induct) (auto dest: gate_rule_of_type)
  have "\<forall>s \<in> set ?ss. list_all frame_ok (gs_frame_evidence s)"
    by (simp add: detector_signal_def list_all_iff evidence_frame_ok)
  then obtain b where b: "decide_pre_vlm_gate pe ?ss gate_rules DEFAULT_SEGMENT ''publish_gate_only_record'' None None = Inr b"
    and iff: "gb_triggered_vlm b \<longleftrightarrow> reason_forces pe None None \<or> (\<exists>r \<in> set gate_rules. rule_calls pe ?ss r)"
    using gate_decision [of ?ss "''publish_gate_only_record''" PUBLISH_GATE_ONLY_RECORD pe gate_rules DEFAULT_SEGMENT None None]
    by (auto simp: gate_suppression_of_def)
  have "\<not> reason_forces pe None None" by (simp add: reason_forces_def)
  with iff have "gb_triggered_vlm b \<longleftrightarrow> (\<exists>g \<in> set gate_rules. gr_action g = RULE_CALL_VLM \<and> gr_min_positive_frame_ratio g \<le>
      (if results = [] then 0 else py_fl pe (real (count_where (detector_sees g) results) / real (length results))))"
    using detector_seen_ratio [OF types, of _ pe provider model_id results] by (auto simp: rule_calls_def)
  moreover have "\<exists>d. decide_detector_gate pe results rules provider model_id gate_log_id = Inr d \<and>
      dg_triggered_vlm d = gb_triggered_vlm b"
    by (simp add: decide_detector_gate_def assms b Let_def)
  ultimately show ?thesis by auto
qed

section \<open>The runner\<close>

text \<open>A provider that keeps answering with a bad schema is asked once and then the configured number of times.\<close>

lemma detect_loop_bounded:
  assumes "\<And>n. re_detect env n request = Inl (f n)" and "\<And>n. is_od_schema_error (f n)"
  shows "detect_loop env request (Suc left) attempt = Inl (f (attempt + left))"
  by (induction left arbitrary: attempt) (simp_all add: detect_once_def assms)

lemma detect_loop_first_good:
  assumes "\<And>n. n < k \<Longrightarrow> \<exists>e. detect_once env (attempt + n) request = Inl e \<and> is_od_schema_error e"
    and "detect_once env (attempt + k) request = Inr r" and "k < left"
  shows "detect_loop env request left attempt = Inr r"
  using assms
proof (induction k arbitrary: attempt left)
  case 0
  then show ?case by (cases left) auto
next
  case (Suc k)
  from Suc.prems(3) obtain l where l: "left = Suc l" "k < l" by (cases left) auto
  obtain e where e: "detect_once env attempt request = Inl e" "is_od_schema_error e" using Suc.prems(1) [of 0] by auto
  have "detect_loop env request l (attempt + 1) = Inr r"
  proof (rule Suc.IH [OF _ _ l(2)])
    show "\<exists>e. detect_once env (attempt + 1 + n) request = Inl e \<and> is_od_schema_error e" if "n < k" for n
      using Suc.prems(1) [of "Suc n"] that by simp
    show "detect_once env (attempt + 1 + k) request = Inr r" using Suc.prems(2) by simp
  qed
  with e l show ?case by simp
qed

text \<open>The evidence that the runner writes is what the policy reads without raising.\<close>

lemma od_dicts_in: "list_all detection_ok (dicts_in (map od_item_dump ds))"
  by (induction ds) (simp_all add: od_item_dump_def detection_ok_def js_get_def)

lemma image_evidence_ok: "frame_ok (image_evidence q r)"
  by (simp add: frame_ok_def detections_of_def image_evidence_def js_get_def od_dicts_in)

text \<open>
  When the runner returns, its decision has been written to the gate log; when it raises because the
  provider's answers do not have the schema, the failure has.
\<close>

lemma evaluate_gate_logs:
  assumes "evaluate_gate env (Some writer) q s = (Inr b, s')"
  shows "writer (gate_log_of q b) s = (Inr (), s')"
  using assms
  by (auto simp: evaluate_gate_def write_gate_log_def se_simps split: if_splits sum.splits prod.splits)

lemma suppression_roundtrip: "gate_suppression_of (gate_suppression_value p) = Some p"
  by (cases p) (simp_all add: gate_suppression_of_def)

lemma evaluate_gate_total:
  assumes "\<And>entry t. fst (writer entry t) = Inr ()" and "object_detection_signal env q = Inr sig"
  shows "\<exists>b. fst (evaluate_gate env (Some writer) q s) = Inr b"
proof -
  have "list_all frame_ok (gs_frame_evidence sig)"
    using assms(2) by (auto simp: object_detection_signal_def list_all_iff image_evidence_ok split: sum.splits if_splits)
  then obtain b where b: "decide_pre_vlm_gate (re_py env) [sig] (gp_rules (pq_profile q)) (pq_analysis_scale q)
      (gate_suppression_value (gp_suppression_policy (pq_profile q))) (Some (pq_trigger_context q)) (Some (pq_profile q)) = Inr b"
    using gate_decision [OF _ suppression_roundtrip [of "gp_suppression_policy (pq_profile q)"], of "[sig]" "re_py env"
        "gp_rules (pq_profile q)" "pq_analysis_scale q" "Some (pq_trigger_context q)" "Some (pq_profile q)"]
    by auto
  then show ?thesis
    using assms(1) [of _ s]
    by (auto simp: evaluate_gate_def write_gate_log_def se_simps assms(2) split: prod.splits sum.splits) (metis fst_conv sum.distinct(1))+
qed

end
