(* ===== verification/Cctv_Catalog.thy ===== *)
theory Cctv_Catalog
  imports Cctv_Records Cctv_Gate Cctv_Windows
begin

text \<open>
  The catalog side of the database: cameras, locations, principals, policies and video sources
  (\<^verbatim>\<open>infrastructure/db/repositories/admin.py\<close>), the seeding of a local installation
  (\<^verbatim>\<open>application/seed.py\<close>), the submission of a video (\<^verbatim>\<open>application/ingestion.py\<close>), the resolution of
  a video's context and the records built from it (\<^verbatim>\<open>workers/common.py\<close>), and the motion scan
  (\<^verbatim>\<open>workers/motion_scan.py\<close>). The state \<open>catalog\<close> extends \<open>memory\<close> by these tables and by the log
  tables of the workers. The lemmas say what a submission creates and what a resolved context is made
  of; the last section composes it with the authorization scope: which videos and records of the
  catalog a principal can see.
\<close>

section \<open>State\<close>

record model_call_log =
  mc_model_call_id :: string
  mc_analysis_job_id :: string
  mc_scale_task_id :: string
  mc_unit_id :: string
  mc_analysis_scale :: analysis_scale
  mc_segment_start_ms :: int
  mc_segment_end_ms :: int
  mc_provider :: string
  mc_model_id :: "string option"
  mc_prompt_version :: "string option"
  mc_pipeline_version :: "string option"
  mc_status :: string
  mc_attempt_count :: int
  mc_error_type :: "string option"
  mc_error_message :: "string option"
  mc_raw_text_output :: "string option"
  mc_parsed_output :: "jdict option"
  mc_validation_status :: "string option"
  mc_payload_hash :: "string option"
  mc_response_hash :: "string option"
  mc_media_refs :: "jdict list"
  mc_attempt_details :: "jdict list"
  mc_started_at :: "iso option"
  mc_finished_at :: "iso option"

record detector_gate_log =
  dl_gate_log_id :: string
  dl_analysis_job_id :: string
  dl_scale_task_id :: string
  dl_unit_id :: string
  dl_video_id :: string
  dl_analysis_scale :: analysis_scale
  dl_segment_start_ms :: int
  dl_segment_end_ms :: int
  dl_provider :: string
  dl_model_id :: "string option"
  dl_status :: string
  dl_decision :: jdict
  dl_frame_evidence :: "jdict list"
  dl_evidence_hash :: string
  dl_rule_config_hash :: "string option"
  dl_started_at :: "iso option"
  dl_finished_at :: "iso option"
  dl_duration_ms :: "int option"

record catalog = memory +
  ct_locations :: "camera_location list"
  ct_cameras :: "camera_device list"
  ct_policies :: "access_policy list"
  ct_principals :: "principal list"
  ct_model_calls :: "model_call_log list"
  ct_gate_logs :: "detector_gate_log list"
  ct_pre_vlm_logs :: "pre_vlm_gate_log list"

text \<open>A call of a repository of the analysis tables.\<close>

definition on_db :: "(db, exn, 'a) se \<Rightarrow> ('b memory_scheme, exn, 'a) se" where
  "on_db m s = (case m (mem_db s) of (r, d) \<Rightarrow> (r, s\<lparr>mem_db := d\<rparr>))"

definition db_read :: "(db \<Rightarrow> 'a) \<Rightarrow> ('b memory_scheme, exn, 'a) se" where
  "db_read f = se_read (\<lambda>s. f (mem_db s))"

definition db_write :: "(db \<Rightarrow> db) \<Rightarrow> ('b memory_scheme, exn, unit) se" where
  "db_write f = se_write (\<lambda>s. s\<lparr>mem_db := f (mem_db s)\<rparr>)"

lemma on_db_apply [se_simps]: "on_db m s = (fst (m (mem_db s)), s\<lparr>mem_db := snd (m (mem_db s))\<rparr>)"
  by (simp add: on_db_def split: prod.split)

lemma db_read_apply [simp, se_simps]: "db_read f s = (Inr (f (mem_db s)), s)"
  and db_write_apply [simp, se_simps]: "db_write g s = (Inr (), s\<lparr>mem_db := g (mem_db s)\<rparr>)"
  by (simp_all add: db_read_def db_write_def)

section \<open>Cameras, locations, policies, principals\<close>

text \<open>
  Write first, inside a savepoint; on a conflict the existing row is read and updated. The two results
  are the row that the call returns and the table.
\<close>

definition upsert_by_pk :: "('r \<Rightarrow> 'k) \<Rightarrow> ('r \<Rightarrow> 'r) \<Rightarrow> 'r \<Rightarrow> 'r list \<Rightarrow> exn + 'r \<times> 'r list" where
  "upsert_by_pk key apply_update new_row rows =
    (case row_ins key new_row rows of
       Some rows' \<Rightarrow> Inr (new_row, rows')
     | None \<Rightarrow>
       (case row_get key (key new_row) rows of
          None \<Rightarrow> Inl (IntegrityError ''UNIQUE constraint failed'')
        | Some existing \<Rightarrow> Inr (apply_update existing, row_upd key (key new_row) apply_update rows)))"

definition get_location :: "string \<Rightarrow> 'a catalog_scheme \<Rightarrow> camera_location option" where
  "get_location location_id s = row_get loc_location_id location_id (ct_locations s)"

definition list_locations :: "int \<Rightarrow> 'a catalog_scheme \<Rightarrow> camera_location list" where
  "list_locations limit s = order_by_limit loc_location_id limit (ct_locations s)"

definition upsert_location :: "camera_location \<Rightarrow> ('a catalog_scheme, exn, camera_location) se" where
  "upsert_location incoming s =
    (case upsert_by_pk loc_location_id
        (\<lambda>existing. existing\<lparr>loc_tenant_id := loc_tenant_id incoming, loc_area := loc_area incoming,
          loc_location_desc := loc_location_desc incoming,
          loc_access_policy_id := loc_access_policy_id incoming,
          loc_security_level := loc_security_level incoming\<rparr>) incoming (ct_locations s) of
       Inl e \<Rightarrow> (Inl e, s)
     | Inr (row, rows) \<Rightarrow> (Inr row, s\<lparr>ct_locations := rows\<rparr>))"

definition get_camera :: "string \<Rightarrow> 'a catalog_scheme \<Rightarrow> camera_device option" where
  "get_camera camera_id s = row_get cam_camera_id camera_id (ct_cameras s)"

definition list_cameras :: "int \<Rightarrow> 'a catalog_scheme \<Rightarrow> camera_device list" where
  "list_cameras limit s = order_by_limit cam_camera_id limit (ct_cameras s)"

definition upsert_camera :: "camera_device \<Rightarrow> ('a catalog_scheme, exn, camera_device) se" where
  "upsert_camera incoming s =
    (case upsert_by_pk cam_camera_id
        (\<lambda>existing. existing\<lparr>cam_tenant_id := cam_tenant_id incoming,
          cam_camera_name := cam_camera_name incoming, cam_location_id := cam_location_id incoming,
          cam_access_policy_id := cam_access_policy_id incoming, cam_status := cam_status incoming\<rparr>)
        incoming (ct_cameras s) of
       Inl e \<Rightarrow> (Inl e, s)
     | Inr (row, rows) \<Rightarrow> (Inr row, s\<lparr>ct_cameras := rows\<rparr>))"

definition get_access_policy :: "string \<Rightarrow> 'a catalog_scheme \<Rightarrow> access_policy option" where
  "get_access_policy policy_id s = row_get ap_access_policy_id policy_id (ct_policies s)"

text \<open>\<^verbatim>\<open>session.merge\<close> overwrites the row; names are unique per tenant.\<close>

definition upsert_access_policy :: "access_policy \<Rightarrow> ('a catalog_scheme, exn, access_policy) se" where
  "upsert_access_policy policy s =
    (if \<exists>p \<in> set (ct_policies s). ap_access_policy_id p \<noteq> ap_access_policy_id policy \<and>
         ap_tenant_id p = ap_tenant_id policy \<and> ap_name p = ap_name policy
     then (Inl (IntegrityError ''UNIQUE constraint failed: access_policies.tenant_id, access_policies.name''), s)
     else case row_ins ap_access_policy_id policy (ct_policies s) of
       Some rows \<Rightarrow> (Inr policy, s\<lparr>ct_policies := rows\<rparr>)
     | None \<Rightarrow> (Inr policy, s\<lparr>ct_policies := row_upd ap_access_policy_id (ap_access_policy_id policy) (\<lambda>_. policy) (ct_policies s)\<rparr>))"

definition get_principal :: "string \<Rightarrow> 'a catalog_scheme \<Rightarrow> principal option" where
  "get_principal principal_id s = row_get pr_principal_id principal_id (ct_principals s)"

definition get_principal_by_external_subject :: "string \<Rightarrow> 'a catalog_scheme \<Rightarrow> principal option" where
  "get_principal_by_external_subject subject s =
    find (\<lambda>p. pr_external_subject_id p = Some subject) (ct_principals s)"

definition create_principal :: "principal \<Rightarrow> ('a catalog_scheme, exn, principal) se" where
  "create_principal p s =
    (case row_ins pr_principal_id p (ct_principals s) of
       None \<Rightarrow> (Inl (ConflictError ''UNIQUE constraint failed: principals.principal_id''), s)
     | Some rows \<Rightarrow> (Inr p, s\<lparr>ct_principals := rows\<rparr>))"

definition set_principal_status :: "string \<Rightarrow> string \<Rightarrow> ('a catalog_scheme, exn, unit) se" where
  "set_principal_status principal_id status =
    se_write (\<lambda>s. s\<lparr>ct_principals := row_upd pr_principal_id principal_id (\<lambda>p. p\<lparr>pr_status := status\<rparr>) (ct_principals s)\<rparr>)"

text \<open>The scope that a request of this principal gets from the tables.\<close>

definition scope_from_catalog :: "(string \<Rightarrow> string) \<Rightarrow> 'a catalog_scheme \<Rightarrow> principal \<Rightarrow> authorized_scope" where
  "scope_from_catalog hexdigest s p = authorized_scope_for hexdigest (ct_policies s) (ct_locations s) (ct_cameras s) p"

section \<open>Video sources\<close>

record submit_request =
  sq_source_type :: source_type
  sq_source_uri :: string
  sq_camera_id :: string
  sq_video_start_time :: iso
  sq_external_source_id :: "string option"
  sq_idempotency_key :: "string option"
  sq_analysis_options :: "(string \<times> bool) list"

definition video_of_request :: "submit_request \<Rightarrow> string \<Rightarrow> video_source" where
  "video_of_request request video_id =
    \<lparr>vs_video_id = video_id, vs_tenant_id = ''tenant_default'', vs_source_type = sq_source_type request,
     vs_source_uri = sq_source_uri request, vs_camera_id = sq_camera_id request,
     vs_video_start_time = sq_video_start_time request, vs_video_end_time = None, vs_duration_ms = None,
     vs_source_status = ''pending'', vs_external_source_id = sq_external_source_id request,
     vs_access_policy_id = None\<rparr>"

abbreviation video_key :: "video_source \<Rightarrow> string \<times> iso" where
  "video_key v \<equiv> (vs_camera_id v, vs_video_start_time v)"

definition create_video :: "video_source \<Rightarrow> (db, exn, video_source) se" where
  "create_video dto s =
    (case find (\<lambda>v. video_key v = video_key dto) (db_videos s) of
       Some existing \<Rightarrow>
         if vs_source_uri existing \<noteq> vs_source_uri dto
         then (Inl (IdempotencyConflictError
           ''VideoSource exists for (camera_id, video_start_time) with different payload''), s)
         else (Inr existing, s)
     | None \<Rightarrow>
       (case row_ins vs_video_id dto (db_videos s) of
          None \<Rightarrow> (Inl (IdempotencyConflictError ''UNIQUE constraint failed: video_sources.video_id''), s)
        | Some rows \<Rightarrow> (Inr dto, s\<lparr>db_videos := rows\<rparr>)))"

definition create_or_get_video :: "submit_request \<Rightarrow> string \<Rightarrow> (db, exn, video_source) se" where
  "create_or_get_video request video_id = create_video (video_of_request request video_id)"

abbreviation get_video :: "string \<Rightarrow> db \<Rightarrow> video_source option" where
  "get_video video_id s \<equiv> row_get vs_video_id video_id (db_videos s)"

definition video_visible :: "authorized_scope \<Rightarrow> video_source \<Rightarrow> bool" where
  "video_visible sc v = authorized_video_filter sc (vs_tenant_id v) (vs_camera_id v) (vs_access_policy_id v)"

definition get_authorized_video :: "string \<Rightarrow> authorized_scope \<Rightarrow> db \<Rightarrow> video_source option" where
  "get_authorized_video video_id sc s = find (\<lambda>v. vs_video_id v = video_id \<and> video_visible sc v) (db_videos s)"

definition list_authorized_videos :: "authorized_scope \<Rightarrow> int \<Rightarrow> db \<Rightarrow> video_source list" where
  "list_authorized_videos sc limit s = order_by_limit vs_video_id limit (filter (video_visible sc) (db_videos s))"

definition update_probe_metadata :: "string \<Rightarrow> int \<Rightarrow> iso \<Rightarrow> db \<Rightarrow> db" where
  "update_probe_metadata video_id duration_ms video_end_time s =
    s\<lparr>db_videos := row_upd vs_video_id video_id
      (\<lambda>v. v\<lparr>vs_duration_ms := Some duration_ms, vs_video_end_time := Some video_end_time\<rparr>) (db_videos s)\<rparr>"

section \<open>Logs\<close>

definition create_model_call_log :: "model_call_log \<Rightarrow> ('a catalog_scheme, exn, unit) se" where
  "create_model_call_log entry s =
    (case row_ins mc_model_call_id entry (ct_model_calls s) of
       None \<Rightarrow> (Inl (IntegrityError ''UNIQUE constraint failed: model_call_logs.model_call_id''), s)
     | Some rows \<Rightarrow> (Inr (), s\<lparr>ct_model_calls := rows\<rparr>))"

definition create_detector_gate_log :: "detector_gate_log \<Rightarrow> ('a catalog_scheme, exn, unit) se" where
  "create_detector_gate_log entry s =
    (case row_ins dl_gate_log_id entry (ct_gate_logs s) of
       None \<Rightarrow> (Inl (IntegrityError ''UNIQUE constraint failed: detector_gate_logs.gate_log_id''), s)
     | Some rows \<Rightarrow> (Inr (), s\<lparr>ct_gate_logs := rows\<rparr>))"

definition create_pre_vlm_gate_log :: "pre_vlm_gate_log \<Rightarrow> ('a catalog_scheme, exn, unit) se" where
  "create_pre_vlm_gate_log entry s =
    (case row_ins pg_gate_log_id entry (ct_pre_vlm_logs s) of
       None \<Rightarrow> (Inl (IntegrityError ''UNIQUE constraint failed: pre_vlm_gate_logs.gate_log_id''), s)
     | Some rows \<Rightarrow> (Inr (), s\<lparr>ct_pre_vlm_logs := rows\<rparr>))"

section \<open>Submission\<close>

record ingestion =
  ig_model_version :: string
  ig_prompt_version :: string
  ig_pipeline_version :: string

text \<open>The ids and the clock reading that a submission draws.\<close>

record submit_env =
  sv_video_id :: string
  sv_job_id :: string
  sv_scale_id :: "analysis_scale \<Rightarrow> string"
  sv_task_id :: string
  sv_audit_id :: string
  sv_now :: int
  sv_tz :: int

record submit_response =
  sp_video_id :: string
  sp_source_status :: string
  sp_analysis_job_id :: string
  sp_accepted :: bool

definition get_by_idempotency_key :: "string \<Rightarrow> db \<Rightarrow> analysis_job option" where
  "get_by_idempotency_key k s = find (\<lambda>j. aj_idempotency_key j = k) (db_jobs s)"

definition submit_options :: "submit_request \<Rightarrow> (string \<times> bool) list" where
  "submit_options request =
    (if sq_analysis_options request = [] then [(''enable_default_segment'', True)] else sq_analysis_options request)"

definition wants_high_freq :: "submit_request \<Rightarrow> bool" where
  "wants_high_freq request \<longleftrightarrow> map_of (submit_options request) ''enable_motion_triggered_high_freq'' = Some True"

definition submit_key :: "submit_request \<Rightarrow> video_source \<Rightarrow> string" where
  "submit_key request source =
    (case str_or (sq_idempotency_key request) (str_or (sq_external_source_id request) (Some (vs_video_id source))) of
       None \<Rightarrow> [] | Some k \<Rightarrow> k)"

definition new_job :: "ingestion \<Rightarrow> submit_env \<Rightarrow> submit_request \<Rightarrow> video_source \<Rightarrow> analysis_job" where
  "new_job ig env request source =
    \<lparr>aj_analysis_job_id = sv_job_id env, aj_video_id = vs_video_id source, aj_job_status = JOB_QUEUED,
     aj_idempotency_key = submit_key request source, aj_analysis_options = submit_options request,
     aj_model_version = Some (ig_model_version ig), aj_prompt_version = Some (ig_prompt_version ig),
     aj_pipeline_version = Some (ig_pipeline_version ig), aj_created_record_ids = [], aj_updated_record_ids = [],
     aj_archived_record_ids = [], aj_created_at = sv_now env, aj_started_at = None, aj_finished_at = None,
     aj_error_code = None, aj_error_message = None\<rparr>"

definition new_scale_task :: "submit_env \<Rightarrow> string \<Rightarrow> analysis_scale \<Rightarrow> analysis_scale_task" where
  "new_scale_task env job_id scale =
    \<lparr>ast_scale_task_id = sv_scale_id env scale, ast_analysis_job_id = job_id, ast_analysis_scale = scale,
     ast_status = TASK_PENDING, ast_total_units = 0, ast_succeeded_units = 0, ast_failed_units = 0,
     ast_skipped_reason = None, ast_created_at = sv_now env, ast_error_code = None\<rparr>"

definition new_queue_task :: "submit_env \<Rightarrow> string \<Rightarrow> string \<Rightarrow> task" where
  "new_queue_task env job_id video_id =
    \<lparr>tk_task_id = sv_task_id env, tk_task_type = ''analyze_video'',
     tk_payload = [(''analysis_job_id'', job_id), (''video_id'', video_id),
       (''scale_task_id'', sv_scale_id env DEFAULT_SEGMENT)],
     tk_status = ''queued'', tk_priority = 0, tk_retry_count = 0, tk_max_retries = 3, tk_next_run_at = sv_now env,
     tk_lease_owner = None, tk_lease_expires_at = None, tk_updated_at = Some (sv_now env),
     tk_error_code = None, tk_error_message = None\<rparr>"

definition submit_audit :: "submit_env \<Rightarrow> principal \<Rightarrow> video_source \<Rightarrow> string \<Rightarrow> audit_event" where
  "submit_audit env p source job_id =
    \<lparr>ae_audit_event_id = sv_audit_id env, ae_event_type = ''analysis_job_created'', ae_request_id = None,
     ae_principal_id = Some (pr_principal_id p), ae_session_id = None, ae_context_id = None,
     ae_resource_scope_hash = None, ae_record_ids = [], ae_video_id = Some (vs_video_id source),
     ae_camera_id = Some (vs_camera_id source), ae_metadata = [(''analysis_job_id'', job_id)],
     ae_created_at = iso_of (sv_now env) (sv_tz env)\<rparr>"

definition accepted :: "video_source \<Rightarrow> string \<Rightarrow> submit_response" where
  "accepted source job_id =
    \<lparr>sp_video_id = vs_video_id source, sp_source_status = vs_source_status source,
     sp_analysis_job_id = job_id, sp_accepted = True\<rparr>"

definition scales_of_submission :: "submit_request \<Rightarrow> analysis_scale list" where
  "scales_of_submission request =
    DEFAULT_SEGMENT # (if wants_high_freq request then [MOTION_SCAN, HIGH_FREQ_EVENT] else [])"

definition add_scale_task :: "analysis_scale_task \<Rightarrow> ('a catalog_scheme, exn, unit) se" where
  "add_scale_task t = se_bind (on_db (create_scale_task t)) (\<lambda>_. se_ret ())"

definition submit ::
  "ingestion \<Rightarrow> submit_env \<Rightarrow> submit_request \<Rightarrow> principal \<Rightarrow> capability list \<Rightarrow>
   ('a catalog_scheme, exn, submit_response) se" where
  "submit ig env request p capabilities =
    (if ANALYSIS_SUBMIT \<notin> set capabilities then se_raise (CapabilityDeniedError ''analysis.submit required'')
     else se_bind (on_db (create_or_get_video request (sv_video_id env))) (\<lambda>source.
       se_bind (db_read (get_by_idempotency_key (submit_key request source))) (\<lambda>existing.
         case existing of
           Some job \<Rightarrow> se_ret (accepted source (aj_analysis_job_id job))
         | None \<Rightarrow>
           se_bind (on_db (create_job (new_job ig env request source))) (\<lambda>job.
           let job_id = aj_analysis_job_id job in
           se_then (se_iter (\<lambda>scale. add_scale_task (new_scale_task env job_id scale)) (scales_of_submission request))
           (se_then (on_db (\<lambda>d. case enqueue_task (new_queue_task env job_id (vs_video_id source)) (db_tasks d) of
                (Inl e, rows) \<Rightarrow> (Inl e, d\<lparr>db_tasks := rows\<rparr>)
              | (Inr t, rows) \<Rightarrow> (Inr (), d\<lparr>db_tasks := rows\<rparr>)))
           (se_then (append_event (submit_audit env p source job_id))
             (se_ret (accepted source job_id))))))))"

section \<open>Video contexts and records\<close>

record video_context =
  vc_source :: video_source
  vc_camera :: camera_device
  vc_location :: camera_location
  vc_access_policy_id :: string
  vc_security_level :: security_level

definition provision_location :: "string \<Rightarrow> ('a catalog_scheme, exn, camera_location) se" where
  "provision_location location_id =
    upsert_location
      \<lparr>loc_location_id = location_id, loc_tenant_id = ''tenant_default'', loc_area = ''unregistered'',
       loc_location_desc = Some ''Auto-created for an unregistered camera'', loc_access_policy_id = None,
       loc_security_level = INTERNAL\<rparr>"

definition provision_camera :: "string \<Rightarrow> ('a catalog_scheme, exn, camera_device) se" where
  "provision_camera camera_id =
    se_bind (se_read (get_location auto_location_id)) (\<lambda>found.
      se_then (case found of None \<Rightarrow> se_bind (provision_location auto_location_id) (\<lambda>_. se_ret ()) | Some _ \<Rightarrow> se_ret ())
        (upsert_camera
          \<lparr>cam_camera_id = camera_id, cam_tenant_id = ''tenant_default'', cam_camera_name = camera_id,
           cam_location_id = auto_location_id, cam_access_policy_id = None, cam_status = ''active''\<rparr>))"

definition resolve_video_context :: "string \<Rightarrow> string \<Rightarrow> ('a catalog_scheme, exn, video_context) se" where
  "resolve_video_context default_policy_id video_id =
    se_bind (db_read (get_video video_id)) (\<lambda>found.
      case found of
        None \<Rightarrow> se_raise (NotFoundError (''video '' @ video_id @ '' not found''))
      | Some source \<Rightarrow>
        se_bind (se_read (get_camera (vs_camera_id source))) (\<lambda>cam0.
        se_bind (case cam0 of Some c \<Rightarrow> se_ret c | None \<Rightarrow> provision_camera (vs_camera_id source)) (\<lambda>camera.
        se_bind (se_read (get_location (cam_location_id camera))) (\<lambda>loc0.
        se_bind (case loc0 of Some l \<Rightarrow> se_ret l | None \<Rightarrow> provision_location (cam_location_id camera)) (\<lambda>location.
          let policy_id = resolve_access_policy_id location (Some camera) (vs_access_policy_id source) default_policy_id in
          se_bind (se_read (get_access_policy policy_id)) (\<lambda>policy.
            se_ret \<lparr>vc_source = source, vc_camera = camera, vc_location = location, vc_access_policy_id = policy_id,
              vc_security_level = effective_security_level location (Some camera) policy\<rparr>))))))"

record vlm_output =
  vo_static :: string
  vo_dynamic :: string
  vo_tags :: "string list"
  vo_quality_reason :: string
  vo_quality_score :: real
  vo_alert :: bool

definition plus_ms :: "iso \<Rightarrow> int \<Rightarrow> iso" where
  "plus_ms t ms = (fst t + ms * 1000, snd t)"

definition output_attributes :: "vlm_output \<Rightarrow> jdict" where
  "output_attributes out =
    [(''quality'', JsObj [(''reason'', JsStr (vo_quality_reason out)), (''score'', JsReal (vo_quality_score out))]),
     (''alert'', JsBool (vo_alert out))]"

text \<open>The fields that both kinds of records take from the context and from the unit.\<close>

definition context_record ::
  "py_env \<Rightarrow> video_context \<Rightarrow> string \<Rightarrow> string \<Rightarrow> analysis_scale \<Rightarrow> int \<Rightarrow> int \<Rightarrow> string \<Rightarrow> string \<Rightarrow> string list \<Rightarrow>
   jdict \<Rightarrow> string option \<times> string option \<times> string option \<Rightarrow> exn + observation_record" where
  "context_record pe ctx record_id job_id scale start_ms end_ms static_text dynamic_text tags attributes versions =
    validate_record
      \<lparr>ob_record_id = record_id, ob_tenant_id = vs_tenant_id (vc_source ctx), ob_video_id = vs_video_id (vc_source ctx),
       ob_analysis_job_id = job_id, ob_analysis_scale = scale, ob_segment_start_ms = start_ms,
       ob_segment_end_ms = end_ms,
       ob_observed_start_time = plus_ms (vs_video_start_time (vc_source ctx)) start_ms,
       ob_observed_end_time = plus_ms (vs_video_start_time (vc_source ctx)) end_ms,
       ob_camera_id = vs_camera_id (vc_source ctx), ob_location_id = cam_location_id (vc_camera ctx),
       ob_static_description_text = static_text, ob_dynamic_description_text = dynamic_text, ob_tags = tags,
       ob_clip_uri = None, ob_thumbnail_uri = None, ob_attributes = js_text pe (JsObj attributes),
       ob_access_policy_id = vc_access_policy_id ctx, ob_security_level = vc_security_level ctx,
       ob_model_version = fst versions, ob_prompt_version = fst (snd versions), ob_pipeline_version = snd (snd versions),
       ob_created_at = None, ob_updated_at = None\<rparr>"

definition build_observation_record ::
  "py_env \<Rightarrow> video_context \<Rightarrow> string \<Rightarrow> string \<Rightarrow> analysis_scale \<Rightarrow> int \<Rightarrow> int \<Rightarrow> vlm_output \<Rightarrow>
   string option \<times> string option \<times> string option \<Rightarrow> jdict option \<Rightarrow> exn + observation_record" where
  "build_observation_record pe ctx record_id job_id scale start_ms end_ms out versions extra =
    context_record pe ctx record_id job_id scale start_ms end_ms (vo_static out) (vo_dynamic out) (vo_tags out)
      (case extra of None \<Rightarrow> output_attributes out | Some d \<Rightarrow> js_update (output_attributes out) d) versions"

definition build_detector_only_record ::
  "py_env \<Rightarrow> video_context \<Rightarrow> string \<Rightarrow> string \<Rightarrow> analysis_scale \<Rightarrow> int \<Rightarrow> int \<Rightarrow>
   string option \<times> string option \<times> string option \<Rightarrow> jdict \<Rightarrow> exn + observation_record" where
  "build_detector_only_record pe ctx record_id job_id scale start_ms end_ms versions summary =
    context_record pe ctx record_id job_id scale start_ms end_ms [] [] [] [(''detector_gate'', JsObj summary)] versions"

section \<open>The local seed\<close>

definition dev_policy :: access_policy where
  "dev_policy = \<lparr>ap_access_policy_id = ''policy_public_area'', ap_tenant_id = ''tenant_default'',
     ap_name = ''Public Area'', ap_security_level = INTERNAL,
     ap_rules = \<lparr>allowed_roles = [''security_admin''], allowed_groups = [], allowed_principals = [], denied_principals = []\<rparr>\<rparr>"

definition dev_principal :: principal where
  "dev_principal = \<lparr>pr_principal_id = ''user_admin'', pr_principal_type = ADMIN, pr_tenant_id = ''tenant_default'',
     pr_external_subject_id = None, pr_display_name = ''Local Admin'', pr_status = ''active'',
     pr_roles = [''security_admin''], pr_groups = []\<rparr>"

definition seed_local_defaults :: "('a catalog_scheme, exn, unit) se" where
  "seed_local_defaults =
    se_bind (upsert_location build_auto_location) (\<lambda>_.
    se_bind (upsert_access_policy dev_policy) (\<lambda>_.
    se_bind (se_read (get_principal ''user_admin'')) (\<lambda>found.
    se_then (case found of None \<Rightarrow> se_bind (create_principal dev_principal) (\<lambda>_. se_ret ()) | Some _ \<Rightarrow> se_ret ())
    (se_bind (upsert_location \<lparr>loc_location_id = ''loc_lobby_01'', loc_tenant_id = ''tenant_default'', loc_area = ''lobby'',
        loc_location_desc = None, loc_access_policy_id = Some ''policy_public_area'', loc_security_level = INTERNAL\<rparr>) (\<lambda>_.
    se_bind (upsert_camera \<lparr>cam_camera_id = ''cam_lobby_01'', cam_tenant_id = ''tenant_default'',
        cam_camera_name = ''Lobby Cam'', cam_location_id = ''loc_lobby_01'',
        cam_access_policy_id = Some ''policy_public_area'', cam_status = ''active''\<rparr>) (\<lambda>_.
      se_ret ()))))))"

section \<open>The motion scan\<close>

record motion_scan =
  mo_high_freq_scale_task_id :: string
  mo_threshold :: real
  mo_min_duration_ms :: int
  mo_merge_gap_ms :: int

definition build_idempotency_key :: "string \<Rightarrow> string \<Rightarrow> int \<Rightarrow> int \<Rightarrow> string \<Rightarrow> string" where
  "build_idempotency_key job_id video_id start_ms end_ms reason =
    job_id @ '':'' @ video_id @ '':'' @ show_int start_ms @ '':'' @ show_int end_ms @ '':'' @ reason"

text \<open>\<^verbatim>\<open>HighFreqTrigger(...)\<close> with its validators.\<close>

definition validate_trigger :: "high_freq_trigger \<Rightarrow> exn + high_freq_trigger" where
  "validate_trigger t =
    (if hft_trigger_start_ms t < 0 \<or> hft_trigger_end_ms t < 0 \<or> hft_trigger_start_ms t \<ge> hft_trigger_end_ms t \<or>
        hft_idempotency_key t \<noteq> build_idempotency_key (hft_analysis_job_id t) (hft_video_id t)
          (hft_trigger_start_ms t) (hft_trigger_end_ms t) (hft_trigger_reason t)
     then Inl (PydanticValidationError ''HighFreqTrigger'') else Inr t)"

definition trigger_of_window ::
  "(real \<Rightarrow> real) \<Rightarrow> motion_scan \<Rightarrow> string \<Rightarrow> string \<Rightarrow> string \<Rightarrow> trigger_window \<Rightarrow> high_freq_trigger" where
  "trigger_of_window fl mo trigger_id job_id video_id w =
    \<lparr>hft_trigger_id = trigger_id, hft_analysis_job_id = job_id, hft_scale_task_id = mo_high_freq_scale_task_id mo,
     hft_video_id = video_id, hft_trigger_start_ms = tw_start_ms w, hft_trigger_end_ms = tw_end_ms w,
     hft_motion_score = Some (py_round fl 4 (tw_peak_score w)),
     hft_change_score = Some (py_round fl 4 (tw_peak_score w)), hft_trigger_reason = tw_reason w,
     hft_status = TRIGGER_PENDING,
     hft_idempotency_key = build_idempotency_key job_id video_id (tw_start_ms w) (tw_end_ms w) (tw_reason w),
     hft_error_code = None\<rparr>"

definition motion_duration :: "video_source \<Rightarrow> motion_sample list \<Rightarrow> int option" where
  "motion_duration source samples =
    (case vs_duration_ms source of
       Some d \<Rightarrow> Some d
     | None \<Rightarrow> if samples = [] then None else Some (Max (set (map ms_timestamp_ms samples))))"

text \<open>\<open>sample uri\<close> is the motion detector; \<open>tid n\<close> the id drawn for the \<open>n\<close>th window.\<close>

definition motion_scan_process ::
  "(real \<Rightarrow> real) \<Rightarrow> (string \<Rightarrow> exn + motion_sample list) \<Rightarrow> (nat \<Rightarrow> string) \<Rightarrow> motion_scan \<Rightarrow> string \<Rightarrow> string \<Rightarrow>
   (db, exn, nat) se" where
  "motion_scan_process fl sample tid mo job_id video_id =
    se_bind (se_read (get_video video_id)) (\<lambda>found.
      case found of
        None \<Rightarrow> se_raise (RuntimeError (''video '' @ video_id @ '' not found''))
      | Some source \<Rightarrow>
        (case sample (vs_source_uri source) of
           Inl e \<Rightarrow> se_raise e
         | Inr samples \<Rightarrow>
           let windows = plan_motion_triggers fl samples (mo_threshold mo) (mo_min_duration_ms mo) (mo_merge_gap_ms mo) ''motion_spike''
                 (motion_duration source samples)
           in se_then (se_iter (\<lambda>(n, w).
                se_bind (se_lift (\<lambda>_. validate_trigger (trigger_of_window fl mo (tid n) job_id video_id w))) (\<lambda>t.
                  se_bind (trigger_create_or_get t) (\<lambda>_. se_ret ()))) (enumerate 0 windows))
              (se_ret (length windows))))"

section \<open>What a submission does\<close>

interpretation create_videos: keyed_create db_videos video_key "\<lambda>x r. vs_source_uri x = vs_source_uri r" create_video
  by unfold_locales (auto simp: create_video_def row_ins_def split: option.split)

lemma create_video_frame:
  "create_video dto d = (Inr x, d') \<Longrightarrow> d' = d\<lparr>db_videos := db_videos d'\<rparr>"
  by (auto simp: create_video_def split: option.splits if_splits)

lemma create_video_finds:
  assumes "create_video dto d = (Inr x, d')"
  shows "find (\<lambda>v. video_key v = video_key dto) (db_videos d') = Some x \<and> vs_source_uri x = vs_source_uri dto"
proof (cases rule: create_videos.create_cases [of dto d])
  case (known y)
  with assms show ?thesis by simp
next
  case (new d2)
  with assms show ?thesis by (simp add: find_append)
next
  case (raised e)
  with assms show ?thesis by simp
qed

lemma create_video_known:
  assumes "find (\<lambda>v. video_key v = video_key dto) (db_videos d) = Some x" and "vs_source_uri x = vs_source_uri dto"
  shows "create_video dto d = (Inr x, d)"
  using create_videos.create_known [of dto d x] assms by simp

lemma add_scale_task_ok:
  "add_scale_task t s = (Inr u, s') \<Longrightarrow>
   s' = s\<lparr>mem_db := (mem_db s)\<lparr>db_scale_tasks := db_scale_tasks (mem_db s) @ [t]\<rparr>\<rparr>"
  by (auto simp: add_scale_task_def se_simps create_scale_task_def row_ins_def split: if_splits)

lemma create_scale_tasks_run:
  "se_iter (\<lambda>scale. add_scale_task (f scale)) scales s = (Inr u, s') \<Longrightarrow>
   s' = s\<lparr>mem_db := (mem_db s)\<lparr>db_scale_tasks := db_scale_tasks (mem_db s) @ map f scales\<rparr>\<rparr>"
proof (induction scales arbitrary: s)
  case Nil
  then show ?case by simp
next
  case (Cons scale scales)
  from Cons.prems obtain s1 where "add_scale_task (f scale) s = (Inr (), s1)"
    and rest: "se_iter (\<lambda>scale. add_scale_task (f scale)) scales s1 = (Inr u, s')"
    by (auto simp: se_then_apply split: prod.splits sum.splits)
  from add_scale_task_ok [OF this(1)] Cons.IH [OF rest] show ?case by simp
qed

lemma submit_cases:
  assumes "submit ig env request p capabilities s = (Inr resp, s')"
  obtains source d where "ANALYSIS_SUBMIT \<in> set capabilities"
    and "create_or_get_video request (sv_video_id env) (mem_db s) = (Inr source, d)"
    and "(\<exists>job. get_by_idempotency_key (submit_key request source) d = Some job \<and>
           resp = accepted source (aj_analysis_job_id job) \<and> s' = s\<lparr>mem_db := d\<rparr>) \<or>
         (get_by_idempotency_key (submit_key request source) d = None \<and>
           resp = accepted source (sv_job_id env) \<and>
           s' = s\<lparr>mem_db := d\<lparr>db_jobs := db_jobs d @ [new_job ig env request source],
               db_scale_tasks := db_scale_tasks d @ map (new_scale_task env (sv_job_id env)) (scales_of_submission request),
               db_tasks := db_tasks d @ [new_queue_task env (sv_job_id env) (vs_video_id source)]\<rparr>,
             mem_audit := mem_audit s @ [submit_audit env p source (sv_job_id env)]\<rparr>)"
proof -
  from assms have cap: "ANALYSIS_SUBMIT \<in> set capabilities" by (auto simp: submit_def split: if_splits)
  obtain r d where rd: "create_or_get_video request (sv_video_id env) (mem_db s) = (r, d)" by fastforce
  with assms cap obtain source where source: "r = Inr source"
    by (cases r) (auto simp: submit_def se_simps)
  show thesis
  proof (cases "get_by_idempotency_key (submit_key request source) d")
    case (Some job)
    with assms cap rd source have "resp = accepted source (aj_analysis_job_id job) \<and> s' = s\<lparr>mem_db := d\<rparr>"
      by (auto simp: submit_def se_simps)
    with Some show thesis using that cap rd source by blast
  next
    case None
    let ?job = "new_job ig env request source"
    have none: "find (\<lambda>j. aj_idempotency_key j = aj_idempotency_key ?job) (db_jobs d) = None"
      using None by (simp add: get_by_idempotency_key_def new_job_def)
    let ?d1 = "d\<lparr>db_jobs := db_jobs d @ [?job]\<rparr>"
    let ?scales = "se_iter (\<lambda>scale. add_scale_task (new_scale_task env (sv_job_id env) scale))
        (scales_of_submission request)"
    have id: "aj_analysis_job_id ?job = sv_job_id env" by (simp add: new_job_def)
    from assms cap rd source None none obtain s2 where
      scales: "?scales (s\<lparr>mem_db := ?d1\<rparr>) = (Inr (), s2)"
      and resp: "resp = accepted source (sv_job_id env)"
      and rest: "s' = s2\<lparr>mem_db := (mem_db s2)\<lparr>db_tasks := db_tasks (mem_db s2) @ [new_queue_task env (sv_job_id env) (vs_video_id source)]\<rparr>,
         mem_audit := mem_audit s2 @ [submit_audit env p source (sv_job_id env)]\<rparr>"
      by (auto simp: submit_def se_simps create_job_def row_ins_def id enqueue_task_def append_event_def Let_def
        split: if_splits prod.splits sum.splits)
    from create_scale_tasks_run [OF scales] rest have "s' = s\<lparr>mem_db := d\<lparr>db_jobs := db_jobs d @ [?job],
          db_scale_tasks := db_scale_tasks d @ map (new_scale_task env (sv_job_id env)) (scales_of_submission request),
          db_tasks := db_tasks d @ [new_queue_task env (sv_job_id env) (vs_video_id source)]\<rparr>,
        mem_audit := mem_audit s @ [submit_audit env p source (sv_job_id env)]\<rparr>"
      by simp
    with None resp show thesis using that cap rd source by blast
  qed
qed

text \<open>
  C25. Submitting is idempotent: once a submission has been accepted, submitting the same request again,
  by whoever may submit and whatever ids and clock the retry draws, gives the same video and the same
  job and changes nothing: no second source, job, scale task, queue task or audit event.
\<close>

theorem submit_is_idempotent:
  assumes "submit ig env request p capabilities s = (Inr resp, s')" and "ANALYSIS_SUBMIT \<in> set capabilities'"
  shows "submit ig' env' request p' capabilities' s' = (Inr resp, s')"
proof -
  obtain source d where created: "create_or_get_video request (sv_video_id env) (mem_db s) = (Inr source, d)"
    and cases: "(\<exists>job. get_by_idempotency_key (submit_key request source) d = Some job \<and>
        resp = accepted source (aj_analysis_job_id job) \<and> s' = s\<lparr>mem_db := d\<rparr>) \<or>
      (get_by_idempotency_key (submit_key request source) d = None \<and> resp = accepted source (sv_job_id env) \<and>
        s' = s\<lparr>mem_db := d\<lparr>db_jobs := db_jobs d @ [new_job ig env request source],
            db_scale_tasks := db_scale_tasks d @ map (new_scale_task env (sv_job_id env)) (scales_of_submission request),
            db_tasks := db_tasks d @ [new_queue_task env (sv_job_id env) (vs_video_id source)]\<rparr>,
          mem_audit := mem_audit s @ [submit_audit env p source (sv_job_id env)]\<rparr>)"
    using assms(1) by (rule submit_cases) blast
  have found: "find (\<lambda>v. video_key v = video_key (video_of_request request (sv_video_id env))) (db_videos d) = Some source"
    and uri: "vs_source_uri source = sq_source_uri request"
    using create_video_finds [OF created [unfolded create_or_get_video_def]] by (simp_all add: video_of_request_def)
  from cases have videos: "db_videos (mem_db s') = db_videos d" by auto
  have again: "create_or_get_video request (sv_video_id env') (mem_db s') = (Inr source, mem_db s')"
    unfolding create_or_get_video_def using found uri
    by (intro create_video_known) (simp_all add: videos video_of_request_def)
  have job: "\<exists>job. get_by_idempotency_key (submit_key request source) (mem_db s') = Some job \<and>
      resp = accepted source (aj_analysis_job_id job)"
    using cases by (auto simp: get_by_idempotency_key_def find_append new_job_def)
  then show ?thesis
    using assms(2) by (auto simp: submit_def se_simps again)
qed

text \<open>What a first submission needs, and what it leaves: a queued job with its scale tasks and a due queue task.\<close>

definition fresh_submission :: "submit_env \<Rightarrow> submit_request \<Rightarrow> 'a catalog_scheme \<Rightarrow> bool" where
  "fresh_submission env request s \<longleftrightarrow>
    (\<forall>v \<in> set (db_videos (mem_db s)). video_key v \<noteq> (sq_camera_id request, sq_video_start_time request) \<and>
       vs_video_id v \<noteq> sv_video_id env) \<and>
    (\<forall>j \<in> set (db_jobs (mem_db s)). aj_analysis_job_id j \<noteq> sv_job_id env) \<and>
    (\<forall>t \<in> set (db_scale_tasks (mem_db s)). ast_analysis_job_id t \<noteq> sv_job_id env \<and>
       ast_scale_task_id t \<notin> range (sv_scale_id env)) \<and>
    inj (sv_scale_id env) \<and>
    (\<forall>t \<in> set (db_tasks (mem_db s)). tk_task_id t \<noteq> sv_task_id env) \<and>
    (\<forall>e \<in> set (mem_audit s). ae_audit_event_id e \<noteq> sv_audit_id env)"

lemma fresh_video:
  assumes "fresh_submission env request s"
  shows "create_or_get_video request (sv_video_id env) (mem_db s) =
    (Inr (video_of_request request (sv_video_id env)),
     (mem_db s)\<lparr>db_videos := db_videos (mem_db s) @ [video_of_request request (sv_video_id env)]\<rparr>)"
proof -
  have "find (\<lambda>v. video_key v = video_key (video_of_request request (sv_video_id env))) (db_videos (mem_db s)) = None"
    using assms by (auto simp: fresh_submission_def find_None_iff video_of_request_def)
  moreover have "row_ins vs_video_id (video_of_request request (sv_video_id env)) (db_videos (mem_db s)) =
      Some (db_videos (mem_db s) @ [video_of_request request (sv_video_id env)])"
    using assms by (auto simp: fresh_submission_def row_ins_def video_of_request_def)
  ultimately show ?thesis by (simp add: create_or_get_video_def create_video_def)
qed

lemma add_scale_task_new:
  assumes "\<forall>x \<in> set (db_scale_tasks (mem_db s)).
      (ast_analysis_job_id x = ast_analysis_job_id t \<longrightarrow> ast_analysis_scale x \<noteq> ast_analysis_scale t) \<and>
      ast_scale_task_id x \<noteq> ast_scale_task_id t"
  shows "add_scale_task t s = (Inr (), s\<lparr>mem_db := (mem_db s)\<lparr>db_scale_tasks := db_scale_tasks (mem_db s) @ [t]\<rparr>\<rparr>)"
proof -
  have "\<not> (\<exists>x \<in> set (db_scale_tasks (mem_db s)). ast_analysis_job_id x = ast_analysis_job_id t \<and>
      ast_analysis_scale x = ast_analysis_scale t)"
    and "row_ins ast_scale_task_id t (db_scale_tasks (mem_db s)) = Some (db_scale_tasks (mem_db s) @ [t])"
    using assms by (auto simp: row_ins_def)
  then show ?thesis by (simp add: add_scale_task_def se_simps create_scale_task_def)
qed

lemma add_scale_tasks_new:
  assumes "inj (sv_scale_id env)" and "distinct scales"
    and "\<forall>x \<in> set (db_scale_tasks (mem_db s)).
      (ast_analysis_job_id x = job_id \<longrightarrow> ast_analysis_scale x \<notin> set scales) \<and> ast_scale_task_id x \<notin> sv_scale_id env ` set scales"
  shows "se_iter (\<lambda>scale. add_scale_task (new_scale_task env job_id scale)) scales s =
    (Inr (), s\<lparr>mem_db := (mem_db s)\<lparr>db_scale_tasks := db_scale_tasks (mem_db s) @ map (new_scale_task env job_id) scales\<rparr>\<rparr>)"
  using assms(2,3)
proof (induction scales arbitrary: s)
  case Nil
  then show ?case by simp
next
  case (Cons scale scales)
  let ?t = "new_scale_task env job_id scale"
  let ?s1 = "s\<lparr>mem_db := (mem_db s)\<lparr>db_scale_tasks := db_scale_tasks (mem_db s) @ [?t]\<rparr>\<rparr>"
  have "add_scale_task ?t s = (Inr (), ?s1)"
    using Cons.prems(2) by (intro add_scale_task_new) (auto simp: new_scale_task_def)
  moreover have "se_iter (\<lambda>scale. add_scale_task (new_scale_task env job_id scale)) scales ?s1 =
      (Inr (), ?s1\<lparr>mem_db := (mem_db ?s1)\<lparr>db_scale_tasks := db_scale_tasks (mem_db ?s1) @ map (new_scale_task env job_id) scales\<rparr>\<rparr>)"
    using Cons.prems assms(1) by (intro Cons.IH) (auto simp: new_scale_task_def inj_def)
  ultimately show ?case by (simp add: se_then_apply)
qed

lemma distinct_scales: "distinct (scales_of_submission request)"
  by (simp add: scales_of_submission_def)

text \<open>
  A first submission is accepted and queues its analysis: when the video, the key and the drawn ids
  are new and the caller may submit, the call returns, the job is queued, its scale tasks are pending
  and are the default segments with, on request, the motion scan and the event scale, and the queue
  holds a task for this job and video that a worker may claim at once.
\<close>

theorem submit_queues_analysis:
  assumes "ANALYSIS_SUBMIT \<in> set capabilities" and "fresh_submission env request s"
    and "\<forall>j \<in> set (db_jobs (mem_db s)).
      aj_idempotency_key j \<noteq> submit_key request (video_of_request request (sv_video_id env))"
  shows "\<exists>s' t. submit ig env request p capabilities s =
      (Inr (accepted (video_of_request request (sv_video_id env)) (sv_job_id env)), s') \<and>
    map_option aj_job_status (get_job_row (sv_job_id env) (mem_db s')) = Some JOB_QUEUED \<and>
    map ast_analysis_scale (filter (\<lambda>x. ast_analysis_job_id x = sv_job_id env) (db_scale_tasks (mem_db s'))) =
      scales_of_submission request \<and>
    (\<forall>x \<in> set (db_scale_tasks (mem_db s')). ast_analysis_job_id x = sv_job_id env \<longrightarrow> ast_status x = TASK_PENDING) \<and>
    db_tasks (mem_db s') = db_tasks (mem_db s) @ [t] \<and> still_claimable (sv_now env) t \<and>
    map_of (tk_payload t) ''analysis_job_id'' = Some (sv_job_id env) \<and>
    map_of (tk_payload t) ''video_id'' = Some (sv_video_id env)"
proof -
  let ?source = "video_of_request request (sv_video_id env)"
  let ?d = "(mem_db s)\<lparr>db_videos := db_videos (mem_db s) @ [?source]\<rparr>"
  let ?job = "new_job ig env request ?source"
  let ?t = "new_queue_task env (sv_job_id env) (sv_video_id env)"
  let ?s' = "s\<lparr>mem_db := ?d\<lparr>db_jobs := db_jobs ?d @ [?job],
        db_scale_tasks := db_scale_tasks ?d @ map (new_scale_task env (sv_job_id env)) (scales_of_submission request),
        db_tasks := db_tasks ?d @ [?t]\<rparr>, mem_audit := mem_audit s @ [submit_audit env p ?source (sv_job_id env)]\<rparr>"
  note fresh = assms(2) [unfolded fresh_submission_def]
  have key: "get_by_idempotency_key (submit_key request ?source) ?d = None"
    using assms(3) by (auto simp: get_by_idempotency_key_def find_None_iff)
  have job: "create_job ?job ?d = (Inr ?job, ?d\<lparr>db_jobs := db_jobs ?d @ [?job]\<rparr>)"
  proof -
    have "find (\<lambda>j. aj_idempotency_key j = aj_idempotency_key ?job) (db_jobs ?d) = None"
      using key by (simp add: get_by_idempotency_key_def new_job_def)
    moreover have "aj_analysis_job_id ?job \<notin> aj_analysis_job_id ` set (db_jobs ?d)"
      using fresh by (auto simp: new_job_def)
    ultimately show ?thesis by (simp add: create_job_def row_ins_def)
  qed
  have jid: "aj_analysis_job_id ?job = sv_job_id env" and vid: "vs_video_id ?source = sv_video_id env"
    by (simp_all add: new_job_def video_of_request_def)
  have scales: "se_iter (\<lambda>scale. add_scale_task (new_scale_task env (sv_job_id env) scale)) (scales_of_submission request)
      (s\<lparr>mem_db := ?d\<lparr>db_jobs := db_jobs ?d @ [?job]\<rparr>\<rparr>) =
    (Inr (), s\<lparr>mem_db := ?d\<lparr>db_jobs := db_jobs ?d @ [?job],
      db_scale_tasks := db_scale_tasks ?d @ map (new_scale_task env (sv_job_id env)) (scales_of_submission request)\<rparr>\<rparr>)"
  proof -
    have "\<forall>x \<in> set (db_scale_tasks (mem_db s)). (ast_analysis_job_id x = sv_job_id env \<longrightarrow>
        ast_analysis_scale x \<notin> set (scales_of_submission request)) \<and>
        ast_scale_task_id x \<notin> sv_scale_id env ` set (scales_of_submission request)"
      using fresh by blast
    then show ?thesis
      using add_scale_tasks_new [OF _ distinct_scales, of env
          "s\<lparr>mem_db := ?d\<lparr>db_jobs := db_jobs ?d @ [?job]\<rparr>\<rparr>" "sv_job_id env" request] fresh
      by simp
  qed
  have "submit ig env request p capabilities s = (Inr (accepted ?source (sv_job_id env)), ?s')"
  proof -
    have task: "sv_task_id env \<notin> tk_task_id ` set (db_tasks (mem_db s))"
      and audit: "sv_audit_id env \<notin> ae_audit_event_id ` set (mem_audit s)"
      using fresh by auto
    have ids: "tk_task_id ?t = sv_task_id env" "ae_audit_event_id (submit_audit env p ?source (sv_job_id env)) = sv_audit_id env"
      by (simp_all add: new_queue_task_def submit_audit_def)
    show ?thesis
      using assms(1)
      by (simp add: submit_def se_simps fresh_video [OF assms(2)] key [simplified] job [simplified] jid vid
        scales [simplified] Let_def enqueue_task_def append_event_def row_ins_def ids task audit)
  qed
  moreover have "map_option aj_job_status (get_job_row (sv_job_id env) (mem_db ?s')) = Some JOB_QUEUED"
  proof -
    have "find (\<lambda>r. aj_analysis_job_id r = sv_job_id env) (db_jobs (mem_db s)) = None"
      using fresh by (auto simp: find_None_iff)
    then show ?thesis by (simp add: row_get_def find_append new_job_def)
  qed
  moreover have "filter (\<lambda>x. ast_analysis_job_id x = sv_job_id env) (db_scale_tasks (mem_db ?s')) =
      map (new_scale_task env (sv_job_id env)) (scales_of_submission request)"
    using fresh by (auto simp: filter_map comp_def new_scale_task_def filter_empty_conv)
  moreover have "still_claimable (sv_now env) ?t" "map_of (tk_payload ?t) ''analysis_job_id'' = Some (sv_job_id env)"
    "map_of (tk_payload ?t) ''video_id'' = Some (sv_video_id env)"
    by (simp_all add: still_claimable_def new_queue_task_def)
  moreover have "\<forall>x \<in> set (db_scale_tasks (mem_db ?s')). ast_analysis_job_id x = sv_job_id env \<longrightarrow> ast_status x = TASK_PENDING"
    using fresh by (auto simp: new_scale_task_def)
  ultimately show ?thesis
    by (intro exI [of _ ?s'] exI [of _ ?t]) (simp add: new_scale_task_def comp_def)
qed

section \<open>Where the permissions of a record come from\<close>

abbreviation unregistered_location :: "string \<Rightarrow> camera_location" where
  "unregistered_location location_id \<equiv>
    \<lparr>loc_location_id = location_id, loc_tenant_id = ''tenant_default'', loc_area = ''unregistered'',
     loc_location_desc = Some ''Auto-created for an unregistered camera'', loc_access_policy_id = None,
     loc_security_level = INTERNAL\<rparr>"

abbreviation unregistered_camera :: "string \<Rightarrow> camera_device" where
  "unregistered_camera camera_id \<equiv>
    \<lparr>cam_camera_id = camera_id, cam_tenant_id = ''tenant_default'', cam_camera_name = camera_id,
     cam_location_id = auto_location_id, cam_access_policy_id = None, cam_status = ''active''\<rparr>"

lemma provision_location_new:
  assumes "get_location l s = None"
  shows "provision_location l s =
    (Inr (unregistered_location l), s\<lparr>ct_locations := ct_locations s @ [unregistered_location l]\<rparr>)"
  using assms by (simp add: get_location_def row_get_None_iff provision_location_def upsert_location_def
      upsert_by_pk_def row_ins_def)

lemma upsert_camera_new:
  assumes "get_camera (cam_camera_id c) s = None"
  shows "upsert_camera c s = (Inr c, s\<lparr>ct_cameras := ct_cameras s @ [c]\<rparr>)"
  using assms by (simp add: get_camera_def row_get_None_iff upsert_camera_def upsert_by_pk_def row_ins_def)

lemma row_get_appended: "row_get key (key r) rows = None \<Longrightarrow> row_get key (key r) (rows @ [r]) = Some r"
  by (simp add: row_get_def find_append)

lemma get_camera_appended:
  "get_camera (cam_camera_id c) s = None \<Longrightarrow>
   get_camera (cam_camera_id c) (s\<lparr>ct_cameras := ct_cameras s @ [c]\<rparr>) = Some c"
  by (simp add: get_camera_def row_get_appended)

lemma get_location_appended:
  "get_location (loc_location_id l) s = None \<Longrightarrow>
   get_location (loc_location_id l) (s\<lparr>ct_locations := ct_locations s @ [l]\<rparr>) = Some l"
  by (simp add: get_location_def row_get_appended)

text \<open>The camera and the location of a context are the stored ones, or new rows for an unregistered camera.\<close>

lemma provision_camera_new:
  assumes "get_camera c s = None"
  shows "\<exists>s1. provision_camera c s = (Inr (unregistered_camera c), s1) \<and>
    get_camera c s1 = Some (unregistered_camera c) \<and> mem_db s1 = mem_db s \<and> ct_policies s1 = ct_policies s \<and>
    set (ct_locations s1) \<subseteq> insert (unregistered_location auto_location_id) (set (ct_locations s))"
proof (cases "get_location auto_location_id s")
  case None
  let ?s0 = "s\<lparr>ct_locations := ct_locations s @ [unregistered_location auto_location_id]\<rparr>"
  have c: "get_camera (cam_camera_id (unregistered_camera c)) ?s0 = None" using assms by (simp add: get_camera_def)
  show ?thesis
    using upsert_camera_new [OF c] get_camera_appended [OF c]
    by (simp add: provision_camera_def se_simps None provision_location_new [OF None])
next
  case (Some l)
  have c: "get_camera (cam_camera_id (unregistered_camera c)) s = None" using assms by simp
  show ?thesis
    using upsert_camera_new [OF c] get_camera_appended [OF c]
    by (auto simp add: provision_camera_def se_simps Some)
qed

lemma resolve_facts:
  assumes "resolve_video_context dflt vid s = (Inr ctx, s')"
  shows "get_video vid (mem_db s) = Some (vc_source ctx) \<and> mem_db s' = mem_db s \<and> ct_policies s' = ct_policies s \<and>
    get_camera (vs_camera_id (vc_source ctx)) s' = Some (vc_camera ctx) \<and>
    get_location (cam_location_id (vc_camera ctx)) s' = Some (vc_location ctx) \<and>
    vc_access_policy_id ctx = resolve_access_policy_id (vc_location ctx) (Some (vc_camera ctx))
      (vs_access_policy_id (vc_source ctx)) dflt \<and>
    vc_security_level ctx = effective_security_level (vc_location ctx) (Some (vc_camera ctx))
      (get_access_policy (vc_access_policy_id ctx) s') \<and>
    (get_camera (vs_camera_id (vc_source ctx)) s = None \<longrightarrow>
      vc_camera ctx = unregistered_camera (vs_camera_id (vc_source ctx)) \<and>
      set (ct_locations s') \<subseteq> insert (unregistered_location auto_location_id) (set (ct_locations s)))"
proof -
  from assms obtain src where src: "get_video vid (mem_db s) = Some src"
    by (cases "get_video vid (mem_db s)") (simp_all add: resolve_video_context_def se_simps)
  obtain cam s1 where cam: "(case get_camera (vs_camera_id src) s of Some c \<Rightarrow> se_ret c
        | None \<Rightarrow> provision_camera (vs_camera_id src)) s = (Inr cam, s1)"
    and s1: "get_camera (vs_camera_id src) s1 = Some cam" "mem_db s1 = mem_db s" "ct_policies s1 = ct_policies s"
    and new: "get_camera (vs_camera_id src) s = None \<Longrightarrow> cam = unregistered_camera (vs_camera_id src) \<and>
      set (ct_locations s1) \<subseteq> insert (unregistered_location auto_location_id) (set (ct_locations s))"
  proof (cases "get_camera (vs_camera_id src) s")
    case None
    from provision_camera_new [OF None] None that show thesis by (auto simp del: insert_subset)
  next
    case (Some c)
    with that show thesis by simp
  qed
  obtain loc s2 where loc: "(case get_location (cam_location_id cam) s1 of Some l \<Rightarrow> se_ret l
        | None \<Rightarrow> provision_location (cam_location_id cam)) s1 = (Inr loc, s2)"
    and s2: "get_location (cam_location_id cam) s2 = Some loc" "mem_db s2 = mem_db s1" "ct_policies s2 = ct_policies s1"
      "ct_cameras s2 = ct_cameras s1"
      "set (ct_locations s2) \<subseteq> insert (unregistered_location (cam_location_id cam)) (set (ct_locations s1))"
  proof (cases "get_location (cam_location_id cam) s1")
    case None
    with provision_location_new [OF None] get_location_appended [of "unregistered_location (cam_location_id cam)" s1] that
    show thesis by simp
  next
    case (Some l)
    with that show thesis by auto
  qed
  let ?pid = "resolve_access_policy_id loc (Some cam) (vs_access_policy_id src) dflt"
  have "resolve_video_context dflt vid s =
      (Inr \<lparr>vc_source = src, vc_camera = cam, vc_location = loc, vc_access_policy_id = ?pid,
        vc_security_level = effective_security_level loc (Some cam) (get_access_policy ?pid s2)\<rparr>, s2)"
    using src cam loc by (simp add: resolve_video_context_def se_simps Let_def)
  note ctx_s' = trans [OF sym [OF this] assms, unfolded prod.inject sum.inject]
  note ctx = ctx_s' [THEN conjunct1] and s' = ctx_s' [THEN conjunct2]
  have camera: "get_camera (vs_camera_id src) s2 = Some cam" using s1(1) s2(4) by (simp add: get_camera_def)
  have "get_camera (vs_camera_id src) s = None \<Longrightarrow>
      set (ct_locations s2) \<subseteq> insert (unregistered_location auto_location_id) (set (ct_locations s))"
    using new s2(5) by auto
  with new src s1 s2 camera show ?thesis by (simp add: ctx [symmetric] s' [symmetric])
qed

lemma context_record_fields:
  "context_record pe ctx rid job scale a b st dy tags attrs versions = Inr r \<Longrightarrow>
   ob_tenant_id r = vs_tenant_id (vc_source ctx) \<and> ob_video_id r = vs_video_id (vc_source ctx) \<and>
   ob_camera_id r = vs_camera_id (vc_source ctx) \<and>
   ob_location_id r = cam_location_id (vc_camera ctx) \<and> ob_access_policy_id r = vc_access_policy_id ctx \<and>
   ob_security_level r = vc_security_level ctx \<and> ob_segment_start_ms r = a \<and> ob_segment_end_ms r = b \<and> a < b"
  by (auto simp: context_record_def validate_record_def split: if_splits)

lemma resolve_registered:
  assumes "resolve_video_context dflt vid s = (Inr ctx, s')"
    and "get_camera (vs_camera_id (vc_source ctx)) s = Some c"
  shows "vc_camera ctx = c" and "get_location (cam_location_id c) s = Some l \<Longrightarrow> vc_location ctx = l"
  using assms by (auto simp: resolve_video_context_def se_simps Let_def split: option.splits prod.splits sum.splits)

text \<open>The first of the ids that is set and not empty, else the default.\<close>

definition first_policy :: "string option list \<Rightarrow> string \<Rightarrow> string" where
  "first_policy ids dflt = hd (filter (\<lambda>x. x \<noteq> []) (List.map_filter id ids) @ [dflt])"

lemma resolve_first_policy:
  "resolve_access_policy_id location (Some camera) video_id dflt =
    first_policy [video_id, cam_access_policy_id camera, loc_access_policy_id location] dflt"
  by (cases video_id; cases "cam_access_policy_id camera"; cases "loc_access_policy_id location")
    (simp_all add: resolve_access_policy_id_def first_policy_def truthy_def map_filter_def)


text \<open>
  What an unregistered camera records is visible to nobody: the location that is provisioned for it
  has no access policy, so no principal, an administrator included, has a scope that permits the
  record, although the record itself carries the default policy.
\<close>

theorem unregistered_camera_is_invisible:
  assumes "resolve_video_context dflt vid s = (Inr ctx, s')"
    and "get_camera (vs_camera_id (vc_source ctx)) s = None"
    and "\<forall>l \<in> set (ct_locations s). loc_location_id l = auto_location_id \<longrightarrow> loc_access_policy_id l = None"
    and "build_observation_record pe ctx rid job scale start_ms end_ms out versions extra = Inr r"
  shows "\<not> permits_resource (scope_from_catalog hexdigest s' p) (ob_tenant_id r) (ob_camera_id r)
    (ob_location_id r) (ob_access_policy_id r) (ob_security_level r)"
proof
  let ?locs = "order_by_limit loc_location_id 10000 (ct_locations s')"
  assume "permits_resource (scope_from_catalog hexdigest s' p) (ob_tenant_id r) (ob_camera_id r)
    (ob_location_id r) (ob_access_policy_id r) (ob_security_level r)"
  then obtain l where l: "l \<in> set ?locs" "loc_location_id l = ob_location_id r" "truthy (loc_access_policy_id l)"
    by (auto simp: permits_resource_iff scope_from_catalog_def authorized_scope_for_def mem_allowed_location_ids
      location_allowed_def)
  have auto: "ob_location_id r = auto_location_id"
    and locs: "set (ct_locations s') \<subseteq> insert (unregistered_location auto_location_id) (set (ct_locations s))"
    using resolve_facts [OF assms(1)] context_record_fields [OF assms(4) [unfolded build_observation_record_def]] assms(2)
    by (simp_all del: insert_subset)
  have "l \<in> set (ct_locations s')" using l(1) by (rule set_order_by_limit [THEN subsetD])
  with locs assms(3) l(2) auto have "loc_access_policy_id l = None" by auto
  with l(3) show False by (simp add: truthy_def)
qed

section \<open>What a principal cannot reach\<close>

text \<open>
  A key that another video has used: the new source is stored, the call answers with the other video's
  job, and nothing is queued for the new source.
\<close>

theorem reused_key_is_swallowed:
  assumes "ANALYSIS_SUBMIT \<in> set capabilities" and "fresh_submission env request s"
    and "get_by_idempotency_key (submit_key request (video_of_request request (sv_video_id env))) (mem_db s) = Some job"
  shows "submit ig env request p capabilities s =
    (Inr (accepted (video_of_request request (sv_video_id env)) (aj_analysis_job_id job)),
     s\<lparr>mem_db := (mem_db s)\<lparr>db_videos := db_videos (mem_db s) @ [video_of_request request (sv_video_id env)]\<rparr>\<rparr>)"
  using assms by (simp add: submit_def se_simps fresh_video get_by_idempotency_key_def)

text \<open>
  No operation of the program gives a video source an access policy of its own, and the filter for
  videos requires one: no principal is given the metadata of a video.
\<close>

definition no_video_policy :: "db \<Rightarrow> bool" where
  "no_video_policy d \<longleftrightarrow> (\<forall>v \<in> set (db_videos d). vs_access_policy_id v = None)"

lemma create_video_keeps_no_policy:
  "no_video_policy d \<Longrightarrow> vs_access_policy_id dto = None \<Longrightarrow> no_video_policy (snd (create_video dto d))"
  by (auto simp: no_video_policy_def create_video_def row_ins_def split: option.split)

lemma update_probe_keeps_no_policy: "no_video_policy d \<Longrightarrow> no_video_policy (update_probe_metadata v n t d)"
  by (auto simp: no_video_policy_def update_probe_metadata_def row_upd_def)

lemma submit_keeps_no_policy:
  assumes "no_video_policy (mem_db s)"
    and "submit ig env request p capabilities s = (Inr resp, s')"
  shows "no_video_policy (mem_db s')"
proof -
  obtain source d where "create_or_get_video request (sv_video_id env) (mem_db s) = (Inr source, d)"
    and "db_videos (mem_db s') = db_videos d"
    using assms(2) by (rule submit_cases) auto
  then show ?thesis
    using create_video_keeps_no_policy [OF assms(1), of "video_of_request request (sv_video_id env)"]
    by (simp add: create_or_get_video_def video_of_request_def no_video_policy_def)
qed

theorem videos_are_invisible:
  assumes "no_video_policy d"
  shows "get_authorized_video vid sc d = None \<and> list_authorized_videos sc n d = []"
proof -
  have none: "\<forall>v \<in> set (db_videos d). \<not> video_visible sc v"
    using assms by (simp add: no_video_policy_def video_visible_def authorized_video_filter_def)
  then have "filter (video_visible sc) (db_videos d) = []" by (simp add: filter_empty_conv)
  with none show ?thesis
    by (auto simp: get_authorized_video_def list_authorized_videos_def find_None_iff order_by_limit_def)
qed

section \<open>Witnesses\<close>

definition ex_request :: submit_request where
  "ex_request = \<lparr>sq_source_type = FILE, sq_source_uri = ''/v.mp4'', sq_camera_id = ''cam9'',
     sq_video_start_time = (0, 0), sq_external_source_id = None, sq_idempotency_key = None,
     sq_analysis_options = [(''enable_motion_triggered_high_freq'', True)]\<rparr>"

definition ex_submit_env :: submit_env where
  "ex_submit_env = \<lparr>sv_video_id = ''v1'', sv_job_id = ''j1'',
     sv_scale_id = (\<lambda>sc. case sc of DEFAULT_SEGMENT \<Rightarrow> ''s1'' | MOTION_SCAN \<Rightarrow> ''s2'' | HIGH_FREQ_EVENT \<Rightarrow> ''s3'' | LOW_FREQ_SUMMARY \<Rightarrow> ''s4''),
     sv_task_id = ''t1'', sv_audit_id = ''a1'', sv_now = 5, sv_tz = 0\<rparr>"

definition ex_ingestion :: ingestion where
  "ex_ingestion = \<lparr>ig_model_version = ''m'', ig_prompt_version = ''p'', ig_pipeline_version = ''q''\<rparr>"

definition ex_catalog :: catalog where
  "ex_catalog = \<lparr>mem_db = \<lparr>db_jobs = [], db_scale_tasks = [], db_triggers = [], db_units = [],
      db_videos = [video_of_request (ex_request\<lparr>sq_camera_id := ''cam8''\<rparr>) ''v0''], db_tasks = []\<rparr>,
    mem_records = [], mem_history = [], mem_fts = None, mem_vectors = [], mem_audit = [],
    ct_locations = [], ct_cameras = [], ct_policies = [dev_policy], ct_principals = [dev_principal],
    ct_model_calls = [], ct_gate_logs = [], ct_pre_vlm_logs = []\<rparr>"

lemmas ex_catalog_defs = ex_request_def ex_submit_env_def ex_ingestion_def ex_catalog_def

lemma ex_fresh: "fresh_submission ex_submit_env ex_request ex_catalog"
proof -
  have "inj (sv_scale_id ex_submit_env)"
    by (auto simp: inj_def ex_submit_env_def split: analysis_scale.splits)
  moreover have "''v0'' \<noteq> sv_video_id ex_submit_env" by (simp add: ex_submit_env_def)
  ultimately show ?thesis by (simp add: fresh_submission_def ex_catalog_def video_of_request_def ex_request_def)
qed

theorem submit_queues_analysis_witness:
  "\<exists>s' t. submit ex_ingestion ex_submit_env ex_request dev_principal [ANALYSIS_SUBMIT] ex_catalog =
      (Inr (accepted (video_of_request ex_request (sv_video_id ex_submit_env)) (sv_job_id ex_submit_env)), s') \<and>
    db_tasks (mem_db s') = [t]"
proof -
  have "ANALYSIS_SUBMIT \<in> set [ANALYSIS_SUBMIT]" "db_jobs (mem_db ex_catalog) = []" "db_tasks (mem_db ex_catalog) = []"
    by (simp_all add: ex_catalog_def)
  then show ?thesis
    using submit_queues_analysis [OF _ ex_fresh, of "[ANALYSIS_SUBMIT]" ex_ingestion dev_principal] by auto
qed

lemma ex_submitted:
  "\<exists>resp s'. submit ex_ingestion ex_submit_env ex_request dev_principal [ANALYSIS_SUBMIT] ex_catalog = (Inr resp, s')"
  by (simp add: submit_def se_simps fresh_video [OF ex_fresh])
    (simp add: ex_catalog_defs get_by_idempotency_key_def video_of_request_def create_job_def row_ins_def
      scales_of_submission_def wants_high_freq_def submit_options_def add_scale_task_def se_simps create_scale_task_def
      new_scale_task_def new_job_def enqueue_task_def new_queue_task_def append_event_def submit_audit_def Let_def)

theorem submit_is_idempotent_witness:
  "\<exists>resp s'. submit ex_ingestion (ex_submit_env\<lparr>sv_now := 99\<rparr>) ex_request ex_viewer [ANALYSIS_SUBMIT] s' = (Inr resp, s') \<and>
    submit ex_ingestion ex_submit_env ex_request dev_principal [ANALYSIS_SUBMIT] ex_catalog = (Inr resp, s')"
proof -
  obtain resp s' where run: "submit ex_ingestion ex_submit_env ex_request dev_principal [ANALYSIS_SUBMIT] ex_catalog = (Inr resp, s')"
    using ex_submitted by blast
  from submit_is_idempotent [OF run, of "[ANALYSIS_SUBMIT]" ex_ingestion "ex_submit_env\<lparr>sv_now := 99\<rparr>" ex_viewer] run
  show ?thesis by auto
qed

definition ex_output :: vlm_output where
  "ex_output = \<lparr>vo_static = ''a yard'', vo_dynamic = ''a man walks'', vo_tags = [''person''], vo_quality_reason = ''ok'',
     vo_quality_score = 1, vo_alert = False\<rparr>"

lemma ex_resolved:
  "\<exists>ctx s' r. resolve_video_context ''policy_public_area'' ''v0'' ex_catalog = (Inr ctx, s') \<and>
    get_camera (vs_camera_id (vc_source ctx)) ex_catalog = None \<and>
    build_observation_record ex_py ctx ''r1'' ''j1'' DEFAULT_SEGMENT 0 60000 ex_output (None, None, None) None = Inr r"
  by (simp add: resolve_video_context_def se_simps ex_catalog_defs video_of_request_def get_camera_def provision_camera_def
      get_location_def provision_location_def upsert_location_def upsert_by_pk_def row_ins_def upsert_camera_def Let_def
      get_access_policy_def dev_policy_def auto_location_id_def
      build_observation_record_def context_record_def validate_record_def)


theorem unregistered_camera_is_invisible_witness:
  "\<exists>ctx (s' :: catalog) r. build_observation_record ex_py ctx ''r1'' ''j1'' DEFAULT_SEGMENT 0 60000 ex_output (None, None, None) None = Inr r \<and>
    \<not> permits_resource (scope_from_catalog (\<lambda>x. x) s' dev_principal) (ob_tenant_id r) (ob_camera_id r)
      (ob_location_id r) (ob_access_policy_id r) (ob_security_level r)"
proof -
  obtain ctx s' r where ex: "resolve_video_context ''policy_public_area'' ''v0'' ex_catalog = (Inr ctx, s')"
    and new: "get_camera (vs_camera_id (vc_source ctx)) ex_catalog = None"
    and built: "build_observation_record ex_py ctx ''r1'' ''j1'' DEFAULT_SEGMENT 0 60000 ex_output (None, None, None) None = Inr r"
    using ex_resolved by blast
  have "\<forall>l \<in> set (ct_locations ex_catalog). loc_location_id l = auto_location_id \<longrightarrow> loc_access_policy_id l = None"
    by (simp add: ex_catalog_def)
  from unregistered_camera_is_invisible [OF ex new this built] built show ?thesis by blast
qed

end
