(* ===== verification/Cctv_Timeline.thy ===== *)
theory Cctv_Timeline
  imports Cctv_Json Cctv_Retry Cctv_Store "HOL-Library.Sublist"
begin

text \<open>
  The analysis timeline: the event (\<^verbatim>\<open>contracts/timeline.py\<close>), the recorder that redacts and appends it
  (\<^verbatim>\<open>services/timeline_recorder.py\<close>) and the append-only table (\<^verbatim>\<open>repositories/timeline.py\<close>). The three
  regular expressions of the redaction are written out as scanners. The lemmas say what redaction
  removes, and that a fail-open recorder never changes what the recorded program does.
\<close>

section \<open>Redaction\<close>

definition sensitive_key_parts :: "string list" where
  "sensitive_key_parts =
    [''authorization'', ''api_key'', ''apikey'', ''xapikey'', ''token'', ''secret'', ''password'', ''source_uri'',
     ''sourceuri'', ''uri'', ''url'', ''path'', ''base64'', ''raw_media'', ''rawmedia'', ''raw_image'', ''rawimage'',
     ''raw_video'', ''rawvideo'']"

definition lower_alnum :: "char \<Rightarrow> bool" where
  "lower_alnum c \<longleftrightarrow> 97 \<le> code c \<and> code c \<le> 122 \<or> 48 \<le> code c \<and> code c \<le> 57"

definition sensitive_key :: "string \<Rightarrow> bool" where
  "sensitive_key key = list_ex (\<lambda>part. contains part (filter lower_alnum (py_lower key))) sensitive_key_parts"

text \<open>The character classes \<^verbatim>\<open>[A-Za-z0-9+/]\<close>, the same with \<^verbatim>\<open>=\<close>, \<^verbatim>\<open>[^\s'"]\<close> and \<^verbatim>\<open>[^\s'"<>:]\<close>.\<close>

definition base64_char :: "char \<Rightarrow> bool" where
  "base64_char c \<longleftrightarrow> 65 \<le> code c \<and> code c \<le> 90 \<or> lower_alnum c \<or> c = CHR ''+'' \<or> c = CHR ''/''"

definition unquoted_char :: "char \<Rightarrow> bool" where
  "unquoted_char c \<longleftrightarrow> \<not> py_isspace_char c \<and> c \<noteq> CHR 39 \<and> c \<noteq> CHR 34"

definition path_char :: "char \<Rightarrow> bool" where
  "path_char c \<longleftrightarrow> unquoted_char c \<and> c \<noteq> CHR ''<'' \<and> c \<noteq> CHR ''>'' \<and> c \<noteq> CHR '':''"

text \<open>
  \<^verbatim>\<open>data:[^\s'"]+;base64,[A-Za-z0-9+/=]+\<close> at the start of a text: the greedy first part ends at the last
  place where the rest of the pattern fits. The result is the text after the match.
\<close>

definition data_url_split :: "string \<Rightarrow> nat \<Rightarrow> bool" where
  "data_url_split t i \<longleftrightarrow> i \<le> length (takeWhile unquoted_char t) \<and> take 8 (drop i t) = '';base64,'' \<and>
    (case drop (i + 8) t of [] \<Rightarrow> False | c # _ \<Rightarrow> base64_char c \<or> c = CHR ''='')"

definition match_data_url :: "string \<Rightarrow> string option" where
  "match_data_url s =
    (if take 5 s \<noteq> ''data:'' then None
     else let t = drop 5 s in
       case rev (filter (data_url_split t) [1..<Suc (length t)]) of
         [] \<Rightarrow> None
       | i # _ \<Rightarrow> Some (dropWhile (\<lambda>c. base64_char c \<or> c = CHR ''='') (drop (i + 8) t)))"

lemma match_data_url_shorter: "match_data_url s = Some rest \<Longrightarrow> length rest < length s"
proof -
  assume m: "match_data_url s = Some rest"
  then have start: "take 5 s = ''data:''" by (simp add: match_data_url_def split: if_splits)
  let ?js = "rev (filter (data_url_split (drop 5 s)) [1..<Suc (length (drop 5 s))])"
  from m start obtain i where "rest = dropWhile (\<lambda>c. base64_char c \<or> c = CHR ''='') (drop (i + 8) (drop 5 s))"
    by (cases ?js) (auto simp add: match_data_url_def Let_def simp del: upt_Suc)
  moreover from start have "5 \<le> length s" by (cases "5 \<le> length s") (auto dest: arg_cong [of _ _ length])
  ultimately show ?thesis
    using length_dropWhile_le [of "\<lambda>c. base64_char c \<or> c = CHR ''=''" "drop (i + 8) (drop 5 s)"] by simp
qed

function sub_data_url :: "string \<Rightarrow> string" where
  "sub_data_url s =
    (case s of [] \<Rightarrow> []
     | c # cs \<Rightarrow> (case match_data_url s of
         Some rest \<Rightarrow> ''<redacted-data-url>'' @ sub_data_url rest
       | None \<Rightarrow> c # sub_data_url cs))"
  by pat_completeness auto
termination
  by (relation "measure length") (auto dest: match_data_url_shorter)

declare sub_data_url.simps [simp del]

text \<open>
  \<^verbatim>\<open>(?<![A-Za-z0-9+/])[A-Za-z0-9+/]{120,}={0,2}\<close>: \<open>inside\<close> says that the previous character is of the
  class.
\<close>

definition drop_equals :: "string \<Rightarrow> string" where
  "drop_equals s = (case s of c # d # cs \<Rightarrow> if c \<noteq> CHR ''='' then s else if d = CHR ''='' then cs else d # cs
    | [c] \<Rightarrow> if c = CHR ''='' then [] else s | [] \<Rightarrow> [])"

lemma drop_equals_le: "length (drop_equals s) \<le> length s"
  by (auto simp: drop_equals_def split: list.split)

function sub_long_base64 :: "bool \<Rightarrow> string \<Rightarrow> string" where
  "sub_long_base64 inside s =
    (case s of [] \<Rightarrow> []
     | c # cs \<Rightarrow>
       if \<not> inside \<and> 120 \<le> length (takeWhile base64_char s)
       then ''<redacted-base64>'' @ sub_long_base64 (drop_equals (dropWhile base64_char s) = dropWhile base64_char s)
         (drop_equals (dropWhile base64_char s))
       else c # sub_long_base64 (base64_char c) cs)"
  by pat_completeness auto
termination
proof (relation "measure (length \<circ> snd)")
  fix inside s c cs
  assume "s = c # cs" and "\<not> inside \<and> 120 \<le> length (takeWhile base64_char s)"
  then have "length (dropWhile base64_char s) < length s"
    using arg_cong [OF takeWhile_dropWhile_id [of base64_char s], of length] by simp
  with drop_equals_le [of "dropWhile base64_char s"]
  show "((drop_equals (dropWhile base64_char s) = dropWhile base64_char s, drop_equals (dropWhile base64_char s)), inside, s)
      \<in> measure (length \<circ> snd)" by simp
qed auto

declare sub_long_base64.simps [simp del]

text \<open>
  \<^verbatim>\<open>/(?:[^\s'"<>:]+/)+[^\s'"<>:]+\<close> matches a slash and the whole run of path characters after it, if
  the run has an inner slash.
\<close>

definition path_run :: "string \<Rightarrow> bool" where
  "path_run r \<longleftrightarrow> list_ex (\<lambda>i. r ! i = CHR ''/'') [1..<length r - 1]"

definition path_repl :: "string \<Rightarrow> string" where
  "path_repl m =
    (let name = basename (rev (dropWhile (\<lambda>c. c \<in> set '').,;]'') (rev m)))
     in ''<path:'' @ (if name = [] then ''redacted'' else name) @ ''>'')"

function sub_unix_path :: "string \<Rightarrow> string" where
  "sub_unix_path s =
    (case s of [] \<Rightarrow> []
     | c # cs \<Rightarrow>
       if c = CHR ''/'' \<and> path_run (takeWhile path_char cs)
       then path_repl (c # takeWhile path_char cs) @ sub_unix_path (dropWhile path_char cs)
       else c # sub_unix_path cs)"
  by pat_completeness auto
termination
  by (relation "measure length") (auto simp: le_imp_less_Suc length_dropWhile_le)

declare sub_unix_path.simps [simp del]

definition max_string_length :: nat where
  "max_string_length = 500"

definition sanitize_string :: "string \<Rightarrow> string" where
  "sanitize_string value =
    (let t = sub_unix_path (sub_long_base64 False (sub_data_url value))
     in if length t > max_string_length then take max_string_length t @ ''...<truncated>'' else t)"

fun sanitize_value :: "json \<Rightarrow> json" where
  "sanitize_value (JsObj d) =
    JsObj (map (\<lambda>(k, v). (k, if sensitive_key k then JsStr ''<redacted>'' else sanitize_value v)) d)"
| "sanitize_value (JsArr vs) = JsArr (take 100 (map sanitize_value vs))"
| "sanitize_value (JsStr s) = JsStr (sanitize_string s)"
| "sanitize_value v = v"

definition sanitize_dict :: "jdict \<Rightarrow> jdict" where
  "sanitize_dict d = map (\<lambda>(k, v). (k, if sensitive_key k then JsStr ''<redacted>'' else sanitize_value v)) d"

definition safe_error_message :: "string option \<Rightarrow> string option" where
  "safe_error_message v = map_option (\<lambda>m. take max_string_length (sanitize_string m)) v"

section \<open>Events\<close>

datatype event_phase = PHASE_INSTANT | PHASE_START | PHASE_FINISH | PHASE_FAIL

record timeline_event =
  te_timeline_event_id :: string
  te_trace_id :: string
  te_span_id :: "string option"
  te_parent_span_id :: "string option"
  te_analysis_job_id :: "string option"
  te_task_id :: "string option"
  te_scale_task_id :: "string option"
  te_unit_id :: "string option"
  te_model_call_id :: "string option"
  te_video_id :: "string option"
  te_analysis_scale :: "analysis_scale option"
  te_unit_kind :: "string option"
  te_segment_start_ms :: "int option"
  te_segment_end_ms :: "int option"
  te_event_name :: string
  te_event_phase :: event_phase
  te_status :: "string option"
  te_attempt_count :: "int option"
  te_occurred_at :: iso
  te_duration_ms :: "int option"
  te_error_code :: "string option"
  te_error_message :: "string option"
  te_correlation :: jdict
  te_metadata :: jdict
  te_created_at :: iso

definition nonneg_opt :: "int option \<Rightarrow> bool" where
  "nonneg_opt v \<longleftrightarrow> (case v of None \<Rightarrow> True | Some i \<Rightarrow> 0 \<le> i)"

definition timeline_event_ok :: "timeline_event \<Rightarrow> bool" where
  "timeline_event_ok e \<longleftrightarrow>
    nonneg_opt (te_segment_start_ms e) \<and> nonneg_opt (te_segment_end_ms e) \<and> nonneg_opt (te_attempt_count e) \<and>
    nonneg_opt (te_duration_ms e) \<and>
    (case (te_segment_start_ms e, te_segment_end_ms e) of (Some a, Some b) \<Rightarrow> a < b | _ \<Rightarrow> True)"

text \<open>What a caller passes to \<^verbatim>\<open>event\<close>; \<open>em_error\<close> is the text of the exception.\<close>

record event_fields =
  em_trace_id :: "string option"
  em_span_id :: "string option"
  em_parent_span_id :: "string option"
  em_analysis_job_id :: "string option"
  em_task_id :: "string option"
  em_scale_task_id :: "string option"
  em_unit_id :: "string option"
  em_model_call_id :: "string option"
  em_video_id :: "string option"
  em_analysis_scale :: "analysis_scale option"
  em_unit_kind :: "string option"
  em_segment_start_ms :: "int option"
  em_segment_end_ms :: "int option"
  em_status :: "string option"
  em_attempt_count :: "int option"
  em_duration_ms :: "int option"
  em_error_code :: "string option"
  em_error :: "string option"
  em_correlation :: jdict
  em_metadata :: jdict
  em_occurred_at :: "iso option"

definition no_fields :: event_fields where
  "no_fields =
    \<lparr>em_trace_id = None, em_span_id = None, em_parent_span_id = None, em_analysis_job_id = None, em_task_id = None,
     em_scale_task_id = None, em_unit_id = None, em_model_call_id = None, em_video_id = None,
     em_analysis_scale = None, em_unit_kind = None, em_segment_start_ms = None, em_segment_end_ms = None,
     em_status = None, em_attempt_count = None, em_duration_ms = None, em_error_code = None, em_error = None,
     em_correlation = [], em_metadata = [], em_occurred_at = None\<rparr>"

text \<open>\<open>tr_now n\<close> and \<open>tr_id prefix n\<close> are the clock and the ids that the recorder draws.\<close>

record 's timeline_recorder =
  tr_append :: "timeline_event \<Rightarrow> ('s, exn, unit) se"
  tr_enabled :: bool
  tr_fail_open :: bool
  tr_now :: "'s \<Rightarrow> iso"
  tr_id :: "string \<Rightarrow> 's \<Rightarrow> string"

definition first_of :: "string option list \<Rightarrow> string" where
  "first_of vs = (case find truthy vs of Some (Some v) \<Rightarrow> v | _ \<Rightarrow> ''local'')"

definition timeline_event_of ::
  "string \<Rightarrow> iso \<Rightarrow> string \<Rightarrow> event_phase \<Rightarrow> event_fields \<Rightarrow> timeline_event" where
  "timeline_event_of event_id now name phase f =
    \<lparr>te_timeline_event_id = event_id,
     te_trace_id = first_of [em_trace_id f, em_analysis_job_id f, em_task_id f, em_unit_id f],
     te_span_id = em_span_id f, te_parent_span_id = em_parent_span_id f, te_analysis_job_id = em_analysis_job_id f,
     te_task_id = em_task_id f, te_scale_task_id = em_scale_task_id f, te_unit_id = em_unit_id f,
     te_model_call_id = em_model_call_id f, te_video_id = em_video_id f, te_analysis_scale = em_analysis_scale f,
     te_unit_kind = em_unit_kind f, te_segment_start_ms = em_segment_start_ms f,
     te_segment_end_ms = em_segment_end_ms f, te_event_name = name, te_event_phase = phase, te_status = em_status f,
     te_attempt_count = em_attempt_count f,
     te_occurred_at = (case em_occurred_at f of None \<Rightarrow> now | Some t \<Rightarrow> t), te_duration_ms = em_duration_ms f,
     te_error_code = em_error_code f, te_error_message = safe_error_message (em_error f),
     te_correlation = sanitize_dict (em_correlation f), te_metadata = sanitize_dict (em_metadata f),
     te_created_at = now\<rparr>"

definition record_event ::
  "'s timeline_recorder \<Rightarrow> string \<Rightarrow> event_phase \<Rightarrow> event_fields \<Rightarrow> ('s, exn, unit) se" where
  "record_event tr name phase f s =
    (if \<not> tr_enabled tr then (Inr (), s)
     else let e = timeline_event_of (tr_id tr ''tl'' s) (tr_now tr s) name phase f;
              m = (if timeline_event_ok e then tr_append tr e else se_raise (PydanticValidationError ''AnalysisTimelineEvent''))
       in case m s of
         (Inr _, s') \<Rightarrow> (Inr (), s')
       | (Inl x, s') \<Rightarrow> if tr_fail_open tr then (Inr (), s') else (Inl x, s'))"

text \<open>\<open>duration\<close> is the measured time of the block.\<close>

definition record_span ::
  "'s timeline_recorder \<Rightarrow> int \<Rightarrow> string \<Rightarrow> event_fields \<Rightarrow> ('s, exn, 'a) se \<Rightarrow> ('s, exn, 'a) se" where
  "record_span tr duration name f body s =
    (let f = f\<lparr>em_span_id := Some (if truthy (em_span_id f) then the (em_span_id f) else tr_id tr ''span'' s)\<rparr>
     in se_then (record_event tr name PHASE_START f)
       (se_bind
         (se_try body (\<lambda>x. se_then
           (record_event tr name PHASE_FAIL (f\<lparr>em_duration_ms := Some duration,
              em_error_code := Some (exn_type_name x), em_error := Some (exn_message x)\<rparr>))
           (se_raise x)))
         (\<lambda>a. se_then (record_event tr name PHASE_FINISH (f\<lparr>em_duration_ms := Some duration\<rparr>)) (se_ret a))) s)"

section \<open>The table\<close>

definition timeline_append :: "timeline_event \<Rightarrow> timeline_event list \<Rightarrow> exn + timeline_event list" where
  "timeline_append e rows =
    (case row_ins te_timeline_event_id e rows of
       None \<Rightarrow> Inl (IntegrityError ''UNIQUE constraint failed: analysis_timeline_events.timeline_event_id'')
     | Some rows' \<Rightarrow> Inr rows')"

text \<open>The order of the listings: texts of the two times, then the id.\<close>

definition timeline_key :: "timeline_event \<Rightarrow> (int \<times> bool \<times> int) \<times> (int \<times> bool \<times> int) \<times> string" where
  "timeline_key e = (iso_key (te_occurred_at e), iso_key (te_created_at e), te_timeline_event_id e)"

definition in_period :: "iso option \<Rightarrow> iso option \<Rightarrow> timeline_event \<Rightarrow> bool" where
  "in_period since until e \<longleftrightarrow>
    (case since of None \<Rightarrow> True | Some t \<Rightarrow> iso_key t \<le> iso_key (te_occurred_at e)) \<and>
    (case until of None \<Rightarrow> True | Some t \<Rightarrow> iso_key (te_occurred_at e) \<le> iso_key t)"

definition timeline_list_by_job ::
  "string \<Rightarrow> iso option \<Rightarrow> iso option \<Rightarrow> int \<Rightarrow> timeline_event list \<Rightarrow> timeline_event list" where
  "timeline_list_by_job job_id since until limit rows =
    (if limit \<le> 0 then []
     else order_by_limit timeline_key limit
       (filter (\<lambda>e. te_analysis_job_id e = Some job_id \<and> in_period since until e) rows))"

definition timeline_list_by_trace :: "string \<Rightarrow> int \<Rightarrow> timeline_event list \<Rightarrow> timeline_event list" where
  "timeline_list_by_trace trace_id limit rows =
    (if limit \<le> 0 then [] else order_by_limit timeline_key limit (filter (\<lambda>e. te_trace_id e = trace_id) rows))"

definition timeline_list_all :: "iso option \<Rightarrow> iso option \<Rightarrow> int \<Rightarrow> timeline_event list \<Rightarrow> timeline_event list" where
  "timeline_list_all since until limit rows =
    (if limit \<le> 0 then [] else order_by_limit timeline_key limit (filter (in_period since until) rows))"

section \<open>What redaction leaves\<close>

text \<open>An absolute path with a directory, as the third expression finds it.\<close>

definition has_path :: "string \<Rightarrow> bool" where
  "has_path s \<longleftrightarrow> (\<exists>u r. s = u @ CHR ''/'' # r \<and> path_run (takeWhile path_char r))"

lemma has_path_Nil [simp]: "\<not> has_path []"
  by (simp add: has_path_def)

lemma has_path_Cons:
  "has_path (c # cs) \<longleftrightarrow> c = CHR ''/'' \<and> path_run (takeWhile path_char cs) \<or> has_path cs"
  unfolding has_path_def Cons_eq_append_conv by blast

lemma has_path_append: "CHR ''/'' \<notin> set u \<Longrightarrow> has_path (u @ v) \<longleftrightarrow> has_path v"
  by (induction u) (auto simp: has_path_Cons)

lemma path_run_iff: "path_run r \<longleftrightarrow> (\<exists>i. 1 \<le> i \<and> i + 1 < length r \<and> r ! i = CHR ''/'')"
  unfolding path_run_def list_ex_iff set_upt by (auto simp: less_diff_conv)

lemma path_run_Cons: "path_run r \<Longrightarrow> path_run (c # r)"
  unfolding path_run_iff
proof (elim exE conjE)
  fix i
  assume "1 \<le> i" "i + 1 < length r" "r ! i = CHR ''/''"
  then show "\<exists>i. 1 \<le> i \<and> i + 1 < length (c # r) \<and> (c # r) ! i = CHR ''/''"
    by (intro exI [of _ "Suc i"]) simp
qed

lemma slash_is_path_char [simp]: "path_char (CHR ''/'')"
  by (simp add: path_char_def unquoted_char_def py_isspace_char_def)

lemma sub_unix_path_run:
  "\<not> path_run (takeWhile path_char s) \<Longrightarrow> takeWhile path_char (sub_unix_path s) = takeWhile path_char s"
proof (induction s)
  case Nil
  then show ?case by (simp add: sub_unix_path.simps)
next
  case (Cons c cs)
  show ?case
  proof (cases "path_char c")
    case False
    then have "c \<noteq> CHR ''/''" by auto
    with False show ?thesis by (simp add: sub_unix_path.simps [of "c # cs"])
  next
    case True
    with Cons.prems have "\<not> path_run (takeWhile path_char cs)" by (auto dest: path_run_Cons)
    with Cons.IH True show ?thesis by (simp add: sub_unix_path.simps [of "c # cs"])
  qed
qed

lemma basename_no_slash: "CHR ''/'' \<notin> set (basename p)"
  by (auto simp: basename_def dest: set_takeWhileD)

lemma path_repl_no_slash: "CHR ''/'' \<notin> set (path_repl m)"
  using basename_no_slash by (simp add: path_repl_def Let_def)

lemma sub_unix_path_clean: "\<not> has_path (sub_unix_path s)"
proof (induction s rule: sub_unix_path.induct)
  case (1 s)
  show ?case
  proof (cases s)
    case Nil
    then show ?thesis by (simp add: sub_unix_path.simps)
  next
    case (Cons c cs)
    show ?thesis
    proof (cases "c = CHR ''/'' \<and> path_run (takeWhile path_char cs)")
      case True
      then have "sub_unix_path s = path_repl (c # takeWhile path_char cs) @ sub_unix_path (dropWhile path_char cs)"
        by (simp add: Cons sub_unix_path.simps [of "CHR ''/'' # cs"])
      with 1(1) [OF Cons True] show ?thesis by (simp add: has_path_append path_repl_no_slash)
    next
      case False
      have "sub_unix_path s = c # sub_unix_path cs" using False by (auto simp add: Cons sub_unix_path.simps [of "c # cs"])
      moreover have "\<not> (c = CHR ''/'' \<and> path_run (takeWhile path_char (sub_unix_path cs)))"
        using False sub_unix_path_run [of cs] by auto
      ultimately show ?thesis using 1(2) [OF Cons False] by (simp add: has_path_Cons)
    qed
  qed
qed

text \<open>
  What a stored text must not show, said of the text alone: a data URL with its media, a run of 120
  base64 characters.
\<close>

definition media_start :: "char \<Rightarrow> bool" where
  "media_start c \<longleftrightarrow> base64_char c \<or> c = CHR ''=''"

definition shows_data_url :: "string \<Rightarrow> bool" where
  "shows_data_url t \<longleftrightarrow> (\<exists>m c. sublist (''data:'' @ m @ '';base64,'' @ [c]) t \<and> m \<noteq> [] \<and>
    list_all unquoted_char m \<and> media_start c)"

definition shows_base64 :: "string \<Rightarrow> bool" where
  "shows_base64 t \<longleftrightarrow> (\<exists>m. sublist m t \<and> length m = 120 \<and> list_all base64_char m)"

text \<open>
  The three substitutions have one shape: a text of the run of unquoted characters gives way to a text
  between angle brackets. Whatever such a text adds, it shows neither.
\<close>

definition masks :: "string \<Rightarrow> string \<Rightarrow> bool" where
  "masks m r \<longleftrightarrow> m \<noteq> [] \<and> list_all unquoted_char m \<and> (\<exists>b. r = CHR ''<'' # b @ ''>'') \<and> \<not> sublist ''data:'' r \<and>
    (\<forall>c. media_start c \<longrightarrow> sublist ('';base64,'' @ [c]) r \<longrightarrow> sublist ('';base64,'' @ [c]) (tl m)) \<and>
    (\<forall>x. sublist x r \<longrightarrow> length x = 120 \<longrightarrow> list_all base64_char x \<longrightarrow> sublist x m)"

inductive masked :: "string \<Rightarrow> string \<Rightarrow> bool" where
  masked_Nil: "masked [] []"
| masked_copy: "masked s t \<Longrightarrow> masked (c # s) (c # t)"
| masked_mask: "masks m r \<Longrightarrow> masked s t \<Longrightarrow> masked (m @ s) (r @ t)"

text \<open>A run of unquoted characters, then the marker and its first media character.\<close>

definition url_tail :: "string \<Rightarrow> bool" where
  "url_tail s \<longleftrightarrow> (\<exists>m c w. s = m @ '';base64,'' @ c # w \<and> list_all unquoted_char m \<and> media_start c)"

lemma url_tail_iff: "url_tail s \<longleftrightarrow> (\<exists>c w. s = '';base64,'' @ c # w \<and> media_start c) \<or>
    (\<exists>x s'. s = x # s' \<and> unquoted_char x \<and> url_tail s')"
  (is "_ \<longleftrightarrow> ?now \<or> ?later")
proof
  assume "url_tail s"
  then obtain m c w where m: "s = m @ '';base64,'' @ c # w" "list_all unquoted_char m" "media_start c"
    unfolding url_tail_def by blast
  show "?now \<or> ?later"
  proof (cases m)
    case Nil
    with m show ?thesis by auto
  next
    case (Cons x m')
    with m have "s = x # m' @ '';base64,'' @ c # w" "unquoted_char x" "url_tail (m' @ '';base64,'' @ c # w)"
      unfolding url_tail_def by auto
    then show ?thesis by blast
  qed
next
  assume "?now \<or> ?later"
  then show "url_tail s"
  proof
    assume ?now
    then obtain c w where "s = [] @ '';base64,'' @ c # w" "media_start c" by auto
    then show ?thesis unfolding url_tail_def by (metis list.pred_inject(1))
  next
    assume ?later
    then obtain x m c w where "s = (x # m) @ '';base64,'' @ c # w" "list_all unquoted_char (x # m)" "media_start c"
      unfolding url_tail_def by auto
    then show ?thesis unfolding url_tail_def by blast
  qed
qed

lemma url_tail_append: "list_all unquoted_char m \<Longrightarrow> url_tail s \<Longrightarrow> url_tail (m @ s)"
proof (induction m)
  case (Cons x m)
  then show ?case by (subst url_tail_iff) auto
qed simp

lemma url_tail_within:
  assumes "sublist ('';base64,'' @ [c]) m" and "list_all unquoted_char m" and "media_start c"
  shows "url_tail (m @ s)"
proof -
  from assms(1) obtain u w where "m = u @ '';base64,'' @ c # w" by (auto simp: sublist_def)
  with assms(2,3) show ?thesis unfolding url_tail_def
    by (intro exI [of _ u] exI [of _ c] exI [of _ "w @ s"]) simp
qed

text \<open>A text without an opening bracket that starts the result starts the source.\<close>

lemma masked_prefix:
  "masked s t \<Longrightarrow> t = x @ t' \<Longrightarrow> CHR ''<'' \<notin> set x \<Longrightarrow> \<exists>s'. s = x @ s' \<and> masked s' t'"
proof (induction arbitrary: x rule: masked.induct)
  case masked_Nil
  then show ?case by (auto intro: masked.masked_Nil)
next
  case (masked_copy s t c)
  then show ?case by (cases x) (auto intro: masked.masked_copy)
next
  case (masked_mask m r s t)
  then show ?case
    by (cases x) (auto simp: masks_def intro: masked.masked_mask)
qed

text \<open>A text without the closing bracket lies in the mask or after it.\<close>

lemma sublist_past_mask:
  "sublist p ((b @ ''>'') @ t) \<Longrightarrow> CHR ''>'' \<notin> set p \<Longrightarrow> sublist p (b @ ''>'') \<or> sublist p t"
  unfolding sublist_append [of p "b @ ''>''" t]
proof (elim disjE exE conjE)
  fix xs1 xs2
  assume p: "p = xs1 @ xs2" "suffix xs1 (b @ ''>'')" "prefix xs2 t" "CHR ''>'' \<notin> set p"
  then have "xs1 = []" by (cases xs1 rule: rev_cases) (auto simp: suffix_def)
  with p show ?thesis by auto
qed auto

lemma url_tail_past_mask:
  assumes "url_tail ((b @ ''>'') @ t)"
  shows "(\<exists>c. media_start c \<and> sublist ('';base64,'' @ [c]) (b @ ''>'')) \<or> url_tail t"
proof -
  from assms obtain m c w where m: "(b @ ''>'') @ t = m @ ('';base64,'' @ [c]) @ w" "list_all unquoted_char m" "media_start c"
    unfolding url_tail_def by auto
  have c: "c \<noteq> CHR ''>''" using m(3) by (auto simp: media_start_def base64_char_def lower_alnum_def)
  from m(1) consider (inside) us where "b @ ''>'' = m @ us" "us @ t = ('';base64,'' @ [c]) @ w"
    | (after) us where "m = (b @ ''>'') @ us" "t = us @ '';base64,'' @ c # w"
    unfolding append_eq_append_conv2 [of "b @ ''>''" t m] by auto
  then show ?thesis
  proof cases
    case inside
    from inside(2) consider vs where "us = ('';base64,'' @ [c]) @ vs" | vs where "us @ vs = '';base64,'' @ [c]" "t = vs @ w"
      unfolding append_eq_append_conv2 [of us t] by auto
    then show ?thesis
    proof cases
      case 1
      with inside(1) m(3) show ?thesis by (metis sublist_appendI)
    next
      case 2
      have "CHR ''>'' \<notin> set (us @ vs)" using c by (simp add: 2(1))
      then have "us = []" using inside(1) by (cases us rule: rev_cases) auto
      with 2 m(3) have "t = [] @ '';base64,'' @ c # w" by simp
      with m(3) show ?thesis unfolding url_tail_def by (metis list.pred_inject(1))
    qed
  next
    case after
    with m have "url_tail t" unfolding url_tail_def by auto
    then show ?thesis ..
  qed
qed

lemma masksE:
  assumes "masks m r"
  obtains b x m' where "r = (CHR ''<'' # b) @ ''>''" and "m = x # m'" and "unquoted_char x" and "list_all unquoted_char m'"
    and "\<not> sublist ''data:'' r" and "\<And>c. media_start c \<Longrightarrow> sublist ('';base64,'' @ [c]) r \<Longrightarrow> sublist ('';base64,'' @ [c]) m'"
    and "\<And>y. sublist y r \<Longrightarrow> length y = 120 \<Longrightarrow> list_all base64_char y \<Longrightarrow> sublist y m"
  using assms unfolding masks_def by (cases m) auto

lemma masked_url_tail: "masked s t \<Longrightarrow> url_tail t \<Longrightarrow> url_tail s"
proof (induction rule: masked.induct)
  case (masked_copy s t c)
  from masked_copy.prems consider (now) d w where "c # t = '';base64,'' @ d # w" "media_start d" | (later) "unquoted_char c" "url_tail t"
    by (subst (asm) url_tail_iff) auto
  then show ?case
  proof cases
    case now
    then have "t = ''base64,'' @ [d] @ w" "c = CHR '';''" "CHR ''<'' \<notin> set (''base64,'' @ [d])"
      by (auto simp: media_start_def base64_char_def lower_alnum_def)
    with masked_prefix [OF masked_copy.hyps, of "''base64,'' @ [d]" w] obtain s' where "s = ''base64,'' @ d # s'" by auto
    with now(2) \<open>c = CHR '';''\<close> show ?thesis by (subst url_tail_iff) auto
  next
    case later
    with masked_copy.IH show ?thesis by (subst url_tail_iff) auto
  qed
next
  case (masked_mask m r s t)
  from masked_mask.hyps(1) show ?case
  proof (cases rule: masksE)
    case (1 b x m')
    from url_tail_past_mask [of "CHR ''<'' # b" t] masked_mask.prems 1(1)
    consider c where "media_start c" "sublist ('';base64,'' @ [c]) r" | "url_tail t" by auto
    then have "url_tail (m' @ s)"
    proof cases
      case c: 1
      with 1(6) [OF c] 1(4) show ?thesis by (intro url_tail_within [of c])
    next
      case 2
      with masked_mask.IH 1(4) show ?thesis by (simp add: url_tail_append)
    qed
    with 1(2,3) show ?thesis by (subst url_tail_iff) auto
  qed
qed simp

text \<open>The same with one unquoted character more, as the expression asks after \<^verbatim>\<open>data:\<close>.\<close>

definition url_rest :: "string \<Rightarrow> bool" where
  "url_rest s \<longleftrightarrow> (\<exists>x s'. s = x # s' \<and> unquoted_char x \<and> url_tail s')"

lemma masked_url_rest:
  assumes "masked s t" and rest: "url_rest t"
  shows "url_rest s"
  using assms(1)
proof (cases rule: masked.cases)
  case masked_Nil
  with rest show ?thesis by (simp add: url_rest_def)
next
  case (masked_copy s0 t0 c)
  with rest masked_url_tail show ?thesis unfolding url_rest_def by auto
next
  case (masked_mask m r s0 t0)
  from masked_mask(3) show ?thesis
  proof (cases rule: masksE)
    case (1 b x m')
    from rest masked_mask(2) 1(1) have "url_tail ((CHR ''<'' # b) @ ''>'' @ t0)"
      unfolding url_rest_def by (subst url_tail_iff) auto
    with url_tail_past_mask [of "CHR ''<'' # b" t0] 1(1)
    consider c where "media_start c" "sublist ('';base64,'' @ [c]) r" | "url_tail t0" by auto
    then have "url_tail (m' @ s0)"
    proof cases
      case c: 1
      with 1(6) [OF c] 1(4) show ?thesis by (intro url_tail_within [of c])
    next
      case 2
      with masked_url_tail [OF masked_mask(4)] 1(4) show ?thesis by (simp add: url_tail_append)
    qed
    with 1(2,3) masked_mask(1) show ?thesis by (auto simp: url_rest_def)
  qed
qed

lemma shows_data_url_iff: "shows_data_url t \<longleftrightarrow> (\<exists>u v. t = u @ ''data:'' @ v \<and> url_rest v)"
proof
  assume "shows_data_url t"
  then obtain u x m c w where "t = u @ ''data:'' @ (x # m @ '';base64,'' @ c # w)" "unquoted_char x" "list_all unquoted_char m" "media_start c"
    unfolding shows_data_url_def sublist_def neq_Nil_conv by auto
  then show "\<exists>u v. t = u @ ''data:'' @ v \<and> url_rest v" unfolding url_rest_def url_tail_def by blast
next
  assume "\<exists>u v. t = u @ ''data:'' @ v \<and> url_rest v"
  then obtain u x m c w where "t = u @ (''data:'' @ (x # m) @ '';base64,'' @ [c]) @ w" "list_all unquoted_char (x # m)" "media_start c"
    unfolding url_rest_def url_tail_def by auto
  then show "shows_data_url t" unfolding shows_data_url_def by (metis list.distinct(1) sublist_appendI)
qed

lemma shows_data_url_Cons:
  "shows_data_url (c # s) \<longleftrightarrow> (\<exists>v. c # s = ''data:'' @ v \<and> url_rest v) \<or> shows_data_url s"
  unfolding shows_data_url_iff Cons_eq_append_conv [of c s] by auto

lemma shows_data_url_append: "shows_data_url s \<Longrightarrow> shows_data_url (u @ s)"
  unfolding shows_data_url_def by (metis sublist_append)

lemma masked_data_url: "masked s t \<Longrightarrow> shows_data_url t \<Longrightarrow> shows_data_url s"
proof (induction rule: masked.induct)
  case (masked_copy s t c)
  from masked_copy.prems consider v where "c # t = ''data:'' @ v" "url_rest v" | "shows_data_url t"
    unfolding shows_data_url_Cons by blast
  then show ?case
  proof cases
    case 1
    then have "t = ''ata:'' @ v" "CHR ''<'' \<notin> set ''ata:''" by simp_all
    with masked_prefix [OF masked_copy.hyps] obtain s' where "s = ''ata:'' @ s'" "masked s' v" by blast
    with 1 masked_url_rest show ?thesis unfolding shows_data_url_Cons by auto
  next
    case 2
    with masked_copy.IH show ?thesis by (simp add: shows_data_url_Cons)
  qed
next
  case (masked_mask m r s t)
  from masked_mask.hyps(1) show ?case
  proof (cases rule: masksE)
    case (1 b x m')
    from masked_mask.prems obtain u v where uv: "r @ t = u @ ''data:'' @ v" "url_rest v" unfolding shows_data_url_iff by blast
    note mask = 1(1,5)
    from uv(1) consider us where "r = u @ us" "us @ t = ''data:'' @ v" | us where "t = us @ ''data:'' @ v"
      unfolding append_eq_append_conv2 [of r t u] by auto
    then have "shows_data_url t"
    proof cases
      case a: 1
      from a(2) consider vs where "us = ''data:'' @ vs" | vs where "us @ vs = ''data:''" "t = vs @ v"
        unfolding append_eq_append_conv2 [of us t] by auto
      then show ?thesis
      proof cases
        case 1
        with a(1) mask(2) sublist_appendI [of "''data:''" u vs] show ?thesis by simp
      next
        case b: 2
        have "CHR ''>'' \<notin> set (us @ vs)" by (simp add: b(1))
        with a(1) mask(1) have "us = []" by (cases us rule: rev_cases) auto
        with b uv(2) show ?thesis unfolding shows_data_url_iff by (metis append_Nil)
      qed
    next
      case 2
      with uv(2) show ?thesis unfolding shows_data_url_iff by blast
    qed
    with masked_mask.IH show ?thesis by (simp add: shows_data_url_append)
  qed
qed (simp add: shows_data_url_def)

lemma b64_no_bracket: "list_all base64_char x \<Longrightarrow> CHR ''<'' \<notin> set x \<and> CHR ''>'' \<notin> set x"
  by (auto simp: list_all_iff base64_char_def lower_alnum_def)

lemma masked_base64: "masked s t \<Longrightarrow> shows_base64 t \<Longrightarrow> shows_base64 s"
proof -
  have "masked s t \<Longrightarrow> sublist y t \<Longrightarrow> length y = 120 \<Longrightarrow> list_all base64_char y \<Longrightarrow> sublist y s" for y
  proof (induction rule: masked.induct)
    case (masked_copy s t c)
    from masked_copy.prems(1) consider "prefix y (c # t)" | "sublist y t" by (auto simp: sublist_Cons_right)
    then show ?case
    proof cases
      case 1
      with masked_copy.prems(2) obtain y' t' where y: "y = c # y'" "t = y' @ t'" by (cases y) (auto simp: prefix_def)
      then have "\<exists>s'. s = y' @ s' \<and> masked s' t'"
        using masked_copy.hyps b64_no_bracket [OF masked_copy.prems(3)] by (intro masked_prefix) auto
      with y(1) show ?thesis by (auto simp: sublist_Cons_right)
    next
      case 2
      with masked_copy show ?thesis by (simp add: sublist_Cons_right)
    qed
  next
    case (masked_mask m r s t)
    from masked_mask.hyps(1) show ?case
    proof (cases rule: masksE)
      case (1 b x m')
      from sublist_past_mask [of y "CHR ''<'' # b" t] masked_mask.prems 1(1) b64_no_bracket [of y]
      have "sublist y r \<or> sublist y t" by auto
      with masked_mask 1(7) show ?thesis by (auto simp: sublist_append)
    qed
  qed simp
  then show "masked s t \<Longrightarrow> shows_base64 t \<Longrightarrow> shows_base64 s" unfolding shows_base64_def by blast
qed

text \<open>The first expression: what it finds is what a text shows.\<close>

lemma unquoted_simps [simp]:
  "unquoted_char (CHR ''d'')" "unquoted_char (CHR ''a'')" "unquoted_char (CHR ''t'')" "unquoted_char (CHR '':'')"
  "unquoted_char (CHR '';'')" "unquoted_char (CHR ''b'')" "unquoted_char (CHR ''s'')" "unquoted_char (CHR ''e'')"
  "unquoted_char (CHR ''6'')" "unquoted_char (CHR ''4'')" "unquoted_char (CHR '','')" "unquoted_char (CHR ''='')"
  by (simp_all add: unquoted_char_def py_isspace_char_def)

lemma b64_unquoted: "base64_char c \<Longrightarrow> unquoted_char c"
  by (auto simp: unquoted_char_def py_isspace_char_def base64_char_def lower_alnum_def)

lemma data_url_split_iff:
  "data_url_split t i \<longleftrightarrow> i \<le> length (takeWhile unquoted_char t) \<and>
    (\<exists>c w. drop i t = '';base64,'' @ c # w \<and> media_start c)"
proof -
  have "(take 8 (drop i t) = '';base64,'' \<and> (case drop (i + 8) t of [] \<Rightarrow> False | c # _ \<Rightarrow> base64_char c \<or> c = CHR ''=''))
    \<longleftrightarrow> (\<exists>c w. drop i t = '';base64,'' @ c # w \<and> media_start c)" (is "?l \<longleftrightarrow> ?r")
  proof
    assume l: ?l
    then obtain c w where "drop (i + 8) t = c # w" "media_start c" by (cases "drop (i + 8) t") (auto simp: media_start_def)
    moreover have "drop i t = take 8 (drop i t) @ drop 8 (drop i t)" by (rule append_take_drop_id [symmetric])
    ultimately show ?r using l by (auto simp: add.commute simp del: append_take_drop_id)
  next
    assume ?r
    then obtain c w where cw: "drop i t = '';base64,'' @ c # w" "media_start c" by blast
    then have "drop (i + 8) t = c # w" by (simp flip: drop_drop add: add.commute [of i 8])
    with cw show ?l by (simp add: media_start_def)
  qed
  then show ?thesis by (auto simp: data_url_split_def)
qed

lemma match_data_url_None:
  assumes "match_data_url s = None"
  shows "\<not> (\<exists>v. s = ''data:'' @ v \<and> url_rest v)"
proof
  assume "\<exists>v. s = ''data:'' @ v \<and> url_rest v"
  then obtain x m c w where v: "s = ''data:'' @ x # m @ '';base64,'' @ c # w"
    and m: "unquoted_char x" "list_all unquoted_char m" "media_start c"
    unfolding url_rest_def url_tail_def by blast
  let ?t = "x # m @ '';base64,'' @ c # w"
  have "Suc (length m) \<le> length (takeWhile unquoted_char ?t)" using m by (simp add: takeWhile_append2 list_all_iff)
  with m(3) have "data_url_split ?t (Suc (length m))" unfolding data_url_split_iff by auto
  then have "Suc (length m) \<in> set (filter (data_url_split ?t) [1..<Suc (length ?t)])"
    by (simp only: set_filter mem_Collect_eq set_upt atLeastLessThan_iff) simp
  then have "rev (filter (data_url_split ?t) [1..<Suc (length ?t)]) \<noteq> []" by (metis empty_iff empty_set rev_is_Nil_conv)
  with assms show False by (simp add: v match_data_url_def Let_def del: upt_Suc split: list.splits)
qed

lemma match_data_url_Some:
  assumes "match_data_url s = Some rest"
  shows "\<exists>m. s = (CHR ''d'' # m) @ rest \<and> list_all unquoted_char m"
proof -
  from assms have start: "take 5 s = ''data:''" by (simp add: match_data_url_def split: if_splits)
  let ?t = "drop 5 s" and ?m = "\<lambda>c. base64_char c \<or> c = CHR ''=''"
  let ?js = "rev (filter (data_url_split ?t) [1..<Suc (length ?t)])"
  from assms start obtain i js where js: "?js = i # js" and rest: "rest = dropWhile ?m (drop (i + 8) ?t)"
    by (cases ?js) (auto simp add: match_data_url_def Let_def simp del: upt_Suc)
  have "i \<in> set ?js" unfolding js by simp
  then have "data_url_split ?t i" by (simp del: upt_Suc)
  then obtain c w where i: "i \<le> length (takeWhile unquoted_char ?t)" "drop i ?t = '';base64,'' @ c # w"
    unfolding data_url_split_iff by blast
  then have w: "drop (i + 8) ?t = c # w" by (simp flip: drop_drop add: add.commute [of i 8])
  have "take i ?t = take i (takeWhile unquoted_char ?t)" using i(1) by (metis takeWhile_eq_take take_take min.absorb1)
  then have "list_all unquoted_char (take i ?t)" by (auto simp: list_all_iff dest!: in_set_takeD set_takeWhileD)
  moreover have "list_all unquoted_char (takeWhile ?m (c # w))"
    by (auto simp: list_all_iff b64_unquoted simp del: takeWhile.simps dest!: set_takeWhileD)
  moreover have "s = ''data:'' @ take i ?t @ '';base64,'' @ takeWhile ?m (c # w) @ rest"
    unfolding rest w takeWhile_dropWhile_id i(2) [symmetric] append_take_drop_id start [symmetric] ..
  ultimately show ?thesis
    by (intro exI [of _ "''ata:'' @ take i ?t @ '';base64,'' @ takeWhile ?m (c # w)"]) (simp del: takeWhile.simps)
qed

lemma data_url_masks:
  assumes "list_all unquoted_char m"
  shows "masks (CHR ''d'' # m) ''<redacted-data-url>''"
proof -
  have "\<forall>y. sublist y ''<redacted-data-url>'' \<longrightarrow> length y \<noteq> 120"
    using sublist_length_le [of _ "''<redacted-data-url>''"] by fastforce
  moreover have "\<not> sublist ''data:'' ''<redacted-data-url>''" "\<And>c. \<not> sublist ('';base64,'' @ [c]) ''<redacted-data-url>''"
    by (simp_all add: sublist_Cons_right)
  moreover have "''<redacted-data-url>'' = CHR ''<'' # ''redacted-data-url'' @ ''>''" by simp
  ultimately show ?thesis using assms unfolding masks_def by (metis list.distinct(1) list.pred_inject(2) unquoted_simps(1))
qed

lemma sub_data_url_masked: "masked s (sub_data_url s)"
proof (induction s rule: sub_data_url.induct)
  case (1 s)
  show ?case
  proof (cases s)
    case Nil
    then show ?thesis by (simp add: sub_data_url.simps masked_Nil)
  next
    case (Cons c cs)
    show ?thesis
    proof (cases "match_data_url s")
      case None
      with 1(1) [OF Cons None] None Cons show ?thesis by (simp add: sub_data_url.simps [of "c # cs"] masked_copy)
    next
      case (Some rest)
      from match_data_url_Some [OF Some] obtain m where m: "s = (CHR ''d'' # m) @ rest" "list_all unquoted_char m" by blast
      have "sub_data_url s = ''<redacted-data-url>'' @ sub_data_url rest"
        using Some Cons by (simp add: sub_data_url.simps [of "c # cs"])
      with masked_mask [OF data_url_masks [OF m(2)] 1(2) [OF Cons Some]] m(1) show ?thesis by metis
    qed
  qed
qed

lemma sub_data_url_clean: "\<not> shows_data_url (sub_data_url s)"
proof (induction s rule: sub_data_url.induct)
  case (1 s)
  show ?case
  proof (cases s)
    case Nil
    then show ?thesis by (simp add: sub_data_url.simps shows_data_url_def)
  next
    case (Cons c cs)
    show ?thesis
    proof (cases "match_data_url s")
      case None
      have "\<not> (\<exists>v. c # sub_data_url cs = ''data:'' @ v \<and> url_rest v)"
      proof
        assume "\<exists>v. c # sub_data_url cs = ''data:'' @ v \<and> url_rest v"
        then obtain v where v: "c = CHR ''d''" "sub_data_url cs = ''ata:'' @ v" "url_rest v" by auto
        then obtain s' where "cs = ''ata:'' @ s'" "masked s' v"
          using masked_prefix [OF sub_data_url_masked [of cs], of "''ata:''" v] by auto
        with v masked_url_rest match_data_url_None [OF None] Cons show False by auto
      qed
      with 1(1) [OF Cons None] None Cons show ?thesis by (simp add: sub_data_url.simps [of "c # cs"] shows_data_url_Cons)
    next
      case (Some rest)
      then have "sub_data_url s = ''<redacted-data-url>'' @ sub_data_url rest"
        using Cons by (simp add: sub_data_url.simps [of "c # cs"])
      with 1(2) [OF Cons Some] show ?thesis by (simp add: shows_data_url_Cons)
    qed
  qed
qed

text \<open>The second expression leaves no long run of the class.\<close>

lemma drop_equals_split: "\<exists>e. s = e @ drop_equals s \<and> set e \<subseteq> {CHR ''=''}"
proof (cases "s = drop_equals s")
  case True
  then show ?thesis by (intro exI [of _ "[]"]) simp
next
  case False
  then consider cs where "s = ''=='' @ cs" "drop_equals s = cs" | cs where "s = ''='' @ cs" "drop_equals s = cs"
    by (auto simp: drop_equals_def split: list.splits if_splits)
  then show ?thesis by cases (intro exI [of _ "''==''"], simp, intro exI [of _ "''=''"], simp)
qed

lemma base64_masks:
  assumes "120 \<le> length (takeWhile base64_char s)" and "set e \<subseteq> {CHR ''=''}"
  shows "masks (takeWhile base64_char s @ e) ''<redacted-base64>''"
proof -
  have "\<forall>y. sublist y ''<redacted-base64>'' \<longrightarrow> length y \<noteq> 120"
    using sublist_length_le [of _ "''<redacted-base64>''"] by fastforce
  moreover from assms have "list_all unquoted_char (takeWhile base64_char s @ e)" "takeWhile base64_char s @ e \<noteq> []"
    by (auto simp: list_all_iff b64_unquoted dest!: set_takeWhileD)
  moreover have "\<not> sublist ''data:'' ''<redacted-base64>''" "\<And>c. \<not> sublist ('';base64,'' @ [c]) ''<redacted-base64>''"
    by (simp_all add: sublist_Cons_right)
  moreover have "''<redacted-base64>'' = CHR ''<'' # ''redacted-base64'' @ ''>''" by simp
  ultimately show ?thesis unfolding masks_def by metis
qed

lemma sub_long_base64_hit:
  assumes hit: "\<not> inside \<and> 120 \<le> length (takeWhile base64_char s)"
  shows "sub_long_base64 inside s = ''<redacted-base64>'' @
    sub_long_base64 (drop_equals (dropWhile base64_char s) = dropWhile base64_char s) (drop_equals (dropWhile base64_char s))"
proof (cases s)
  case Nil
  with hit show ?thesis by simp
next
  case (Cons c cs)
  with hit show ?thesis by (subst sub_long_base64.simps) (simp only: list.case simp_thms if_True)
qed

lemma sub_long_base64_miss:
  assumes miss: "\<not> (\<not> inside \<and> 120 \<le> length (takeWhile base64_char (c # cs)))"
  shows "sub_long_base64 inside (c # cs) = c # sub_long_base64 (base64_char c) cs"
  by (subst sub_long_base64.simps) (simp only: list.case miss if_False)

lemma sub_long_base64_masked: "masked s (sub_long_base64 inside s)"
proof (induction inside s rule: sub_long_base64.induct)
  case (1 inside s)
  show ?case
  proof (cases s)
    case Nil
    then show ?thesis by (simp add: sub_long_base64.simps masked_Nil)
  next
    case (Cons c cs)
    show ?thesis
    proof (cases "\<not> inside \<and> 120 \<le> length (takeWhile base64_char s)")
      case True
      obtain e where e: "dropWhile base64_char s = e @ drop_equals (dropWhile base64_char s)" "set e \<subseteq> {CHR ''=''}"
        using drop_equals_split by blast
      let ?rest = "drop_equals (dropWhile base64_char s)"
      have "s = (takeWhile base64_char s @ e) @ ?rest" using e(1) by (metis append.assoc takeWhile_dropWhile_id)
      moreover have "sub_long_base64 inside s = ''<redacted-base64>'' @ sub_long_base64 (?rest = dropWhile base64_char s) ?rest"
        by (rule sub_long_base64_hit [OF True])
      ultimately show ?thesis
        using masked_mask [OF base64_masks [OF conjunct2 [OF True] e(2)] 1(1) [OF Cons True]] by metis
    next
      case False
      from masked_copy [OF 1(2) [OF Cons False]] sub_long_base64_miss [OF False [unfolded Cons]] show ?thesis
        unfolding Cons by simp
    qed
  qed
qed

lemma sub_long_base64_run: "takeWhile base64_char (sub_long_base64 True s) = takeWhile base64_char s"
proof (induction s)
  case Nil
  then show ?case by (simp add: sub_long_base64.simps)
next
  case (Cons c cs)
  then show ?case by (simp add: sub_long_base64_miss)
qed

lemma short_run_base64:
  assumes "length (takeWhile base64_char s) < 120" and "\<not> shows_base64 (dropWhile base64_char s)"
  shows "\<not> shows_base64 s"
proof
  assume "shows_base64 s"
  then obtain m where m: "sublist m (takeWhile base64_char s @ dropWhile base64_char s)" "length m = 120" "list_all base64_char m"
    unfolding shows_base64_def by auto
  then consider "sublist m (takeWhile base64_char s)"
    | xs1 xs2 where "m = xs1 @ xs2" "suffix xs1 (takeWhile base64_char s)" "prefix xs2 (dropWhile base64_char s)"
    using assms(2) unfolding sublist_append shows_base64_def by blast
  then show False
  proof cases
    case 1
    with m(2) assms(1) sublist_length_le [OF 1] show False by simp
  next
    case 2
    have "xs2 = []"
      using 2(1,3) m(3) hd_dropWhile [of base64_char s] by (cases xs2; cases "dropWhile base64_char s") auto
    with 2 m(2) assms(1) suffix_length_le [OF 2(2)] show False by simp
  qed
qed

lemma either_same: "\<not> P (if b then y else x) \<Longrightarrow> (b \<Longrightarrow> y = x) \<Longrightarrow> \<not> P x"
  by (cases b) auto

lemma sub_long_base64_clean_run:
  "\<not> shows_base64 (if inside then dropWhile base64_char (sub_long_base64 inside s) else sub_long_base64 inside s)"
proof (induction inside s rule: sub_long_base64.induct)
  case (1 inside s)
  show ?case
  proof (cases s)
    case Nil
    then show ?thesis by (auto simp: sub_long_base64.simps shows_base64_def)
  next
    case (Cons c cs)
    show ?thesis
    proof (cases "\<not> inside \<and> 120 \<le> length (takeWhile base64_char s)")
      case True
      let ?rest = "drop_equals (dropWhile base64_char s)"
      let ?t = "sub_long_base64 (?rest = dropWhile base64_char s) ?rest"
      have same: "dropWhile base64_char ?t = ?t" if "?rest = dropWhile base64_char s"
      proof -
        have "takeWhile base64_char (dropWhile base64_char s) = []"
          using hd_dropWhile [of base64_char s] by (auto simp: takeWhile_eq_Nil_iff)
        with that sub_long_base64_run [of ?rest] have "takeWhile base64_char ?t = []" by simp
        then show ?thesis by (metis append_Nil takeWhile_dropWhile_id)
      qed
      have clean: "\<not> shows_base64 ?t" by (rule either_same [where P = shows_base64, OF 1(1) [OF Cons True] same])
      have "sub_long_base64 inside s = ''<redacted-base64>'' @ ?t"
        by (rule sub_long_base64_hit [OF True])
      moreover have "\<not> shows_base64 (''<redacted-base64>'' @ ?t)"
      proof
        assume "shows_base64 (''<redacted-base64>'' @ ?t)"
        then obtain m where m: "sublist m (''<redacted-base64>'' @ ?t)" "length m = 120" "list_all base64_char m"
          unfolding shows_base64_def by blast
        from sublist_past_mask [of m "''<redacted-base64''" ?t] m(1) b64_no_bracket [OF m(3)]
        have "sublist m ''<redacted-base64>'' \<or> sublist m ?t" by simp
        with clean m sublist_length_le [of m "''<redacted-base64>''"] show False unfolding shows_base64_def by auto
      qed
      ultimately show ?thesis using True by simp
    next
      case False
      note IH = 1(2) [OF Cons False]
      have s: "sub_long_base64 inside s = c # sub_long_base64 (base64_char c) cs"
        unfolding Cons by (rule sub_long_base64_miss [OF False [unfolded Cons]])
      show ?thesis
      proof (cases "base64_char c")
        case True
        have "length (takeWhile base64_char (c # sub_long_base64 True cs)) < 120" if "\<not> inside"
          using that False Cons True by (simp add: sub_long_base64_run)
        with IH True s short_run_base64 [of "c # sub_long_base64 True cs"] show ?thesis
          by (cases inside) simp_all
      next
        case b: False
        have "\<not> shows_base64 (c # sub_long_base64 False cs)"
          using IH b by (auto simp: shows_base64_def sublist_Cons_right prefix_Cons)
        with b s show ?thesis by (cases inside) simp_all
      qed
    qed
  qed
qed

lemma sub_long_base64_clean: "\<not> shows_base64 (sub_long_base64 False s)"
  using sub_long_base64_clean_run [of False s] by simp

text \<open>The third expression keeps only the last name of a path.\<close>

lemma sublist_past_head:
  assumes "sublist p (u @ v)" and "u \<noteq> []" and "last u \<notin> set p"
  shows "sublist p u \<or> sublist p v"
proof -
  from assms(1) consider "sublist p u" | "sublist p v" | xs1 xs2 where "p = xs1 @ xs2" "suffix xs1 u" "prefix xs2 v"
    unfolding sublist_append by blast
  then show ?thesis
  proof cases
    case 3
    then have "xs1 = []" using assms(2,3) by (cases xs1 rule: rev_cases) (auto simp: suffix_def)
    with 3 show ?thesis by auto
  qed auto
qed

lemma basename_suffix: "\<exists>u. p = u @ basename p"
  unfolding basename_def by (metis rev_append rev_rev_ident takeWhile_dropWhile_id)

lemma path_masks:
  assumes "list_all path_char r"
  shows "masks (CHR ''/'' # r) (path_repl (CHR ''/'' # r))"
proof -
  let ?m = "CHR ''/'' # r"
  define p where "p = rev (dropWhile (\<lambda>c. c \<in> set '').,;]'') (rev ?m))"
  define name where "name = (if basename p = [] then ''redacted'' else basename p)"
  have repl: "path_repl ?m = ''<path:'' @ name @ ''>''"
    by (simp add: path_repl_def name_def p_def Let_def)
  obtain w where "?m = p @ w" unfolding p_def by (metis rev_append rev_rev_ident takeWhile_dropWhile_id)
  with basename_suffix [of p] have within: "sublist (basename p) ?m" by (metis append.assoc sublist_appendI)
  have chars: "list_all path_char ?m" using assms by simp
  have no_marks: "CHR '':'' \<notin> set name \<and> CHR ''/'' \<notin> set name"
    using set_mono_sublist [OF within] chars basename_no_slash [of p]
    by (auto simp: name_def list_all_iff path_char_def)
  have found: "sublist y (basename p)"
    if "sublist y (path_repl ?m)" "8 < length y" "CHR '':'' \<notin> set y" "CHR ''>'' \<notin> set y" for y
  proof -
    from sublist_past_head [of y "''<path:''" "name @ ''>''"] that repl
    have "sublist y ''<path:'' \<or> sublist y (name @ ''>'')" by simp
    with sublist_length_le [of y "''<path:''"] that(2) have "sublist y (name @ ''>'')" by auto
    then have "sublist y name" using sublist_length_le [of y "''>''"] that(2,4)
      unfolding sublist_append by (auto simp: prefix_Cons)
    with sublist_length_le [of y "''redacted''"] that(2) show ?thesis by (auto simp: name_def split: if_splits)
  qed
  have "\<not> sublist ''data:'' (path_repl ?m)"
  proof
    assume "sublist ''data:'' (path_repl ?m)"
    then consider "sublist ''data:'' ''<path:''" | "sublist ''data:'' (name @ ''>'')"
      | xs1 xs2 where "''data:'' = xs1 @ xs2" "suffix xs1 ''<path:''" "prefix xs2 (name @ ''>'')"
      unfolding repl sublist_append [of _ "''<path:''"] by blast
    then show False
    proof cases
      case 1
      then show ?thesis by (simp add: sublist_Cons_right)
    next
      case 2
      with set_mono_sublist [OF 2] no_marks show ?thesis by auto
    next
      case 3
      then have "xs2 = []" using no_marks set_mono_prefix [OF 3(3)] arg_cong [OF 3(1), of last]
        by (cases xs2 rule: rev_cases) auto
      with 3(1,2) show ?thesis by (auto simp: suffix_def Cons_eq_append_conv)
    qed
  qed
  moreover have "sublist ('';base64,'' @ [c]) r" if "media_start c" "sublist ('';base64,'' @ [c]) (path_repl ?m)" for c
  proof -
    have "sublist ('';base64,'' @ [c]) (basename p)"
      using that by (intro found) (auto simp: media_start_def base64_char_def lower_alnum_def)
    then have "sublist ('';base64,'' @ [c]) ?m" using within by (rule sublist_order.order_trans)
    then show ?thesis by (auto simp: sublist_Cons_right)
  qed
  moreover have "sublist y ?m" if "sublist y (path_repl ?m)" "length y = 120" "list_all base64_char y" for y
  proof -
    have "sublist y (basename p)"
      using that by (intro found) (auto simp: list_all_iff base64_char_def lower_alnum_def)
    then show ?thesis using within by (rule sublist_order.order_trans)
  qed
  moreover have "list_all unquoted_char ?m" using chars by (auto simp: list_all_iff path_char_def)
  moreover have "path_repl ?m = CHR ''<'' # (''path:'' @ name) @ ''>''" by (simp add: repl)
  ultimately show ?thesis unfolding masks_def by (metis list.distinct(1) list.sel(3))
qed

lemma sub_unix_path_masked: "masked s (sub_unix_path s)"
proof (induction s rule: sub_unix_path.induct)
  case (1 s)
  show ?case
  proof (cases s)
    case Nil
    then show ?thesis by (simp add: sub_unix_path.simps masked_Nil)
  next
    case (Cons c cs)
    show ?thesis
    proof (cases "c = CHR ''/'' \<and> path_run (takeWhile path_char cs)")
      case True
      have "list_all path_char (takeWhile path_char cs)" by (auto simp: list_all_iff dest: set_takeWhileD)
      from masked_mask [OF path_masks [OF this] 1(1) [OF Cons True]] True show ?thesis
        unfolding Cons by (simp add: sub_unix_path.simps [of "CHR ''/'' # cs"])
    next
      case False
      from masked_copy [OF 1(2) [OF Cons False]] False show ?thesis
        unfolding Cons by (auto simp: sub_unix_path.simps [of "c # cs"])
    qed
  qed
qed

definition clean_text :: "string \<Rightarrow> bool" where
  "clean_text t \<longleftrightarrow> (\<exists>u. \<not> has_path u \<and> \<not> shows_data_url u \<and> \<not> shows_base64 u \<and>
    (t = u \<and> length u \<le> max_string_length \<or> t = take max_string_length u @ ''...<truncated>''))"

lemma sanitize_string_clean: "clean_text (sanitize_string s)"
proof -
  define d where "d = sub_data_url s"
  define b where "b = sub_long_base64 False d"
  define u where "u = sub_unix_path b"
  have "\<not> shows_data_url u" unfolding u_def b_def d_def
    using masked_data_url [OF sub_unix_path_masked] masked_data_url [OF sub_long_base64_masked] sub_data_url_clean by blast
  moreover have "\<not> shows_base64 u" unfolding u_def b_def
    using masked_base64 [OF sub_unix_path_masked] sub_long_base64_clean by blast
  moreover have "\<not> has_path u" by (simp add: u_def sub_unix_path_clean)
  moreover have "sanitize_string s = (if length u > max_string_length then take max_string_length u @ ''...<truncated>'' else u)"
    by (simp add: sanitize_string_def u_def b_def d_def Let_def)
  ultimately show ?thesis unfolding clean_text_def by (intro exI [of _ u]) simp
qed

lemma clean_text_length: "clean_text t \<Longrightarrow> length t \<le> 514"
  by (auto simp: clean_text_def max_string_length_def)

text \<open>A value that shows nothing: no item under a sensitive key, only clean texts, short lists.\<close>

fun redacted :: "json \<Rightarrow> bool" where
  "redacted (JsObj d) \<longleftrightarrow> (\<forall>(k, v) \<in> set d. if sensitive_key k then v = JsStr ''<redacted>'' else redacted v)"
| "redacted (JsArr vs) \<longleftrightarrow> length vs \<le> 100 \<and> (\<forall>v \<in> set vs. redacted v)"
| "redacted (JsStr s) \<longleftrightarrow> clean_text s"
| "redacted _ \<longleftrightarrow> True"

lemma sanitize_value_redacted: "redacted (sanitize_value v)"
proof (induction v)
  case (JsArr vs)
  then show ?case using set_take_subset [of 100 "map sanitize_value vs"] by auto
next
  case (JsObj d)
  then show ?case by fastforce
qed (simp_all add: sanitize_string_clean)

lemma sanitize_dict_redacted: "redacted (JsObj (sanitize_dict d))"
  using sanitize_value_redacted [of "JsObj d"] by (simp add: sanitize_dict_def)

definition event_redacted :: "timeline_event \<Rightarrow> bool" where
  "event_redacted e \<longleftrightarrow> redacted (JsObj (te_correlation e)) \<and> redacted (JsObj (te_metadata e)) \<and>
    (case te_error_message e of None \<Rightarrow> True | Some m \<Rightarrow> (\<exists>t. clean_text t \<and> m = take max_string_length t))"

lemma timeline_event_redacted: "event_redacted (timeline_event_of i now name phase f)"
  unfolding event_redacted_def timeline_event_of_def safe_error_message_def timeline_event.simps
  using sanitize_dict_redacted sanitize_string_clean by (auto split: option.split)

section \<open>Recording does not interfere\<close>

text \<open>\<open>view\<close> is what a program sees of the state; appending to the timeline leaves it alone.\<close>

definition appends_quietly :: "'s timeline_recorder \<Rightarrow> ('s \<Rightarrow> 'v) \<Rightarrow> bool" where
  "appends_quietly tr view \<longleftrightarrow> tr_fail_open tr \<and> (\<forall>e s. view (snd (tr_append tr e s)) = view s)"

lemma record_event_quiet:
  assumes "appends_quietly tr view"
  obtains s' where "record_event tr name phase f s = (Inr (), s')" and "view s' = view s"
proof -
  let ?e = "timeline_event_of (tr_id tr ''tl'' s) (tr_now tr s) name phase f"
  obtain r s1 where app: "tr_append tr ?e s = (r, s1)" by fastforce
  have v: "view s1 = view s" using assms app unfolding appends_quietly_def by (metis snd_conv)
  have "record_event tr name phase f s = (Inr (), if tr_enabled tr \<and> timeline_event_ok ?e then s1 else s)"
    using assms app by (cases r) (simp_all add: record_event_def appends_quietly_def Let_def)
  with v that show thesis by auto
qed

definition reads_only :: "('s \<Rightarrow> 'v) \<Rightarrow> ('s, exn, 'a) se \<Rightarrow> bool" where
  "reads_only view m \<longleftrightarrow> (\<forall>s t. view s = view t \<longrightarrow> fst (m s) = fst (m t) \<and> view (snd (m s)) = view (snd (m t)))"

lemma record_span_quiet:
  assumes quiet: "appends_quietly tr view" and body: "reads_only view body"
  shows "fst (record_span tr d name f body s) = fst (body s) \<and> view (snd (record_span tr d name f body s)) = view (snd (body s))"
proof -
  let ?f = "f\<lparr>em_span_id := Some (if truthy (em_span_id f) then the (em_span_id f) else tr_id tr ''span'' s)\<rparr>"
  obtain s1 where s1: "record_event tr name PHASE_START ?f s = (Inr (), s1)" and v1: "view s1 = view s"
    using record_event_quiet [OF quiet] .
  obtain r s2 where b: "body s1 = (r, s2)" by fastforce
  have same: "r = fst (body s)" "view s2 = view (snd (body s))"
    using body b v1 unfolding reads_only_def by (metis fst_conv, metis snd_conv)
  show ?thesis
  proof (cases r)
    case (Inl x)
    obtain s3 where "record_event tr name PHASE_FAIL (?f\<lparr>em_duration_ms := Some d,
        em_error_code := Some (exn_type_name x), em_error := Some (exn_message x)\<rparr>) s2 = (Inr (), s3)" "view s3 = view s2"
      using record_event_quiet [OF quiet] .
    with Inl b s1 same show ?thesis by (simp add: record_span_def se_simps)
  next
    case (Inr a)
    obtain s3 where "record_event tr name PHASE_FINISH (?f\<lparr>em_duration_ms := Some d\<rparr>) s2 = (Inr (), s3)" "view s3 = view s2"
      using record_event_quiet [OF quiet] .
    with Inr b s1 same show ?thesis by (simp add: record_span_def se_simps)
  qed
qed


definition ex_recorder :: "(int \<times> timeline_event list) timeline_recorder" where
  "ex_recorder = \<lparr>tr_append = (\<lambda>e (n, rows). case timeline_append e rows of
       Inl x \<Rightarrow> (Inl x, (n, rows)) | Inr rows' \<Rightarrow> (Inr (), (n, rows'))),
     tr_enabled = True, tr_fail_open = True, tr_now = (\<lambda>_. (0, 0)), tr_id = (\<lambda>p _. p)\<rparr>"


end
