(* ===== verification/Cctv_Unit.thy ===== *)
theory Cctv_Unit
  imports Cctv_Catalog Cctv_Timeline Cctv_Media Cctv_Scheduler
begin

text \<open>
  The running of one analysis unit, as both scale processors do it (\<^verbatim>\<open>workers/default_segment.py\<close>,
  \<^verbatim>\<open>workers/high_freq_event.py\<close>): claim the unit in a transaction, select frames, ask the gate, call
  the model with retries, publish and mark in one transaction, and force a terminal state when
  anything escapes. The state is the catalog with the timeline and the working files. What the video
  processor, the detectors, the model and the database do at each attempt is in the environment:
  \<open>un_fault tag n\<close> is the exception of the transaction \<open>tag\<close> at its \<open>n\<close>th attempt, if it has one.
\<close>

section \<open>State and environment\<close>

record site = catalog +
  st_timeline :: "timeline_event list"
  st_files :: "string list"

type_synonym 'a site_m = "(site, exn, 'a) se"

text \<open>What both processors are constructed with.\<close>

record processor =
  pc_scale_task_id :: string
  pc_provider :: string
  pc_model_id :: string
  pc_pipeline_version :: string
  pc_window_seconds :: int
  pc_overlap_seconds :: int
  pc_overlap_ratio :: real
  pc_frames_per_segment :: int
  pc_debug_media :: bool
  pc_artifact_root :: string
  pc_cleanup_selected_on_success :: bool
  pc_default_policy_id :: string
  pc_retry_policy :: retry_policy
  pc_terminal_write_max_attempts :: int
  pc_provider_options :: jdict
  pc_detector_gate_enabled :: bool
  pc_detector_gate_provider :: string
  pc_detector_gate_model_id :: string
  pc_detector_gate_rules :: "detector_rule list"
  pc_pre_vlm_gate_profile :: "gate_profile option"

text \<open>The payload of an exception of the model adapter: raw text, parsed output, failing stage.\<close>

record attempt_payload =
  pay_raw :: "string option"
  pay_parsed :: "jdict option"
  pay_stage :: "string option"
  pay_details :: "jdict option"

record unit_env =
  un_py :: py_env
  un_fs :: file_system
  un_prompt :: "analysis_scale \<Rightarrow> string"
  un_strict_instruction :: string
  un_video :: video_processor
  un_analyze :: "vlm_request \<Rightarrow> nat \<Rightarrow> bool \<Rightarrow> exn + vlm_output"
  un_payload :: "nat \<Rightarrow> attempt_payload"
  un_jitter :: "nat \<Rightarrow> real"
  un_file_sha256 :: "string \<Rightarrow> string option"
  un_gate :: "runner_env option"
  un_detect_frames :: "(frame_input list \<Rightarrow> exn + frame_result list) option"
  un_fault :: "string \<Rightarrow> nat \<Rightarrow> exn option"
  un_timeline_fault :: "nat \<Rightarrow> exn option"
  un_timeline_enabled :: bool
  un_rate_limited :: "nat \<Rightarrow> bool"
  un_max_concurrent :: int
  un_id :: "string \<Rightarrow> nat \<Rightarrow> string"
  un_now :: "string \<Rightarrow> iso"
  un_elapsed :: "string \<Rightarrow> int"

text \<open>The unit being run: the arguments that the code passes from step to step.\<close>

record running_unit =
  ru_unit_id :: string
  ru_mcall_id :: string
  ru_start_ms :: int
  ru_end_ms :: int
  ru_analysis_job_id :: string
  ru_video_id :: string
  ru_ctx :: video_context
  ru_prompt_version :: "string option"
  ru_model_version :: "string option"
  ru_trigger_context :: "jdict option"

text \<open>What differs between the two processors in the steps that they share.\<close>

record unit_style =
  us_scale :: analysis_scale
  us_kind :: string
  us_logs_prompt_version :: bool

section \<open>Transactions\<close>

text \<open>\<^verbatim>\<open>with self._write.write(), self._runtime.session() as session\<close>, with a fault of the database.\<close>

definition unit_session :: "unit_env \<Rightarrow> string \<Rightarrow> nat \<Rightarrow> 'a site_m \<Rightarrow> 'a site_m" where
  "unit_session env tag n work s =
    (case un_fault env tag n of Some e \<Rightarrow> (Inl e, s) | None \<Rightarrow> session_scope work s)"

text \<open>\<^verbatim>\<open>_db_write\<close>: \<open>work n\<close> is the transaction of attempt \<open>n\<close>, which draws its ids anew.\<close>

definition terminal_write :: "processor \<Rightarrow> unit_env \<Rightarrow> string \<Rightarrow> (nat \<Rightarrow> 'a site_m) \<Rightarrow> 'a site_m" where
  "terminal_write p env tag work =
    run_db_write_with_retry (max 1 (pc_terminal_write_max_attempts p)) (\<lambda>n. unit_session env tag n (work n))"

section \<open>Timeline\<close>

text \<open>
  The recorder is the fail-open one, which is the default; \<open>un_timeline_fault n\<close> is the fault of the append
  that would be the \<open>n\<close>th of the table.
\<close>

definition site_recorder :: "unit_env \<Rightarrow> site timeline_recorder" where
  "site_recorder env =
    \<lparr>tr_append = (\<lambda>e s. case un_timeline_fault env (length (st_timeline s)) of
         Some x \<Rightarrow> (Inl x, s)
       | None \<Rightarrow> (case timeline_append e (st_timeline s) of
           Inl x \<Rightarrow> (Inl x, s) | Inr rows \<Rightarrow> (Inr (), s\<lparr>st_timeline := rows\<rparr>))),
     tr_enabled = un_timeline_enabled env, tr_fail_open = True,
     tr_now = (\<lambda>_. un_now env ''timeline''), tr_id = (\<lambda>prefix s. un_id env prefix (length (st_timeline s)))\<rparr>"

definition unit_fields :: "processor \<Rightarrow> unit_style \<Rightarrow> running_unit \<Rightarrow> event_fields" where
  "unit_fields p us u = no_fields\<lparr>em_analysis_job_id := Some (ru_analysis_job_id u),
     em_scale_task_id := Some (pc_scale_task_id p), em_unit_id := Some (ru_unit_id u),
     em_model_call_id := Some (ru_mcall_id u), em_video_id := Some (ru_video_id u),
     em_analysis_scale := Some (us_scale us), em_unit_kind := Some (us_kind us),
     em_segment_start_ms := Some (ru_start_ms u), em_segment_end_ms := Some (ru_end_ms u)\<rparr>"

definition unit_event ::
  "processor \<Rightarrow> unit_env \<Rightarrow> unit_style \<Rightarrow> running_unit \<Rightarrow> string \<Rightarrow> event_phase \<Rightarrow>
   (event_fields \<Rightarrow> event_fields) \<Rightarrow> unit site_m" where
  "unit_event p env us u name phase f = record_event (site_recorder env) name phase (f (unit_fields p us u))"

definition unit_span ::
  "processor \<Rightarrow> unit_env \<Rightarrow> unit_style \<Rightarrow> running_unit \<Rightarrow> string \<Rightarrow> jdict \<Rightarrow> 'a site_m \<Rightarrow> 'a site_m" where
  "unit_span p env us u name metadata body =
    record_span (site_recorder env) (un_elapsed env name) name ((unit_fields p us u)\<lparr>em_metadata := metadata\<rparr>) body"

definition task_status_text :: "task_status \<Rightarrow> string option" where
  "task_status_text st = Some (task_status_value st)"

text \<open>The events of \<^verbatim>\<open>unit_finished\<close>.\<close>

definition finished_event ::
  "processor \<Rightarrow> unit_env \<Rightarrow> unit_style \<Rightarrow> running_unit \<Rightarrow> task_status \<Rightarrow> int option \<Rightarrow> string option \<Rightarrow> string option \<Rightarrow>
   unit site_m" where
  "finished_event p env us u st attempts error_code error =
    unit_event p env us u ''unit_finished'' PHASE_INSTANT (\<lambda>f. f\<lparr>em_status := task_status_text st,
      em_attempt_count := attempts, em_error_code := error_code, em_error := error\<rparr>)"

section \<open>Terminal states\<close>

text \<open>The fields that every call log of a unit has.\<close>

definition call_log :: "processor \<Rightarrow> unit_style \<Rightarrow> running_unit \<Rightarrow> string \<Rightarrow> string \<Rightarrow> int \<Rightarrow> iso \<Rightarrow> iso \<Rightarrow> model_call_log" where
  "call_log p us u mcall_id status attempts started_at finished_at =
    \<lparr>mc_model_call_id = mcall_id, mc_analysis_job_id = ru_analysis_job_id u, mc_scale_task_id = pc_scale_task_id p,
     mc_unit_id = ru_unit_id u, mc_analysis_scale = us_scale us, mc_segment_start_ms = ru_start_ms u,
     mc_segment_end_ms = ru_end_ms u, mc_provider = pc_provider p, mc_model_id = Some (pc_model_id p),
     mc_prompt_version = (if us_logs_prompt_version us then ru_prompt_version u else None),
     mc_pipeline_version = Some (pc_pipeline_version p), mc_status = status, mc_attempt_count = attempts,
     mc_error_type = None, mc_error_message = None, mc_raw_text_output = None, mc_parsed_output = None,
     mc_validation_status = None, mc_payload_hash = None, mc_response_hash = None, mc_media_refs = [],
     mc_attempt_details = [], mc_started_at = Some started_at, mc_finished_at = Some finished_at\<rparr>"

definition write_unit_failed ::
  "unit_env \<Rightarrow> running_unit \<Rightarrow> string \<Rightarrow> string \<Rightarrow> int option \<Rightarrow> unit site_m" where
  "write_unit_failed env u error_code message attempts =
    db_write (unit_mark_failed (un_now env ''mark_failed'') (ru_unit_id u) error_code (Some message)
      (Some (ru_mcall_id u)) attempts)"

definition mark_unit_failed ::
  "processor \<Rightarrow> unit_env \<Rightarrow> running_unit \<Rightarrow> string \<Rightarrow> exn \<Rightarrow> nat \<Rightarrow> unit site_m" where
  "mark_unit_failed p env u error_code e attempts =
    terminal_write p env ''mark_unit_failed'' (\<lambda>_. write_unit_failed env u error_code (take 500 (exn_message e)) (Some (int attempts)))"

definition terminalize_unit_failed ::
  "processor \<Rightarrow> unit_env \<Rightarrow> unit_style \<Rightarrow> running_unit \<Rightarrow> string \<Rightarrow> exn \<Rightarrow> unit site_m" where
  "terminalize_unit_failed p env us u error_code e =
    terminal_write p env ''terminalize_unit_failed'' (\<lambda>_.
      se_then (create_model_call_log
        ((call_log p us u (ru_mcall_id u) ''failed'' 1 (un_now env ''failed'') (un_now env ''failed''))
          \<lparr>mc_error_type := Some (exn_type_name e), mc_error_message := Some (take 500 (exn_message e))\<rparr>))
      (write_unit_failed env u error_code (take 500 (exn_message e)) None))"

definition terminalize_unit_skipped ::
  "processor \<Rightarrow> unit_env \<Rightarrow> running_unit \<Rightarrow> string \<Rightarrow> unit site_m" where
  "terminalize_unit_skipped p env u reason =
    terminal_write p env ''terminalize_unit_skipped'' (\<lambda>_.
      db_write (unit_mark_skipped (un_now env ''mark_skipped'') (ru_unit_id u) reason (Some (ru_mcall_id u))))"

text \<open>The last resort; \<open>phase\<close> is where the exception escaped. A failing write is logged and swallowed.\<close>

definition force_work ::
  "processor \<Rightarrow> unit_env \<Rightarrow> unit_style \<Rightarrow> running_unit \<Rightarrow> string \<Rightarrow> exn \<Rightarrow> nat \<Rightarrow> unit site_m" where
  "force_work p env us u phase e n =
    se_then (create_model_call_log
      ((call_log p us u (un_id env ''mcall.guard'' n) ''failed'' 1 (un_now env ''guard'') (un_now env ''guard''))
        \<lparr>mc_error_type := Some (''lifecycle_guard:'' @ phase),
         mc_error_message := Some (exn_type_name e @ '': '' @ take 400 (exn_message e))\<rparr>))
    (write_unit_failed env u ''analysis_unit_failed'' (''lifecycle_guard:'' @ phase @ '': '' @ take 400 (exn_message e)) None)"

definition force_terminalize_running ::
  "processor \<Rightarrow> unit_env \<Rightarrow> unit_style \<Rightarrow> running_unit \<Rightarrow> string \<Rightarrow> exn \<Rightarrow> unit site_m" where
  "force_terminalize_running p env us u phase e =
    se_try (terminal_write p env ''force_terminalize'' (force_work p env us u phase e)) (\<lambda>_. se_ret ())"

section \<open>Frames\<close>

datatype frames_result = FramesDone unit_outcome | FramesReady "media_input list" "jdict list"

definition select_body :: "processor \<Rightarrow> unit_env \<Rightarrow> running_unit \<Rightarrow> media_input list site_m" where
  "select_body p env u =
    se_bind (se_lift (\<lambda>_. select_frames_for_unit (un_video env) (vs_source_uri (vc_source (ru_ctx u)))
        (ru_start_ms u) (ru_end_ms u) (pc_frames_per_segment p) (ru_mcall_id u))) (\<lambda>items.
      se_then (se_write (\<lambda>s. s\<lparr>st_files := st_files s @ frame_uris items\<rparr>)) (se_ret items))"

text \<open>A unit without frames is skipped.\<close>

definition skip_without_frames :: "processor \<Rightarrow> unit_env \<Rightarrow> unit_style \<Rightarrow> running_unit \<Rightarrow> frames_result site_m" where
  "skip_without_frames p env us u =
    se_then (terminalize_unit_skipped p env u ''insufficient_frames'')
      (se_then (finished_event p env us u TASK_SKIPPED None (Some ''insufficient_frames'') None)
        (se_ret (FramesDone OUTCOME_SKIPPED)))"

text \<open>The \<^verbatim>\<open>try\<close> block around frame selection and media references, with its two handlers.\<close>

definition frames_phase :: "processor \<Rightarrow> unit_env \<Rightarrow> unit_style \<Rightarrow> running_unit \<Rightarrow> frames_result site_m" where
  "frames_phase p env us u =
    se_try
      (se_bind (unit_span p env us u ''frame_select'' [(''frames_requested'', JsInt (pc_frames_per_segment p))]
          (select_body p env u)) (\<lambda>items.
        if frame_uris items = [] then skip_without_frames p env us u
        else se_bind (unit_span p env us u ''media_refs_built'' [(''frame_count'', JsInt (int (length items)))]
            (se_lift (\<lambda>_. build_media_refs (un_fs env) items (ru_mcall_id u) (pc_debug_media p) (pc_artifact_root p))))
          (\<lambda>refs. se_ret (FramesReady items refs))))
      (\<lambda>e. if is_instance e ''InsufficientFramesError'' then skip_without_frames p env us u
        else se_then (terminalize_unit_failed p env us u ''frame_extraction_failed'' e)
          (se_then (finished_event p env us u TASK_FAILED None (Some ''frame_extraction_failed'') (Some (exn_message e)))
            (se_ret (FramesDone OUTCOME_FAILED))))"

section \<open>The pre-VLM gate\<close>

definition gate_request ::
  "processor \<Rightarrow> unit_env \<Rightarrow> unit_style \<Rightarrow> running_unit \<Rightarrow> gate_profile \<Rightarrow> frame_input list \<Rightarrow> pre_vlm_gate_request" where
  "gate_request p env us u profile frames =
    \<lparr>pq_request_id = un_id env ''pgate_req'' 0, pq_gate_log_id = un_id env ''pgate'' 0,
     pq_analysis_job_id = ru_analysis_job_id u, pq_scale_task_id = pc_scale_task_id p, pq_unit_id = ru_unit_id u,
     pq_video_id = ru_video_id u, pq_analysis_scale = us_scale us, pq_unit_kind = us_kind us,
     pq_segment_start_ms = ru_start_ms u, pq_segment_end_ms = ru_end_ms u, pq_provider = gp_provider profile,
     pq_model_id = gp_model_id profile, pq_profile = profile, pq_frames = frames,
     pq_trigger_context = (case ru_trigger_context u of None \<Rightarrow> [] | Some d \<Rightarrow> d)\<rparr>"

definition gate_log_writer :: "unit_env \<Rightarrow> pre_vlm_gate_log \<Rightarrow> unit site_m" where
  "gate_log_writer env entry = unit_session env ''pre_vlm_gate_log'' 1 (create_pre_vlm_gate_log entry)"

definition unit_gate ::
  "processor \<Rightarrow> unit_env \<Rightarrow> unit_style \<Rightarrow> running_unit \<Rightarrow> media_input list \<Rightarrow> gate_bundle option site_m" where
  "unit_gate p env us u items =
    run_pre_vlm_gate (un_file_sha256 env)
      (map_option (\<lambda>r. evaluate_gate r (Some (gate_log_writer env))) (un_gate env))
      (pc_pre_vlm_gate_profile p) items (gate_request p env us u)"

section \<open>The model call\<close>

definition vlm_attempt_dict :: "py_env \<Rightarrow> vlm_attempt \<Rightarrow> attempt_payload \<Rightarrow> jdict" where
  "vlm_attempt_dict pe r pay =
    [(''attempt'', JsInt (int (va_attempt r))), (''status'', JsStr (va_status r))] @
    (case va_error_type r of None \<Rightarrow> [] | Some t \<Rightarrow> [(''error_type'', JsStr t)]) @
    (case va_error_message r of None \<Rightarrow> [] | Some t \<Rightarrow> [(''error_message'', JsStr t)]) @
    (case va_transient r of None \<Rightarrow> [] | Some b \<Rightarrow> [(''transient'', JsBool b)]) @
    (case va_backoff_ms r of None \<Rightarrow> [] | Some b \<Rightarrow> [(''backoff_ms'', JsReal (py_round (py_fl pe) 1 b))]) @
    (case pay_stage pay of None \<Rightarrow> [] | Some t \<Rightarrow> [(''validation_status'', JsStr t)]) @
    (case pay_details pay of None \<Rightarrow> [] | Some d \<Rightarrow> [(''schema_details'', JsObj d)])"

text \<open>The dicts of all attempts of a result; only failed attempts have a payload.\<close>

definition attempt_dicts :: "unit_env \<Rightarrow> vlm_output vlm_retry_result \<Rightarrow> jdict list" where
  "attempt_dicts env result =
    map (\<lambda>r. vlm_attempt_dict (un_py env) r
      (if va_status r = ''failed'' then un_payload env (va_attempt r)
       else \<lparr>pay_raw = None, pay_parsed = None, pay_stage = None, pay_details = None\<rparr>)) (vr_attempt_details result)"

definition unit_request :: "processor \<Rightarrow> unit_env \<Rightarrow> unit_style \<Rightarrow> running_unit \<Rightarrow> media_input list \<Rightarrow> vlm_request" where
  "unit_request p env us u items =
    \<lparr>vq_request_id = un_id env ''vlm_req'' 0, vq_analysis_job_id = ru_analysis_job_id u, vq_video_id = ru_video_id u,
     vq_camera_id = vs_camera_id (vc_source (ru_ctx u)), vq_analysis_scale = us_scale us,
     vq_segment_start_ms = ru_start_ms u, vq_segment_end_ms = ru_end_ms u, vq_frame_uris = frame_uris items,
     vq_prompt_version = ru_prompt_version u, vq_model_version = ru_model_version u\<rparr>"

definition unit_manifest ::
  "processor \<Rightarrow> unit_env \<Rightarrow> unit_style \<Rightarrow> running_unit \<Rightarrow> media_input list \<Rightarrow> jdict list \<Rightarrow> string \<times> jdict" where
  "unit_manifest p env us u items refs =
    build_vlm_input_manifest (un_py env) (un_fs env) (un_prompt env) (un_strict_instruction env)
      (unit_request p env us u items) refs (pc_provider_options p) (Some (pc_pipeline_version p))"

definition request_correlation :: "unit_env \<Rightarrow> jdict" where
  "request_correlation env = [(''vlm_request_id'', JsStr (un_id env ''vlm_req'' 0))]"

text \<open>\<^verbatim>\<open>_scheduler_run_with_timeline\<close>: the events of one scheduled call, \<open>ok\<close> when it returned.\<close>

definition scheduler_event ::
  "processor \<Rightarrow> unit_env \<Rightarrow> unit_style \<Rightarrow> running_unit \<Rightarrow> string \<Rightarrow> event_phase \<Rightarrow> nat \<Rightarrow> jdict \<Rightarrow> unit site_m" where
  "scheduler_event p env us u name phase n metadata =
    unit_event p env us u name phase (\<lambda>f. f\<lparr>em_span_id := Some (un_id env (''span.'' @ name) n),
      em_duration_ms := (if phase = PHASE_START then None else Some (un_elapsed env name)),
      em_correlation := request_correlation env, em_metadata := metadata\<rparr>)"

definition scheduler_run_events ::
  "processor \<Rightarrow> unit_env \<Rightarrow> unit_style \<Rightarrow> running_unit \<Rightarrow> nat \<Rightarrow> bool \<Rightarrow> unit site_m" where
  "scheduler_run_events p env us u n ok =
    (let slots = [(''max_concurrent'', JsInt (un_max_concurrent env))];
         who = [(''provider'', JsStr (pc_provider p)), (''model_id'', JsStr (pc_model_id p))]
     in se_iter (\<lambda>(name, phase, metadata). scheduler_event p env us u name phase n metadata)
       ([(''vlm_scheduler_wait'', PHASE_START, slots), (''vlm_scheduler_wait'', PHASE_FINISH, slots)] @
        (if un_rate_limited env n
         then [(''vlm_scheduler_interval'', PHASE_START, []), (''vlm_scheduler_interval'', PHASE_FINISH, [])] else []) @
        [(''vlm_provider_call'', PHASE_START, who),
         (''vlm_provider_call'', if ok then PHASE_FINISH else PHASE_FAIL, who)]))"

definition short_hash :: "py_env \<Rightarrow> string \<Rightarrow> string" where
  "short_hash pe t = take 16 (py_hexdigest pe t)"

definition log_failed_attempt ::
  "processor \<Rightarrow> unit_env \<Rightarrow> unit_style \<Rightarrow> running_unit \<Rightarrow> jdict list \<Rightarrow> string \<times> jdict \<Rightarrow> vlm_attempt \<Rightarrow> unit site_m" where
  "log_failed_attempt p env us u refs manifest r =
    (let n = va_attempt r; pay = un_payload env n;
         mcall_id = (if n = 1 then ru_mcall_id u else un_id env ''mcall.attempt'' n)
     in se_then
       (terminal_write p env (''attempt_log.'' @ show_nat n) (\<lambda>_. create_model_call_log
         ((call_log p us u mcall_id ''failed'' (int n) (un_now env ''vlm_started'') (un_now env ''attempt_failed''))
           \<lparr>mc_error_type := va_error_type r, mc_error_message := va_error_message r,
            mc_raw_text_output := pay_raw pay, mc_parsed_output := pay_parsed pay, mc_validation_status := pay_stage pay,
            mc_response_hash := map_option (short_hash (un_py env)) (pay_raw pay), mc_media_refs := refs,
            mc_payload_hash := Some (fst manifest),
            mc_attempt_details := attach_manifest_to_attempts [vlm_attempt_dict (un_py env) r pay] (fst manifest) (snd manifest)\<rparr>)))
       (unit_event p env us u ''vlm_attempt'' PHASE_FAIL (\<lambda>f. f\<lparr>em_model_call_id := Some mcall_id,
         em_status := Some ''failed'', em_attempt_count := Some (int n), em_error_code := va_error_type r,
         em_error := va_error_message r, em_correlation := request_correlation env,
         em_metadata := [(''transient'', JsBool (va_transient r = Some True)), (''backoff_ms'', js_opt JsReal (va_backoff_ms r)),
           (''will_retry'', JsBool (va_backoff_ms r \<noteq> None))]\<rparr>)))"

definition attempt_event ::
  "processor \<Rightarrow> unit_env \<Rightarrow> unit_style \<Rightarrow> running_unit \<Rightarrow> event_phase \<Rightarrow> string \<Rightarrow> nat \<Rightarrow> unit site_m" where
  "attempt_event p env us u phase status n =
    unit_event p env us u ''vlm_attempt'' phase (\<lambda>f. f\<lparr>em_status := Some status, em_attempt_count := Some (int n),
      em_correlation := request_correlation env\<rparr>)"

text \<open>The callbacks of the retry loop, in the order in which the loop calls them.\<close>

definition handle_retry_event ::
  "processor \<Rightarrow> unit_env \<Rightarrow> unit_style \<Rightarrow> running_unit \<Rightarrow> jdict list \<Rightarrow> string \<times> jdict \<Rightarrow> retry_event \<Rightarrow> unit site_m" where
  "handle_retry_event p env us u refs manifest ev =
    (case ev of
       AttemptStarted n \<Rightarrow> attempt_event p env us u PHASE_START ''running'' n
     | AttemptSucceeded r \<Rightarrow> se_then (scheduler_run_events p env us u (va_attempt r) True)
         (attempt_event p env us u PHASE_FINISH ''succeeded'' (va_attempt r))
     | AttemptFailed r \<Rightarrow> se_then (scheduler_run_events p env us u (va_attempt r) False)
         (log_failed_attempt p env us u refs manifest r)
     | Slept _ \<Rightarrow> se_ret ())"

definition unit_retry ::
  "processor \<Rightarrow> unit_env \<Rightarrow> unit_style \<Rightarrow> running_unit \<Rightarrow> media_input list \<Rightarrow> vlm_output vlm_retry_result \<times> retry_event list" where
  "unit_retry p env us u items =
    execute_vlm_with_retry (py_fl (un_py env)) (un_jitter env) (un_analyze env (unit_request p env us u items))
      (pc_retry_policy p)"

definition call_vlm ::
  "processor \<Rightarrow> unit_env \<Rightarrow> unit_style \<Rightarrow> running_unit \<Rightarrow> media_input list \<Rightarrow> jdict list \<Rightarrow> vlm_output vlm_retry_result site_m" where
  "call_vlm p env us u items refs =
    (case unit_retry p env us u items of
       (result, events) \<Rightarrow>
         se_then (se_iter (handle_retry_event p env us u refs (unit_manifest p env us u items refs)) events)
           (se_ret result))"

section \<open>Publication\<close>

definition output_dump :: "vlm_output \<Rightarrow> jdict" where
  "output_dump out =
    [(''static'', JsStr (vo_static out)), (''dynamic'', JsStr (vo_dynamic out)),
     (''tags'', JsArr (map JsStr (vo_tags out))),
     (''quality'', JsObj [(''reason'', JsStr (vo_quality_reason out)), (''score'', JsReal (vo_quality_score out))]),
     (''attr'', JsObj [(''alert'', JsBool (vo_alert out))])]"

definition success_mcall_id :: "unit_env \<Rightarrow> running_unit \<Rightarrow> nat \<Rightarrow> string" where
  "success_mcall_id env u attempts = (if attempts = 1 then ru_mcall_id u else un_id env ''mcall.success'' 0)"

text \<open>\<open>n\<close> is the attempt of the enclosing write: every attempt draws new ids.\<close>

definition publish_record :: "unit_env \<Rightarrow> running_unit \<Rightarrow> nat \<Rightarrow> observation_record \<Rightarrow> string list site_m" where
  "publish_record env u n record =
    se_bind (publish_records_atomically (un_now env ''publish'') (\<lambda>i. un_id env (''hist.'' @ show_nat i) n)
        (un_id env ''audit'' n)
        \<lparr>pc_schema_version = ''v1'', pc_command_id = un_id env ''pub'' n, pc_analysis_job_id = ru_analysis_job_id u,
         pc_records = [record], pc_archive_reason = ''rerun''\<rparr>) (\<lambda>result.
      se_ret (pub_created_record_ids result @ pub_updated_record_ids result))"

definition succeeded_log ::
  "processor \<Rightarrow> unit_env \<Rightarrow> unit_style \<Rightarrow> running_unit \<Rightarrow> jdict list \<Rightarrow> string \<times> jdict \<Rightarrow> vlm_output vlm_retry_result \<Rightarrow>
   vlm_output \<Rightarrow> string option \<Rightarrow> model_call_log" where
  "succeeded_log p env us u refs manifest result out prompt_version =
    (let raw = js_text (un_py env) (JsObj (output_dump out)) in
     (call_log p us u (success_mcall_id env u (vr_attempts result)) ''succeeded'' (int (vr_attempts result))
        (un_now env ''vlm_started'') (un_now env ''vlm_finished''))
       \<lparr>mc_prompt_version := prompt_version, mc_raw_text_output := Some raw,
        mc_response_hash := Some (short_hash (un_py env) raw), mc_payload_hash := Some (fst manifest),
        mc_parsed_output := Some (output_dump out), mc_validation_status := Some ''passed'', mc_media_refs := refs,
        mc_attempt_details := attach_manifest_to_attempts (attempt_dicts env result) (fst manifest) (snd manifest)\<rparr>)"

text \<open>
  \<^verbatim>\<open>_publish_and_mark\<close>: the result is the outcome and the produced ids. The default processor takes the
  prompt version from the job, the event processor from the scale.
\<close>

definition publish_and_mark ::
  "processor \<Rightarrow> unit_env \<Rightarrow> unit_style \<Rightarrow> running_unit \<Rightarrow> jdict list \<Rightarrow> string \<times> jdict \<Rightarrow> vlm_output vlm_retry_result \<Rightarrow>
   vlm_output \<Rightarrow> jdict option \<Rightarrow> nat \<Rightarrow> (unit_outcome \<times> string list) site_m" where
  "publish_and_mark p env us u refs manifest result out extra n =
    se_bind (db_read (get_job_row (ru_analysis_job_id u))) (\<lambda>found.
      case found of
        None \<Rightarrow> se_ret (OUTCOME_FAILED, [])
      | Some job \<Rightarrow>
        let prompt_version = (if us_logs_prompt_version us then ru_prompt_version u else aj_prompt_version job) in
        se_bind (se_lift (\<lambda>_. build_observation_record (un_py env) (ru_ctx u) (un_id env ''obs'' n) (ru_analysis_job_id u)
            (us_scale us) (ru_start_ms u) (ru_end_ms u) out
            (aj_model_version job, prompt_version, aj_pipeline_version job) extra)) (\<lambda>record.
        se_bind (publish_record env u n record) (\<lambda>produced_ids.
        se_then (create_model_call_log (succeeded_log p env us u refs manifest result out prompt_version))
        (se_then (db_write (unit_mark_succeeded (un_now env ''mark_succeeded'') (ru_unit_id u)
            (Some (success_mcall_id env u (vr_attempts result))) produced_ids (Some (int (vr_attempts result)))))
          (se_ret (OUTCOME_SUCCEEDED, produced_ids))))))"

definition cleanup_frames :: "processor \<Rightarrow> media_input list \<Rightarrow> unit site_m" where
  "cleanup_frames p items =
    (if pc_cleanup_selected_on_success p \<and> \<not> pc_debug_media p
     then se_write (\<lambda>s. s\<lparr>st_files := cleanup_selected_frames (frame_uris items) (st_files s)\<rparr>) else se_ret ())"

definition published_metadata :: "string list \<Rightarrow> jdict" where
  "published_metadata ids = [(''record_count'', JsInt (int (length ids))), (''record_ids'', JsArr (map JsStr ids))]"

definition announce_success ::
  "processor \<Rightarrow> unit_env \<Rightarrow> unit_style \<Rightarrow> running_unit \<Rightarrow> string option \<Rightarrow> jdict \<Rightarrow> jdict \<Rightarrow> nat \<Rightarrow> media_input list \<Rightarrow>
   unit_outcome site_m" where
  "announce_success p env us u mcall_id published extra attempts items =
    se_then (unit_event p env us u ''publication_finished'' PHASE_INSTANT (\<lambda>f. f\<lparr>em_model_call_id := mcall_id,
        em_status := Some ''succeeded'', em_metadata := published @ extra\<rparr>))
    (se_then (unit_event p env us u ''unit_finished'' PHASE_INSTANT (\<lambda>f. f\<lparr>em_model_call_id := mcall_id,
        em_status := task_status_text TASK_SUCCEEDED, em_attempt_count := Some (int attempts), em_metadata := extra\<rparr>))
    (se_then (cleanup_frames p items) (se_ret OUTCOME_SUCCEEDED)))"

definition publish_phase ::
  "processor \<Rightarrow> unit_env \<Rightarrow> unit_style \<Rightarrow> running_unit \<Rightarrow> media_input list \<Rightarrow> jdict list \<Rightarrow>
   vlm_output vlm_retry_result \<Rightarrow> vlm_output \<Rightarrow> jdict option \<Rightarrow> unit_outcome site_m" where
  "publish_phase p env us u items refs result out extra =
    se_bind (terminal_write p env ''publish_and_mark''
        (publish_and_mark p env us u refs (unit_manifest p env us u items refs) result out extra)) (\<lambda>(outcome, produced_ids).
      if outcome = OUTCOME_FAILED then se_ret OUTCOME_FAILED
      else announce_success p env us u (Some (success_mcall_id env u (vr_attempts result)))
        (published_metadata produced_ids) [] (vr_attempts result) items)"

section \<open>Phases and the lifecycle guard\<close>

definition at_phase :: "string \<Rightarrow> 'a site_m \<Rightarrow> (site, string \<times> exn, 'a) se" where
  "at_phase phase m s = (case m s of (Inl e, s') \<Rightarrow> (Inl (phase, e), s') | (Inr a, s') \<Rightarrow> (Inr a, s'))"

text \<open>The model call and what follows it; a failed call is terminal for the unit.\<close>

definition vlm_phase ::
  "processor \<Rightarrow> unit_env \<Rightarrow> unit_style \<Rightarrow> running_unit \<Rightarrow> media_input list \<Rightarrow> jdict list \<Rightarrow>
   (unit_outcome + vlm_output vlm_retry_result \<times> vlm_output) site_m" where
  "vlm_phase p env us u items refs =
    se_bind (call_vlm p env us u items refs) (\<lambda>result.
      case vr_error result of
        Some e \<Rightarrow>
          se_then (mark_unit_failed p env u (vlm_failure_error_code e) e (vr_attempts result))
          (se_then (finished_event p env us u TASK_FAILED (Some (int (vr_attempts result)))
              (Some (vlm_failure_error_code e)) (Some (exn_message e)))
            (se_ret (Inl OUTCOME_FAILED)))
      | None \<Rightarrow>
        (case vr_output result of
           None \<Rightarrow> se_raise (OtherException [''AssertionError'', ''Exception''] [])
         | Some out \<Rightarrow> se_ret (Inr (result, out))))"

definition after_gate ::
  "processor \<Rightarrow> unit_env \<Rightarrow> unit_style \<Rightarrow> running_unit \<Rightarrow> media_input list \<Rightarrow> jdict list \<Rightarrow> jdict option \<Rightarrow>
   (site, string \<times> exn, unit_outcome) se" where
  "after_gate p env us u items refs extra =
    se_bind (at_phase ''vlm'' (vlm_phase p env us u items refs)) (\<lambda>r.
      case r of
        Inl outcome \<Rightarrow> se_ret outcome
      | Inr (result, out) \<Rightarrow> at_phase ''post_vlm'' (publish_phase p env us u items refs result out extra))"

text \<open>What the claiming transaction finds: a unit that is already settled, or one that is now running.\<close>

datatype claim_result = AlreadySettled unit_outcome | ClaimedUnit analysis_unit analysis_job

definition claim_work :: "unit_env \<Rightarrow> string \<Rightarrow> analysis_unit \<Rightarrow> string \<Rightarrow> claim_result site_m" where
  "claim_work env job_id template mcall_id =
    se_bind (db_read (get_job_row job_id)) (\<lambda>found.
      case found of
        None \<Rightarrow> se_ret (AlreadySettled OUTCOME_FAILED)
      | Some job \<Rightarrow>
        se_bind (on_db (unit_create_or_get template)) (\<lambda>u.
          if au_status u = TASK_SUCCEEDED then se_ret (AlreadySettled OUTCOME_SUCCEEDED)
          else if au_status u = TASK_SKIPPED then se_ret (AlreadySettled OUTCOME_SKIPPED)
          else se_then (db_write (unit_mark_running (un_now env ''mark_running'') (au_unit_id u) (Some mcall_id)))
            (se_ret (ClaimedUnit u job))))"

definition claim_unit :: "unit_env \<Rightarrow> string \<Rightarrow> analysis_unit \<Rightarrow> string \<Rightarrow> claim_result site_m" where
  "claim_unit env job_id template mcall_id = unit_session env ''claim'' 1 (claim_work env job_id template mcall_id)"

text \<open>The guard: an exception that escapes the body forces the unit into a terminal state.\<close>

definition guard_unit ::
  "processor \<Rightarrow> unit_env \<Rightarrow> unit_style \<Rightarrow> (running_unit \<Rightarrow> (site, string \<times> exn, unit_outcome) se) \<Rightarrow> running_unit \<Rightarrow>
   unit_outcome site_m" where
  "guard_unit p env us body u s =
    (case body u s of
       (Inr outcome, s') \<Rightarrow> (Inr outcome, s')
     | (Inl (phase, e), s') \<Rightarrow>
         se_then (force_terminalize_running p env us u phase e) (se_ret OUTCOME_FAILED) s')"

text \<open>
  \<^verbatim>\<open>_run_unit_in_fresh_session\<close> around a body: \<open>unit_of\<close> fixes the versions that the processor passes on.
\<close>

definition guarded_run ::
  "processor \<Rightarrow> unit_env \<Rightarrow> unit_style \<Rightarrow> (running_unit \<Rightarrow> (site, string \<times> exn, unit_outcome) se) \<Rightarrow>
   (analysis_job \<Rightarrow> string option) \<Rightarrow> analysis_unit \<Rightarrow> int \<Rightarrow> int \<Rightarrow> string \<Rightarrow> string \<Rightarrow> video_context \<Rightarrow> jdict option \<Rightarrow>
   unit_outcome site_m" where
  "guarded_run p env us body prompt_version_of template start_ms end_ms job_id video_id ctx trigger_context =
    (let mcall_id = un_id env ''mcall'' 0 in
     se_bind (claim_unit env job_id template mcall_id) (\<lambda>claimed.
       case claimed of
         AlreadySettled outcome \<Rightarrow> se_ret outcome
       | ClaimedUnit row job \<Rightarrow>
         let u = \<lparr>ru_unit_id = au_unit_id row, ru_mcall_id = mcall_id, ru_start_ms = start_ms, ru_end_ms = end_ms,
           ru_analysis_job_id = job_id, ru_video_id = video_id, ru_ctx = ctx,
           ru_prompt_version = prompt_version_of job, ru_model_version = aj_model_version job,
           ru_trigger_context = trigger_context\<rparr>
         in se_then (unit_event p env us u ''unit_running'' PHASE_INSTANT (\<lambda>f. f\<lparr>em_status := task_status_text TASK_RUNNING,
              em_attempt_count := Some (au_attempt_count row + 1)\<rparr>))
            (guard_unit p env us body u)))"

end
