(* ===== verification/Cctv_Lifecycle.thy ===== *)
theory Cctv_Lifecycle
  imports Cctv_Unit
begin

text \<open>
  What the steps of a unit do, as weakest preconditions, and the contract between the lifecycle guard and
  the body that it protects (locale \<open>unit_body\<close>): a body settles its unit or leaves the records alone;
  then a guarded run ends with a row that says its outcome.
\<close>

section \<open>Steps, as weakest preconditions\<close>

lemma session_scope_wp: "se_wp m Q (\<lambda>e _. E e s) s \<Longrightarrow> se_wp (session_scope m) Q E s"
  by (simp add: se_wp_def session_scope_def split: prod.splits sum.splits)

lemma unit_session_wp:
  assumes "\<And>e. E e s" and "un_fault env tag n = None \<Longrightarrow> se_wp m Q (\<lambda>e _. E e s) s"
  shows "se_wp (unit_session env tag n m) Q E s"
  using assms session_scope_wp [of m Q E s] by (auto simp: se_wp_def unit_session_def split: option.split)

lemma unit_session_rolls_back: "unit_session env tag n m s = (Inl e, s') \<Longrightarrow> s' = s"
  by (auto simp: unit_session_def session_scope_def split: option.splits prod.splits sum.splits)

lemma unit_session_returns: "unit_session env tag n m s = (Inr a, s') \<Longrightarrow> m s = (Inr a, s')"
  by (auto simp: unit_session_def session_scope_def split: option.splits prod.splits sum.splits)

lemma terminal_write_wp:
  assumes "\<And>e. E e s" and "\<And>n a s'. work n s = (Inr a, s') \<Longrightarrow> Q a s'"
  shows "se_wp (terminal_write p env tag work) Q E s"
proof -
  let ?m = "nat (max 1 (pc_terminal_write_max_attempts p))"
  let ?wr = "\<lambda>n. unit_session env tag n (work n)"
  have run: "terminal_write p env tag work s = db_write_loop ?m 1 ?m ?wr s"
    by (simp add: terminal_write_def run_db_write_with_retry_def)
  have loop: "case db_write_loop ?m 1 ?m ?wr s of
      (Inl e, s') \<Rightarrow> s' = s \<and> (\<exists>k \<ge> 1. k \<le> ?m \<and> ?wr k s = (Inl e, s) \<and> (k = ?m \<or> \<not> is_transient_db_error e))
    | (Inr a, s') \<Rightarrow> \<exists>k \<ge> 1. k \<le> ?m \<and> ?wr k s = (Inr a, s') \<and>
        (\<forall>i. 1 \<le> i \<and> i < k \<longrightarrow> (\<exists>e. ?wr i s = (Inl e, s) \<and> is_transient_db_error e))"
    by (rule db_write_loop_atomic) (auto dest: unit_session_rolls_back)
  show ?thesis
  proof (rule se_wpI)
    fix a s' assume "terminal_write p env tag work s = (Inr a, s')"
    then have "db_write_loop ?m 1 ?m ?wr s = (Inr a, s')" by (simp only: run)
    from loop [unfolded this prod.case sum.case] obtain k where "?wr k s = (Inr a, s')" by blast
    then have "work k s = (Inr a, s')" by (rule unit_session_returns)
    then show "Q a s'" by (rule assms(2))
  next
    fix e s' assume "terminal_write p env tag work s = (Inl e, s')"
    then have "db_write_loop ?m 1 ?m ?wr s = (Inl e, s')" by (simp only: run)
    from loop [unfolded this prod.case sum.case] have "s' = s" by blast
    with assms(1) show "E e s'" by simp
  qed
qed

text \<open>Everything but the timeline.\<close>

definition off_timeline :: "site \<Rightarrow> site" where
  "off_timeline s = s\<lparr>st_timeline := []\<rparr>"

lemma off_timeline_eq: "off_timeline s' = off_timeline s \<Longrightarrow> s' = s\<lparr>st_timeline := st_timeline s'\<rparr>"
proof -
  assume eq: "off_timeline s' = off_timeline s"
  have "s' = (off_timeline s')\<lparr>st_timeline := st_timeline s'\<rparr>" by (simp add: off_timeline_def)
  also have "\<dots> = s\<lparr>st_timeline := st_timeline s'\<rparr>" unfolding eq by (simp add: off_timeline_def)
  finally show ?thesis .
qed

lemma site_recorder_quiet: "appends_quietly (site_recorder env) off_timeline"
  by (auto simp: appends_quietly_def site_recorder_def off_timeline_def split: option.split sum.split)

lemma unit_event_wp: "(\<And>tl. Q () (s\<lparr>st_timeline := tl\<rparr>)) \<Longrightarrow> se_wp (unit_event p env us u name phase f) Q E s"
proof -
  assume Q: "\<And>tl. Q () (s\<lparr>st_timeline := tl\<rparr>)"
  obtain s' where "unit_event p env us u name phase f s = (Inr (), s')" and "off_timeline s' = off_timeline s"
    using record_event_quiet [OF site_recorder_quiet] unfolding unit_event_def by blast
  with Q [of "st_timeline s'"] show ?thesis by (simp add: se_wp_def off_timeline_eq [symmetric])
qed

lemma unit_span_wp:
  assumes body: "reads_only off_timeline body"
    and wp: "se_wp body (\<lambda>a s'. \<forall>tl. Q a (s'\<lparr>st_timeline := tl\<rparr>)) (\<lambda>e s'. \<forall>tl. E e (s'\<lparr>st_timeline := tl\<rparr>)) s"
  shows "se_wp (unit_span p env us u name md body) Q E s"
proof -
  obtain r s' where span: "unit_span p env us u name md body s = (r, s')" by fastforce
  obtain r2 s2 where run: "body s = (r2, s2)" by fastforce
  have "r = r2" and "off_timeline s' = off_timeline s2"
    using record_span_quiet [OF site_recorder_quiet body] span run unfolding unit_span_def
    by (metis fst_conv, metis snd_conv)
  moreover from this(2) have "s' = s2\<lparr>st_timeline := st_timeline s'\<rparr>" by (rule off_timeline_eq)
  moreover obtain tl where "tl = st_timeline s'" by simp
  ultimately have "r = r2" and s': "s' = s2\<lparr>st_timeline := tl\<rparr>" by simp_all
  from wp run have "case r2 of Inl e \<Rightarrow> E e (s2\<lparr>st_timeline := tl\<rparr>) | Inr a \<Rightarrow> Q a (s2\<lparr>st_timeline := tl\<rparr>)"
    by (auto simp: se_wp_def split: sum.splits)
  with \<open>r = r2\<close> show ?thesis by (simp add: se_wp_def span s' split: sum.splits)
qed

lemma reads_only_lift [simp]: "reads_only view (se_lift (\<lambda>_. r))"
  by (simp add: reads_only_def)

lemma reads_only_select: "reads_only off_timeline (select_body p env u)"
  unfolding reads_only_def
proof (intro allI impI)
  fix s t
  assume "off_timeline s = off_timeline t"
  then have s: "s = t\<lparr>st_timeline := st_timeline s\<rparr>" by (rule off_timeline_eq)
  show "fst (select_body p env u s) = fst (select_body p env u t) \<and>
      off_timeline (snd (select_body p env u s)) = off_timeline (snd (select_body p env u t))"
    by (subst (1 2) s)
      (simp add: select_body_def se_simps off_timeline_def split: sum.split)
qed

lemma at_phase_wp: "se_wp m Q (\<lambda>e. E (phase, e)) s \<Longrightarrow> se_wp (at_phase phase m) Q E s"
  by (simp add: se_wp_def at_phase_def split: prod.splits sum.splits)

section \<open>What a step leaves alone\<close>

text \<open>
  Everything but the unit table, the logs, the timeline and the working files: records, indexes, history,
  audit, jobs, scale tasks, tasks and the catalog.
\<close>

definition core :: "site \<Rightarrow> site" where
  "core s = s\<lparr>mem_db := (mem_db s)\<lparr>db_units := []\<rparr>, ct_model_calls := [], ct_gate_logs := [], ct_pre_vlm_logs := [],
     st_timeline := [], st_files := []\<rparr>"

definition same_but :: "string \<Rightarrow> analysis_unit list \<Rightarrow> analysis_unit list \<Rightarrow> bool" where
  "same_but k us vs \<longleftrightarrow> list_all2 (\<lambda>u v. au_unit_id v = au_unit_id u \<and> au_idempotency_key v = au_idempotency_key u \<and>
     (au_unit_id u \<noteq> k \<longrightarrow> v = u)) us vs"

definition quiet :: "string \<Rightarrow> site \<Rightarrow> site \<Rightarrow> bool" where
  "quiet k s0 s \<longleftrightarrow> core s = core s0 \<and> same_but k (db_units (mem_db s0)) (db_units (mem_db s))"

definition unit_status :: "string \<Rightarrow> site \<Rightarrow> task_status option" where
  "unit_status k s = map_option au_status (get_unit_row k (mem_db s))"

lemma same_but_refl [simp]: "same_but k us us"
  by (simp add: same_but_def list_all2_same)

lemma same_but_trans: "same_but k us vs \<Longrightarrow> same_but k vs ws \<Longrightarrow> same_but k us ws"
  unfolding same_but_def by (rule list_all2_trans [rotated 1], assumption, assumption) auto

lemma same_but_upd:
  "(\<And>u. au_unit_id (f u) = au_unit_id u \<and> au_idempotency_key (f u) = au_idempotency_key u) \<Longrightarrow>
   same_but k us (row_upd au_unit_id k f us)"
  by (auto simp: same_but_def row_upd_def list_all2_map2 list_all2_same)

lemma quiet_refl [simp]: "quiet k s s"
  by (simp add: quiet_def)

lemma quiet_trans: "quiet k s0 s1 \<Longrightarrow> quiet k s1 s2 \<Longrightarrow> quiet k s0 s2"
  unfolding quiet_def using same_but_trans by metis

lemma core_upd [simp]:
  "core (s\<lparr>st_timeline := tls\<rparr>) = core s" "core (s\<lparr>st_files := fs\<rparr>) = core s"
  "core (s\<lparr>ct_model_calls := ms\<rparr>) = core s" "core (s\<lparr>ct_gate_logs := gs\<rparr>) = core s"
  "core (s\<lparr>ct_pre_vlm_logs := ps\<rparr>) = core s"
  "core (s\<lparr>mem_db := (mem_db s)\<lparr>db_units := us\<rparr>\<rparr>) = core s"
  by (simp_all add: core_def)

lemma quiet_upd [simp]:
  "quiet k s0 (s\<lparr>st_timeline := tls\<rparr>) = quiet k s0 s" "quiet k s0 (s\<lparr>st_files := fs\<rparr>) = quiet k s0 s"
  "quiet k s0 (s\<lparr>ct_model_calls := ms\<rparr>) = quiet k s0 s" "quiet k s0 (s\<lparr>ct_gate_logs := gs\<rparr>) = quiet k s0 s"
  "quiet k s0 (s\<lparr>ct_pre_vlm_logs := ps\<rparr>) = quiet k s0 s"
  by (simp_all add: quiet_def)

lemma unit_status_upd [simp]:
  "unit_status k (s\<lparr>st_timeline := tls\<rparr>) = unit_status k s" "unit_status k (s\<lparr>st_files := fs\<rparr>) = unit_status k s"
  "unit_status k (s\<lparr>ct_model_calls := ms\<rparr>) = unit_status k s" "unit_status k (s\<lparr>ct_gate_logs := gs\<rparr>) = unit_status k s"
  "unit_status k (s\<lparr>ct_pre_vlm_logs := ps\<rparr>) = unit_status k s"
  by (simp_all add: unit_status_def)

text \<open>The writes to the row of a unit.\<close>

lemma unit_marks_keep:
  "quiet k s0 s \<Longrightarrow> quiet k s0 (s\<lparr>mem_db := unit_mark_failed now k err msg mc n (mem_db s)\<rparr>)"
  "quiet k s0 s \<Longrightarrow> quiet k s0 (s\<lparr>mem_db := unit_mark_skipped now k reason mc (mem_db s)\<rparr>)"
  "quiet k s0 s \<Longrightarrow> quiet k s0 (s\<lparr>mem_db := unit_mark_running now k mc (mem_db s)\<rparr>)"
  "quiet k s0 s \<Longrightarrow> quiet k s0 (s\<lparr>mem_db := unit_mark_succeeded now k mc ids n (mem_db s)\<rparr>)"
  unfolding quiet_def unit_mark_failed_def unit_mark_skipped_def unit_mark_running_def unit_mark_succeeded_def
  by (auto intro!: same_but_trans [OF _ same_but_upd])

lemma unit_status_mark:
  "(\<And>u. au_unit_id (f u) = au_unit_id u) \<Longrightarrow> (\<And>u. au_status (f u) = st) \<Longrightarrow> unit_status k s \<noteq> None \<Longrightarrow>
   unit_status k (s\<lparr>mem_db := upd_unit k f (mem_db s)\<rparr>) = Some st"
  by (auto simp: unit_status_def row_get_upd)

lemma unit_marks_status:
  assumes "unit_status k s \<noteq> None"
  shows "unit_status k (s\<lparr>mem_db := unit_mark_failed now k err msg mc n (mem_db s)\<rparr>) = Some TASK_FAILED"
    and "unit_status k (s\<lparr>mem_db := unit_mark_skipped now k reason mc (mem_db s)\<rparr>) = Some TASK_SKIPPED"
    and "unit_status k (s\<lparr>mem_db := unit_mark_running now k mc (mem_db s)\<rparr>) = Some TASK_RUNNING"
    and "unit_status k (s\<lparr>mem_db := unit_mark_succeeded now k mc ids m (mem_db s)\<rparr>) = Some TASK_SUCCEEDED"
  unfolding unit_mark_failed_def unit_mark_skipped_def unit_mark_running_def unit_mark_succeeded_def
  using assms by (simp_all add: unit_status_mark)

lemma same_but_ids: "same_but k us vs \<Longrightarrow> map au_unit_id vs = map au_unit_id us"
  unfolding same_but_def by (induction rule: list_all2_induct) auto

lemma row_get_exists_ids: "map key vs = map key us \<Longrightarrow> row_get key k us \<noteq> None \<Longrightarrow> row_get key k vs \<noteq> None"
  unfolding row_get_None_iff set_map [symmetric] by simp

lemma quiet_status: "quiet k s0 s \<Longrightarrow> unit_status j s0 \<noteq> None \<Longrightarrow> unit_status j s \<noteq> None"
  using row_get_exists_ids [OF same_but_ids] unfolding quiet_def unit_status_def by auto

section \<open>What the steps of a unit do\<close>

lemma log_writes_wp:
  "(\<And>ms. Q () (s\<lparr>ct_model_calls := ms\<rparr>)) \<Longrightarrow> (\<And>e. E e s) \<Longrightarrow> se_wp (create_model_call_log x) Q E s"
  "(\<And>gs. Q () (s\<lparr>ct_gate_logs := gs\<rparr>)) \<Longrightarrow> (\<And>e. E e s) \<Longrightarrow> se_wp (create_detector_gate_log y) Q E s"
  "(\<And>ps. Q () (s\<lparr>ct_pre_vlm_logs := ps\<rparr>)) \<Longrightarrow> (\<And>e. E e s) \<Longrightarrow> se_wp (create_pre_vlm_gate_log z) Q E s"
  by (simp_all add: se_wp_def create_model_call_log_def create_detector_gate_log_def create_pre_vlm_gate_log_def
      split: option.split)

lemma db_wp [wp_simps]:
  "se_wp (db_write f) Q E = (\<lambda>s. Q () (s\<lparr>mem_db := f (mem_db s)\<rparr>))"
  "se_wp (db_read g) R E = (\<lambda>s. R (g (mem_db s)) s)"
  by (simp_all add: se_wp_def fun_eq_iff)

lemma terminal_write_wp_of:
  assumes "\<And>n. se_wp (work n) Q (\<lambda>_ _. True) s" and "\<And>e. E e s"
  shows "se_wp (terminal_write p env tag work) Q E s"
  using assms by (intro terminal_write_wp) (auto dest: se_wp_Inr)

lemma write_unit_failed_wp:
  assumes "unit_status (ru_unit_id u) s \<noteq> None" and "quiet (ru_unit_id u) s0 s"
  shows "se_wp (write_unit_failed env u c m n)
    (\<lambda>_ s'. quiet (ru_unit_id u) s0 s' \<and> unit_status (ru_unit_id u) s' = Some TASK_FAILED) E s"
  unfolding write_unit_failed_def wp_simps using assms by (simp add: unit_marks_keep unit_marks_status)

lemma mark_unit_failed_wp:
  assumes "unit_status (ru_unit_id u) s \<noteq> None" and "quiet (ru_unit_id u) s0 s"
  shows "se_wp (mark_unit_failed p env u c e n)
    (\<lambda>_ s'. quiet (ru_unit_id u) s0 s' \<and> unit_status (ru_unit_id u) s' = Some TASK_FAILED)
    (\<lambda>_ s'. quiet (ru_unit_id u) s0 s') s"
  unfolding mark_unit_failed_def
  by (rule terminal_write_wp_of [OF write_unit_failed_wp [OF assms]]) (rule assms(2))

lemma failed_log_wp:
  assumes "unit_status (ru_unit_id u) s \<noteq> None" and "quiet (ru_unit_id u) s0 s"
  shows "se_wp (se_then (create_model_call_log x) (write_unit_failed env u c m n))
    (\<lambda>_ s'. quiet (ru_unit_id u) s0 s' \<and> unit_status (ru_unit_id u) s' = Some TASK_FAILED) (\<lambda>_ _. True) s"
  unfolding wp_simps by (rule log_writes_wp, rule write_unit_failed_wp) (use assms in simp_all)

lemma terminalize_unit_failed_wp:
  assumes "unit_status (ru_unit_id u) s \<noteq> None" and "quiet (ru_unit_id u) s0 s"
  shows "se_wp (terminalize_unit_failed p env us u c e)
    (\<lambda>_ s'. quiet (ru_unit_id u) s0 s' \<and> unit_status (ru_unit_id u) s' = Some TASK_FAILED)
    (\<lambda>_ s'. quiet (ru_unit_id u) s0 s') s"
  unfolding terminalize_unit_failed_def
  by (rule terminal_write_wp_of [OF failed_log_wp [OF assms]]) (rule assms(2))

lemma terminalize_unit_skipped_wp:
  assumes "unit_status (ru_unit_id u) s \<noteq> None" and "quiet (ru_unit_id u) s0 s"
  shows "se_wp (terminalize_unit_skipped p env u reason)
    (\<lambda>_ s'. quiet (ru_unit_id u) s0 s' \<and> unit_status (ru_unit_id u) s' = Some TASK_SKIPPED)
    (\<lambda>_ s'. quiet (ru_unit_id u) s0 s') s"
  unfolding terminalize_unit_skipped_def
  by (rule terminal_write_wp_of)
    (use assms in \<open>auto simp: wp_simps unit_marks_keep unit_marks_status\<close>)

lemma finished_event_wp:
  "(\<And>tls. Q () (s\<lparr>st_timeline := tls\<rparr>)) \<Longrightarrow> se_wp (finished_event p env us u st n c e) Q E s"
  unfolding finished_event_def by (rule unit_event_wp)

definition frames_ok :: "string \<Rightarrow> frames_result \<Rightarrow> site \<Rightarrow> bool" where
  "frames_ok k r s \<longleftrightarrow>
    (case r of
       FramesDone OUTCOME_SKIPPED \<Rightarrow> unit_status k s = Some TASK_SKIPPED
     | FramesDone OUTCOME_FAILED \<Rightarrow> unit_status k s = Some TASK_FAILED
     | FramesDone OUTCOME_SUCCEEDED \<Rightarrow> False
     | FramesReady _ _ \<Rightarrow> True)"

lemma frames_ok_timeline [simp]: "frames_ok k r (s\<lparr>st_timeline := tls\<rparr>) = frames_ok k r s"
  by (simp add: frames_ok_def split: frames_result.split unit_outcome.split)

lemma skip_without_frames_wp:
  assumes "unit_status (ru_unit_id u) s \<noteq> None" and "quiet (ru_unit_id u) s0 s"
  shows "se_wp (skip_without_frames p env us u)
    (\<lambda>r s'. quiet (ru_unit_id u) s0 s' \<and> frames_ok (ru_unit_id u) r s') (\<lambda>_ s'. quiet (ru_unit_id u) s0 s') s"
  unfolding skip_without_frames_def wp_simps
  by (rule se_wp_mono [OF terminalize_unit_skipped_wp [OF assms]])
    (auto intro!: finished_event_wp simp: frames_ok_def)

lemma select_body_wp:
  assumes "quiet k s0 s"
  shows "se_wp (select_body p env u) (\<lambda>_ s'. \<forall>tls. quiet k s0 (s'\<lparr>st_timeline := tls\<rparr>))
    (\<lambda>_ s'. \<forall>tls. quiet k s0 (s'\<lparr>st_timeline := tls\<rparr>)) s"
  unfolding select_body_def wp_simps using assms by (simp split: sum.split)

lemma frames_phase_wp:
  assumes "unit_status (ru_unit_id u) s0 \<noteq> None" and "quiet (ru_unit_id u) s0 s"
  shows "se_wp (frames_phase p env us u)
    (\<lambda>r s'. quiet (ru_unit_id u) s0 s' \<and> frames_ok (ru_unit_id u) r s') (\<lambda>_ s'. quiet (ru_unit_id u) s0 s') s"
    (is "se_wp _ ?Q ?E s")
proof -
  let ?skip = "skip_without_frames p env us u"
  let ?fail = "\<lambda>e. se_then (terminalize_unit_failed p env us u ''frame_extraction_failed'' e)
    (se_then (finished_event p env us u TASK_FAILED None (Some ''frame_extraction_failed'') (Some (exn_message e)))
      (se_ret (FramesDone OUTCOME_FAILED)))"
  let ?handler = "\<lambda>e. if is_instance e ''InsufficientFramesError'' then ?skip else ?fail e"
  let ?refs = "\<lambda>items. se_lift (\<lambda>_. build_media_refs (un_fs env) items (ru_mcall_id u) (pc_debug_media p) (pc_artifact_root p))"
  let ?rest = "\<lambda>items. if frame_uris items = [] then ?skip
    else se_bind (unit_span p env us u ''media_refs_built'' [(''frame_count'', JsInt (int (length items)))] (?refs items))
      (\<lambda>refs. se_ret (FramesReady items refs))"
  note st = quiet_status [OF _ assms(1)]
  have skip: "se_wp ?skip ?Q ?E t" if "quiet (ru_unit_id u) s0 t" for t
    by (rule skip_without_frames_wp [OF st [OF that] that])
  have "se_wp (?fail e) ?Q ?E t" if "quiet (ru_unit_id u) s0 t" for e t
    unfolding wp_simps
    by (rule se_wp_mono [OF terminalize_unit_failed_wp [OF st [OF that] that]])
      (auto intro!: finished_event_wp simp: frames_ok_def)
  with skip have handler: "se_wp (?handler e) ?Q ?E t" if "quiet (ru_unit_id u) s0 t" for e t
    using that by simp
  have rest: "se_wp (?rest items) ?Q ?E t" if "quiet (ru_unit_id u) s0 t" for items t
  proof (cases "frame_uris items = []")
    case True
    then show ?thesis using skip [OF that] by simp
  next
    case False
    have "se_wp (unit_span p env us u ''media_refs_built'' [(''frame_count'', JsInt (int (length items)))] (?refs items))
        (\<lambda>refs. ?Q (FramesReady items refs)) ?E t"
      by (rule unit_span_wp [OF reads_only_lift], unfold wp_simps) (use that in \<open>simp add: frames_ok_def split: sum.split\<close>)
    with False show ?thesis by (simp add: wp_simps)
  qed
  have "se_wp (unit_span p env us u ''frame_select'' [(''frames_requested'', JsInt (pc_frames_per_segment p))]
      (select_body p env u)) (\<lambda>_ s'. quiet (ru_unit_id u) s0 s') ?E s"
    by (rule unit_span_wp [OF reads_only_select select_body_wp [OF assms(2)]])
  then have "se_wp (se_bind (unit_span p env us u ''frame_select'' [(''frames_requested'', JsInt (pc_frames_per_segment p))]
      (select_body p env u)) ?rest) ?Q ?E s"
    by (rule se_wp_bindI) (rule rest)
  then show ?thesis
    unfolding frames_phase_def by (rule se_wp_tryI) (rule handler)
qed

section \<open>The gate and the model call change nothing but logs\<close>

lemma quiet_timeline: "quiet k s0 s \<Longrightarrow> (\<And>tls. quiet k s0 (s\<lparr>st_timeline := tls\<rparr>))"
  by simp

lemma quiet_event_wp: "quiet k s0 s \<Longrightarrow> se_wp (unit_event p env us u name phase f) (\<lambda>_. quiet k s0) E s"
  by (rule unit_event_wp) simp

lemma quiet_finished_wp: "quiet k s0 s \<Longrightarrow> se_wp (finished_event p env us u st n c e) (\<lambda>_. quiet k s0) E s"
  by (rule finished_event_wp) simp

lemma gate_log_writer_wp: "quiet k s0 s \<Longrightarrow> se_wp (gate_log_writer env x) (\<lambda>_. quiet k s0) (\<lambda>_. quiet k s0) s"
  unfolding gate_log_writer_def by (rule unit_session_wp) (auto intro!: log_writes_wp)

lemma write_gate_log_wp:
  "quiet k s0 s \<Longrightarrow> se_wp (write_gate_log (Some (gate_log_writer env)) x) (\<lambda>_. quiet k s0) (\<lambda>_. quiet k s0) s"
  by (simp add: write_gate_log_def gate_log_writer_wp)

lemma evaluate_gate_wp:
  "quiet k s0 s \<Longrightarrow> se_wp (evaluate_gate r (Some (gate_log_writer env)) q) (\<lambda>_. quiet k s0) (\<lambda>_. quiet k s0) s"
  unfolding evaluate_gate_def by (simp add: wp_simps write_gate_log_wp split: sum.split)

lemma unit_gate_wp: "quiet k s0 s \<Longrightarrow> se_wp (unit_gate p env us u items) (\<lambda>_. quiet k s0) (\<lambda>_. quiet k s0) s"
  unfolding unit_gate_def run_pre_vlm_gate_def
  by (simp add: wp_simps evaluate_gate_wp Let_def split: option.split)

lemma quiet_log_write_wp:
  "quiet k s0 s \<Longrightarrow> se_wp (terminal_write p env tag (\<lambda>n. create_model_call_log (x n))) (\<lambda>_. quiet k s0) (\<lambda>_. quiet k s0) s"
  "quiet k s0 s \<Longrightarrow> se_wp (terminal_write p env tag (\<lambda>n. create_detector_gate_log (y n))) (\<lambda>_. quiet k s0) (\<lambda>_. quiet k s0) s"
  by (rule terminal_write_wp_of, rule log_writes_wp; simp)+

lemma scheduler_run_events_wp:
  "quiet k s0 s \<Longrightarrow> se_wp (scheduler_run_events p env us u n ok) (\<lambda>_. quiet k s0) (\<lambda>_. quiet k s0) s"
  unfolding scheduler_run_events_def Let_def scheduler_event_def
  by (rule se_wp_iter) (auto intro!: quiet_event_wp)

lemma attempt_event_wp:
  "quiet k s0 s \<Longrightarrow> se_wp (attempt_event p env us u phase status n) (\<lambda>_. quiet k s0) E s"
  unfolding attempt_event_def by (rule quiet_event_wp)

lemma log_failed_attempt_wp:
  assumes "quiet k s0 s"
  shows "se_wp (log_failed_attempt p env us u refs manifest r) (\<lambda>_. quiet k s0) (\<lambda>_. quiet k s0) s"
  unfolding log_failed_attempt_def Let_def
  by (rule se_wp_thenI [OF quiet_log_write_wp(1) [OF assms]], rule quiet_event_wp)

lemma handle_retry_event_wp:
  assumes "quiet k s0 s"
  shows "se_wp (handle_retry_event p env us u refs manifest ev) (\<lambda>_. quiet k s0) (\<lambda>_. quiet k s0) s"
proof (cases ev)
  case (AttemptStarted n)
  then show ?thesis unfolding handle_retry_event_def by (simp only: retry_event.case attempt_event_wp [OF assms])
next
  case (AttemptSucceeded r)
  then show ?thesis
    unfolding handle_retry_event_def AttemptSucceeded retry_event.case
    by (intro se_wp_thenI [OF scheduler_run_events_wp [OF assms]] attempt_event_wp)
next
  case (AttemptFailed r)
  then show ?thesis
    unfolding handle_retry_event_def AttemptFailed retry_event.case
    by (intro se_wp_thenI [OF scheduler_run_events_wp [OF assms]] log_failed_attempt_wp)
next
  case (Slept x)
  then show ?thesis unfolding handle_retry_event_def Slept retry_event.case by (simp add: wp_simps assms)
qed

lemma call_vlm_wp:
  assumes "quiet k s0 s"
  shows "se_wp (call_vlm p env us u items refs) (\<lambda>_. quiet k s0) (\<lambda>_. quiet k s0) s"
proof -
  obtain result events where run: "unit_retry p env us u items = (result, events)" by fastforce
  have "se_wp (se_iter (handle_retry_event p env us u refs (unit_manifest p env us u items refs)) events)
      (\<lambda>_. quiet k s0) (\<lambda>_. quiet k s0) s"
    by (rule se_wp_iter) (auto intro: handle_retry_event_wp assms)
  then show ?thesis unfolding call_vlm_def run prod.case by (rule se_wp_thenI) (simp add: wp_simps)
qed

text \<open>After the model call: either the unit has failed and its row says so, or there is an output.\<close>

definition vlm_ok :: "string \<Rightarrow> unit_outcome + 'r \<Rightarrow> site \<Rightarrow> bool" where
  "vlm_ok k r s \<longleftrightarrow> (case r of Inl outcome \<Rightarrow> outcome = OUTCOME_FAILED \<and> unit_status k s = Some TASK_FAILED | Inr _ \<Rightarrow> True)"

lemma vlm_phase_wp:
  assumes "unit_status (ru_unit_id u) s0 \<noteq> None" and "quiet (ru_unit_id u) s0 s"
  shows "se_wp (vlm_phase p env us u items refs)
    (\<lambda>r s'. quiet (ru_unit_id u) s0 s' \<and> vlm_ok (ru_unit_id u) r s') (\<lambda>_. quiet (ru_unit_id u) s0) s"
    (is "se_wp _ ?Q ?E s")
  unfolding vlm_phase_def
proof (rule se_wp_bindI [OF call_vlm_wp [OF assms(2)]])
  fix result :: "vlm_output vlm_retry_result" and t
  assume t: "quiet (ru_unit_id u) s0 t"
  let ?n = "vr_attempts result"
  have fail: "se_wp (se_then (mark_unit_failed p env u (vlm_failure_error_code e) e ?n)
      (se_then (finished_event p env us u TASK_FAILED (Some (int ?n)) (Some (vlm_failure_error_code e)) (Some (exn_message e)))
        (se_ret (Inl OUTCOME_FAILED)))) ?Q ?E t" for e
    by (rule se_wp_thenI [OF mark_unit_failed_wp [OF quiet_status [OF t assms(1)] t]])
      (auto simp: wp_simps vlm_ok_def intro!: finished_event_wp)
  then show "se_wp (case vr_error result of
        Some e \<Rightarrow> se_then (mark_unit_failed p env u (vlm_failure_error_code e) e ?n)
          (se_then (finished_event p env us u TASK_FAILED (Some (int ?n)) (Some (vlm_failure_error_code e)) (Some (exn_message e)))
            (se_ret (Inl OUTCOME_FAILED)))
      | None \<Rightarrow> (case vr_output result of
           None \<Rightarrow> se_raise (OtherException [''AssertionError'', ''Exception''] [])
         | Some out \<Rightarrow> se_ret (Inr (result, out)))) ?Q ?E t"
    using t by (auto simp: wp_simps vlm_ok_def split: option.split)
qed

section \<open>What publishing a unit does\<close>

definition from_unit :: "unit_style \<Rightarrow> running_unit \<Rightarrow> observation_record \<Rightarrow> bool" where
  "from_unit us u r \<longleftrightarrow>
     ob_analysis_job_id r = ru_analysis_job_id u \<and> ob_analysis_scale r = us_scale us \<and>
     ob_segment_start_ms r = ru_start_ms u \<and> ob_segment_end_ms r = ru_end_ms u \<and>
     ob_tenant_id r = vs_tenant_id (vc_source (ru_ctx u)) \<and> ob_video_id r = vs_video_id (vc_source (ru_ctx u)) \<and>
     ob_camera_id r = vs_camera_id (vc_source (ru_ctx u)) \<and> ob_location_id r = cam_location_id (vc_camera (ru_ctx u)) \<and>
     ob_access_policy_id r = vc_access_policy_id (ru_ctx u) \<and> ob_security_level r = vc_security_level (ru_ctx u)"

text \<open>
  One record of the unit takes its segment, what it replaces goes to the history, and of the units only
  the one that ran has changed; its row names the record.
\<close>

definition published :: "unit_style \<Rightarrow> running_unit \<Rightarrow> site \<Rightarrow> site \<Rightarrow> bool" where
  "published us u s0 s \<longleftrightarrow> (\<exists>now r. from_unit us u r \<and> records_ok s \<and>
     active_at s = (active_at s0)(segment_key r \<mapsto> observation_to_orm now r) \<and>
     map hr_record_snapshot (mem_history s) = map hr_record_snapshot (mem_history s0) @
       (case active_at s0 (segment_key r) of None \<Rightarrow> [] | Some old \<Rightarrow> [old]) \<and>
     same_but (ru_unit_id u) (db_units (mem_db s0)) (db_units (mem_db s)) \<and>
     map_option au_status (get_unit_row (ru_unit_id u) (mem_db s)) = Some TASK_SUCCEEDED \<and>
     map_option au_produced_record_ids (get_unit_row (ru_unit_id u) (mem_db s)) = Some [ob_record_id r])"

lemma records_upd [simp]:
  "records_ok (t\<lparr>st_timeline := tls\<rparr>) = records_ok t" "active_at (t\<lparr>st_timeline := tls\<rparr>) = active_at t"
  "records_ok (t\<lparr>st_files := fs\<rparr>) = records_ok t" "active_at (t\<lparr>st_files := fs\<rparr>) = active_at t"
  "records_ok (t\<lparr>ct_model_calls := ms\<rparr>) = records_ok t" "active_at (t\<lparr>ct_model_calls := ms\<rparr>) = active_at t"
  "records_ok (t\<lparr>mem_db := d\<rparr>) = records_ok t" "active_at (t\<lparr>mem_db := d\<rparr>) = active_at t"
  by (simp_all add: records_ok_def fts_synced_def active_at_def fun_eq_iff split: option.split)

lemma published_upd [simp]:
  "published us u s0 (s\<lparr>st_timeline := tls\<rparr>) = published us u s0 s"
  "published us u s0 (s\<lparr>st_files := fs\<rparr>) = published us u s0 s"
  by (simp_all add: published_def)

lemma quietD: "quiet k s0 s \<Longrightarrow> core s = core s0"
  by (simp add: quiet_def)

lemma core_records:
  assumes "core s = core s0"
  shows "records_ok s = records_ok s0" and "active_at s = active_at s0" and "mem_history s = mem_history s0"
    and "db_jobs (mem_db s) = db_jobs (mem_db s0)"
proof -
  note eq = assms
  have "records_ok (core t) = records_ok t" "active_at (core t) = active_at t"
    "mem_history (core t) = mem_history t" "db_jobs (mem_db (core t)) = db_jobs (mem_db t)" for t
    by (simp_all add: records_ok_def fts_synced_def active_at_def core_def fun_eq_iff split: option.split)
  with eq show "records_ok s = records_ok s0" and "active_at s = active_at s0" and "mem_history s = mem_history s0"
    and "db_jobs (mem_db s) = db_jobs (mem_db s0)"
    by metis+
qed

lemmas quiet_records = core_records [OF quietD]

lemma same_but_units: "quiet k s0 s \<Longrightarrow> same_but k (db_units (mem_db s0)) (db_units (mem_db s))"
  by (simp add: quiet_def)

lemma publish_ids:
  assumes "records_ok s" and run: "publish_records_atomically now hist audit_id command s = (Inr res, s')"
  shows "pub_created_record_ids res = created_spec now (pc_records command) (active_at s) False \<and>
    pub_updated_record_ids res = created_spec now (pc_records command) (active_at s) True"
proof -
  obtain out s1 where loop: "publish_loop command now hist 0 (pc_records command) ([], [], []) s = (out, s1)" by fastforce
  with run obtain c v a where out: "out = Inr (c, v, a)"
    by (cases out) (auto simp: publish_records_atomically_def session_scope_def se_simps)
  from run have "pub_created_record_ids res = c \<and> pub_updated_record_ids res = v"
    by (auto simp: publish_records_atomically_def session_scope_def se_simps loop out append_event_def split: option.splits)
  with publish_loop_ok [OF assms(1) loop [unfolded out]] show ?thesis by simp
qed

lemma publish_record_ok:
  assumes "records_ok s" and "publish_record env u n r s = (Inr ids, s')"
  shows "records_ok s' \<and>
    active_at s' = (active_at s)(segment_key r \<mapsto> observation_to_orm (un_now env ''publish'') r) \<and>
    map hr_record_snapshot (mem_history s') = map hr_record_snapshot (mem_history s) @
       (case active_at s (segment_key r) of None \<Rightarrow> [] | Some old \<Rightarrow> [old]) \<and>
    db_units (mem_db s') = db_units (mem_db s) \<and> ids = [ob_record_id r]"
proof -
  let ?cmd = "\<lparr>pc_schema_version = ''v1'', pc_command_id = un_id env ''pub'' n, pc_analysis_job_id = ru_analysis_job_id u,
         pc_records = [r], pc_archive_reason = ''rerun''\<rparr>"
  let ?hist = "\<lambda>i. un_id env (''hist.'' @ show_nat i) n"
  obtain res where run: "publish_records_atomically (un_now env ''publish'') ?hist (un_id env ''audit'' n) ?cmd s = (Inr res, s')"
    and ids: "ids = pub_created_record_ids res @ pub_updated_record_ids res"
    using assms(2) unfolding publish_record_def se_bind_def by (auto split: prod.splits sum.splits)
  note ok = publish_ok [OF assms(1), where now = "un_now env ''publish''" and hist = ?hist and audit_id = "un_id env ''audit'' n"
      and command = ?cmd, unfolded run prod.case sum.case]
  have "db_units (mem_db s') = db_units (mem_db s)"
    using ok by (simp add: append_record_publish_summary_def)
  moreover have "ids = [ob_record_id r]"
    using publish_ids [OF assms(1) run] by (simp add: ids split: option.split)
  ultimately show ?thesis using ok by (simp add: publish_spec_def split: option.splits)
qed

lemma unit_mark_succeeded_row:
  assumes "get_unit_row k d \<noteq> None"
  shows "map_option au_status (get_unit_row k (unit_mark_succeeded now k mc ids n d)) = Some TASK_SUCCEEDED"
    and "map_option au_produced_record_ids (get_unit_row k (unit_mark_succeeded now k mc ids n d)) = Some ids"
    and "same_but k (db_units d) (db_units (unit_mark_succeeded now k mc ids n d))"
  using assms unfolding unit_mark_succeeded_def
  by (auto simp: row_get_upd intro!: same_but_upd)

text \<open>What a terminal transaction that publishes and marks leaves behind.\<close>

lemma published_mark:
  assumes pub: "publish_record env u n r s = (Inr ids, s1)" and q: "quiet (ru_unit_id u) s0 s"
    and ok: "records_ok s0" and u: "unit_status (ru_unit_id u) s0 \<noteq> None" and r: "from_unit us u r"
  shows "published us u s0 (s1\<lparr>mem_db := unit_mark_succeeded now (ru_unit_id u) mc ids m (mem_db s1)\<rparr>)"
    and "published us u s0 (s1\<lparr>ct_model_calls := ms, mem_db := unit_mark_succeeded now (ru_unit_id u) mc ids m (mem_db s1)\<rparr>)"
proof -
  note eq = quiet_records [OF q]
  note did = publish_record_ok [OF eq(1) [THEN iffD2, OF ok] pub]
  let ?s = "s1\<lparr>mem_db := unit_mark_succeeded now (ru_unit_id u) mc ids m (mem_db s1)\<rparr>"
  have row: "get_unit_row (ru_unit_id u) (mem_db s1) \<noteq> None"
    using quiet_status [OF q u] did by (auto simp: unit_status_def)
  have "same_but (ru_unit_id u) (db_units (mem_db s0)) (db_units (mem_db s1))"
    using same_but_units [OF q] did by simp
  from same_but_trans [OF this unit_mark_succeeded_row(3) [OF row]]
  have units: "same_but (ru_unit_id u) (db_units (mem_db s0)) (db_units (mem_db ?s))" by simp
  show first: "published us u s0 ?s"
    unfolding published_def
    by (rule exI [of _ "un_now env ''publish''"], rule exI [of _ r])
      (use r did eq units unit_mark_succeeded_row(1,2) [OF row] in simp)
  have "published us u s0 (t\<lparr>ct_model_calls := ms\<rparr>) = published us u s0 t" for t by (simp add: published_def)
  moreover have "s1\<lparr>ct_model_calls := ms, mem_db := unit_mark_succeeded now (ru_unit_id u) mc ids m (mem_db s1)\<rparr> =
      ?s\<lparr>ct_model_calls := ms\<rparr>" by simp
  ultimately show "published us u s0 (s1\<lparr>ct_model_calls := ms, mem_db := unit_mark_succeeded now (ru_unit_id u) mc ids m (mem_db s1)\<rparr>)"
    using first by (simp only:)
qed

lemma context_from_unit:
  assumes "context_record pe (ru_ctx u) rid (ru_analysis_job_id u) (us_scale us) (ru_start_ms u) (ru_end_ms u)
      st dy tags attrs versions = Inr r"
  shows "from_unit us u r"
  using assms by (auto simp: from_unit_def context_record_def validate_record_def split: if_splits)

lemma build_from_unit:
  "build_observation_record pe (ru_ctx u) rid (ru_analysis_job_id u) (us_scale us) (ru_start_ms u) (ru_end_ms u)
      out versions extra = Inr r \<Longrightarrow> from_unit us u r"
  unfolding build_observation_record_def by (rule context_from_unit)

section \<open>A settled unit\<close>

text \<open>What an outcome says of the state \<open>s\<close> that a unit, running in \<open>s0\<close>, leaves.\<close>

definition settled :: "unit_style \<Rightarrow> running_unit \<Rightarrow> site \<Rightarrow> unit_outcome \<Rightarrow> site \<Rightarrow> bool" where
  "settled us u s0 outcome s \<longleftrightarrow>
    (case outcome of
       OUTCOME_SUCCEEDED \<Rightarrow> published us u s0 s
     | OUTCOME_SKIPPED \<Rightarrow> quiet (ru_unit_id u) s0 s \<and> unit_status (ru_unit_id u) s = Some TASK_SKIPPED
     | OUTCOME_FAILED \<Rightarrow> quiet (ru_unit_id u) s0 s \<and> unit_status (ru_unit_id u) s = Some TASK_FAILED)"

lemma settledI:
  "published us u s0 s \<Longrightarrow> settled us u s0 OUTCOME_SUCCEEDED s"
  "quiet (ru_unit_id u) s0 s \<Longrightarrow> unit_status (ru_unit_id u) s = Some TASK_SKIPPED \<Longrightarrow> settled us u s0 OUTCOME_SKIPPED s"
  "quiet (ru_unit_id u) s0 s \<Longrightarrow> unit_status (ru_unit_id u) s = Some TASK_FAILED \<Longrightarrow> settled us u s0 OUTCOME_FAILED s"
  by (simp_all add: settled_def)

definition runnable :: "running_unit \<Rightarrow> site \<Rightarrow> bool" where
  "runnable u s \<longleftrightarrow> records_ok s \<and> unit_status (ru_unit_id u) s \<noteq> None \<and>
     get_job_row (ru_analysis_job_id u) (mem_db s) \<noteq> None"

lemma runnableD:
  assumes "runnable u s"
  shows "records_ok s" and "unit_status (ru_unit_id u) s \<noteq> None" and "get_job_row (ru_analysis_job_id u) (mem_db s) \<noteq> None"
  using assms by (simp_all add: runnable_def)

lemma settled_timeline [simp]: "settled us u s0 outcome (s\<lparr>st_timeline := tls\<rparr>) = settled us u s0 outcome s"
  by (simp add: settled_def split: unit_outcome.split)

lemma cleanup_frames_wp: "published us u s0 s \<Longrightarrow> se_wp (cleanup_frames p items) (\<lambda>_. published us u s0) E s"
  unfolding cleanup_frames_def by (simp add: wp_simps)

lemma announce_success_wp:
  assumes "published us u s0 s"
  shows "se_wp (announce_success p env us u mc md extra n items) (\<lambda>outcome s'. settled us u s0 outcome s') E s"
proof -
  have ev: "se_wp (unit_event p env us u name ph f) (\<lambda>_. published us u s0) E t" if "published us u s0 t" for name ph f t
    by (rule unit_event_wp) (simp add: that)
  show ?thesis
    unfolding announce_success_def
    by (intro se_wp_thenI [OF ev [OF assms]] se_wp_thenI [OF ev] se_wp_thenI [OF cleanup_frames_wp])
      (simp_all add: wp_simps settled_def)
qed

lemma publish_and_mark_wp:
  assumes run: "runnable u s0" and q: "quiet (ru_unit_id u) s0 s"
  shows "se_wp (publish_and_mark p env us u refs manifest result out extra n)
    (\<lambda>(outcome, ids) s'. outcome = OUTCOME_SUCCEEDED \<and> published us u s0 s') (\<lambda>_ _. True) s"
proof -
  obtain job where job: "get_job_row (ru_analysis_job_id u) (mem_db s) = Some job"
    using runnableD(3) [OF run] quiet_records(4) [OF q] by auto
  let ?pv = "if us_logs_prompt_version us then ru_prompt_version u else aj_prompt_version job"
  have pub: "se_wp (publish_record env u n rc) (\<lambda>ids s'. publish_record env u n rc s = (Inr ids, s')) (\<lambda>_ _. True) s" for rc
    by (simp add: se_wp_def split: prod.split sum.split)
  have mark: "se_wp (se_then (create_model_call_log (succeeded_log p env us u refs manifest result out ?pv))
        (se_then (db_write (unit_mark_succeeded (un_now env ''mark_succeeded'') (ru_unit_id u)
            (Some (success_mcall_id env u (vr_attempts result))) ids (Some (int (vr_attempts result)))))
          (se_ret (OUTCOME_SUCCEEDED, ids))))
      (\<lambda>(outcome, ids) s'. outcome = OUTCOME_SUCCEEDED \<and> published us u s0 s') (\<lambda>_ _. True) s1"
    if "publish_record env u n rc s = (Inr ids, s1)" and "from_unit us u rc" for ids s1 rc
    unfolding wp_simps
    by (rule log_writes_wp) (use published_mark(2) [OF that(1) q runnableD(1,2) [OF run] that(2)] in simp_all)
  show ?thesis
    unfolding publish_and_mark_def
    apply (rule se_wp_bindI [where R = "\<lambda>found t. found = Some job \<and> t = s"])
     apply (simp add: wp_simps job)
    apply (elim conjE, simp only: option.case Let_def)
    apply (rule se_wp_bindI [where R = "\<lambda>rc t. t = s \<and> from_unit us u rc"])
     apply (auto simp: wp_simps build_from_unit split: sum.split) [1]
    apply (elim conjE, simp only:)
    apply (rule se_wp_bindI [OF pub])
    apply (rule mark, assumption+)
    done
qed

lemma publish_phase_wp:
  assumes run: "runnable u s0" and q: "quiet (ru_unit_id u) s0 s"
  shows "se_wp (publish_phase p env us u items refs result out extra)
    (\<lambda>outcome s'. settled us u s0 outcome s') (\<lambda>_. quiet (ru_unit_id u) s0) s"
  unfolding publish_phase_def
proof (rule se_wp_bindI)
  show "se_wp (terminal_write p env ''publish_and_mark''
        (publish_and_mark p env us u refs (unit_manifest p env us u items refs) result out extra))
      (\<lambda>(outcome, ids) s'. outcome = OUTCOME_SUCCEEDED \<and> published us u s0 s') (\<lambda>_. quiet (ru_unit_id u) s0) s"
    by (rule terminal_write_wp_of, rule publish_and_mark_wp [OF assms], rule q)
qed (auto simp: announce_success_wp split: prod.split)

lemma after_gate_wp:
  assumes run: "runnable u s0" and q: "quiet (ru_unit_id u) s0 s"
  shows "se_wp (after_gate p env us u items refs extra)
    (\<lambda>outcome s'. settled us u s0 outcome s') (\<lambda>_. quiet (ru_unit_id u) s0) s"
  unfolding after_gate_def
proof (rule se_wp_bindI)
  show "se_wp (at_phase ''vlm'' (vlm_phase p env us u items refs))
      (\<lambda>r s'. quiet (ru_unit_id u) s0 s' \<and> vlm_ok (ru_unit_id u) r s') (\<lambda>_. quiet (ru_unit_id u) s0) s"
    by (rule at_phase_wp, rule vlm_phase_wp [OF runnableD(2) [OF run] q])
qed (auto simp: vlm_ok_def wp_simps intro!: settledI at_phase_wp publish_phase_wp run split: sum.splits)

text \<open>A frames phase that has already settled the unit.\<close>

lemma frames_settled:
  "quiet (ru_unit_id u) s0 s \<Longrightarrow> frames_ok (ru_unit_id u) (FramesDone outcome) s \<Longrightarrow> settled us u s0 outcome s"
  by (auto simp: frames_ok_def settled_def split: unit_outcome.splits)

section \<open>The lifecycle guard\<close>

section \<open>The log ids that a run uses\<close>

text \<open>
  A run draws the ids of its call logs from its environment. No step before the guard's own write uses an id that
  is none of those: \<open>log_free g\<close> says that no log has the id \<open>g\<close>.
\<close>

definition log_free :: "string \<Rightarrow> site \<Rightarrow> bool" where
  "log_free g s \<longleftrightarrow> g \<notin> mc_model_call_id ` set (ct_model_calls s)"

definition own_log_ids :: "unit_env \<Rightarrow> string set" where
  "own_log_ids env = {un_id env ''mcall'' 0, un_id env ''mcall.success'' 0} \<union> range (un_id env ''mcall.attempt'')"

lemma log_free_upd [simp]:
  "log_free g (s\<lparr>mem_db := d\<rparr>) = log_free g s" "log_free g (s\<lparr>st_timeline := tls\<rparr>) = log_free g s"
  "log_free g (s\<lparr>st_files := fs\<rparr>) = log_free g s" "log_free g (s\<lparr>ct_gate_logs := gs\<rparr>) = log_free g s"
  "log_free g (s\<lparr>ct_pre_vlm_logs := ps\<rparr>) = log_free g s"
  by (simp_all add: log_free_def)

lemma se_keeps_wp:
  assumes "\<And>s. P s \<Longrightarrow> se_wp m (\<lambda>_. P) (\<lambda>_. P) s"
  shows "se_keeps P m"
proof (rule se_keepsI)
  fix s assume "P s"
  from assms [OF this] show "P (snd (m s))" by (simp add: se_wp_def split: prod.splits sum.splits)
qed

lemma se_keeps_cases:
  "(b \<Longrightarrow> se_keeps P m) \<Longrightarrow> (\<not> b \<Longrightarrow> se_keeps P n) \<Longrightarrow> se_keeps P (if b then m else n)"
  "se_keeps P m \<Longrightarrow> (\<And>x. se_keeps P (f x)) \<Longrightarrow> se_keeps P (case opt of None \<Rightarrow> m | Some x \<Rightarrow> f x)"
  "(\<And>x. se_keeps P (k x)) \<Longrightarrow> (\<And>x. se_keeps P (f x)) \<Longrightarrow> se_keeps P (case r of Inl x \<Rightarrow> k x | Inr x \<Rightarrow> f x)"
  "(\<And>x y. se_keeps P (h x y)) \<Longrightarrow> se_keeps P (case q of (x, y) \<Rightarrow> h x y)"
  by (cases opt; cases r; cases q; simp)+

lemma keeps_steps:
  "se_keeps P m \<Longrightarrow> se_keeps P (at_phase phase m)"
  "se_keeps (log_free g) (db_write f)"
  "se_keeps (log_free g) (db_read f')"
  "se_keeps (log_free g) (unit_event p env us u name ph h)"
  "se_keeps (log_free g) (create_detector_gate_log y)"
  "se_keeps (log_free g) (create_pre_vlm_gate_log z)"
proof -
  show "se_keeps P m \<Longrightarrow> se_keeps P (at_phase phase m)"
    by (simp add: se_keeps_def at_phase_def prod.case_eq_if sum.case_eq_if)
  show "se_keeps (log_free g) (db_write f)" "se_keeps (log_free g) (db_read f')"
    by (rule se_keeps_wp, simp add: wp_simps)+
  show "se_keeps (log_free g) (unit_event p env us u name ph h)"
    by (rule se_keeps_wp, rule unit_event_wp) simp
  show "se_keeps (log_free g) (create_detector_gate_log y)" "se_keeps (log_free g) (create_pre_vlm_gate_log z)"
    by (rule se_keeps_wp, rule log_writes_wp; simp)+
qed

lemma keeps_call_log: "mc_model_call_id x \<noteq> g \<Longrightarrow> se_keeps (log_free g) (create_model_call_log x)"
  by (auto simp: se_keeps_def log_free_def create_model_call_log_def row_ins_def)

lemma keeps_unit_session: "se_keeps P m \<Longrightarrow> se_keeps P (unit_session env tag n m)"
  using se_keeps_session [of P m] by (auto simp: se_keeps_def unit_session_def split: option.split)

lemma keeps_terminal_write:
  assumes "\<And>n. se_keeps P (work n)"
  shows "se_keeps P (terminal_write p env tag work)"
proof (rule se_keeps_wp)
  fix s assume P: "P s"
  show "se_wp (terminal_write p env tag work) (\<lambda>_. P) (\<lambda>_. P) s"
  proof (rule terminal_write_wp)
    fix n a s' assume "work n s = (Inr a, s')"
    with se_keepsD [OF assms P, of n] show "P s'" by simp
  qed (rule P)
qed

lemma keeps_span:
  "se_keeps (log_free g) (unit_span p env us u name md (se_lift (\<lambda>_. r)))"
  "se_keeps (log_free g) (unit_span p env us u name md (select_body p env u))"
  by (rule se_keeps_wp, rule unit_span_wp, (rule reads_only_lift reads_only_select)+,
      simp add: wp_simps select_body_def split: sum.split)+

lemmas keeps_rules = se_keeps_bind se_keeps_then se_keeps_try se_keeps_iter se_keeps_ret se_keeps_raise se_keeps_lift
  se_keeps_cases keeps_steps keeps_call_log keeps_unit_session keeps_terminal_write keeps_span

lemma call_log_id [simp]: "mc_model_call_id (call_log p us u i st n a b) = i"
  by (simp add: call_log_def)

lemma keeps_frames: "ru_mcall_id u \<noteq> g \<Longrightarrow> se_keeps (log_free g) (frames_phase p env us u)"
  unfolding frames_phase_def skip_without_frames_def terminalize_unit_skipped_def terminalize_unit_failed_def
    finished_event_def write_unit_failed_def
  by (intro keeps_rules) simp_all

lemma keeps_unit_gate: "se_keeps (log_free g) (unit_gate p env us u items)"
proof -
  have eval: "se_keeps (log_free g) (evaluate_gate r (Some (gate_log_writer env)) q)" for r q
    unfolding evaluate_gate_def write_gate_log_def gate_log_writer_def option.case
    by (intro keeps_rules)
  show ?thesis
  proof (cases "un_gate env")
    case None
    then show ?thesis by (simp add: unit_gate_def run_pre_vlm_gate_def se_keeps_ret)
  next
    case (Some r)
    show ?thesis
      unfolding unit_gate_def run_pre_vlm_gate_def Let_def Some option.map prod.case option.case
      by (intro keeps_rules eval)
  qed
qed

lemma keeps_retry_event:
  assumes "ru_mcall_id u \<noteq> g" and "g \<notin> own_log_ids env"
  shows "se_keeps (log_free g) (handle_retry_event p env us u refs manifest ev)"
  unfolding handle_retry_event_def scheduler_run_events_def scheduler_event_def attempt_event_def
    log_failed_attempt_def Let_def
  by (cases ev; simp only: retry_event.case; intro keeps_rules) (use assms in \<open>auto simp: own_log_ids_def\<close>)

lemma keeps_vlm:
  assumes "ru_mcall_id u \<noteq> g" and "g \<notin> own_log_ids env"
  shows "se_keeps (log_free g) (vlm_phase p env us u items refs)"
  unfolding vlm_phase_def call_vlm_def mark_unit_failed_def write_unit_failed_def finished_event_def
  by (intro keeps_rules keeps_retry_event [OF assms])

lemma keeps_publish_record: "se_keeps (log_free g) (publish_record env u n r)"
proof -
  have one: "se_keeps (log_free g) (publish_one c now h x)" for c now h x
    unfolding publish_one_def archive_record_def insert_record_def
    by (auto intro!: se_keepsI simp: se_simps row_ins_def log_free_def split: option.splits if_splits)
  have loop: "se_keeps (log_free g) (publish_loop c now hist k rs acc)" for c now hist k rs acc
  proof (induction rs arbitrary: k acc)
    case (Cons x rs)
    obtain a b d where "acc = (a, b, d)" by (cases acc)
    then show ?case by (simp only: publish_loop.simps) (intro se_keeps_bind one Cons.IH)
  qed (simp add: se_keeps_ret)
  have audit: "se_keeps (log_free g) (append_event ev)" for ev :: audit_event
    by (auto intro!: se_keepsI simp: append_event_def row_ins_def log_free_def split: option.splits if_splits)
  show ?thesis
    unfolding publish_record_def publish_records_atomically_def
    by (intro se_keeps_bind se_keeps_session se_keeps_then se_keeps_cases(4) se_keeps_write se_keeps_ret loop audit) simp
qed

lemma keeps_announce: "se_keeps (log_free g) (announce_success p env us u mc md ex n items)"
  unfolding announce_success_def cleanup_frames_def by (intro keeps_rules se_keeps_write) simp

lemma keeps_publish_phase:
  assumes "ru_mcall_id u \<noteq> g" and "g \<notin> own_log_ids env"
  shows "se_keeps (log_free g) (publish_phase p env us u items refs result out extra)"
  unfolding publish_phase_def publish_and_mark_def Let_def
  by (intro keeps_rules keeps_publish_record keeps_announce)
    (use assms in \<open>auto simp: succeeded_log_def success_mcall_id_def own_log_ids_def Let_def\<close>)

lemma keeps_after_gate:
  assumes "ru_mcall_id u \<noteq> g" and "g \<notin> own_log_ids env"
  shows "se_keeps (log_free g) (after_gate p env us u items refs extra)"
  unfolding after_gate_def by (intro keeps_rules keeps_vlm [OF assms] keeps_publish_phase [OF assms])

text \<open>The write of last resort raises in this state.\<close>

definition last_resort_failed :: "processor \<Rightarrow> unit_env \<Rightarrow> unit_style \<Rightarrow> running_unit \<Rightarrow> site \<Rightarrow> bool" where
  "last_resort_failed p env us u s \<longleftrightarrow>
    (\<exists>phase e e'. terminal_write p env ''force_terminalize'' (force_work p env us u phase e) s = (Inl e', s))"

lemma force_terminalize_wp:
  assumes u: "unit_status (ru_unit_id u) s0 \<noteq> None" and q: "quiet (ru_unit_id u) s0 s"
  shows "se_wp (force_terminalize_running p env us u phase e)
    (\<lambda>_ s'. quiet (ru_unit_id u) s0 s' \<and>
      (unit_status (ru_unit_id u) s' = Some TASK_FAILED \<or> last_resort_failed p env us u s')) E s"
proof -
  let ?wr = "terminal_write p env ''force_terminalize'' (force_work p env us u phase e)"
  let ?Q = "\<lambda>_ s'. quiet (ru_unit_id u) s0 s' \<and> unit_status (ru_unit_id u) s' = Some TASK_FAILED"
  have wp: "se_wp ?wr ?Q (\<lambda>_ s'. s' = s) s"
    unfolding force_work_def
    by (rule terminal_write_wp_of, rule failed_log_wp [OF quiet_status [OF q u] q], rule refl)
  have "last_resort_failed p env us u s" if "?wr s = (Inl e', s)" for e'
    unfolding last_resort_failed_def using that by blast
  with wp q have "se_wp ?wr ?Q (\<lambda>_ s'. quiet (ru_unit_id u) s0 s' \<and> last_resort_failed p env us u s') s"
    by (auto simp: se_wp_def split: prod.splits sum.splits)
  then have "se_wp ?wr (\<lambda>_ s'. quiet (ru_unit_id u) s0 s' \<and>
      (unit_status (ru_unit_id u) s' = Some TASK_FAILED \<or> last_resort_failed p env us u s'))
    (\<lambda>_ s'. quiet (ru_unit_id u) s0 s' \<and> last_resort_failed p env us u s') s"
    by (rule se_wp_mono) auto
  then show ?thesis
    unfolding force_terminalize_running_def by (rule se_wp_tryI) (simp add: wp_simps)
qed

lemma db_write_loop_first: "write 1 s = (Inr a, s') \<Longrightarrow> 0 < left \<Longrightarrow> db_write_loop left 1 m write s = (Inr a, s')"
  by (cases left) auto

text \<open>When its first transaction is not refused, the write raises only if the id drawn for its log is taken.\<close>

lemma last_resort_needs_fresh_id:
  assumes "last_resort_failed p env us u s" and "un_fault env ''force_terminalize'' 1 = None"
  shows "un_id env ''mcall.guard'' 1 \<in> mc_model_call_id ` set (ct_model_calls s)"
proof (rule ccontr)
  assume fresh: "un_id env ''mcall.guard'' 1 \<notin> mc_model_call_id ` set (ct_model_calls s)"
  from assms(1) obtain phase e e' where
    run: "terminal_write p env ''force_terminalize'' (force_work p env us u phase e) s = (Inl e', s)"
    unfolding last_resort_failed_def by blast
  have "\<exists>s'. force_work p env us u phase e 1 s = (Inr (), s')"
    using fresh by (simp add: force_work_def se_simps create_model_call_log_def row_ins_def call_log_def write_unit_failed_def)
  then obtain s' where "unit_session env ''force_terminalize'' 1 (force_work p env us u phase e 1) s = (Inr (), s')"
    using assms(2) by (auto simp: unit_session_def session_scope_def)
  then have "terminal_write p env ''force_terminalize'' (force_work p env us u phase e) s = (Inr (), s')"
    unfolding terminal_write_def run_db_write_with_retry_def
    by (subst db_write_loop_first) simp_all
  with run show False by simp
qed

text \<open>
  What the guard's own write needs: the database does not refuse its first transaction, and the id drawn for its
  log is used neither by a log of the store nor for another log of the run.
\<close>

definition guard_can_write :: "unit_env \<Rightarrow> site \<Rightarrow> bool" where
  "guard_can_write env s \<longleftrightarrow> un_fault env ''force_terminalize'' 1 = None \<and>
    log_free (un_id env ''mcall.guard'' 1) s \<and> un_id env ''mcall.guard'' 1 \<notin> own_log_ids env"

lemma force_terminalize_sure_wp:
  assumes u: "unit_status (ru_unit_id u) s0 \<noteq> None" and q: "quiet (ru_unit_id u) s0 s"
    and can: "un_fault env ''force_terminalize'' 1 = None" "log_free (un_id env ''mcall.guard'' 1) s"
  shows "se_wp (force_terminalize_running p env us u phase e)
    (\<lambda>_ s'. quiet (ru_unit_id u) s0 s' \<and> unit_status (ru_unit_id u) s' = Some TASK_FAILED) E s"
proof -
  let ?wr = "terminal_write p env ''force_terminalize'' (force_work p env us u phase e)"
  have wp: "se_wp ?wr (\<lambda>_ s'. quiet (ru_unit_id u) s0 s' \<and> unit_status (ru_unit_id u) s' = Some TASK_FAILED)
      (\<lambda>_ s'. s' = s) s"
    unfolding force_work_def
    by (rule terminal_write_wp_of, rule failed_log_wp [OF quiet_status [OF q u] q], rule refl)
  have "?wr s \<noteq> (Inl e', s)" for e'
    using last_resort_needs_fresh_id [OF _ can(1), of p us u s] can(2) unfolding last_resort_failed_def log_free_def
    by blast
  with wp have "se_wp ?wr (\<lambda>_ s'. quiet (ru_unit_id u) s0 s' \<and> unit_status (ru_unit_id u) s' = Some TASK_FAILED)
      (\<lambda>_ _. False) s"
    by (auto simp: se_wp_def split: prod.splits sum.splits)
  then show ?thesis
    unfolding force_terminalize_running_def by (rule se_wp_tryI) (simp add: wp_simps)
qed

definition unit_by_key :: "string \<Rightarrow> site \<Rightarrow> analysis_unit option" where
  "unit_by_key key s = row_get au_idempotency_key key (db_units (mem_db s))"

lemma same_but_by_key:
  assumes "same_but k us vs" and "keys_ok au_unit_id us"
    and "row_get au_idempotency_key key us = Some u" and "au_unit_id u = k"
  shows "row_get au_idempotency_key key vs = row_get au_unit_id k vs"
  using assms(1) [unfolded same_but_def] assms(2,3)
proof (induction rule: list_all2_induct)
  case (Cons x xs y ys)
  show ?case
  proof (cases "au_idempotency_key x = key")
    case True
    with Cons.prems Cons.hyps assms(4) show ?thesis by simp
  next
    case False
    with Cons.prems have rest: "row_get au_idempotency_key key xs = Some u" by simp
    then have "u \<in> set xs" using row_get_Some by fast
    with Cons.prems(1) assms(4) have "au_unit_id x \<noteq> k" by (auto simp: keys_ok_def)
    moreover have "keys_ok au_unit_id xs" using Cons.prems(1) by (simp add: keys_ok_def)
    ultimately show ?thesis using Cons.IH [OF _ rest] Cons.hyps False by auto
  qed
qed simp

lemma unit_create_or_get_ok:
  assumes "keys_ok au_unit_id (db_units d)" and "unit_create_or_get t d = (Inr u, d')"
  shows "d' = d\<lparr>db_units := db_units d'\<rparr> \<and> keys_ok au_unit_id (db_units d') \<and>
    row_get au_idempotency_key (au_idempotency_key t) (db_units d') = Some u \<and> (d' = d \<or> u = t)"
proof (cases "row_get au_idempotency_key (au_idempotency_key t) (db_units d)")
  case None
  with assms(2) obtain rows where "row_ins au_unit_id t (db_units d) = Some rows" and "u = t" and d': "d' = d\<lparr>db_units := rows\<rparr>"
    by (auto simp: unit_create_or_get_def row_get_def split: option.splits)
  moreover from this(1) have "rows = db_units d @ [t]" by (simp add: row_ins_def split: if_splits)
  moreover have "row_get au_idempotency_key (au_idempotency_key t) (db_units d @ [t]) = Some t"
    using None by (induction "db_units d") (auto simp: row_get_def find_append split: option.split)
  ultimately show ?thesis using keys_ok_row_ins [OF assms(1)] by simp
next
  case (Some r)
  with assms show ?thesis by (simp add: unit_create_or_get_def row_get_def)
qed

text \<open>What a claimed unit is: the job is there, the row is running, and nothing but unit rows has changed.\<close>

definition already_settled :: "unit_outcome \<Rightarrow> string \<Rightarrow> analysis_unit \<Rightarrow> site \<Rightarrow> bool" where
  "already_settled outcome job_id template s \<longleftrightarrow>
    (case outcome of
       OUTCOME_FAILED \<Rightarrow> get_job_row job_id (mem_db s) = None
     | OUTCOME_SUCCEEDED \<Rightarrow> map_option au_status (unit_by_key (au_idempotency_key template) s) = Some TASK_SUCCEEDED
     | OUTCOME_SKIPPED \<Rightarrow> map_option au_status (unit_by_key (au_idempotency_key template) s) = Some TASK_SKIPPED)"

definition claimed :: "string \<Rightarrow> analysis_unit \<Rightarrow> site \<Rightarrow> analysis_unit \<Rightarrow> site \<Rightarrow> bool" where
  "claimed job_id template s row s1 \<longleftrightarrow>
    get_job_row job_id (mem_db s1) \<noteq> None \<and> core s1 = core s \<and> ct_model_calls s1 = ct_model_calls s \<and> keys_ok au_unit_id (db_units (mem_db s1)) \<and>
    unit_status (au_unit_id row) s1 = Some TASK_RUNNING \<and>
    map_option au_unit_id (unit_by_key (au_idempotency_key template) s1) = Some (au_unit_id row)"

lemma claim_mark:
  assumes keys: "keys_ok au_unit_id us" and u: "row_get au_idempotency_key (au_idempotency_key template) us = Some u"
    and job: "get_job_row job_id (mem_db s) \<noteq> None"
  shows "claimed job_id template s u
    (s\<lparr>mem_db := unit_mark_running now (au_unit_id u) mc ((mem_db s)\<lparr>db_units := us\<rparr>)\<rparr>)"
proof -
  let ?t = "s\<lparr>mem_db := (mem_db s)\<lparr>db_units := us\<rparr>\<rparr>"
  let ?s = "?t\<lparr>mem_db := unit_mark_running now (au_unit_id u) mc (mem_db ?t)\<rparr>"
  have "u \<in> set us" using u row_get_Some by fast
  then have "unit_status (au_unit_id u) ?t \<noteq> None" by (auto simp: unit_status_def row_get_None_iff)
  then have status: "unit_status (au_unit_id u) ?s = Some TASK_RUNNING" by (rule unit_marks_status(3))
  have q: "quiet (au_unit_id u) ?t ?s" by (rule unit_marks_keep(3)) simp
  then have units: "same_but (au_unit_id u) us (db_units (mem_db ?s))" by (simp add: quiet_def)
  have "core ?s = core s" using q by (simp add: quiet_def)
  moreover have "keys_ok au_unit_id (db_units (mem_db ?s))"
    using keys same_but_ids [OF units] by (simp only: keys_ok_def)
  moreover have "map_option au_unit_id (unit_by_key (au_idempotency_key template) ?s) = Some (au_unit_id u)"
    unfolding unit_by_key_def same_but_by_key [OF units keys u refl]
    using status row_get_key unfolding unit_status_def by fastforce
  moreover have "get_job_row job_id (mem_db ?s) \<noteq> None" using job quiet_records(4) [OF q] by simp
  moreover have "ct_model_calls ?s = ct_model_calls s" by simp
  ultimately have "claimed job_id template s u ?s" using status by (simp only: claimed_def simp_thms)
  then show ?thesis by simp
qed

lemma claim_work_wp:
  assumes keys: "keys_ok au_unit_id (db_units (mem_db s))" and fresh: "au_status template = TASK_PENDING"
  shows "se_wp (claim_work env job_id template mcall_id)
    (\<lambda>c s1. case c of
        AlreadySettled outcome \<Rightarrow> s1 = s \<and> already_settled outcome job_id template s
      | ClaimedUnit row job \<Rightarrow> claimed job_id template s row s1) (\<lambda>_ _. True) s"
proof (cases "get_job_row job_id (mem_db s)")
  case None
  then show ?thesis by (simp add: claim_work_def wp_simps already_settled_def)
next
  case (Some job)
  have get: "se_wp (on_db (unit_create_or_get template))
      (\<lambda>u s1. \<exists>us. s1 = s\<lparr>mem_db := (mem_db s)\<lparr>db_units := us\<rparr>\<rparr> \<and> keys_ok au_unit_id us \<and>
         row_get au_idempotency_key (au_idempotency_key template) us = Some u \<and> (us = db_units (mem_db s) \<or> u = template))
      (\<lambda>_ _. True) s"
  proof (rule se_wpI)
    fix u s1 assume "on_db (unit_create_or_get template) s = (Inr u, s1)"
    then obtain d' where d': "unit_create_or_get template (mem_db s) = (Inr u, d')" and s1: "s1 = s\<lparr>mem_db := d'\<rparr>"
      by (auto simp: on_db_def split: prod.splits)
    note ok = unit_create_or_get_ok [OF keys d']
    have "s1 = s\<lparr>mem_db := (mem_db s)\<lparr>db_units := db_units d'\<rparr>\<rparr>" using ok s1 by simp
    moreover have "db_units d' = db_units (mem_db s) \<or> u = template" using ok by auto
    ultimately show "\<exists>us. s1 = s\<lparr>mem_db := (mem_db s)\<lparr>db_units := us\<rparr>\<rparr> \<and> keys_ok au_unit_id us \<and>
         row_get au_idempotency_key (au_idempotency_key template) us = Some u \<and> (us = db_units (mem_db s) \<or> u = template)"
      using ok by (intro exI [of _ "db_units d'"]) simp
  qed simp
  show ?thesis
    unfolding claim_work_def
    apply (rule se_wp_bindI [where R = "\<lambda>found t. found = Some job \<and> t = s"])
     apply (simp add: wp_simps Some)
    apply (elim conjE, simp only: option.case)
    apply (rule se_wp_bindI [OF get])
    apply (elim exE conjE)
    apply (simp only:)
    apply (auto simp: wp_simps already_settled_def unit_by_key_def fresh Some claim_mark)
    done
qed

section \<open>The contract of a body\<close>

text \<open>
  The guard relies on one law of the body that it protects: in a state where the unit can run, the body
  settles it, and an exception that escapes has changed nothing that a reader of records sees.
\<close>

locale unit_body =
  fixes us :: unit_style
    and env :: unit_env
    and body :: "running_unit \<Rightarrow> (site, string \<times> exn, unit_outcome) se"
  assumes settles: "runnable u s \<Longrightarrow>
    se_wp (body u) (\<lambda>outcome s'. settled us u s outcome s') (\<lambda>_ s'. quiet (ru_unit_id u) s s') s"
    and keeps_ids: "ru_mcall_id u \<noteq> g \<Longrightarrow> g \<notin> own_log_ids env \<Longrightarrow> se_keeps (log_free g) (body u)"

text \<open>How a run ends, seen from the state \<open>s1\<close> in which the unit was claimed.\<close>

definition ended ::
  "unit_env \<Rightarrow> unit_style \<Rightarrow> running_unit \<Rightarrow> site \<Rightarrow> unit_outcome \<Rightarrow> site \<Rightarrow> bool" where
  "ended env us u s1 outcome s' \<longleftrightarrow> settled us u s1 outcome s' \<or>
     outcome = OUTCOME_FAILED \<and> quiet (ru_unit_id u) s1 s' \<and> \<not> guard_can_write env s1"

text \<open>What a run, from the claim on, leaves in a store whose unit ids are unique.\<close>

definition run_result ::
  "unit_env \<Rightarrow> unit_style \<Rightarrow> string \<Rightarrow> analysis_unit \<Rightarrow> int \<Rightarrow> int \<Rightarrow> video_context \<Rightarrow> site \<Rightarrow> unit_outcome \<Rightarrow> site \<Rightarrow> bool" where
  "run_result env us job_id template a b ctx s outcome s' \<longleftrightarrow>
    s' = s \<and> already_settled outcome job_id template s \<or>
    (\<exists>u row s1. claimed job_id template s row s1 \<and> ended env us u s1 outcome s' \<and>
       ru_unit_id u = au_unit_id row \<and> ru_start_ms u = a \<and> ru_end_ms u = b \<and> ru_analysis_job_id u = job_id \<and> ru_ctx u = ctx)"

context unit_body
begin

lemma guard_wp:
  assumes run: "runnable u s" and mcall: "ru_mcall_id u = un_id env ''mcall'' 0"
  shows "se_wp (guard_unit p env us body u) (\<lambda>outcome s'. ended env us u s outcome s') E s"
proof (cases "body u s")
  case (Pair r t)
  show ?thesis
  proof (cases r)
    case (Inr outcome)
    with Pair se_wp_Inr [OF settles [OF run]] show ?thesis
      by (simp add: se_wp_def guard_unit_def ended_def)
  next
    case (Inl f)
    then obtain phase e where f: "r = Inl (phase, e)" by (cases f) simp
    have t: "quiet (ru_unit_id u) s t" using se_wp_Inl [OF settles [OF run]] Pair f by simp
    have sure: "se_wp (force_terminalize_running p env us u phase e) (\<lambda>_ s'. quiet (ru_unit_id u) s s' \<and>
        (unit_status (ru_unit_id u) s' = Some TASK_FAILED \<or> \<not> guard_can_write env s)) E t"
    proof (cases "guard_can_write env s")
      case True
      then have own: "un_id env ''mcall.guard'' 1 \<notin> own_log_ids env" and free: "log_free (un_id env ''mcall.guard'' 1) s"
        and fault: "un_fault env ''force_terminalize'' 1 = None"
        by (simp_all add: guard_can_write_def)
      have "ru_mcall_id u \<noteq> un_id env ''mcall.guard'' 1" using own by (auto simp: mcall own_log_ids_def)
      then have "se_keeps (log_free (un_id env ''mcall.guard'' 1)) (body u)" using own by (rule keeps_ids)
      from se_keepsD [OF this, OF free] have "log_free (un_id env ''mcall.guard'' 1) t" unfolding Pair snd_conv .
      from force_terminalize_sure_wp [OF runnableD(2) [OF run] t fault this] show ?thesis
        by (rule se_wp_mono) auto
    next
      case False
      from force_terminalize_wp [OF runnableD(2) [OF run] t] show ?thesis
        by (rule se_wp_mono) (auto simp: False)
    qed
    have "se_wp (se_then (force_terminalize_running p env us u phase e) (se_ret OUTCOME_FAILED))
        (\<lambda>outcome s'. ended env us u s outcome s') E t"
      by (rule se_wp_thenI [OF sure]) (auto simp: wp_simps ended_def intro: settledI)
    then show ?thesis by (simp add: se_wp_def guard_unit_def Pair f)
  qed
qed

lemma guarded_run_wp:
  assumes ok: "records_ok s" and keys: "keys_ok au_unit_id (db_units (mem_db s))" and fresh: "au_status template = TASK_PENDING"
  shows "se_wp (guarded_run p env us body pv template a b job_id vid ctx trg)
    (\<lambda>outcome s'. run_result env us job_id template a b ctx s outcome s') (\<lambda>_ s'. s' = s) s"
proof -
  have claim: "se_wp (claim_unit env job_id template (un_id env ''mcall'' 0))
      (\<lambda>c s1. case c of
        AlreadySettled outcome \<Rightarrow> s1 = s \<and> already_settled outcome job_id template s
      | ClaimedUnit row job \<Rightarrow> claimed job_id template s row s1) (\<lambda>_ s'. s' = s) s"
    unfolding claim_unit_def
    by (rule unit_session_wp) (auto intro: se_wp_mono [OF claim_work_wp [OF keys fresh]])
  show ?thesis
    unfolding guarded_run_def Let_def
  proof (rule se_wp_bindI [OF claim])
    fix c s1
    assume c: "case c of
        AlreadySettled outcome \<Rightarrow> s1 = s \<and> already_settled outcome job_id template s
      | ClaimedUnit row job \<Rightarrow> claimed job_id template s row s1"
    let ?u = "\<lambda>row job. \<lparr>ru_unit_id = au_unit_id row, ru_mcall_id = un_id env ''mcall'' 0, ru_start_ms = a, ru_end_ms = b,
           ru_analysis_job_id = job_id, ru_video_id = vid, ru_ctx = ctx,
           ru_prompt_version = pv job, ru_model_version = aj_model_version job, ru_trigger_context = trg\<rparr>"
    let ?run = "\<lambda>row job. se_then (unit_event p env us (?u row job) ''unit_running'' PHASE_INSTANT
          (\<lambda>f. f\<lparr>em_status := task_status_text TASK_RUNNING, em_attempt_count := Some (au_attempt_count row + 1)\<rparr>))
        (guard_unit p env us body (?u row job))"
    have run: "se_wp (?run row job) (\<lambda>outcome s'. run_result env us job_id template a b ctx s outcome s')
        (\<lambda>_ s'. s' = s) s1" if cl: "claimed job_id template s row s1" for row job
    proof (unfold wp_simps, rule unit_event_wp)
      fix tls
      let ?t = "s1\<lparr>st_timeline := tls\<rparr>"
      have cl': "claimed job_id template s row ?t" using cl by (simp add: claimed_def unit_by_key_def)
      have "core s1 = core s" using cl by (simp only: claimed_def)
      from core_records(1) [OF this] ok have "records_ok ?t" by simp
      then have "runnable (?u row job) ?t" using cl by (simp add: runnable_def claimed_def)
      moreover have "ru_mcall_id (?u row job) = un_id env ''mcall'' 0" by simp
      ultimately have guard: "se_wp (guard_unit p env us body (?u row job))
          (\<lambda>outcome s'. ended env us (?u row job) ?t outcome s') (\<lambda>_ s'. s' = s) ?t"
        by (rule guard_wp)
      from guard
      show "se_wp (guard_unit p env us body (?u row job))
          (\<lambda>outcome s'. run_result env us job_id template a b ctx s outcome s') (\<lambda>_ s'. s' = s) ?t"
      proof (rule se_wp_mono)
        fix outcome s' assume e: "ended env us (?u row job) ?t outcome s'"
        show "run_result env us job_id template a b ctx s outcome s'"
          unfolding run_result_def
          by (rule disjI2, rule exI [of _ "?u row job"], rule exI [of _ row], rule exI [of _ ?t]) (simp add: cl' e)
      qed
    qed
    from c show "se_wp (case c of AlreadySettled outcome \<Rightarrow> se_ret outcome | ClaimedUnit row job \<Rightarrow> ?run row job)
        (\<lambda>outcome s'. run_result env us job_id template a b ctx s outcome s') (\<lambda>_ s'. s' = s) s1"
    proof (cases c)
      case (AlreadySettled outcome)
      with c show ?thesis by (simp add: wp_simps run_result_def)
    next
      case (ClaimedUnit row job)
      with c run show ?thesis by (simp only: claim_result.case)
    qed
  qed
qed

end

section \<open>What a run means for its unit's row and for readers\<close>

text \<open>
  The row with the key of the template says the outcome; only the case of a missing job and that of a guard that
  cannot write are left out. Without a success, readers see the records they saw before; with
  one, either the unit had succeeded earlier and nothing changes or one segment has a new record.
\<close>

definition outcome_status :: "unit_outcome \<Rightarrow> task_status" where
  "outcome_status outcome =
    (case outcome of OUTCOME_SUCCEEDED \<Rightarrow> TASK_SUCCEEDED | OUTCOME_FAILED \<Rightarrow> TASK_FAILED | OUTCOME_SKIPPED \<Rightarrow> TASK_SKIPPED)"

definition one_record_of ::
  "unit_style \<Rightarrow> string \<Rightarrow> int \<Rightarrow> int \<Rightarrow> video_context \<Rightarrow> observation_record \<Rightarrow> bool" where
  "one_record_of us job_id a b ctx r \<longleftrightarrow>
     ob_analysis_job_id r = job_id \<and> ob_analysis_scale r = us_scale us \<and> ob_segment_start_ms r = a \<and>
     ob_segment_end_ms r = b \<and> ob_tenant_id r = vs_tenant_id (vc_source ctx) \<and>
     ob_video_id r = vs_video_id (vc_source ctx) \<and> ob_camera_id r = vs_camera_id (vc_source ctx) \<and>
     ob_location_id r = cam_location_id (vc_camera ctx) \<and> ob_access_policy_id r = vc_access_policy_id ctx \<and>
     ob_security_level r = vc_security_level ctx"

lemma claimed_row:
  assumes cl: "claimed job_id template s row s1" and units: "same_but (au_unit_id row) (db_units (mem_db s1)) (db_units (mem_db s'))"
  shows "map_option au_status (unit_by_key (au_idempotency_key template) s') = unit_status (au_unit_id row) s'"
proof -
  from cl obtain u where "row_get au_idempotency_key (au_idempotency_key template) (db_units (mem_db s1)) = Some u"
    and "au_unit_id u = au_unit_id row" and "keys_ok au_unit_id (db_units (mem_db s1))"
    by (auto simp: claimed_def unit_by_key_def)
  from same_but_by_key [OF units this(3,1,2)] show ?thesis by (simp add: unit_by_key_def unit_status_def)
qed

lemma ended_units:
  "ended env us u s1 outcome s' \<Longrightarrow> same_but (ru_unit_id u) (db_units (mem_db s1)) (db_units (mem_db s'))"
  by (auto simp: ended_def settled_def published_def quiet_def split: unit_outcome.splits)

lemma ended_status:
  "ended env us u s1 outcome s' \<Longrightarrow>
   unit_status (ru_unit_id u) s' = Some (outcome_status outcome) \<or> outcome = OUTCOME_FAILED \<and> \<not> guard_can_write env s1"
  by (auto simp: ended_def settled_def published_def unit_status_def outcome_status_def split: unit_outcome.splits)

lemma run_result_row:
  assumes "run_result env us job_id template a b ctx s outcome s'"
  shows "map_option au_status (unit_by_key (au_idempotency_key template) s') = Some (outcome_status outcome) \<or>
    outcome = OUTCOME_FAILED \<and> (s' = s \<and> get_job_row job_id (mem_db s) = None \<or> \<not> guard_can_write env s)"
  using assms unfolding run_result_def
proof (elim disjE exE conjE)
  assume "s' = s" and "already_settled outcome job_id template s"
  then show ?thesis by (auto simp: already_settled_def outcome_status_def split: unit_outcome.splits)
next
  fix u row s1
  assume cl: "claimed job_id template s row s1" and e: "ended env us u s1 outcome s'" and u: "ru_unit_id u = au_unit_id row"
  have "guard_can_write env s1 = guard_can_write env s"
    using cl by (simp add: claimed_def guard_can_write_def log_free_def)
  with claimed_row [OF cl ended_units [OF e, unfolded u]] ended_status [OF e, unfolded u]
  show ?thesis by auto
qed

lemma run_result_records:
  assumes "run_result env us job_id template a b ctx s outcome s'"
  shows "active_at s' = active_at s \<or>
    outcome = OUTCOME_SUCCEEDED \<and> (\<exists>now r. one_record_of us job_id a b ctx r \<and>
      active_at s' = (active_at s)(segment_key r \<mapsto> observation_to_orm now r))"
  using assms unfolding run_result_def
proof (elim disjE exE conjE)
  fix u row s1
  assume "claimed job_id template s row s1" and e: "ended env us u s1 outcome s'" and u: "ru_start_ms u = a"
    "ru_end_ms u = b" "ru_analysis_job_id u = job_id" "ru_ctx u = ctx"
  then have "core s1 = core s" by (simp only: claimed_def)
  note s1 = core_records(2) [OF this]
  from e consider "quiet (ru_unit_id u) s1 s'" | "outcome = OUTCOME_SUCCEEDED" and "published us u s1 s'"
    by (auto simp: ended_def settled_def split: unit_outcome.splits)
  then show ?thesis
  proof cases
    case 1
    from quiet_records(2) [OF this] s1 show ?thesis by simp
  next
    case 2
    then obtain now r where r: "from_unit us u r"
      and "active_at s' = (active_at s1)(segment_key r \<mapsto> observation_to_orm now r)"
      unfolding published_def by blast
    moreover have "one_record_of us job_id a b ctx r" using r u by (simp add: from_unit_def one_record_of_def)
    ultimately show ?thesis unfolding s1 using 2(1) by blast
  qed
qed simp

end
