(* ===== verification/Cctv_Processors.thy ===== *)
theory Cctv_Processors
  imports Cctv_Lifecycle Cctv_Windows
begin

text \<open>
  The two scale processors (\<^verbatim>\<open>workers/default_segment.py\<close>, \<^verbatim>\<open>workers/high_freq_event.py\<close>): planning of
  the units, the bodies between claim and terminal state, the isolated run of a unit, the run in the
  session of the worker when there is no runtime, and the tally over all units. The bodies keep the
  contract of the lifecycle guard.
\<close>

section \<open>The two styles\<close>

definition ds_style :: unit_style where
  "ds_style = \<lparr>us_scale = DEFAULT_SEGMENT, us_kind = ''default_segment_window'', us_logs_prompt_version = False\<rparr>"

definition hf_style :: unit_style where
  "hf_style = \<lparr>us_scale = HIGH_FREQ_EVENT, us_kind = ''high_freq_event_window'', us_logs_prompt_version = True\<rparr>"

definition prompt_version_for_scale :: "analysis_scale \<Rightarrow> string" where
  "prompt_version_for_scale scale =
    (if scale = HIGH_FREQ_EVENT then ''high_freq_event_v3'' else ''default_segment_v3'')"

section \<open>The gate in front of the model\<close>

text \<open>A schema error of the detector fails the unit; every other exception escapes to the guard.\<close>

definition asked_gate ::
  "processor \<Rightarrow> unit_env \<Rightarrow> unit_style \<Rightarrow> running_unit \<Rightarrow> media_input list \<Rightarrow> (unit_outcome + gate_bundle option) site_m" where
  "asked_gate p env us u items =
    se_try (se_bind (unit_gate p env us u items) (\<lambda>b. se_ret (Inr b)))
      (\<lambda>e. if is_od_schema_error e
        then se_then (mark_unit_failed p env u ''object_detection_schema_validation_failed'' e 0) (se_ret (Inl OUTCOME_FAILED))
        else se_raise e)"

definition gate_decision_dump :: "gate_decision \<Rightarrow> json" where
  "gate_decision_dump d = JsObj
    [(''schema_version'', JsStr ''pre_vlm_gate_v1''), (''triggered_vlm'', JsBool (gd_triggered_vlm d)),
     (''action'', JsStr (gate_action_value (gd_action d))), (''matched_rules'', JsArr (map JsStr (gd_matched_rules d))),
     (''positive_frame_ratio_by_label'', JsObj (map (\<lambda>(l, x). (l, JsReal x)) (gd_positive_frame_ratio_by_label d))),
     (''reason'', JsStr (gd_reason d)), (''evidence_hash'', JsStr (gd_evidence_hash d)),
     (''rule_config_hash'', js_opt JsStr (gd_rule_config_hash d)),
     (''suppression_policy'', js_opt (\<lambda>s. JsStr (gate_suppression_value s)) (gd_suppression_policy d))]"

definition suppressed_event ::
  "processor \<Rightarrow> unit_env \<Rightarrow> unit_style \<Rightarrow> running_unit \<Rightarrow> string \<Rightarrow> jdict \<Rightarrow> unit site_m" where
  "suppressed_event p env us u name metadata = unit_event p env us u name PHASE_INSTANT
     (\<lambda>f. f\<lparr>em_status := Some ''suppressed_vlm'', em_metadata := metadata\<rparr>)"

section \<open>The default-segment body\<close>

definition detector_only_work ::
  "processor \<Rightarrow> unit_env \<Rightarrow> running_unit \<Rightarrow> jdict \<Rightarrow> nat \<Rightarrow> string list site_m" where
  "detector_only_work p env u summary n =
    se_bind (se_lift (\<lambda>_. build_detector_only_record (un_py env) (ru_ctx u) (un_id env ''obs'' n) (ru_analysis_job_id u)
        (us_scale ds_style) (ru_start_ms u) (ru_end_ms u)
        (ru_model_version u, ru_prompt_version u, Some (pc_pipeline_version p)) summary)) (\<lambda>r.
      se_bind (publish_record env u n r) (\<lambda>ids.
        se_then (db_write (unit_mark_succeeded (un_now env ''mark_succeeded'') (ru_unit_id u) None ids (Some 0)))
          (se_ret ids)))"

text \<open>A suppressed default unit still publishes a record; its events carry the video of the context.\<close>

definition publish_detector_only_unit ::
  "processor \<Rightarrow> unit_env \<Rightarrow> running_unit \<Rightarrow> media_input list \<Rightarrow> jdict \<Rightarrow> unit_outcome site_m" where
  "publish_detector_only_unit p env u items summary =
    se_bind (terminal_write p env ''publish_detector_only'' (detector_only_work p env u summary)) (\<lambda>ids.
      announce_success p env ds_style (u\<lparr>ru_video_id := vs_video_id (vc_source (ru_ctx u))\<rparr>) None
        (published_metadata ids) [(''detector_only'', JsBool True)] 0 items)"

definition detector_log ::
  "processor \<Rightarrow> unit_env \<Rightarrow> running_unit \<Rightarrow> detector_gate_bundle \<Rightarrow> detector_gate_log" where
  "detector_log p env u g =
    \<lparr>dl_gate_log_id = un_id env ''gate'' 0, dl_analysis_job_id = ru_analysis_job_id u, dl_scale_task_id = pc_scale_task_id p,
     dl_unit_id = ru_unit_id u, dl_video_id = ru_video_id u, dl_analysis_scale = us_scale ds_style,
     dl_segment_start_ms = ru_start_ms u, dl_segment_end_ms = ru_end_ms u, dl_provider = pc_detector_gate_provider p,
     dl_model_id = Some (pc_detector_gate_model_id p), dl_status = ''succeeded'', dl_decision = dg_decision g,
     dl_frame_evidence = dg_frame_evidence g, dl_evidence_hash = dg_evidence_hash g,
     dl_rule_config_hash = Some (dg_rule_config_hash g), dl_started_at = Some (un_now env ''gate_started''),
     dl_finished_at = Some (un_now env ''gate_finished''), dl_duration_ms = Some (un_elapsed env ''gate'')\<rparr>"

definition detector_verdict ::
  "processor \<Rightarrow> unit_env \<Rightarrow> (frame_input list \<Rightarrow> exn + frame_result list) \<Rightarrow> frame_input list \<Rightarrow> exn + detector_gate_bundle" where
  "detector_verdict p env detect frames =
    (case detect frames of
       Inl e \<Rightarrow> Inl e
     | Inr results \<Rightarrow> decide_detector_gate (un_py env) results (pc_detector_gate_rules p) (pc_detector_gate_provider p)
         (pc_detector_gate_model_id p) (un_id env ''gate'' 0))"

text \<open>The older detector gate: it is asked only when the profile of the newer one does not apply.\<close>

definition detector_gate_phase ::
  "processor \<Rightarrow> unit_env \<Rightarrow> running_unit \<Rightarrow> media_input list \<Rightarrow>
   (frame_input list \<Rightarrow> exn + frame_result list) \<Rightarrow> (unit_outcome + jdict option) site_m" where
  "detector_gate_phase p env u items detect =
    (let frames = build_detector_frame_inputs (un_file_sha256 env) items;
         gate_id = (''gate_log_id'', JsStr (un_id env ''gate'' 0))
     in se_bind (unit_span p env ds_style u ''detector_gate'' [gate_id, (''frame_count'', JsInt (int (length frames)))]
          (se_lift (\<lambda>_. detector_verdict p env detect frames))) (\<lambda>g.
        se_then (terminal_write p env ''detector_gate_log'' (\<lambda>_. create_detector_gate_log (detector_log p env u g)))
        (if dg_triggered_vlm g then se_ret (Inr (Some (dg_summary g)))
         else se_then (suppressed_event p env ds_style u ''detector_gate_suppressed'' [gate_id, (''decision'', JsObj (dg_decision g))])
           (se_bind (publish_detector_only_unit p env u items (dg_summary g)) (\<lambda>outcome. se_ret (Inl outcome))))))"

definition ds_gates ::
  "processor \<Rightarrow> unit_env \<Rightarrow> running_unit \<Rightarrow> media_input list \<Rightarrow> (unit_outcome + jdict option) site_m" where
  "ds_gates p env u items =
    se_bind (asked_gate p env ds_style u items) (\<lambda>g.
      case g of
        Inl outcome \<Rightarrow> se_ret (Inl outcome)
      | Inr (Some b) \<Rightarrow>
          if gb_triggered_vlm b then se_ret (Inr (Some (gb_summary b)))
          else se_then (suppressed_event p env ds_style u ''pre_vlm_gate_suppressed'' [(''decision'', gate_decision_dump (gb_decision b))])
            (se_bind (publish_detector_only_unit p env u items (gb_summary b)) (\<lambda>outcome. se_ret (Inl outcome)))
      | Inr None \<Rightarrow>
          (case un_detect_frames env of
             Some detect \<Rightarrow> if pc_detector_gate_enabled p then detector_gate_phase p env u items detect else se_ret (Inr None)
           | None \<Rightarrow> se_ret (Inr None)))"

definition detector_attributes :: "jdict option \<Rightarrow> jdict option" where
  "detector_attributes summary = map_option (\<lambda>d. [(''detector_gate'', JsObj d)]) summary"

text \<open>
  A body is the frames, the gates and what follows the gates. \<open>gates\<close> says whether the unit has ended
  or what extra attributes its record gets.
\<close>

definition unit_execute ::
  "processor \<Rightarrow> unit_env \<Rightarrow> unit_style \<Rightarrow> (running_unit \<Rightarrow> media_input list \<Rightarrow> (unit_outcome + jdict option) site_m) \<Rightarrow>
   (running_unit \<Rightarrow> media_input list \<Rightarrow> jdict list \<Rightarrow> jdict option \<Rightarrow> (site, string \<times> exn, unit_outcome) se) \<Rightarrow>
   running_unit \<Rightarrow> (site, string \<times> exn, unit_outcome) se" where
  "unit_execute p env us gates rest u =
    se_bind (at_phase ''pre_vlm'' (frames_phase p env us u)) (\<lambda>r.
      case r of
        FramesDone outcome \<Rightarrow> se_ret outcome
      | FramesReady items refs \<Rightarrow>
          se_bind (at_phase ''pre_vlm'' (gates u items)) (\<lambda>g.
            case g of
              Inl outcome \<Rightarrow> se_ret outcome
            | Inr extra \<Rightarrow> rest u items refs extra))"

definition ds_execute :: "processor \<Rightarrow> unit_env \<Rightarrow> running_unit \<Rightarrow> (site, string \<times> exn, unit_outcome) se" where
  "ds_execute p env = unit_execute p env ds_style (ds_gates p env)
    (\<lambda>u items refs summary. after_gate p env ds_style u items refs (detector_attributes summary))"

section \<open>The high-frequency body\<close>

text \<open>A suppressed event unit publishes nothing and is skipped.\<close>

definition hf_gates ::
  "processor \<Rightarrow> unit_env \<Rightarrow> running_unit \<Rightarrow> media_input list \<Rightarrow> (unit_outcome + jdict option) site_m" where
  "hf_gates p env u items =
    se_bind (asked_gate p env hf_style u items) (\<lambda>g.
      case g of
        Inl outcome \<Rightarrow> se_ret (Inl outcome)
      | Inr None \<Rightarrow> se_ret (Inr None)
      | Inr (Some b) \<Rightarrow>
          if gb_triggered_vlm b then se_ret (Inr None)
          else se_then (terminalize_unit_skipped p env u ''pre_vlm_gate_suppressed'')
            (se_then (suppressed_event p env hf_style u ''pre_vlm_gate_suppressed''
                [(''decision'', gate_decision_dump (gb_decision b))])
              (se_ret (Inl OUTCOME_SKIPPED))))"

definition hf_vlm_phase ::
  "processor \<Rightarrow> unit_env \<Rightarrow> running_unit \<Rightarrow> media_input list \<Rightarrow> jdict list \<Rightarrow>
   (unit_outcome + vlm_output vlm_retry_result \<times> vlm_output) site_m" where
  "hf_vlm_phase p env u items refs = vlm_phase p env hf_style u items refs"

definition hf_publish_phase ::
  "processor \<Rightarrow> unit_env \<Rightarrow> running_unit \<Rightarrow> media_input list \<Rightarrow> jdict list \<Rightarrow>
   vlm_output vlm_retry_result \<Rightarrow> vlm_output \<Rightarrow> unit_outcome site_m" where
  "hf_publish_phase p env u items refs result out = publish_phase p env hf_style u items refs result out None"

definition hf_after_gate ::
  "processor \<Rightarrow> unit_env \<Rightarrow> running_unit \<Rightarrow> media_input list \<Rightarrow> jdict list \<Rightarrow> (site, string \<times> exn, unit_outcome) se" where
  "hf_after_gate p env u items refs =
    se_bind (at_phase ''vlm'' (hf_vlm_phase p env u items refs)) (\<lambda>r.
      case r of
        Inl outcome \<Rightarrow> se_ret outcome
      | Inr (result, out) \<Rightarrow> at_phase ''post_vlm'' (hf_publish_phase p env u items refs result out))"

definition hf_execute :: "processor \<Rightarrow> unit_env \<Rightarrow> running_unit \<Rightarrow> (site, string \<times> exn, unit_outcome) se" where
  "hf_execute p env = unit_execute p env hf_style (hf_gates p env) (\<lambda>u items refs _. hf_after_gate p env u items refs)"

section \<open>Planning\<close>

definition unit_template ::
  "processor \<Rightarrow> unit_style \<Rightarrow> string \<Rightarrow> string \<Rightarrow> string \<Rightarrow> nat \<Rightarrow> string option \<Rightarrow> segment_window \<Rightarrow> analysis_unit" where
  "unit_template p us job_id video_id unit_id index trigger w =
    \<lparr>au_unit_id = unit_id, au_analysis_job_id = job_id, au_scale_task_id = pc_scale_task_id p, au_video_id = video_id,
     au_analysis_scale = us_scale us, au_unit_kind = us_kind us, au_segment_start_ms = sw_start_ms w,
     au_segment_end_ms = sw_end_ms w, au_window_index = int index, au_trigger_id = trigger, au_status = TASK_PENDING,
     au_attempt_count = 0, au_last_error_code = None, au_last_error_message = None, au_latest_model_call_id = None,
     au_successful_model_call_id = None, au_produced_record_ids = [],
     au_idempotency_key = job_id @ '':'' @ pc_scale_task_id p @ '':'' @ analysis_scale_value (us_scale us) @ '':'' @
       show_int (sw_start_ms w) @ '':'' @ show_int (sw_end_ms w),
     au_started_at = None, au_finished_at = None\<rparr>"

definition ds_templates :: "processor \<Rightarrow> unit_env \<Rightarrow> string \<Rightarrow> string \<Rightarrow> segment_window list \<Rightarrow> analysis_unit list" where
  "ds_templates p env job_id video_id windows =
    map (\<lambda>(i, w). unit_template p ds_style job_id video_id (un_id env ''unit'' i) i None w) (enumerate 0 windows)"

definition require_job :: "string \<Rightarrow> analysis_job site_m" where
  "require_job job_id =
    se_bind (db_read (get_job_row job_id)) (\<lambda>found.
      case found of None \<Rightarrow> se_raise (NotFoundError (''job '' @ job_id @ '' not found'')) | Some job \<Rightarrow> se_ret job)"

definition ds_plan ::
  "processor \<Rightarrow> unit_env \<Rightarrow> (string \<Rightarrow> exn + int) \<Rightarrow> string \<Rightarrow> string \<Rightarrow> (analysis_job \<times> video_context \<times> analysis_unit list) site_m" where
  "ds_plan p env probe job_id video_id =
    se_bind (require_job job_id) (\<lambda>job.
    se_bind (resolve_video_context (pc_default_policy_id p) video_id) (\<lambda>ctx.
    se_bind (se_lift (\<lambda>_. probe (vs_source_uri (vc_source ctx)))) (\<lambda>duration.
    se_then (db_write (update_probe_metadata video_id duration (plus_ms (vs_video_start_time (vc_source ctx)) duration)))
    (se_bind (se_lift (\<lambda>_. plan_default_segments duration (pc_window_seconds p) (pc_overlap_seconds p))) (\<lambda>windows.
      se_ret (job, ctx, ds_templates p env job_id video_id windows))))))"

text \<open>The windows of all triggers in order, each interval once; a unit's index counts triggers in thousands.\<close>

fun unseen_windows ::
  "(nat \<times> high_freq_trigger \<times> segment_window) list \<Rightarrow> (int \<times> int) list \<Rightarrow> (nat \<times> high_freq_trigger \<times> segment_window) list" where
  "unseen_windows [] seen = []"
| "unseen_windows ((i, t, w) # rest) seen =
    (if (sw_start_ms w, sw_end_ms w) \<in> set seen then unseen_windows rest seen
     else (i, t, w) # unseen_windows rest ((sw_start_ms w, sw_end_ms w) # seen))"

definition trigger_windows ::
  "processor \<Rightarrow> unit_env \<Rightarrow> video_context \<Rightarrow> nat \<times> high_freq_trigger \<Rightarrow> exn + (nat \<times> high_freq_trigger \<times> segment_window) list" where
  "trigger_windows p env ctx = (\<lambda>(i, t).
    case plan_high_freq_windows (py_fl (un_py env)) (hft_trigger_start_ms t) (hft_trigger_end_ms t) (pc_window_seconds p)
        (pc_overlap_ratio p) (vs_duration_ms (vc_source ctx)) 1 of
      Inl e \<Rightarrow> Inl e
    | Inr ws \<Rightarrow> Inr (map (\<lambda>(j, w). (i * 1000 + j, t, w)) (enumerate 0 ws)))"

definition hf_windows ::
  "processor \<Rightarrow> unit_env \<Rightarrow> video_context \<Rightarrow> high_freq_trigger list \<Rightarrow> exn + (nat \<times> high_freq_trigger \<times> segment_window) list" where
  "hf_windows p env ctx triggers =
    (case map_raise (trigger_windows p env ctx) (enumerate 0 triggers) of
       Inl e \<Rightarrow> Inl e
     | Inr ws \<Rightarrow> Inr (unseen_windows (concat ws) []))"

definition hf_templates ::
  "processor \<Rightarrow> unit_env \<Rightarrow> string \<Rightarrow> string \<Rightarrow> (nat \<times> high_freq_trigger \<times> segment_window) list \<Rightarrow> analysis_unit list" where
  "hf_templates p env job_id video_id =
    map (\<lambda>(i, t, w). unit_template p hf_style job_id video_id (un_id env ''unit'' i) i (Some (hft_trigger_id t)) w)"

text \<open>Without triggers of the video there is nothing to plan, and the context is not resolved.\<close>

definition hf_plan ::
  "processor \<Rightarrow> unit_env \<Rightarrow> string \<Rightarrow> string \<Rightarrow>
   (analysis_job \<times> video_context \<times> (analysis_unit \<times> high_freq_trigger) list) option site_m" where
  "hf_plan p env job_id video_id =
    se_bind (require_job job_id) (\<lambda>job.
    se_bind (db_read (trigger_list_by_job job_id)) (\<lambda>found.
      let triggers = filter (\<lambda>t. hft_video_id t = video_id) found in
      if triggers = [] then se_ret None
      else se_bind (resolve_video_context (pc_default_policy_id p) video_id) (\<lambda>ctx.
        se_bind (se_lift (\<lambda>_. hf_windows p env ctx triggers)) (\<lambda>ws.
          se_ret (Some (job, ctx, zip (hf_templates p env job_id video_id ws) (map (\<lambda>(i, t, w). t) ws)))))))"

section \<open>Running one unit in its own sessions\<close>

definition ds_run_unit ::
  "processor \<Rightarrow> unit_env \<Rightarrow> string \<Rightarrow> string \<Rightarrow> video_context \<Rightarrow> analysis_unit \<Rightarrow> unit_outcome site_m" where
  "ds_run_unit p env job_id video_id ctx template =
    guarded_run p env ds_style (ds_execute p env) aj_prompt_version template
      (au_segment_start_ms template) (au_segment_end_ms template) job_id video_id ctx None"

definition hf_run_unit ::
  "processor \<Rightarrow> unit_env \<Rightarrow> string \<Rightarrow> string \<Rightarrow> video_context \<Rightarrow> jdict option \<Rightarrow> analysis_unit \<Rightarrow> unit_outcome site_m" where
  "hf_run_unit p env job_id video_id ctx trigger_context template =
    guarded_run p env hf_style (hf_execute p env) (\<lambda>_. Some (prompt_version_for_scale HIGH_FREQ_EVENT)) template
      (au_segment_start_ms template) (au_segment_end_ms template) job_id video_id ctx trigger_context"

definition trigger_data :: "high_freq_trigger \<Rightarrow> jdict" where
  "trigger_data t =
    [(''trigger_id'', JsStr (hft_trigger_id t)), (''trigger_reason'', JsStr (hft_trigger_reason t)),
     (''motion_score'', js_opt JsReal (hft_motion_score t)), (''change_score'', js_opt JsReal (hft_change_score t))]"

section \<open>Running one unit in the session of the worker\<close>

text \<open>
  \<^verbatim>\<open>_run_unit\<close>: without a runtime there are no transactions of the unit's own, no timeline and no guard;
  an exception outside frame selection escapes and the worker's transaction is rolled back as a whole.
  Both processors log the prompt version here, which the unit carries.
\<close>

definition shared_log :: "processor \<Rightarrow> unit_style \<Rightarrow> running_unit \<Rightarrow> string \<Rightarrow> string \<Rightarrow> int \<Rightarrow> iso \<Rightarrow> iso \<Rightarrow> model_call_log" where
  "shared_log p us u mcall_id status attempts a b =
    call_log p (us\<lparr>us_logs_prompt_version := True\<rparr>) u mcall_id status attempts a b"

definition shared_skip :: "unit_env \<Rightarrow> running_unit \<Rightarrow> string \<Rightarrow> unit site_m" where
  "shared_skip env u reason = db_write (unit_mark_skipped (un_now env ''mark_skipped'') (ru_unit_id u) reason (Some (ru_mcall_id u)))"

definition shared_frames :: "processor \<Rightarrow> unit_env \<Rightarrow> unit_style \<Rightarrow> running_unit \<Rightarrow> frames_result site_m" where
  "shared_frames p env us u =
    (let skip = se_then (shared_skip env u ''insufficient_frames'') (se_ret (FramesDone OUTCOME_SKIPPED))
     in se_try
      (se_bind (select_body p env u) (\<lambda>items.
        if frame_uris items = [] then skip
        else se_bind (se_lift (\<lambda>_. build_media_refs (un_fs env) items (ru_mcall_id u) (pc_debug_media p) (pc_artifact_root p)))
          (\<lambda>refs. se_ret (FramesReady items refs))))
      (\<lambda>e. if is_instance e ''InsufficientFramesError'' then skip
        else se_then (create_model_call_log
            ((shared_log p us u (ru_mcall_id u) ''failed'' 1 (un_now env ''failed'') (un_now env ''failed''))
              \<lparr>mc_error_type := Some (exn_type_name e), mc_error_message := Some (take 500 (exn_message e))\<rparr>))
          (se_then (write_unit_failed env u ''frame_extraction_failed'' (take 500 (exn_message e)) None)
            (se_ret (FramesDone OUTCOME_FAILED)))))"

definition shared_failed_log ::
  "processor \<Rightarrow> unit_env \<Rightarrow> unit_style \<Rightarrow> running_unit \<Rightarrow> jdict list \<Rightarrow> string \<times> jdict \<Rightarrow> retry_event \<Rightarrow> unit site_m" where
  "shared_failed_log p env us u refs manifest ev =
    (case ev of
       AttemptFailed r \<Rightarrow>
         let n = va_attempt r in
         create_model_call_log
           ((shared_log p us u (if n = 1 then ru_mcall_id u else un_id env ''mcall.attempt'' n) ''failed'' (int n)
              (un_now env ''vlm_started'') (un_now env ''attempt_failed''))
             \<lparr>mc_error_type := va_error_type r, mc_error_message := va_error_message r, mc_media_refs := refs,
              mc_payload_hash := Some (fst manifest),
              mc_attempt_details := attach_manifest_to_attempts
                [vlm_attempt_dict (un_py env) r (un_payload env n)] (fst manifest) (snd manifest)\<rparr>)
     | _ \<Rightarrow> se_ret ())"

definition shared_publish ::
  "processor \<Rightarrow> unit_env \<Rightarrow> unit_style \<Rightarrow> running_unit \<Rightarrow> analysis_job \<Rightarrow> media_input list \<Rightarrow> jdict list \<Rightarrow> string \<times> jdict \<Rightarrow>
   vlm_output vlm_retry_result \<Rightarrow> vlm_output \<Rightarrow> unit_outcome site_m" where
  "shared_publish p env us u job items refs manifest result out =
    se_bind (se_lift (\<lambda>_. build_observation_record (un_py env) (ru_ctx u) (un_id env ''obs'' 1) (ru_analysis_job_id u)
        (us_scale us) (ru_start_ms u) (ru_end_ms u) out
        (aj_model_version job, ru_prompt_version u, aj_pipeline_version job) None)) (\<lambda>r.
    se_bind (publish_record env u 1 r) (\<lambda>ids.
    se_then (create_model_call_log (succeeded_log p env us u refs manifest result out (ru_prompt_version u)))
    (se_then (db_write (unit_mark_succeeded (un_now env ''mark_succeeded'') (ru_unit_id u)
        (Some (success_mcall_id env u (vr_attempts result))) ids (Some (int (vr_attempts result)))))
    (se_then (cleanup_frames p items) (se_ret OUTCOME_SUCCEEDED)))))"

definition shared_call ::
  "processor \<Rightarrow> unit_env \<Rightarrow> unit_style \<Rightarrow> running_unit \<Rightarrow> analysis_job \<Rightarrow> media_input list \<Rightarrow> jdict list \<Rightarrow> unit_outcome site_m" where
  "shared_call p env us u job items refs =
    (case unit_retry p env us u items of
       (result, events) \<Rightarrow>
         let manifest = unit_manifest p env us u items refs in
         se_then (se_iter (shared_failed_log p env us u refs manifest) events)
          (case vr_error result of
             Some e \<Rightarrow> se_then (write_unit_failed env u (vlm_failure_error_code e) (take 500 (exn_message e)) (Some (int (vr_attempts result))))
               (se_ret OUTCOME_FAILED)
           | None \<Rightarrow>
              (case vr_output result of
                 None \<Rightarrow> se_raise (OtherException [''AssertionError'', ''Exception''] [])
               | Some out \<Rightarrow> shared_publish p env us u job items refs manifest result out)))"

text \<open>Only the event processor asks the gate here.\<close>

definition shared_gate :: "processor \<Rightarrow> unit_env \<Rightarrow> unit_style \<Rightarrow> running_unit \<Rightarrow> media_input list \<Rightarrow> unit_outcome option site_m" where
  "shared_gate p env us u items =
    se_try (se_bind (unit_gate p env us u items) (\<lambda>b.
        case b of
          Some g \<Rightarrow> if gb_triggered_vlm g then se_ret None
            else se_then (shared_skip env u ''pre_vlm_gate_suppressed'') (se_ret (Some OUTCOME_SKIPPED))
        | None \<Rightarrow> se_ret None))
      (\<lambda>e. if is_od_schema_error e
        then se_then (write_unit_failed env u ''object_detection_schema_validation_failed'' (take 500 (exn_message e)) None)
          (se_ret (Some OUTCOME_FAILED))
        else se_raise e)"

definition shared_body ::
  "processor \<Rightarrow> unit_env \<Rightarrow> unit_style \<Rightarrow> bool \<Rightarrow> running_unit \<Rightarrow> analysis_job \<Rightarrow> unit_outcome site_m" where
  "shared_body p env us gated u job =
    se_bind (shared_frames p env us u) (\<lambda>r.
      case r of
        FramesDone outcome \<Rightarrow> se_ret outcome
      | FramesReady items refs \<Rightarrow>
          se_bind (if gated then shared_gate p env us u items else se_ret None) (\<lambda>g.
            case g of Some outcome \<Rightarrow> se_ret outcome | None \<Rightarrow> shared_call p env us u job items refs))"

definition shared_run ::
  "processor \<Rightarrow> unit_env \<Rightarrow> unit_style \<Rightarrow> bool \<Rightarrow> string option \<Rightarrow> string \<Rightarrow> string \<Rightarrow> video_context \<Rightarrow> analysis_job \<Rightarrow>
   analysis_unit \<Rightarrow> unit_outcome site_m" where
  "shared_run p env us gated prompt_version job_id video_id ctx job row =
    (if au_status row = TASK_SUCCEEDED then se_ret OUTCOME_SUCCEEDED
     else if au_status row = TASK_SKIPPED then se_ret OUTCOME_SKIPPED
     else let mcall_id = un_id env ''mcall'' 0 in
       se_then (db_write (unit_mark_running (un_now env ''mark_running'') (au_unit_id row) (Some mcall_id)))
        (shared_body p env us gated
          \<lparr>ru_unit_id = au_unit_id row, ru_mcall_id = mcall_id, ru_start_ms = au_segment_start_ms row,
           ru_end_ms = au_segment_end_ms row, ru_analysis_job_id = job_id, ru_video_id = video_id, ru_ctx = ctx,
           ru_prompt_version = prompt_version, ru_model_version = aj_model_version job, ru_trigger_context = None\<rparr> job))"

definition ds_shared_run ::
  "processor \<Rightarrow> unit_env \<Rightarrow> string \<Rightarrow> string \<Rightarrow> video_context \<Rightarrow> analysis_job \<Rightarrow> analysis_unit \<Rightarrow> unit_outcome site_m" where
  "ds_shared_run p env job_id video_id ctx job = shared_run p env ds_style False (aj_prompt_version job) job_id video_id ctx job"

definition hf_shared_run ::
  "processor \<Rightarrow> unit_env \<Rightarrow> string \<Rightarrow> string \<Rightarrow> video_context \<Rightarrow> analysis_job \<Rightarrow> analysis_unit \<Rightarrow> unit_outcome site_m" where
  "hf_shared_run p env job_id video_id ctx job =
    shared_run p env hf_style True (Some (prompt_version_for_scale HIGH_FREQ_EVENT)) job_id video_id ctx job"

section \<open>Running all units of a scale\<close>

fun run_in_turn :: "('s, exn, unit_outcome) se list \<Rightarrow> scale_process_result \<Rightarrow> ('s, exn, scale_process_result) se" where
  "run_in_turn [] c = se_ret c"
| "run_in_turn (m # ms) c = se_bind m (\<lambda>outcome. run_in_turn ms (tally c outcome))"

fun create_all :: "analysis_unit list \<Rightarrow> analysis_unit list site_m" where
  "create_all [] = se_ret []"
| "create_all (t # ts) = se_bind (on_db (unit_create_or_get t)) (\<lambda>u. se_bind (create_all ts) (\<lambda>us. se_ret (u # us)))"

definition fresh_count :: "nat \<Rightarrow> scale_process_result" where
  "fresh_count n = \<lparr>spr_total = n, spr_succeeded = 0, spr_failed = 0, spr_skipped = 0\<rparr>"

text \<open>
  How the units of \<^verbatim>\<open>process\<close> are run: in turn, or by a pool, which finishes them in some order. Units
  of a pool write in transactions that exclude each other; the model runs them one after the other in
  the order \<open>completion\<close>.
\<close>

datatype run_mode = SharedSession | IsolatedSerial | IsolatedPool "analysis_unit list \<Rightarrow> analysis_unit list"

definition ds_process ::
  "processor \<Rightarrow> (string \<Rightarrow> unit_env) \<Rightarrow> unit_env \<Rightarrow> run_mode \<Rightarrow> (string \<Rightarrow> exn + int) \<Rightarrow> string \<Rightarrow> string \<Rightarrow>
   scale_process_result site_m" where
  "ds_process p env_of env mode probe job_id video_id =
    se_bind (ds_plan p env probe job_id video_id) (\<lambda>(job, ctx, templates).
      let c = fresh_count (length templates);
          isolated = (\<lambda>t. ds_run_unit p (env_of (au_unit_id t)) job_id video_id ctx t)
      in case mode of
        IsolatedSerial \<Rightarrow> run_in_turn (map isolated templates) c
      | IsolatedPool completion \<Rightarrow> run_in_turn (map isolated (completion templates)) c
      | SharedSession \<Rightarrow> se_bind (create_all templates) (\<lambda>rows.
          run_in_turn (map (\<lambda>row. ds_shared_run p (env_of (au_unit_id row)) job_id video_id ctx job row) rows) c))"

definition ds_plan_units ::
  "processor \<Rightarrow> (string \<Rightarrow> unit_env) \<Rightarrow> unit_env \<Rightarrow> (string \<Rightarrow> exn + int) \<Rightarrow> string \<Rightarrow> string \<Rightarrow> site planned_unit list site_m" where
  "ds_plan_units p env_of env probe job_id video_id =
    se_bind (ds_plan p env probe job_id video_id) (\<lambda>(job, ctx, templates).
      se_ret (map (\<lambda>t. \<lparr>pu_scale = DEFAULT_SEGMENT, pu_run = ds_run_unit p (env_of (au_unit_id t)) job_id video_id ctx t\<rparr>) templates))"

text \<open>
  \<^verbatim>\<open>process\<close> of the event processor passes no trigger context to its units; \<^verbatim>\<open>plan_units\<close> does.
\<close>

definition hf_process ::
  "processor \<Rightarrow> (string \<Rightarrow> unit_env) \<Rightarrow> unit_env \<Rightarrow> run_mode \<Rightarrow> string \<Rightarrow> string \<Rightarrow> scale_process_result site_m" where
  "hf_process p env_of env mode job_id video_id =
    se_bind (hf_plan p env job_id video_id) (\<lambda>plan.
      case plan of
        None \<Rightarrow> se_ret (fresh_count 0)
      | Some (job, ctx, units) \<Rightarrow>
        let templates = map fst units; c = fresh_count (length units);
            isolated = (\<lambda>t. hf_run_unit p (env_of (au_unit_id t)) job_id video_id ctx None t)
        in case mode of
          IsolatedSerial \<Rightarrow> run_in_turn (map isolated templates) c
        | IsolatedPool completion \<Rightarrow> run_in_turn (map isolated (completion templates)) c
        | SharedSession \<Rightarrow> se_bind (create_all templates) (\<lambda>rows.
            run_in_turn (map (\<lambda>row. hf_shared_run p (env_of (au_unit_id row)) job_id video_id ctx job row) rows) c))"

definition hf_plan_units ::
  "processor \<Rightarrow> (string \<Rightarrow> unit_env) \<Rightarrow> unit_env \<Rightarrow> string \<Rightarrow> string \<Rightarrow> site planned_unit list site_m" where
  "hf_plan_units p env_of env job_id video_id =
    se_bind (hf_plan p env job_id video_id) (\<lambda>plan.
      case plan of
        None \<Rightarrow> se_ret []
      | Some (job, ctx, units) \<Rightarrow>
          se_ret (map (\<lambda>(template, t). \<lparr>pu_scale = HIGH_FREQ_EVENT,
            pu_run = hf_run_unit p (env_of (au_unit_id template)) job_id video_id ctx (Some (trigger_data t)) template\<rparr>) units))"

section \<open>The bodies keep the contract of the guard\<close>

definition gates_ok :: "unit_style \<Rightarrow> running_unit \<Rightarrow> site \<Rightarrow> unit_outcome + 'x \<Rightarrow> site \<Rightarrow> bool" where
  "gates_ok us u s0 r s \<longleftrightarrow> (case r of Inl outcome \<Rightarrow> settled us u s0 outcome s | Inr _ \<Rightarrow> quiet (ru_unit_id u) s0 s)"

lemma gates_ok_simps [simp]:
  "gates_ok us u s0 (Inl outcome) s = settled us u s0 outcome s" "gates_ok us u s0 (Inr x) s = quiet (ru_unit_id u) s0 s"
  by (simp_all add: gates_ok_def)

lemma asked_gate_wp:
  assumes run: "runnable u s0" and q: "quiet (ru_unit_id u) s0 s"
  shows "se_wp (asked_gate p env us u items) (gates_ok us' u s0) (\<lambda>_. quiet (ru_unit_id u) s0) s"
  unfolding asked_gate_def
proof (rule se_wp_tryI)
  show "se_wp (se_bind (unit_gate p env us u items) (\<lambda>b. se_ret (Inr b))) (gates_ok us' u s0) (\<lambda>_. quiet (ru_unit_id u) s0) s"
    by (rule se_wp_bindI [OF unit_gate_wp [OF q]]) (simp add: wp_simps)
next
  fix e t assume t: "quiet (ru_unit_id u) s0 t"
  have "se_wp (se_then (mark_unit_failed p env u ''object_detection_schema_validation_failed'' e 0) (se_ret (Inl OUTCOME_FAILED)))
      (gates_ok us' u s0) (\<lambda>_. quiet (ru_unit_id u) s0) t"
    by (rule se_wp_thenI [OF mark_unit_failed_wp [OF quiet_status [OF t runnableD(2) [OF run]] t]])
      (simp add: wp_simps settledI)
  with t show "se_wp (if is_od_schema_error e
        then se_then (mark_unit_failed p env u ''object_detection_schema_validation_failed'' e 0) (se_ret (Inl OUTCOME_FAILED))
        else se_raise e) (gates_ok us' u s0) (\<lambda>_. quiet (ru_unit_id u) s0) t"
    by (simp add: wp_simps)
qed

lemma suppressed_event_wp: "quiet k s0 s \<Longrightarrow> se_wp (suppressed_event p env us u name md) (\<lambda>_. quiet k s0) E s"
  unfolding suppressed_event_def by (rule quiet_event_wp)

lemma detector_only_work_wp:
  assumes run: "runnable u s0" and q: "quiet (ru_unit_id u) s0 s"
  shows "se_wp (detector_only_work p env u summary n) (\<lambda>_ s'. published ds_style u s0 s') (\<lambda>_ _. True) s"
  unfolding detector_only_work_def
proof (rule se_wp_bindI [where R = "\<lambda>r t. t = s \<and> from_unit ds_style u r"])
  show "se_wp (se_lift (\<lambda>_. build_detector_only_record (un_py env) (ru_ctx u) (un_id env ''obs'' n) (ru_analysis_job_id u)
        (us_scale ds_style) (ru_start_ms u) (ru_end_ms u)
        (ru_model_version u, ru_prompt_version u, Some (pc_pipeline_version p)) summary))
      (\<lambda>r t. t = s \<and> from_unit ds_style u r) (\<lambda>_ _. True) s"
    unfolding wp_simps build_detector_only_record_def by (auto split: sum.split dest: context_from_unit)
next
  fix r t assume t: "t = s \<and> from_unit ds_style u r"
  have pub: "se_wp (publish_record env u n r) (\<lambda>ids s1. publish_record env u n r s = (Inr ids, s1)) (\<lambda>_ _. True) s"
    by (simp add: se_wp_def split: prod.split sum.split)
  from t show "se_wp (se_bind (publish_record env u n r) (\<lambda>ids.
        se_then (db_write (unit_mark_succeeded (un_now env ''mark_succeeded'') (ru_unit_id u) None ids (Some 0)))
          (se_ret ids))) (\<lambda>_ s'. published ds_style u s0 s') (\<lambda>_ _. True) t"
    by (simp only:) (rule se_wp_bindI [OF pub], simp add: wp_simps published_mark(1) [OF _ q runnableD(1,2) [OF run]])
qed

lemma published_video [simp]: "published us (u\<lparr>ru_video_id := v\<rparr>) s0 s = published us u s0 s"
  and settled_video [simp]: "settled us (u\<lparr>ru_video_id := v\<rparr>) s0 outcome s = settled us u s0 outcome s"
  by (simp_all add: published_def from_unit_def settled_def split: unit_outcome.split)

lemma publish_detector_only_wp:
  assumes run: "runnable u s0" and q: "quiet (ru_unit_id u) s0 s"
  shows "se_wp (publish_detector_only_unit p env u items summary)
    (\<lambda>outcome s'. settled ds_style u s0 outcome s') (\<lambda>_. quiet (ru_unit_id u) s0) s"
  unfolding publish_detector_only_unit_def
proof (rule se_wp_bindI)
  show "se_wp (terminal_write p env ''publish_detector_only'' (detector_only_work p env u summary))
      (\<lambda>_ s'. published ds_style u s0 s') (\<lambda>_. quiet (ru_unit_id u) s0) s"
    by (rule terminal_write_wp_of, rule detector_only_work_wp [OF assms], rule q)
next
  fix ids t assume "published ds_style u s0 t"
  then show "se_wp (announce_success p env ds_style (u\<lparr>ru_video_id := vs_video_id (vc_source (ru_ctx u))\<rparr>) None
        (published_metadata ids) [(''detector_only'', JsBool True)] 0 items)
      (\<lambda>outcome s'. settled ds_style u s0 outcome s') (\<lambda>_. quiet (ru_unit_id u) s0) t"
    using announce_success_wp [of ds_style "u\<lparr>ru_video_id := vs_video_id (vc_source (ru_ctx u))\<rparr>" s0 t] by simp
qed

lemma announced_wp:
  assumes run: "runnable u s0" and q: "quiet (ru_unit_id u) s0 s"
  shows "se_wp (se_then (suppressed_event p env ds_style u name md)
      (se_bind (publish_detector_only_unit p env u items summary) (\<lambda>outcome. se_ret (Inl outcome))))
    (gates_ok ds_style u s0) (\<lambda>_. quiet (ru_unit_id u) s0) s"
proof (rule se_wp_thenI [OF suppressed_event_wp [OF q]])
  fix t assume t: "quiet (ru_unit_id u) s0 t"
  show "se_wp (se_bind (publish_detector_only_unit p env u items summary) (\<lambda>outcome. se_ret (Inl outcome)))
      (gates_ok ds_style u s0) (\<lambda>_. quiet (ru_unit_id u) s0) t"
    by (rule se_wp_bindI [OF publish_detector_only_wp [OF run t]]) (simp add: wp_simps)
qed

lemma detector_gate_phase_wp:
  assumes run: "runnable u s0" and q: "quiet (ru_unit_id u) s0 s"
  shows "se_wp (detector_gate_phase p env u items detect) (gates_ok ds_style u s0) (\<lambda>_. quiet (ru_unit_id u) s0) s"
  unfolding detector_gate_phase_def Let_def
proof (rule se_wp_bindI)
  let ?frames = "build_detector_frame_inputs (un_file_sha256 env) items"
  show "se_wp (unit_span p env ds_style u ''detector_gate''
        [(''gate_log_id'', JsStr (un_id env ''gate'' 0)), (''frame_count'', JsInt (int (length ?frames)))]
        (se_lift (\<lambda>_. detector_verdict p env detect ?frames)))
      (\<lambda>_. quiet (ru_unit_id u) s0) (\<lambda>_. quiet (ru_unit_id u) s0) s"
    by (rule unit_span_wp [OF reads_only_lift], unfold wp_simps) (use q in \<open>simp split: sum.split\<close>)
next
  fix g t assume t: "quiet (ru_unit_id u) s0 t"
  show "se_wp (se_then (terminal_write p env ''detector_gate_log'' (\<lambda>_. create_detector_gate_log (detector_log p env u g)))
        (if dg_triggered_vlm g then se_ret (Inr (Some (dg_summary g)))
         else se_then (suppressed_event p env ds_style u ''detector_gate_suppressed''
             [(''gate_log_id'', JsStr (un_id env ''gate'' 0)), (''decision'', JsObj (dg_decision g))])
           (se_bind (publish_detector_only_unit p env u items (dg_summary g)) (\<lambda>outcome. se_ret (Inl outcome)))))
      (gates_ok ds_style u s0) (\<lambda>_. quiet (ru_unit_id u) s0) t"
    by (rule se_wp_thenI [OF quiet_log_write_wp(2) [OF t]]) (simp add: wp_simps(1) announced_wp [OF run])
qed

lemma ds_gates_wp:
  assumes run: "runnable u s0" and q: "quiet (ru_unit_id u) s0 s"
  shows "se_wp (ds_gates p env u items) (gates_ok ds_style u s0) (\<lambda>_. quiet (ru_unit_id u) s0) s"
  unfolding ds_gates_def
  by (rule se_wp_bindI [OF asked_gate_wp [OF assms]])
    (auto simp: wp_simps(1) announced_wp [OF run] detector_gate_phase_wp [OF run] split: sum.split option.split)

lemma hf_gates_wp:
  assumes run: "runnable u s0" and q: "quiet (ru_unit_id u) s0 s"
  shows "se_wp (hf_gates p env u items) (gates_ok hf_style u s0) (\<lambda>_. quiet (ru_unit_id u) s0) s"
proof -
  have skip: "se_wp (se_then (terminalize_unit_skipped p env u reason)
      (se_then (suppressed_event p env hf_style u name md) (se_ret (Inl OUTCOME_SKIPPED))))
      (gates_ok hf_style u s0) (\<lambda>_. quiet (ru_unit_id u) s0) t" if "quiet (ru_unit_id u) s0 t" for reason name md t
    by (rule se_wp_thenI [OF terminalize_unit_skipped_wp [OF quiet_status [OF that runnableD(2) [OF run]] that]])
      (auto simp: wp_simps suppressed_event_def intro!: unit_event_wp settledI)
  show ?thesis
    unfolding hf_gates_def
    by (rule se_wp_bindI [OF asked_gate_wp [OF assms]]) (auto simp: wp_simps(1) skip split: sum.split option.split)
qed

lemma unit_execute_wp:
  assumes run: "runnable u s"
    and gates: "\<And>items t. quiet (ru_unit_id u) s t \<Longrightarrow> se_wp (gates u items) (gates_ok us u s) (\<lambda>_. quiet (ru_unit_id u) s) t"
    and rest: "\<And>items refs extra t. quiet (ru_unit_id u) s t \<Longrightarrow>
      se_wp (rest u items refs extra) (\<lambda>outcome s'. settled us u s outcome s') (\<lambda>_ s'. quiet (ru_unit_id u) s s') t"
  shows "se_wp (unit_execute p env us gates rest u) (\<lambda>outcome s'. settled us u s outcome s') (\<lambda>_ s'. quiet (ru_unit_id u) s s') s"
  unfolding unit_execute_def
proof (rule se_wp_bindI)
  show "se_wp (at_phase ''pre_vlm'' (frames_phase p env us u))
      (\<lambda>r s'. quiet (ru_unit_id u) s s' \<and> frames_ok (ru_unit_id u) r s') (\<lambda>_ s'. quiet (ru_unit_id u) s s') s"
    by (rule at_phase_wp, rule frames_phase_wp [OF runnableD(2) [OF run] quiet_refl])
next
  fix r t assume t: "quiet (ru_unit_id u) s t \<and> frames_ok (ru_unit_id u) r t"
  show "se_wp (case r of FramesDone outcome \<Rightarrow> se_ret outcome
      | FramesReady items refs \<Rightarrow> se_bind (at_phase ''pre_vlm'' (gates u items)) (\<lambda>g.
          case g of Inl outcome \<Rightarrow> se_ret outcome
          | Inr extra \<Rightarrow> rest u items refs extra))
      (\<lambda>outcome s'. settled us u s outcome s') (\<lambda>_ s'. quiet (ru_unit_id u) s s') t"
  proof (cases r)
    case (FramesDone outcome)
    with t frames_settled show ?thesis by (simp add: wp_simps)
  next
    case (FramesReady items refs)
    have "se_wp (at_phase ''pre_vlm'' (gates u items)) (gates_ok us u s) (\<lambda>_ s'. quiet (ru_unit_id u) s s') t"
      by (rule at_phase_wp, rule gates) (use t in simp)
    then show ?thesis unfolding FramesReady frames_result.case
      by (rule se_wp_bindI) (auto simp: wp_simps(1) rest split: sum.split)
  qed
qed

lemma keeps_asked_gate: "se_keeps (log_free g) (asked_gate p env us u items)"
  unfolding asked_gate_def mark_unit_failed_def write_unit_failed_def by (intro keeps_rules keeps_unit_gate)

lemma keeps_detector_only: "se_keeps (log_free g) (publish_detector_only_unit p env u items summary)"
  unfolding publish_detector_only_unit_def detector_only_work_def
  by (intro keeps_rules keeps_publish_record keeps_announce)

lemma keeps_ds_gates: "se_keeps (log_free g) (ds_gates p env u items)"
  unfolding ds_gates_def detector_gate_phase_def suppressed_event_def Let_def
  by (intro keeps_rules keeps_asked_gate keeps_detector_only)

lemma keeps_hf_gates: "se_keeps (log_free g) (hf_gates p env u items)"
  unfolding hf_gates_def suppressed_event_def terminalize_unit_skipped_def
  by (intro keeps_rules keeps_asked_gate)

lemma keeps_unit_execute:
  assumes "ru_mcall_id u \<noteq> g" and "\<And>items. se_keeps (log_free g) (gates u items)"
    and "\<And>items refs extra. se_keeps (log_free g) (rest u items refs extra)"
  shows "se_keeps (log_free g) (unit_execute p env us gates rest u)"
proof -
  have ready: "se_keeps (log_free g) (case r of FramesDone outcome \<Rightarrow> se_ret outcome
      | FramesReady items refs \<Rightarrow> se_bind (at_phase ''pre_vlm'' (gates u items)) (\<lambda>x.
          case x of Inl outcome \<Rightarrow> se_ret outcome | Inr extra \<Rightarrow> rest u items refs extra))" for r
    by (cases r; simp only: frames_result.case; intro keeps_rules assms(2,3))
  show ?thesis
    unfolding unit_execute_def by (intro se_keeps_bind keeps_steps(1) keeps_frames assms(1) ready)
qed

interpretation default_body: unit_body ds_style env "ds_execute p env" for p env
proof unfold_locales
  fix u s g
  show "runnable u s \<Longrightarrow> se_wp (ds_execute p env u) (\<lambda>outcome s'. settled ds_style u s outcome s')
      (\<lambda>_ s'. quiet (ru_unit_id u) s s') s"
    by (simp add: ds_execute_def unit_execute_wp ds_gates_wp after_gate_wp)
  show "ru_mcall_id u \<noteq> g \<Longrightarrow> g \<notin> own_log_ids env \<Longrightarrow> se_keeps (log_free g) (ds_execute p env u)"
    unfolding ds_execute_def by (intro keeps_unit_execute keeps_ds_gates keeps_after_gate)
qed

lemma hf_after_gate_eq: "hf_after_gate p env u items refs = after_gate p env hf_style u items refs None"
  unfolding hf_after_gate_def after_gate_def hf_vlm_phase_def hf_publish_phase_def by (rule refl)

interpretation event_body: unit_body hf_style env "hf_execute p env" for p env
proof unfold_locales
  fix u s g
  show "runnable u s \<Longrightarrow> se_wp (hf_execute p env u) (\<lambda>outcome s'. settled hf_style u s outcome s')
      (\<lambda>_ s'. quiet (ru_unit_id u) s s') s"
    by (simp add: hf_execute_def unit_execute_wp hf_gates_wp hf_after_gate_eq after_gate_wp)
  show "ru_mcall_id u \<noteq> g \<Longrightarrow> g \<notin> own_log_ids env \<Longrightarrow> se_keeps (log_free g) (hf_execute p env u)"
    unfolding hf_execute_def hf_after_gate_eq by (intro keeps_unit_execute keeps_hf_gates keeps_after_gate)
qed

section \<open>Tallies\<close>

lemma run_in_turn_counts:
  "run_in_turn ms c s = (Inr r, s') \<Longrightarrow> spr_total r = spr_total c \<and>
   spr_succeeded r + spr_failed r + spr_skipped r = spr_succeeded c + spr_failed c + spr_skipped c + length ms"
proof (induction ms arbitrary: c s)
  case (Cons m ms)
  then obtain outcome t where "run_in_turn ms (tally c outcome) t = (Inr r, s')"
    by (auto simp: se_bind_def split: prod.splits sum.splits)
  from Cons.IH [OF this] show ?case by (simp add: tally_def split: unit_outcome.splits)
qed (simp add: se_ret_def)

section \<open>Properties of a unit's run\<close>

definition isolated_runs ::
  "processor \<Rightarrow> unit_env \<Rightarrow> string \<Rightarrow> string \<Rightarrow> video_context \<Rightarrow> jdict option \<Rightarrow> analysis_unit \<Rightarrow> (unit_style \<times> unit_outcome site_m) set" where
  "isolated_runs p env job_id video_id ctx trigger_context template =
    {(ds_style, ds_run_unit p env job_id video_id ctx template),
     (hf_style, hf_run_unit p env job_id video_id ctx trigger_context template)}"

lemma isolated_run_wp:
  assumes "records_ok s" and "keys_ok au_unit_id (db_units (mem_db s))" and "au_status template = TASK_PENDING"
    and "(us, run) \<in> isolated_runs p env job_id video_id ctx trg template"
  shows "se_wp run (\<lambda>outcome s'. run_result env us job_id template (au_segment_start_ms template)
      (au_segment_end_ms template) ctx s outcome s') (\<lambda>_ s'. s' = s) s"
  using assms(4) default_body.guarded_run_wp [OF assms(1-3)] event_body.guarded_run_wp [OF assms(1-3)]
  by (auto simp: isolated_runs_def ds_run_unit_def hf_run_unit_def)

text \<open>
  C27. A run never misreports its unit. Of both processors, and whatever the video, the detectors, the model, the
  timeline and the database do: if the run of a unit returns an outcome, the row with the unit's key has the status
  of that outcome - in particular it is not left running - or the job does not exist and nothing was done. The
  hypothesis \<open>guard_can_write\<close> is about the write of last resort only: the database does not refuse its first
  transaction, and the id drawn for its log is not in use.
\<close>

theorem unit_row_says_outcome:
  assumes "records_ok s" and "keys_ok au_unit_id (db_units (mem_db s))" and "au_status template = TASK_PENDING"
    and "guard_can_write env s"
    and "(us, run) \<in> isolated_runs p env job_id video_id ctx trg template" and "run s = (Inr outcome, s')"
  shows "map_option au_status (unit_by_key (au_idempotency_key template) s') = Some (outcome_status outcome) \<or>
    outcome = OUTCOME_FAILED \<and> s' = s \<and> get_job_row job_id (mem_db s) = None"
  using run_result_row [OF se_wp_Inr [OF isolated_run_wp [OF assms(1-3,5)] assms(6)]] assms(4) by blast

text \<open>
  C28. Readers see nothing of a unit that does not succeed. A run that raises leaves the state as it was;
  a run that returns leaves every segment with the active record it had, except that a success may put
  one record on one segment: of the unit's scale and interval, with the tenant, video and camera of the
  video source and the location, policy and security level that the catalog resolved.
\<close>

theorem only_success_publishes:
  assumes "records_ok s" and "keys_ok au_unit_id (db_units (mem_db s))" and "au_status template = TASK_PENDING"
    and "(us, run) \<in> isolated_runs p env job_id video_id ctx trg template"
  shows "case run s of
      (Inl e, s') \<Rightarrow> s' = s
    | (Inr outcome, s') \<Rightarrow> active_at s' = active_at s \<or>
        outcome = OUTCOME_SUCCEEDED \<and>
        (\<exists>now r. one_record_of us job_id (au_segment_start_ms template) (au_segment_end_ms template) ctx r \<and>
          active_at s' = (active_at s)(segment_key r \<mapsto> observation_to_orm now r))"
proof (cases "run s")
  case (Pair r s')
  note wp = isolated_run_wp [OF assms]
  show ?thesis
  proof (cases r)
    case (Inl e)
    with se_wp_Inl [OF wp] Pair show ?thesis by simp
  next
    case (Inr outcome)
    with Pair have "run s = (Inr outcome, s')" by simp
    from run_result_records [OF se_wp_Inr [OF wp this]] show ?thesis
      unfolding Pair Inr prod.case sum.case .
  qed
qed

lemma claim_of_settled:
  assumes "get_job_row job_id (mem_db s) \<noteq> None" and "outcome \<noteq> OUTCOME_FAILED" and "un_fault env ''claim'' 1 = None"
    and "map_option au_status (unit_by_key (au_idempotency_key template) s) = Some (outcome_status outcome)"
  shows "claim_unit env job_id template mcall_id s = (Inr (AlreadySettled outcome), s)"
proof -
  obtain u where "find (\<lambda>x. au_idempotency_key x = au_idempotency_key template) (db_units (mem_db s)) = Some u"
    and "au_status u = outcome_status outcome"
    using assms(4) by (auto simp: unit_by_key_def row_get_def)
  moreover obtain job where "get_job_row job_id (mem_db s) = Some job" using assms(1) by auto
  ultimately show ?thesis using assms(2,3)
    by (cases outcome) (simp_all add: claim_unit_def unit_session_def session_scope_def claim_work_def se_simps
      unit_create_or_get_def outcome_status_def)
qed

text \<open>
  C29. Running a unit again is harmless. Once a run has ended with a success or a skip, a second run with
  the same key - after a restart, by the other mode, with another environment - returns the same outcome
  and changes nothing, as long as the job exists and its claim is not refused by the database.
\<close>

theorem settled_unit_runs_once:
  assumes "records_ok s" and "keys_ok au_unit_id (db_units (mem_db s))" and "au_status template = TASK_PENDING"
    and "(us, run) \<in> isolated_runs p env job_id video_id ctx trg template" and "run s = (Inr outcome, s')"
    and "outcome \<noteq> OUTCOME_FAILED" and "get_job_row job_id (mem_db s') \<noteq> None"
    and "(us2, again) \<in> isolated_runs p2 env2 job_id video_id ctx2 trg2 template2"
    and "au_idempotency_key template2 = au_idempotency_key template" and "un_fault env2 ''claim'' 1 = None"
  shows "again s' = (Inr outcome, s')"
proof -
  have "map_option au_status (unit_by_key (au_idempotency_key template2) s') = Some (outcome_status outcome)"
    using run_result_row [OF se_wp_Inr [OF isolated_run_wp [OF assms(1-4)] assms(5)]] assms(6,9) by auto
  note claim = claim_of_settled [OF assms(7,6,10) this]
  show ?thesis using assms(8)
    by (auto simp: isolated_runs_def ds_run_unit_def hf_run_unit_def guarded_run_def Let_def se_simps claim)
qed

text \<open>
  C30. The counts of a scale add up. If \<^verbatim>\<open>process\<close> of either processor returns, every planned unit is
  counted exactly once as succeeded, failed or skipped, in each of the three modes; a pool may finish the
  units in any order.
\<close>

theorem scale_counts_add_up:
  assumes "proc = ds_process p env_of env mode probe job_id video_id \<or> proc = hf_process p env_of env mode job_id video_id"
    and "\<And>f ts. mode = IsolatedPool f \<Longrightarrow> mset (f ts) = mset ts" and "proc s = (Inr r, s')"
  shows "spr_succeeded r + spr_failed r + spr_skipped r = spr_total r"
proof -
  have len: "\<forall>f ts. mode = IsolatedPool f \<longrightarrow> length (f ts) = length ts"
    using assms(2) by (metis size_mset)
  have rows: "length us = length ts" if "create_all ts t = (Inr us, t')" for ts t us t'
    using that by (induction ts arbitrary: t us t') (auto simp: se_ret_def se_bind_def split: prod.splits sum.splits)
  from assms(1,3) len show ?thesis
    by (cases mode)
      (auto simp: ds_process_def hf_process_def se_bind_def Let_def se_ret_def fresh_count_def
        split: prod.splits sum.splits option.splits dest!: run_in_turn_counts rows)
qed

section \<open>Examples\<close>

text \<open>A video without usable frames, and one unit of it.\<close>

definition ex_processor :: processor where
  "ex_processor =
    \<lparr>pc_scale_task_id = ''d'', pc_provider = ''mock'', pc_model_id = ''m'', pc_pipeline_version = ''q'',
     pc_window_seconds = 12, pc_overlap_seconds = 3, pc_overlap_ratio = 0, pc_frames_per_segment = 6,
     pc_debug_media = False, pc_artifact_root = ''a'', pc_cleanup_selected_on_success = True,
     pc_default_policy_id = ''policy_public_area'', pc_retry_policy = ex_retry_policy, pc_terminal_write_max_attempts = 2,
     pc_provider_options = [], pc_detector_gate_enabled = False, pc_detector_gate_provider = ''mock'',
     pc_detector_gate_model_id = ''m'', pc_detector_gate_rules = [], pc_pre_vlm_gate_profile = None\<rparr>"

definition ex_unit_env :: unit_env where
  "ex_unit_env =
    \<lparr>un_py = \<lparr>py_fl = (\<lambda>x. x), py_repr_float = (\<lambda>x. ''0.5''), py_parse_float = (\<lambda>s. None), py_repr = (\<lambda>v. []),
       py_hexdigest = (\<lambda>t. t)\<rparr>, un_fs = \<lparr>fs_size = (\<lambda>_. None), fs_sha256 = (\<lambda>_. Inl ''x''), fs_copy = (\<lambda>_ _. None), fs_mkdir = (\<lambda>_. None)\<rparr>,
     un_prompt = (\<lambda>_. ''p''), un_strict_instruction = ''s'',
     un_video = PlainProcessor (\<lambda>_ _ _ _ _. Inl (InsufficientFramesError ''eof'')),
     un_analyze = (\<lambda>_ _ _. Inr ex_output),
     un_payload = (\<lambda>_. \<lparr>pay_raw = None, pay_parsed = None, pay_stage = None, pay_details = None\<rparr>),
     un_jitter = (\<lambda>_. 0), un_file_sha256 = (\<lambda>_. None), un_gate = None, un_detect_frames = None,
     un_fault = (\<lambda>_ _. None),
     un_timeline_fault = (\<lambda>_. None), un_timeline_enabled = False, un_rate_limited = (\<lambda>_. False), un_max_concurrent = 1,
     un_id = (\<lambda>prefix n. prefix @ show_nat n), un_now = (\<lambda>_. (0, 0)), un_elapsed = (\<lambda>_. 0)\<rparr>"

definition ex_site :: site where
  "ex_site = \<lparr>mem_db = ex_db JOB_RUNNING [] [], mem_records = [], mem_history = [], mem_fts = None, mem_vectors = [],
     mem_audit = [], ct_locations = [], ct_cameras = [], ct_policies = [], ct_principals = [], ct_model_calls = [],
     ct_gate_logs = [], ct_pre_vlm_logs = [], st_timeline = [], st_files = []\<rparr>"

definition ex_context :: video_context where
  "ex_context = \<lparr>vc_source = ex_video,
     vc_camera = \<lparr>cam_camera_id = ''cam'', cam_tenant_id = ''tenant_default'', cam_camera_name = ''c'',
       cam_location_id = ''loc'', cam_access_policy_id = None, cam_status = ''active''\<rparr>,
     vc_location = build_auto_location, vc_access_policy_id = ''policy_public_area'', vc_security_level = INTERNAL\<rparr>"

definition ex_template :: analysis_unit where
  "ex_template = unit_template ex_processor ds_style ''j'' ''v'' ''unit0'' 0 None \<lparr>sw_start_ms = 0, sw_end_ms = 12000\<rparr>"

lemma ex_event: "unit_event p ex_unit_env us u name phase f s = (Inr (), s)"
  by (simp add: unit_event_def record_event_def site_recorder_def ex_unit_env_def se_simps)

lemma ex_span: "unit_span p ex_unit_env us u name md body s = body s"
proof -
  have "record_event (site_recorder ex_unit_env) n ph f t = (Inr (), t)" for n ph f t
    by (simp add: record_event_def site_recorder_def ex_unit_env_def)
  then show ?thesis
    by (simp add: unit_span_def record_span_def Let_def se_bind_def se_then_def se_try_def se_raise_def se_ret_def
        split: prod.split sum.split)
qed

lemma ex_unit_claim:
  "\<exists>s1. claim_unit ex_unit_env ''j'' ex_template mcall ex_site = (Inr (ClaimedUnit ex_template (ex_job JOB_RUNNING)), s1) \<and>
     get_job_row ''j'' (mem_db s1) \<noteq> None"
  by (simp add: claim_unit_def unit_session_def session_scope_def claim_work_def se_simps unit_create_or_get_def row_ins_def
      ex_unit_env_def ex_site_def ex_db_def ex_job_def ex_template_def unit_template_def unit_mark_running_def)

lemma ex_skip:
  "terminalize_unit_skipped ex_processor ex_unit_env u reason s =
    (Inr (), s\<lparr>mem_db := unit_mark_skipped (0, 0) (ru_unit_id u) reason (Some (ru_mcall_id u)) (mem_db s)\<rparr>)"
  by (simp add: terminalize_unit_skipped_def terminal_write_def run_db_write_with_retry_def ex_processor_def
      unit_session_def session_scope_def ex_unit_env_def numeral_2_eq_2)

lemma ex_frames:
  "frames_phase ex_processor ex_unit_env us u s = (Inr (FramesDone OUTCOME_SKIPPED),
     s\<lparr>mem_db := unit_mark_skipped (0, 0) (ru_unit_id u) ''insufficient_frames'' (Some (ru_mcall_id u)) (mem_db s)\<rparr>)"
proof -
  have "select_body ex_processor ex_unit_env u s = (Inl (InsufficientFramesError ''eof''), s)"
    by (simp add: select_body_def ex_unit_env_def select_frames_for_unit_def se_simps)
  then show ?thesis
    by (simp add: frames_phase_def skip_without_frames_def finished_event_def se_simps ex_span ex_skip ex_event is_instance_def)
qed

lemma ex_run:
  "\<exists>s'. ds_run_unit ex_processor ex_unit_env ''j'' ''v'' ex_context ex_template ex_site = (Inr OUTCOME_SKIPPED, s') \<and>
     get_job_row ''j'' (mem_db s') \<noteq> None"
proof -
  obtain s1 where "claim_unit ex_unit_env ''j'' ex_template (un_id ex_unit_env ''mcall'' 0) ex_site =
      (Inr (ClaimedUnit ex_template (ex_job JOB_RUNNING)), s1)" and "get_job_row ''j'' (mem_db s1) \<noteq> None"
    using ex_unit_claim by blast
  then show ?thesis
    by (simp add: ds_run_unit_def guarded_run_def Let_def se_simps ex_event guard_unit_def ds_execute_def unit_execute_def
        at_phase_def ex_frames unit_mark_skipped_def)
qed

lemma ex_store: "records_ok ex_site" "keys_ok au_unit_id (db_units (mem_db ex_site))" "au_status ex_template = TASK_PENDING"
  by (simp_all add: records_ok_def keys_ok_def fts_synced_def ex_site_def ex_db_def ex_template_def unit_template_def)

lemma ex_is_isolated:
  "(ds_style, ds_run_unit ex_processor ex_unit_env ''j'' ''v'' ex_context ex_template)
    \<in> isolated_runs ex_processor ex_unit_env ''j'' ''v'' ex_context None ex_template"
  by (simp add: isolated_runs_def)

theorem unit_row_says_outcome_witness:
  "\<exists>s'. ds_run_unit ex_processor ex_unit_env ''j'' ''v'' ex_context ex_template ex_site = (Inr OUTCOME_SKIPPED, s') \<and>
     map_option au_status (unit_by_key (au_idempotency_key ex_template) s') = Some TASK_SKIPPED"
proof -
  obtain s' where run: "ds_run_unit ex_processor ex_unit_env ''j'' ''v'' ex_context ex_template ex_site = (Inr OUTCOME_SKIPPED, s')"
    using ex_run by blast
  have "guard_can_write ex_unit_env ex_site"
    by (auto simp: guard_can_write_def own_log_ids_def log_free_def ex_unit_env_def ex_site_def)
  from unit_row_says_outcome [OF ex_store this ex_is_isolated run] run
  show ?thesis by (auto simp: outcome_status_def)
qed

theorem only_success_publishes_witness:
  "\<exists>s'. ds_run_unit ex_processor ex_unit_env ''j'' ''v'' ex_context ex_template ex_site = (Inr OUTCOME_SKIPPED, s') \<and>
     active_at s' = active_at ex_site"
proof -
  obtain s' where run: "ds_run_unit ex_processor ex_unit_env ''j'' ''v'' ex_context ex_template ex_site = (Inr OUTCOME_SKIPPED, s')"
    using ex_run by blast
  from only_success_publishes [OF ex_store ex_is_isolated] run show ?thesis by simp
qed

theorem settled_unit_runs_once_witness:
  "\<exists>s'. ds_run_unit ex_processor ex_unit_env ''j'' ''v'' ex_context ex_template ex_site = (Inr OUTCOME_SKIPPED, s') \<and>
     ds_run_unit ex_processor ex_unit_env ''j'' ''v'' ex_context ex_template s' = (Inr OUTCOME_SKIPPED, s')"
proof -
  obtain s' where run: "ds_run_unit ex_processor ex_unit_env ''j'' ''v'' ex_context ex_template ex_site = (Inr OUTCOME_SKIPPED, s')"
    and job: "get_job_row ''j'' (mem_db s') \<noteq> None"
    using ex_run by blast
  have "un_fault ex_unit_env ''claim'' 1 = None" by (simp add: ex_unit_env_def)
  from settled_unit_runs_once [OF ex_store ex_is_isolated run _ job ex_is_isolated refl this] run show ?thesis by simp
qed

theorem scale_counts_add_up_witness:
  "hf_process ex_processor (\<lambda>_. ex_unit_env) ex_unit_env IsolatedSerial ''j'' ''v'' ex_site = (Inr (fresh_count 0), ex_site) \<and>
   spr_succeeded (fresh_count 0) + spr_failed (fresh_count 0) + spr_skipped (fresh_count 0) = spr_total (fresh_count 0)"
proof -
  have run: "hf_process ex_processor (\<lambda>_. ex_unit_env) ex_unit_env IsolatedSerial ''j'' ''v'' ex_site = (Inr (fresh_count 0), ex_site)"
    by (simp add: hf_process_def hf_plan_def require_job_def se_simps trigger_list_by_job_def ex_site_def ex_db_def ex_job_def)
  show ?thesis
    by (rule conjI [OF run scale_counts_add_up [OF disjI2 [OF refl] _ run]]) simp
qed

end
