(* ===== verification/Cctv_Pacing.thy ===== *)
theory Cctv_Pacing
  imports Cctv_Prelude
begin

text \<open>
  The pacing of model calls (\<^verbatim>\<open>workers/vlm_scheduler.py\<close>): a semaphore caps the calls in flight, and a
  lock around a time stamp keeps the stamps of successive calls apart. Threads are interleaved step by
  step; a step is what one thread does between two points where another may run, or the clock moving on.
  The clock is in nanoseconds and never goes back, and a sleeping thread wakes at or after the time that
  it asked for.
\<close>

section \<open>Threads and their steps\<close>

text \<open>
  Where a thread is in \<^verbatim>\<open>run\<close>: before the semaphore; with a slot; with the lock, before it reads the clock;
  asleep with the lock until a time; with the lock, about to stamp; past the lock; inside \<^verbatim>\<open>unit_fn\<close>; out,
  after a result or an exception.
\<close>

datatype pc = AtSemaphore | HasSlot | HasLock | Asleep int | AboutToStamp | PastLock | InCall | Out bool

record pacer =
  pa_max :: nat
  pa_interval :: int
  pa_now :: int
  pa_free :: nat
  pa_lock :: "nat option"
  pa_last :: int
  pa_threads :: "pc list"
  pa_stamps :: "int list"
  pa_calls :: "int list"

definition new_pacer :: "int \<Rightarrow> int \<Rightarrow> int \<Rightarrow> nat \<Rightarrow> string + pacer" where
  "new_pacer max_concurrent min_interval_ms now n =
    (if max_concurrent < 1 then Inl ''max_concurrent must be >= 1''
     else if min_interval_ms < 0 then Inl ''min_interval_ms must be >= 0''
     else Inr \<lparr>pa_max = nat max_concurrent, pa_interval = min_interval_ms * 1000000, pa_now = now,
       pa_free = nat max_concurrent, pa_lock = None, pa_last = 0, pa_threads = replicate n AtSemaphore,
       pa_stamps = [], pa_calls = []\<rparr>)"

abbreviation at_pc :: "pacer \<Rightarrow> nat \<Rightarrow> pc \<Rightarrow> bool" where
  "at_pc s i c \<equiv> i < length (pa_threads s) \<and> pa_threads s ! i = c"

definition go :: "nat \<Rightarrow> pc \<Rightarrow> pacer \<Rightarrow> pacer" where
  "go i c s = s\<lparr>pa_threads := (pa_threads s)[i := c]\<rparr>"

inductive pace :: "pacer \<Rightarrow> pacer \<Rightarrow> bool" where
  tick: "0 \<le> d \<Longrightarrow> pace s (s\<lparr>pa_now := pa_now s + d\<rparr>)"
| enter: "at_pc s i AtSemaphore \<Longrightarrow> 0 < pa_free s \<Longrightarrow> pace s (go i HasSlot (s\<lparr>pa_free := pa_free s - 1\<rparr>))"
| unpaced: "at_pc s i HasSlot \<Longrightarrow> pa_interval s = 0 \<Longrightarrow> pace s (go i PastLock s)"
| lock: "at_pc s i HasSlot \<Longrightarrow> 0 < pa_interval s \<Longrightarrow> pa_lock s = None \<Longrightarrow> pace s (go i HasLock (s\<lparr>pa_lock := Some i\<rparr>))"
| late: "at_pc s i HasLock \<Longrightarrow> pa_interval s \<le> pa_now s - pa_last s \<Longrightarrow> pace s (go i AboutToStamp s)"
| early: "at_pc s i HasLock \<Longrightarrow> pa_now s - pa_last s < pa_interval s \<Longrightarrow>
    pace s (go i (Asleep (pa_now s + (pa_interval s - (pa_now s - pa_last s)))) s)"
| wake: "at_pc s i (Asleep t) \<Longrightarrow> t \<le> pa_now s \<Longrightarrow> pace s (go i AboutToStamp s)"
| stamp: "at_pc s i AboutToStamp \<Longrightarrow>
    pace s (go i PastLock (s\<lparr>pa_last := pa_now s, pa_stamps := pa_now s # pa_stamps s, pa_lock := None\<rparr>))"
| start: "at_pc s i PastLock \<Longrightarrow> pace s (go i InCall (s\<lparr>pa_calls := pa_now s # pa_calls s\<rparr>))"
| leave: "at_pc s i InCall \<Longrightarrow> pace s (go i (Out ok) (s\<lparr>pa_free := pa_free s + 1\<rparr>))"

inductive paced :: "pacer \<Rightarrow> pacer \<Rightarrow> bool" for s0 where
  paced_refl: "paced s0 s0"
| paced_step: "paced s0 s \<Longrightarrow> pace s s' \<Longrightarrow> paced s0 s'"

section \<open>Invariants\<close>

definition holds_slot :: "pc \<Rightarrow> bool" where
  "holds_slot c \<longleftrightarrow> c \<noteq> AtSemaphore \<and> (\<forall>ok. c \<noteq> Out ok)"

fun holds_lock :: "pc \<Rightarrow> bool" where
  "holds_lock HasLock = True"
| "holds_lock (Asleep t) = True"
| "holds_lock AboutToStamp = True"
| "holds_lock c = False"

text \<open>What a thread that holds the lock knows of the time since the last stamp.\<close>

fun waited :: "pacer \<Rightarrow> pc \<Rightarrow> bool" where
  "waited s (Asleep t) = (pa_last s + pa_interval s \<le> t)"
| "waited s AboutToStamp = (pa_last s + pa_interval s \<le> pa_now s)"
| "waited s c = True"

definition spaced :: "int \<Rightarrow> int list \<Rightarrow> bool" where
  "spaced gap stamps = sorted_wrt (\<lambda>later earlier. gap \<le> later - earlier) stamps"

lemma count_where_update:
  assumes "i < length xs"
  shows "count_where P (xs[i := x]) + (if P (xs ! i) then 1 else 0) = count_where P xs + (if P x then 1 else 0)"
proof -
  have "count_where P xs = count_where P (take i xs @ xs ! i # drop (Suc i) xs)"
    using id_take_nth_drop [OF assms] by simp
  then show ?thesis by (simp add: upd_conv_take_nth_drop assms)
qed

lemma go_fields [simp]:
  "pa_threads (go i c s) = (pa_threads s)[i := c]" "pa_max (go i c s) = pa_max s" "pa_interval (go i c s) = pa_interval s"
  "pa_now (go i c s) = pa_now s" "pa_free (go i c s) = pa_free s" "pa_lock (go i c s) = pa_lock s"
  "pa_last (go i c s) = pa_last s" "pa_stamps (go i c s) = pa_stamps s" "pa_calls (go i c s) = pa_calls s"
  by (simp_all add: go_def)

lemma holds_slot_simps [simp]:
  "\<not> holds_slot AtSemaphore" "holds_slot HasSlot" "holds_slot HasLock" "holds_slot (Asleep t)" "holds_slot AboutToStamp"
  "holds_slot PastLock" "holds_slot InCall" "\<not> holds_slot (Out ok)"
  by (simp_all add: holds_slot_def)

lemma waited_cong: "pa_last s' = pa_last s \<Longrightarrow> pa_interval s' = pa_interval s \<Longrightarrow> pa_now s \<le> pa_now s' \<Longrightarrow>
    waited s c \<Longrightarrow> waited s' c"
  by (cases c) auto

text \<open>Slots and lock are counted right; what holds the lock is one thread.\<close>

definition slots_ok :: "pacer \<Rightarrow> bool" where
  "slots_ok s \<longleftrightarrow> pa_free s + count_where holds_slot (pa_threads s) = pa_max s"

definition lock_ok :: "pacer \<Rightarrow> bool" where
  "lock_ok s \<longleftrightarrow> (\<forall>i < length (pa_threads s). holds_lock (pa_threads s ! i) \<longleftrightarrow> pa_lock s = Some i) \<and>
    (\<forall>i. pa_lock s = Some i \<longrightarrow> i < length (pa_threads s))"

definition stamps_ok :: "pacer \<Rightarrow> bool" where
  "stamps_ok s \<longleftrightarrow> 0 \<le> pa_interval s \<and> (\<forall>c \<in> set (pa_threads s). waited s c) \<and>
    spaced (pa_interval s) (pa_stamps s) \<and> (\<forall>t \<in> set (pa_stamps s). t \<le> pa_last s)"

lemma count_where_same:
  "i < length xs \<Longrightarrow> P x = P (xs ! i) \<Longrightarrow> count_where P (xs[i := x]) = count_where P xs"
  using count_where_update [of i xs P x] by (simp split: if_splits)

lemma slots_step:
  assumes "pace s s'" and ok: "slots_ok s"
  shows "slots_ok s'"
  using assms
proof (induction rule: pace.induct)
  case (enter s i)
  then show ?case using count_where_update [of i "pa_threads s" holds_slot HasSlot] by (simp add: slots_ok_def)
next
  case (leave s i ok)
  then show ?case using count_where_update [of i "pa_threads s" holds_slot "Out ok"] by (simp add: slots_ok_def)
qed (simp_all add: slots_ok_def count_where_same)

lemma lock_step: "pace s s' \<Longrightarrow> lock_ok s \<Longrightarrow> lock_ok s'"
  by (induction rule: pace.induct) (auto simp: lock_ok_def nth_list_update)

lemma only_holder:
  assumes "lock_ok s" and "at_pc s i c" and "holds_lock c" and "d \<in> set (pa_threads s)" and "holds_lock d"
  shows "d = c"
  using assms by (auto simp: lock_ok_def in_set_conv_nth)

lemma stamps_go:
  assumes "stamps_ok s" and "waited s e"
    and "pa_last t = pa_last s" "pa_interval t = pa_interval s" "pa_now t = pa_now s"
      "pa_stamps t = pa_stamps s" "pa_threads t = pa_threads s"
  shows "stamps_ok (go i e t)"
proof -
  have "waited (go i e t) c" if "waited s c" for c
    by (rule waited_cong [of _ s]) (use assms that in simp_all)
  moreover have "set ((pa_threads s)[i := e]) \<subseteq> insert e (set (pa_threads s))" by (rule set_update_subset_insert)
  ultimately show ?thesis using assms by (auto simp: stamps_ok_def)
qed

lemma no_other_holder:
  assumes "lock_ok s" and "at_pc s i c" and "holds_lock c" and "d \<in> set ((pa_threads s)[i := e])"
  shows "d = e \<or> \<not> holds_lock d"
proof -
  obtain j where j: "j < length (pa_threads s)" "d = (pa_threads s)[i := e] ! j"
    using assms(4) by (auto simp: in_set_conv_nth)
  then show ?thesis using assms(1-3) by (cases "j = i") (auto simp: lock_ok_def)
qed

lemma waited_at: "stamps_ok s \<Longrightarrow> at_pc s i c \<Longrightarrow> waited s c"
  by (auto simp: stamps_ok_def)

lemma not_holding_waited: "\<not> holds_lock c \<Longrightarrow> waited s c"
  by (cases c) simp_all

lemma stamps_step:
  assumes "pace s s'" and "lock_ok s" and "stamps_ok s"
  shows "stamps_ok s'"
  using assms
proof (induction rule: pace.induct)
  case (tick d s)
  have "waited (s\<lparr>pa_now := pa_now s + d\<rparr>) c" if "c \<in> set (pa_threads s)" for c
    by (rule waited_cong [of _ s]) (use tick that in \<open>simp_all add: stamps_ok_def\<close>)
  with tick show ?case by (simp add: stamps_ok_def)
next
  case (wake s i t)
  then have "waited s (Asleep t)" using waited_at by blast
  then have "waited s AboutToStamp" using wake(2) by simp
  with wake(4) show ?case by (intro stamps_go) simp_all
next
  case (stamp s i)
  let ?s = "go i PastLock (s\<lparr>pa_last := pa_now s, pa_stamps := pa_now s # pa_stamps s, pa_lock := None\<rparr>)"
  from stamp have "waited s AboutToStamp" using waited_at by blast
  then have gap: "pa_last s + pa_interval s \<le> pa_now s" by simp
  have "waited ?s d" if "d \<in> set (pa_threads ?s)" for d
    using no_other_holder [OF stamp(2) stamp(1) _ that [simplified]] not_holding_waited by auto
  moreover have "spaced (pa_interval s) (pa_now s # pa_stamps s)"
    using stamp gap by (fastforce simp: stamps_ok_def spaced_def)
  ultimately show ?case using stamp gap by (fastforce simp: stamps_ok_def)
qed (auto intro: stamps_go)

definition pacing_ok :: "pacer \<Rightarrow> bool" where
  "pacing_ok s \<longleftrightarrow> slots_ok s \<and> lock_ok s \<and> stamps_ok s"

lemma pacing_step: "pace s s' \<Longrightarrow> pacing_ok s \<Longrightarrow> pacing_ok s'"
  unfolding pacing_ok_def using slots_step lock_step stamps_step by blast

lemma new_pacer_ok: "new_pacer k ms now n = Inr s \<Longrightarrow> pacing_ok s"
proof -
  assume "new_pacer k ms now n = Inr s"
  moreover have "count_where holds_slot (replicate n AtSemaphore) = 0" by (simp add: count_where_0_iff)
  ultimately show ?thesis
    by (auto simp: new_pacer_def pacing_ok_def slots_ok_def lock_ok_def stamps_ok_def spaced_def split: if_splits)
qed

lemma paced_ok: "paced s0 s \<Longrightarrow> pacing_ok s0 \<Longrightarrow> pacing_ok s"
  by (induction rule: paced.induct) (auto intro: pacing_step)

lemma pace_fixed: "pace s s' \<Longrightarrow> pa_max s' = pa_max s \<and> pa_interval s' = pa_interval s \<and>
    length (pa_threads s') = length (pa_threads s)"
  by (induction rule: pace.induct) simp_all

lemma paced_fixed: "paced s0 s \<Longrightarrow> pa_max s = pa_max s0 \<and> pa_interval s = pa_interval s0 \<and>
    length (pa_threads s) = length (pa_threads s0)"
  by (induction rule: paced.induct) (use pace_fixed in \<open>auto simp: pace_fixed\<close>)

section \<open>Properties\<close>

text \<open>
  C36. Model calls are capped and their stamps are paced: in every reachable interleaving of any number
  of threads at most \<open>max_concurrent\<close> of them are inside the model call, and any two stamps of the pacing
  lock are at least the configured interval apart.
\<close>

theorem calls_are_capped_and_paced:
  assumes "new_pacer max_concurrent min_interval_ms now n = Inr s0" and "paced s0 s"
  shows "int (count_where (\<lambda>c. c = InCall) (pa_threads s)) \<le> max_concurrent \<and>
    spaced (min_interval_ms * 1000000) (pa_stamps s)"
proof -
  have ok: "pacing_ok s" using assms new_pacer_ok paced_ok by blast
  have "count_where (\<lambda>c. c = InCall) cs \<le> count_where holds_slot cs" for cs
    by (induction cs) auto
  then have "count_where (\<lambda>c. c = InCall) (pa_threads s) \<le> pa_max s"
    using ok by (metis add_leD2 pacing_ok_def slots_ok_def order_trans le_add2)
  with assms ok paced_fixed [OF assms(2)] show ?thesis
    by (auto simp: new_pacer_def pacing_ok_def stamps_ok_def split: if_splits)
qed

lemma moved: "i < length xs \<Longrightarrow> xs ! i \<noteq> c \<Longrightarrow> xs[i := c] \<noteq> xs"
  by (metis nth_list_update_eq)

lemma slot_moves:
  assumes "pa_lock s = None" and "lock_ok s" and "stamps_ok s" and "at_pc s i c" and "holds_slot c"
  shows "\<exists>s'. pace s s' \<and> pa_threads s' \<noteq> pa_threads s"
proof -
  have i: "i < length (pa_threads s)" "pa_threads s ! i = c" using assms(4) by simp_all
  have "\<not> holds_lock c" using assms(1,2) i by (auto simp: lock_ok_def)
  moreover have "pa_interval s = 0 \<or> 0 < pa_interval s" using assms(3) by (auto simp: stamps_ok_def)
  ultimately consider "c = HasSlot" "pa_interval s = 0" | "c = HasSlot" "0 < pa_interval s" | "c = PastLock" | "c = InCall"
    using assms(5) by (cases c) (auto simp: holds_slot_def)
  then show ?thesis
  proof cases
    case 1
    then show ?thesis using pace.unpaced [where s = s and i = i] moved i by fastforce
  next
    case 2
    then show ?thesis using pace.lock [where s = s and i = i] moved i assms(1) by fastforce
  next
    case 3
    then show ?thesis using pace.start [where s = s and i = i] moved i by fastforce
  next
    case 4
    then show ?thesis using pace.leave [where s = s and i = i] moved i by fastforce
  qed
qed

lemma holder_moves:
  assumes "at_pc s i c" and "holds_lock c"
  shows "\<exists>d s'. 0 \<le> d \<and> pace (s\<lparr>pa_now := pa_now s + d\<rparr>) s' \<and> pa_threads s' \<noteq> pa_threads s"
proof (cases c)
  case HasLock
  then have at: "at_pc s i HasLock" using assms by simp
  show ?thesis
  proof (cases "pa_interval s \<le> pa_now s - pa_last s")
    case True
    with at have "pace s (go i AboutToStamp s)" by (rule pace.late)
    moreover have "(pa_threads s)[i := AboutToStamp] \<noteq> pa_threads s" by (rule moved) (use at in simp_all)
    ultimately show ?thesis by (intro exI [of _ 0] exI [of _ "go i AboutToStamp s"]) simp
  next
    case False
    let ?c = "Asleep (pa_now s + (pa_interval s - (pa_now s - pa_last s)))"
    have "pace s (go i ?c s)" by (rule pace.early [OF at]) (use False in simp)
    moreover have "(pa_threads s)[i := ?c] \<noteq> pa_threads s" by (rule moved) (use at in simp_all)
    ultimately show ?thesis by (intro exI [of _ 0] exI [of _ "go i ?c s"]) simp
  qed
next
  case (Asleep t)
  let ?s = "s\<lparr>pa_now := pa_now s + max 0 (t - pa_now s)\<rparr>"
  have "pace ?s (go i AboutToStamp ?s)" by (rule pace.wake [of _ _ t]) (use assms Asleep in auto)
  then show ?thesis using moved assms Asleep by (intro exI [of _ "max 0 (t - pa_now s)"]) fastforce
next
  case AboutToStamp
  then show ?thesis using pace.stamp [where s = s and i = i] moved assms by (intro exI [of _ 0]) fastforce
qed (use assms in simp_all)

text \<open>
  C37. The pacing cannot deadlock: while some thread is not out, either a thread can take a step now or
  a sleeping thread can once the clock has moved on.
\<close>

theorem pacing_never_deadlocks:
  assumes "new_pacer max_concurrent min_interval_ms now n = Inr s0" and "paced s0 s"
    and "\<exists>c \<in> set (pa_threads s). \<forall>ok. c \<noteq> Out ok"
  shows "\<exists>d s'. 0 \<le> d \<and> pace (s\<lparr>pa_now := pa_now s + d\<rparr>) s' \<and> pa_threads s' \<noteq> pa_threads s"
proof -
  have ok: "slots_ok s" "lock_ok s" "stamps_ok s"
    using assms(1,2) new_pacer_ok paced_ok unfolding pacing_ok_def by blast+
  have still: "\<exists>d s'. 0 \<le> d \<and> pace (s\<lparr>pa_now := pa_now s + d\<rparr>) s' \<and> pa_threads s' \<noteq> pa_threads s"
    if "pace s s'" "pa_threads s' \<noteq> pa_threads s" for s'
    by (rule exI [of _ 0]) (use that in auto)
  obtain i where i: "i < length (pa_threads s)" "\<forall>ok. pa_threads s ! i \<noteq> Out ok"
    using assms(3) by (auto simp: in_set_conv_nth)
  show ?thesis
  proof (cases "pa_lock s")
    case (Some j)
    with ok(2) have "at_pc s j (pa_threads s ! j)" and "holds_lock (pa_threads s ! j)" by (auto simp: lock_ok_def)
    then show ?thesis by (rule holder_moves)
  next
    case None
    note moves = slot_moves [OF None ok(2,3)]
    show ?thesis
    proof (cases "\<exists>j < length (pa_threads s). holds_slot (pa_threads s ! j)")
      case True
      then show ?thesis using moves still by blast
    next
      case False
      then have "count_where holds_slot (pa_threads s) = 0" by (auto simp: count_where_0_iff in_set_conv_nth)
      moreover have "0 < pa_max s"
        using assms(1) paced_fixed [OF assms(2)] by (auto simp: new_pacer_def split: if_splits)
      ultimately have "0 < pa_free s" using ok(1) by (simp add: slots_ok_def)
      moreover have at: "pa_threads s ! i = AtSemaphore" using False i by (auto simp: holds_slot_def)
      ultimately have "pace s (go i HasSlot (s\<lparr>pa_free := pa_free s - 1\<rparr>))" using i by (intro pace.enter) simp_all
      moreover have "(pa_threads s)[i := HasSlot] \<noteq> pa_threads s" by (rule moved) (use i at in simp_all)
      ultimately show ?thesis by (intro still [of "go i HasSlot (s\<lparr>pa_free := pa_free s - 1\<rparr>)"]) simp_all
    qed
  qed
qed

section \<open>Witnesses\<close>

lemma calls_are_capped_and_paced_witness:
  "\<exists>s. new_pacer 2 5 7 3 = Inr s \<and> int (count_where (\<lambda>c. c = InCall) (pa_threads s)) \<le> 2 \<and>
    spaced (5 * 1000000) (pa_stamps s)"
proof -
  obtain s where s: "new_pacer 2 5 7 3 = Inr s" by (simp add: new_pacer_def)
  then show ?thesis using calls_are_capped_and_paced [OF s paced_refl] by blast
qed

lemma pacing_never_deadlocks_witness:
  "\<exists>s d s'. new_pacer 2 5 7 3 = Inr s \<and> 0 \<le> d \<and> pace (s\<lparr>pa_now := pa_now s + d\<rparr>) s' \<and> pa_threads s' \<noteq> pa_threads s"
proof -
  obtain s where s: "new_pacer 2 5 7 3 = Inr s" "AtSemaphore \<in> set (pa_threads s)" by (simp add: new_pacer_def)
  then have "\<exists>c \<in> set (pa_threads s). \<forall>ok. c \<noteq> Out ok" by (intro bexI [of _ AtSemaphore]) simp_all
  then show ?thesis using pacing_never_deadlocks [OF s(1) paced_refl] s(1) by blast
qed

text \<open>
  Only the stamps are apart: with two slots a thread may be delayed between its stamp and its call, and
  the next one then starts its call in the same instant.
\<close>

lemma call_starts_can_bunch:
  "\<exists>s0 s. new_pacer 2 5 5000000 2 = Inr s0 \<and> paced s0 s \<and> pa_calls s = [10000000, 10000000]"
proof -
  obtain s0 where s0: "new_pacer 2 5 5000000 2 = Inr s0" by (simp add: new_pacer_def)
  let ?w = "\<lambda>now free lck last ts st cs. \<lparr>pa_max = 2, pa_interval = 5000000, pa_now = now, pa_free = free, pa_lock = lck,
    pa_last = last, pa_threads = ts, pa_stamps = st, pa_calls = cs\<rparr>"
  have start: "s0 = ?w 5000000 2 None 0 [AtSemaphore, AtSemaphore] [] []"
    using s0 by (auto simp: new_pacer_def eval_nat_numeral)
  have 1: "paced s0 (?w 5000000 2 None 0 [AtSemaphore, AtSemaphore] [] [])" using start paced_refl by metis
  have 2: "paced s0 (?w 5000000 1 None 0 [HasSlot, AtSemaphore] [] [])"
    using paced_step [OF 1 pace.enter [where i = 0]] by (simp add: go_def)
  have 3: "paced s0 (?w 5000000 0 None 0 [HasSlot, HasSlot] [] [])"
    using paced_step [OF 2 pace.enter [where i = 1]] by (simp add: go_def)
  have 4: "paced s0 (?w 5000000 0 (Some 0) 0 [HasLock, HasSlot] [] [])"
    using paced_step [OF 3 pace.lock [where i = 0]] by (simp add: go_def)
  have 5: "paced s0 (?w 5000000 0 (Some 0) 0 [AboutToStamp, HasSlot] [] [])"
    using paced_step [OF 4 pace.late [where i = 0]] by (simp add: go_def)
  have 6: "paced s0 (?w 5000000 0 None 5000000 [PastLock, HasSlot] [5000000] [])"
    using paced_step [OF 5 pace.stamp [where i = 0]] by (simp add: go_def)
  have 7: "paced s0 (?w 10000000 0 None 5000000 [PastLock, HasSlot] [5000000] [])"
    using paced_step [OF 6 pace.tick [where d = 5000000]] by simp
  have 8: "paced s0 (?w 10000000 0 (Some 1) 5000000 [PastLock, HasLock] [5000000] [])"
    using paced_step [OF 7 pace.lock [where i = 1]] by (simp add: go_def)
  have 9: "paced s0 (?w 10000000 0 (Some 1) 5000000 [PastLock, AboutToStamp] [5000000] [])"
    using paced_step [OF 8 pace.late [where i = 1]] by (simp add: go_def)
  have 10: "paced s0 (?w 10000000 0 None 10000000 [PastLock, PastLock] [10000000, 5000000] [])"
    using paced_step [OF 9 pace.stamp [where i = 1]] by (simp add: go_def)
  have 11: "paced s0 (?w 10000000 0 None 10000000 [InCall, PastLock] [10000000, 5000000] [10000000])"
    using paced_step [OF 10 pace.start [where i = 0]] by (simp add: go_def)
  have "paced s0 (?w 10000000 0 None 10000000 [InCall, InCall] [10000000, 5000000] [10000000, 10000000])"
    using paced_step [OF 11 pace.start [where i = 1]] by (simp add: go_def)
  then show ?thesis using s0 by (intro exI conjI) (assumption | simp)+
qed

end
