(* ===== verification/Cctv_Output.thy ===== *)
theory Cctv_Output
  imports Cctv_Unit Cctv_Playback
begin

text \<open>
  What the model answers and what the program makes of it: the reading of a model's text
  (\<^verbatim>\<open>services/model_output_validation.py\<close>), the schema of an observation (\<^verbatim>\<open>contracts/vlm.py\<close>), and the
  adapter that sends a request to an OpenAI-compatible endpoint (\<^verbatim>\<open>infrastructure/vlm/real_adapter.py\<close>),
  with the deterministic mock. \<^verbatim>\<open>json.loads\<close> and the way the schema library reads a number or a truth value
  are parameters, and so is what the endpoint answers.
\<close>

section \<open>Finding the object in the text\<close>

definition py_lstrip :: "string \<Rightarrow> string" where
  "py_lstrip s = dropWhile py_isspace_char s"

definition py_rstrip :: "string \<Rightarrow> string" where
  "py_rstrip s = rev (py_lstrip (rev s))"

definition py_strip :: "string \<Rightarrow> string" where
  "py_strip s = py_rstrip (py_lstrip s)"

definition starts_with :: "string \<Rightarrow> string \<Rightarrow> bool" where
  "starts_with p s = (take (length p) s = p)"

lemma ends_with_rev: "ends_with p s = starts_with (rev p) (rev s)"
  by (auto simp: ends_with_def starts_with_def take_rev) (metis diff_le_self length_drop)

text \<open>\<^verbatim>\<open>s.find(c)\<close> and \<^verbatim>\<open>s.rfind(c)\<close> of one character; \<^term>\<open>None\<close> is \<^verbatim>\<open>-1\<close>.\<close>

definition str_find :: "char \<Rightarrow> string \<Rightarrow> nat option" where
  "str_find c s = (if c \<in> set s then Some (length (takeWhile (\<lambda>x. x \<noteq> c) s)) else None)"

definition str_rfind :: "char \<Rightarrow> string \<Rightarrow> nat option" where
  "str_rfind c s = map_option (\<lambda>i. length s - Suc i) (str_find c (rev s))"

abbreviation (input) fence :: string where
  "fence \<equiv> ''```''"

abbreviation (input) newline :: char where
  "newline \<equiv> CHR 0x0A"

definition strip_code_fences :: "string \<Rightarrow> string \<times> string list" where
  "strip_code_fences t =
    (let cleaned = py_strip t in
     if starts_with fence cleaned then
       let (cleaned, actions) = (case str_find newline cleaned of
             None \<Rightarrow> (cleaned, [])
           | Some i \<Rightarrow> (drop (i + 1) cleaned, [''strip_code_fence_start'']));
           (cleaned, actions) =
             (if ends_with fence (py_rstrip cleaned)
              then (take (length (py_rstrip cleaned) - 3) (py_rstrip cleaned), actions @ [''strip_code_fence_end''])
              else (cleaned, actions))
       in (py_strip cleaned, actions)
     else (py_strip cleaned, []))"

definition extract_json_object :: "string \<Rightarrow> string \<times> string list" where
  "extract_json_object t =
    (let (cleaned, actions) = strip_code_fences t in
     case (str_find CHR ''{'' cleaned, str_rfind CHR ''}'' cleaned) of
       (Some start, Some stop) \<Rightarrow>
         if start < stop then
           let extracted = take (stop + 1 - start) (drop start cleaned) in
           (extracted, actions @ (if extracted \<noteq> cleaned then [''extract_json_object''] else []))
         else (cleaned, actions)
     | _ \<Rightarrow> (cleaned, actions))"

section \<open>Repair and validation\<close>

definition strip_forbidden_fields :: "jdict \<Rightarrow> string set \<Rightarrow> jdict \<times> string list" where
  "strip_forbidden_fields payload forbidden =
    (let stripped = filter (\<lambda>(k, v). k \<notin> forbidden) payload;
         removed = sorted_list_of_set (fst ` set payload - fst ` set stripped)
     in (stripped, map (\<lambda>k. ''strip_forbidden_field:'' @ k) removed))"

record 'v output_result =
  or_value :: 'v
  or_raw_response :: string
  or_parsed_payload :: jdict
  or_repaired_payload :: jdict
  or_validation_status :: string
  or_repair_attempted :: bool
  or_repair_succeeded :: bool
  or_repair_actions :: "string list"

record output_failure =
  of_message :: string
  of_raw_response :: string
  of_stage :: string
  of_parsed_payload :: "jdict option"
  of_repaired_payload :: "jdict option"
  of_validation_errors :: "json list"
  of_repair_attempted :: bool
  of_repair_succeeded :: bool
  of_repair_actions :: "string list"

definition failure_attempt_detail :: "output_failure \<Rightarrow> jdict" where
  "failure_attempt_detail f =
    [(''validation_status'', JsStr (of_stage f)), (''repair_attempted'', JsBool (of_repair_attempted f)),
     (''repair_succeeded'', JsBool (of_repair_succeeded f)),
     (''repair_actions'', JsArr (map JsStr (of_repair_actions f))),
     (''validation_errors'', JsArr (of_validation_errors f))]"

text \<open>
  \<open>loads\<close> is \<^verbatim>\<open>json.loads\<close>, whose objects have distinct keys; only its \<^verbatim>\<open>ValueError\<close>s are caught.
  \<open>schema\<close> is \<^verbatim>\<open>schema_type.model_validate\<close>: the errors or the value.
\<close>

definition validate_json_model_output ::
  "(string \<Rightarrow> exn + json) \<Rightarrow> (jdict \<Rightarrow> json list + 'v) \<Rightarrow> string set \<Rightarrow> string \<Rightarrow>
   exn + output_failure + 'v output_result" where
  "validate_json_model_output loads schema forbidden raw =
    (let (json_text, actions) = extract_json_object raw in
     case loads json_text of
       Inl e \<Rightarrow>
         if ''ValueError'' \<in> set (exn_mro e) then
           Inr (Inl \<lparr>of_message = ''JSON parse failed: '' @ exn_type_name e @ '': '' @ exn_message e,
             of_raw_response = raw, of_stage = ''json_parse_failed'', of_parsed_payload = None,
             of_repaired_payload = None, of_validation_errors = [], of_repair_attempted = (actions \<noteq> []),
             of_repair_succeeded = False, of_repair_actions = actions\<rparr>)
         else Inl e
     | Inr (JsObj parsed) \<Rightarrow>
         let (repaired, field_actions) = strip_forbidden_fields parsed forbidden;
             all_actions = actions @ field_actions
         in (case schema repaired of
           Inl errors \<Rightarrow>
             Inr (Inl \<lparr>of_message = ''Schema validation failed'', of_raw_response = raw,
               of_stage = ''schema_validation_failed'', of_parsed_payload = Some parsed,
               of_repaired_payload = Some repaired, of_validation_errors = errors,
               of_repair_attempted = (all_actions \<noteq> []), of_repair_succeeded = False,
               of_repair_actions = all_actions\<rparr>)
         | Inr v \<Rightarrow>
             Inr (Inr \<lparr>or_value = v, or_raw_response = raw, or_parsed_payload = parsed, or_repaired_payload = repaired,
               or_validation_status = (if all_actions \<noteq> [] then ''repair_succeeded'' else ''passed''),
               or_repair_attempted = (all_actions \<noteq> []), or_repair_succeeded = (all_actions \<noteq> []),
               or_repair_actions = all_actions\<rparr>))
     | Inr v \<Rightarrow>
         Inr (Inl \<lparr>of_message = ''JSON payload must be an object'', of_raw_response = raw,
           of_stage = ''json_shape_failed'', of_parsed_payload = Some [(''value'', v)], of_repaired_payload = None,
           of_validation_errors = [], of_repair_attempted = (actions \<noteq> []), of_repair_succeeded = False,
           of_repair_actions = actions\<rparr>))"

section \<open>The schema of an observation\<close>

text \<open>
  A contract model forbids unknown keys, requires a field without a default and otherwise takes the
  default, which is not checked. \<open>rd_float\<close> and \<open>rd_bool\<close> are the library's reading of a value for such a
  field, \<open>rd_errors\<close> the list it reports when the payload is rejected.
\<close>

record schema_reader =
  rd_float :: "json \<Rightarrow> real option"
  rd_bool :: "json \<Rightarrow> bool option"
  rd_errors :: "jdict \<Rightarrow> json list"

fun read_str :: "json \<Rightarrow> string option" where
  "read_str (JsStr s) = Some s"
| "read_str _ = None"

fun read_all :: "('a \<Rightarrow> 'b option) \<Rightarrow> 'a list \<Rightarrow> 'b list option" where
  "read_all f [] = Some []"
| "read_all f (x # xs) = (case (f x, read_all f xs) of (Some y, Some ys) \<Rightarrow> Some (y # ys) | _ \<Rightarrow> None)"

fun read_strs :: "json \<Rightarrow> string list option" where
  "read_strs (JsArr vs) = read_all read_str vs"
| "read_strs _ = None"

definition only_keys :: "string list \<Rightarrow> jdict \<Rightarrow> bool" where
  "only_keys ks d = list_all (\<lambda>(k, v). k \<in> set ks) d"

definition read_field :: "jdict \<Rightarrow> string \<Rightarrow> (json \<Rightarrow> 'a option) \<Rightarrow> 'a option \<Rightarrow> 'a option" where
  "read_field d k rd dflt = (case map_of d k of None \<Rightarrow> dflt | Some v \<Rightarrow> rd v)"

definition read_score :: "schema_reader \<Rightarrow> json \<Rightarrow> real option" where
  "read_score r v = (case rd_float r v of Some x \<Rightarrow> if 0 \<le> x \<and> x \<le> 1 then Some x else None | None \<Rightarrow> None)"

fun read_quality :: "schema_reader \<Rightarrow> json \<Rightarrow> (string \<times> real) option" where
  "read_quality r (JsObj d) =
    (if only_keys [''reason'', ''score''] d
     then (case (read_field d ''reason'' read_str (Some []), read_field d ''score'' (read_score r) (Some 0)) of
         (Some reason, Some score) \<Rightarrow> Some (reason, score)
       | _ \<Rightarrow> None)
     else None)"
| "read_quality r _ = None"

fun read_attr :: "schema_reader \<Rightarrow> json \<Rightarrow> bool option" where
  "read_attr r (JsObj d) =
    (if only_keys [''alert''] d then read_field d ''alert'' (rd_bool r) (Some False) else None)"
| "read_attr r _ = None"

definition output_keys :: "string list" where
  "output_keys = [''static'', ''dynamic'', ''tags'', ''quality'', ''attr'']"

definition vlm_observation_output :: "schema_reader \<Rightarrow> jdict \<Rightarrow> json list + vlm_output" where
  "vlm_observation_output r d =
    (if only_keys output_keys d
     then (case (read_field d ''static'' read_str None, read_field d ''dynamic'' read_str None,
             read_field d ''tags'' read_strs (Some []), read_field d ''quality'' (read_quality r) (Some ([], 0)),
             read_field d ''attr'' (read_attr r) (Some False)) of
         (Some st, Some dy, Some tags, Some (reason, score), Some alert) \<Rightarrow>
           Inr \<lparr>vo_static = st, vo_dynamic = dy, vo_tags = tags, vo_quality_reason = reason,
             vo_quality_score = score, vo_alert = alert\<rparr>
       | _ \<Rightarrow> Inl (rd_errors r d))
     else Inl (rd_errors r d))"

section \<open>The adapter of the endpoint\<close>

definition b64encode :: "nat list \<Rightarrow> string" where
  "b64encode bs =
    (let t = map (\<lambda>c. if c = CHR ''-'' then CHR ''+'' else if c = CHR ''_'' then CHR ''/'' else c) (b64url bs)
     in t @ replicate ((4 - length t mod 4) mod 4) CHR ''='')"

text \<open>
  What a call of the client comes to: it raises any exception at all, or there is a response with its status
  and what \<^verbatim>\<open>response.json()\<close> makes of the body, a value or any exception.
\<close>

datatype http_result =
    HttpRaised exn
  | HttpResponse nat "exn + json"

record vlm_adapter =
  ad_base_url :: string
  ad_api_key :: string
  ad_model_id :: string
  ad_timeout_seconds :: int
  ad_media_input :: string
  ad_extra_body :: jdict

text \<open>The world around the adapter: files, the endpoint, the prompts and the readers of JSON.\<close>

record adapter_env =
  ae_read :: "string \<Rightarrow> exn + nat list"
  ae_post :: "string \<Rightarrow> jdict \<Rightarrow> jdict \<Rightarrow> int \<Rightarrow> http_result"
  ae_prompt :: "analysis_scale \<Rightarrow> string"
  ae_strict_instruction :: string
  ae_loads :: "string \<Rightarrow> exn + json"
  ae_reader :: schema_reader
  ae_py :: py_env

definition forbidden_fields :: "string set" where
  "forbidden_fields = {''access_policy_id'', ''security_level'', ''camera_id'', ''location_id'', ''observed_start_time'',
     ''observed_end_time'', ''record_id''}"

definition read_base64 :: "adapter_env \<Rightarrow> string \<Rightarrow> exn + string" where
  "read_base64 env uri = (case ae_read env uri of
     Inl e \<Rightarrow>
       if ''OSError'' \<in> set (exn_mro e)
       then Inl (VlmProviderError (''cannot read media for VLM: '' @ exn_message e)) else Inl e
   | Inr bytes \<Rightarrow> Inr (b64encode bytes))"

definition image_part :: "string \<Rightarrow> string \<Rightarrow> json" where
  "image_part mime data =
    JsObj [(''type'', JsStr ''image_url''),
      (''image_url'', JsObj [(''url'', JsStr (''data:'' @ mime @ '';base64,'' @ data))])]"

definition build_media_parts :: "vlm_adapter \<Rightarrow> adapter_env \<Rightarrow> vlm_request \<Rightarrow> exn + json list" where
  "build_media_parts ad env q =
    (case vq_frame_uris q of
       [] \<Rightarrow> Inl (VlmProviderError ''no media (frame_uris) provided for VLM'')
     | uri # uris \<Rightarrow>
         if ad_media_input ad = ''video'' then
           (case read_base64 env uri of Inl e \<Rightarrow> Inl e | Inr data \<Rightarrow> Inr [image_part ''video/mp4'' data])
         else (case map_raise (read_base64 env) (uri # uris) of
             Inl e \<Rightarrow> Inl e
           | Inr datas \<Rightarrow> Inr (map (image_part ''image/jpeg'') datas)))"

definition denied_options :: "string set" where
  "denied_options = {''model'', ''messages'', ''stream'', ''tools'', ''tool_choice'', ''authorization'', ''headers'',
     ''api_key'', ''key''}"

definition safe_extra_body :: "vlm_adapter \<Rightarrow> jdict" where
  "safe_extra_body ad = filter (\<lambda>(k, v). py_lower k \<notin> denied_options) (ad_extra_body ad)"

definition text_part :: "string \<Rightarrow> json" where
  "text_part t = JsObj [(''type'', JsStr ''text''), (''text'', JsStr t)]"

definition request_payload :: "vlm_adapter \<Rightarrow> adapter_env \<Rightarrow> json list \<Rightarrow> string \<Rightarrow> bool \<Rightarrow> jdict" where
  "request_payload ad env parts prompt strict =
    js_update
      [(''model'', JsStr (ad_model_id ad)),
       (''messages'', JsArr [
          JsObj [(''role'', JsStr ''system''), (''content'', JsStr prompt)],
          JsObj [(''role'', JsStr ''user''),
            (''content'', JsArr (parts @ (if strict then [text_part (ae_strict_instruction env)] else [])))]])]
      (safe_extra_body ad)"

text \<open>\<^verbatim>\<open>data["k"]\<close> and \<^verbatim>\<open>data[0]\<close>; the error is the name of the exception.\<close>

fun js_item :: "string \<Rightarrow> json \<Rightarrow> string + json" where
  "js_item k (JsObj d) = (case map_of d k of None \<Rightarrow> Inl ''KeyError'' | Some v \<Rightarrow> Inr v)"
| "js_item k _ = Inl ''TypeError''"

fun js_first :: "json \<Rightarrow> string + json" where
  "js_first (JsArr []) = Inl ''IndexError''"
| "js_first (JsArr (v # vs)) = Inr v"
| "js_first (JsStr []) = Inl ''IndexError''"
| "js_first (JsStr (c # cs)) = Inr (JsStr [c])"
| "js_first (JsObj d) = Inl ''KeyError''"
| "js_first _ = Inl ''TypeError''"

definition message_content :: "json \<Rightarrow> string + json" where
  "message_content data =
    (case js_item ''choices'' data of Inl e \<Rightarrow> Inl e | Inr choices \<Rightarrow>
     case js_first choices of Inl e \<Rightarrow> Inl e | Inr choice \<Rightarrow>
     case js_item ''message'' choice of Inl e \<Rightarrow> Inl e | Inr message \<Rightarrow> js_item ''content'' message)"

definition response_text :: "adapter_env \<Rightarrow> http_result \<Rightarrow> exn + string" where
  "response_text env answer =
    (case answer of
       HttpRaised e \<Rightarrow>
         if ''TimeoutException'' \<in> set (exn_mro e) then Inl (VlmProviderError ''VLM request timed out'')
         else if ''HTTPError'' \<in> set (exn_mro e)
         then Inl (VlmProviderError (''VLM request failed: '' @ exn_type_name e))
         else Inl e
     | HttpResponse status body \<Rightarrow>
         if status \<noteq> 200 then Inl (VlmProviderError (''VLM returned status '' @ show_nat status))
         else (case body of
             Inl e \<Rightarrow>
               if list_ex (\<lambda>c. c \<in> set (exn_mro e)) [''JSONDecodeError'', ''KeyError'', ''IndexError'', ''TypeError'']
               then Inl (VlmProviderError (''unexpected VLM response shape: '' @ exn_type_name e)) else Inl e
           | Inr data \<Rightarrow> (case message_content data of
               Inl name \<Rightarrow> Inl (VlmProviderError (''unexpected VLM response shape: '' @ name))
             | Inr content \<Rightarrow> Inr (js_str (ae_py env) content))))"

definition call_api :: "vlm_adapter \<Rightarrow> adapter_env \<Rightarrow> json list \<Rightarrow> string \<Rightarrow> bool \<Rightarrow> exn + string" where
  "call_api ad env parts prompt strict =
    response_text env (ae_post env (ad_base_url ad)
      [(''Authorization'', JsStr (''Bearer '' @ ad_api_key ad)), (''Content-Type'', JsStr ''application/json'')]
      (request_payload ad env parts prompt strict) (ad_timeout_seconds ad))"

text \<open>\<^verbatim>\<open>to_details\<close> of the raised error.\<close>

definition or_dict :: "jdict option \<Rightarrow> jdict option \<Rightarrow> jdict option" where
  "or_dict a b = (case a of Some (x # xs) \<Rightarrow> a | _ \<Rightarrow> b)"

definition schema_error_details :: "vlm_adapter \<Rightarrow> output_failure \<Rightarrow> jdict" where
  "schema_error_details ad f =
    [(''model_output_kind'', JsStr ''vlm''), (''stage'', JsStr (of_stage f)),
     (''repair_attempted'', JsBool (of_repair_attempted f)), (''repair_succeeded'', JsBool (of_repair_succeeded f)),
     (''validation_errors'', JsArr (of_validation_errors f)), (''provider'', JsStr ''real''),
     (''model_id'', JsStr (ad_model_id ad))] @
    (case or_dict (of_repaired_payload f) (of_parsed_payload f) of
       None \<Rightarrow> [] | Some d \<Rightarrow> [(''parsed_payload'', JsObj d)]) @
    [(''attempts'', JsArr [JsObj (failure_attempt_detail f)])]"

definition no_payload :: attempt_payload where
  "no_payload = \<lparr>pay_raw = None, pay_parsed = None, pay_stage = None, pay_details = None\<rparr>"

text \<open>\<open>analyze_segment\<close>: the exception with what it carries, or the validated output.\<close>

definition analyze_segment :: "vlm_adapter \<Rightarrow> adapter_env \<Rightarrow> vlm_request \<Rightarrow> bool \<Rightarrow> (exn \<times> attempt_payload) + vlm_output" where
  "analyze_segment ad env q strict =
    (case build_media_parts ad env q of
       Inl e \<Rightarrow> Inl (e, no_payload)
     | Inr parts \<Rightarrow>
         (case call_api ad env parts (ae_prompt env (vq_analysis_scale q)) strict of
            Inl e \<Rightarrow> Inl (e, no_payload)
          | Inr content \<Rightarrow>
              (case validate_json_model_output (ae_loads env) (vlm_observation_output (ae_reader env)) forbidden_fields content of
                 Inl e \<Rightarrow> Inl (e, no_payload)
               | Inr (Inl f) \<Rightarrow>
                   Inl (VlmSchemaValidationError (of_message f),
                     \<lparr>pay_raw = Some (of_raw_response f),
                      pay_parsed = or_dict (of_repaired_payload f) (of_parsed_payload f),
                      pay_stage = Some (of_stage f), pay_details = Some (schema_error_details ad f)\<rparr>)
               | Inr (Inr res) \<Rightarrow> Inr (or_value res))))"

section \<open>The mock\<close>

definition tag_pool :: "string list list" where
  "tag_pool = [[''person'', ''dark_clothing'', ''backpack''], [''person'', ''loitering'', ''doorway''],
     [''vehicle'', ''parking''], [''person'', ''running''], [''person'', ''group'', ''queue'']]"

definition mock_analyze_segment :: "vlm_request \<Rightarrow> bool \<Rightarrow> vlm_output" where
  "mock_analyze_segment q strict =
    (let bucket = (vq_segment_start_ms q div 1000) mod int (length tag_pool);
         tags = tag_pool ! nat bucket;
         seconds = vq_segment_start_ms q div 1000
     in \<lparr>vo_static = ''[mock] Camera '' @ vq_camera_id q @ '' segment at '' @ show_int seconds @ ''s shows '' @
            comma_space_sep tags @ '' near the monitored area.'',
         vo_dynamic = ''[mock] Activity observed between '' @ show_int (vq_segment_start_ms q) @ ''ms and '' @
            show_int (vq_segment_end_ms q) @ ''ms: subject(s) tagged '' @ hd tags @ '' moving through frame.'',
         vo_tags = tags, vo_quality_reason = ''mock_output_no_real_vision'', vo_quality_score = 1 / 2,
         vo_alert = False\<rparr>)"

section \<open>Lemmas on the text\<close>

lemma lstrip_head: "py_lstrip s = [] \<or> \<not> py_isspace_char (hd (py_lstrip s))"
  using hd_dropWhile [of py_isspace_char s] by (auto simp: py_lstrip_def)

lemma lstrip_id: "s = [] \<or> \<not> py_isspace_char (hd s) \<Longrightarrow> py_lstrip s = s"
  by (cases s) (auto simp: py_lstrip_def)

lemma rstrip_id: "s = [] \<or> \<not> py_isspace_char (last s) \<Longrightarrow> py_rstrip s = s"
  by (simp add: py_rstrip_def lstrip_id hd_rev)

lemma rstrip_last: "py_rstrip s = [] \<or> \<not> py_isspace_char (last (py_rstrip s))"
  using lstrip_head [of "rev s"] by (auto simp: py_rstrip_def last_rev)

lemma rstrip_prefix: "\<exists>t. s = py_rstrip s @ t \<and> (\<forall>c \<in> set t. py_isspace_char c)"
proof -
  have "s = py_rstrip s @ rev (takeWhile py_isspace_char (rev s))"
    unfolding py_rstrip_def py_lstrip_def rev_append [symmetric] takeWhile_dropWhile_id by simp
  then show ?thesis using set_takeWhileD by fastforce
qed

lemma lstrip_suffix: "\<exists>t. s = t @ py_lstrip s \<and> (\<forall>c \<in> set t. py_isspace_char c)"
proof -
  have "s = takeWhile py_isspace_char s @ py_lstrip s" by (simp add: py_lstrip_def)
  then show ?thesis using set_takeWhileD by fastforce
qed

lemma strip_ends: "py_strip s = [] \<or> \<not> py_isspace_char (hd (py_strip s)) \<and> \<not> py_isspace_char (last (py_strip s))"
proof -
  obtain t where t: "py_lstrip s = py_strip s @ t" using rstrip_prefix [of "py_lstrip s"] unfolding py_strip_def by blast
  then have "py_strip s = [] \<or> hd (py_strip s) = hd (py_lstrip s) \<and> py_lstrip s \<noteq> []" by (metis append_is_Nil_conv hd_append2)
  moreover have "py_strip s = [] \<or> \<not> py_isspace_char (last (py_strip s))" unfolding py_strip_def by (rule rstrip_last)
  ultimately show ?thesis using lstrip_head [of s] by metis
qed

lemma strip_idem [simp]: "py_strip (py_strip s) = py_strip s"
  using strip_ends [of s] by (metis lstrip_id rstrip_id py_strip_def)

text \<open>What the fence stripping leaves after the opening line, and what it leaves in the end.\<close>

definition drop_fence_line :: "string \<Rightarrow> string" where
  "drop_fence_line t = (case str_find newline t of None \<Rightarrow> t | Some i \<Rightarrow> drop (i + 1) t)"

definition drop_fence_end :: "string \<Rightarrow> string" where
  "drop_fence_end t = (if ends_with fence (py_rstrip t) then take (length (py_rstrip t) - 3) (py_rstrip t) else t)"

lemma strip_code_fences_text:
  "fst (strip_code_fences t) =
    py_strip (if starts_with fence (py_strip t) then drop_fence_end (drop_fence_line (py_strip t)) else py_strip t)"
  by (simp add: strip_code_fences_def drop_fence_line_def drop_fence_end_def Let_def split: option.split prod.split)

lemma strip_code_fences_silent:
  assumes "snd (strip_code_fences t) = []"
  shows "fst (strip_code_fences t) = py_strip t"
proof (cases "starts_with fence (py_strip t)")
  case True
  with assms have "str_find newline (py_strip t) = None" "\<not> ends_with fence (py_rstrip (py_strip t))"
    by (auto simp: strip_code_fences_def Let_def split: option.splits if_splits)
  with True show ?thesis by (simp add: strip_code_fences_text drop_fence_line_def drop_fence_end_def)
next
  case False
  then show ?thesis by (simp add: strip_code_fences_text)
qed

lemma extract_parts:
  assumes "strip_code_fences t = (cleaned, actions)" and "extract_json_object t = (x, actions')"
  shows "(x = cleaned \<and> actions' = actions) \<or> (x \<noteq> cleaned \<and> actions' = actions @ [''extract_json_object''])"
  using assms by (cases "str_find CHR ''{'' cleaned"; cases "str_rfind CHR ''}'' cleaned")
    (auto simp: extract_json_object_def Let_def split: if_splits)

lemma no_action_no_change: "extract_json_object raw = (t, []) \<Longrightarrow> t = py_strip raw"
  using extract_parts [of raw] strip_code_fences_silent [of raw] by (cases "strip_code_fences raw") auto

section \<open>Lemmas on the repair\<close>

lemma stripped_keys:
  "fst ` set (fst (strip_forbidden_fields d forbidden)) = fst ` set d - forbidden"
  by (force simp: strip_forbidden_fields_def Let_def)

lemma map_of_filter_key: "map_of (filter (\<lambda>(k, v). P k) d) k = (if P k then map_of d k else None)"
  by (induction d) auto

lemma map_of_stripped:
  "map_of (fst (strip_forbidden_fields d forbidden)) k = (if k \<in> forbidden then None else map_of d k)"
  by (simp add: strip_forbidden_fields_def Let_def map_of_filter_key)

lemma nothing_stripped:
  assumes "snd (strip_forbidden_fields d forbidden) = []"
  shows "fst (strip_forbidden_fields d forbidden) = d"
proof -
  have "fst ` set d - fst ` set (filter (\<lambda>(k, v). k \<notin> forbidden) d) = {}"
    using assms by (simp add: strip_forbidden_fields_def Let_def)
  then have "\<forall>p \<in> set d. fst p \<notin> forbidden" by force
  then show ?thesis by (auto simp: strip_forbidden_fields_def Let_def split: prod.split intro!: filter_True)
qed

lemma map_JsStr [simp]: "map JsStr xs = map JsStr ys \<longleftrightarrow> xs = ys"
  by (simp add: inj_map_eq_map inj_def)

lemma read_all_str: "read_all read_str vs = Some ss \<longleftrightarrow> vs = map JsStr ss"
proof (induction vs arbitrary: ss)
  case (Cons v vs)
  then have "read_all read_str vs = None \<Longrightarrow> vs \<noteq> map JsStr (tl ss)" by (metis option.distinct(1))
  with Cons show ?case by (cases v; cases ss) (auto split: option.splits)
qed auto

lemma read_strs_Some: "read_strs v = Some ss \<longleftrightarrow> v = JsArr (map JsStr ss)"
  by (cases v) (auto simp: read_all_str)

lemma read_str_Some: "read_str v = Some s \<longleftrightarrow> v = JsStr s"
  by (cases v) auto

text \<open>An optional field that shows the value read from it, or its default when it is absent.\<close>

definition field_shows :: "jdict \<Rightarrow> string \<Rightarrow> 'a \<Rightarrow> (json \<Rightarrow> 'a \<Rightarrow> bool) \<Rightarrow> 'a \<Rightarrow> bool" where
  "field_shows d k dflt shown v \<longleftrightarrow> (case map_of d k of None \<Rightarrow> v = dflt | Some j \<Rightarrow> shown j v)"

definition object_with :: "string set \<Rightarrow> (jdict \<Rightarrow> bool) \<Rightarrow> json \<Rightarrow> bool" where
  "object_with ks P j \<longleftrightarrow> (\<exists>d. j = JsObj d \<and> fst ` set d \<subseteq> ks \<and> P d)"

definition output_typed :: "schema_reader \<Rightarrow> jdict \<Rightarrow> vlm_output \<Rightarrow> bool" where
  "output_typed r d v \<longleftrightarrow> fst ` set d \<subseteq> {''static'', ''dynamic'', ''tags'', ''quality'', ''attr''} \<and>
    map_of d ''static'' = Some (JsStr (vo_static v)) \<and> map_of d ''dynamic'' = Some (JsStr (vo_dynamic v)) \<and>
    field_shows d ''tags'' [] (\<lambda>j ts. j = JsArr (map JsStr ts)) (vo_tags v) \<and>
    field_shows d ''quality'' ([], 0) (\<lambda>j q. object_with {''reason'', ''score''} (\<lambda>p.
        field_shows p ''reason'' [] (\<lambda>x s. x = JsStr s) (fst q) \<and>
        field_shows p ''score'' 0 (\<lambda>x y. rd_float r x = Some y) (snd q)) j)
      (vo_quality_reason v, vo_quality_score v) \<and>
    0 \<le> vo_quality_score v \<and> vo_quality_score v \<le> 1 \<and>
    field_shows d ''attr'' False (\<lambda>j b. object_with {''alert''} (\<lambda>p.
        field_shows p ''alert'' False (\<lambda>x y. rd_bool r x = Some y) b) j)
      (vo_alert v)"

lemma only_keys_set: "only_keys ks d \<longleftrightarrow> fst ` set d \<subseteq> set ks"
  by (force simp: only_keys_def list_all_iff)

lemma read_field_shows:
  assumes "read_field d k rd (Some dflt) = Some v" and "\<And>j. rd j = Some v \<Longrightarrow> shown j v"
  shows "field_shows d k dflt shown v"
  using assms by (auto simp: read_field_def field_shows_def split: option.splits)

lemma read_score_Some: "read_score r x = Some y \<Longrightarrow> rd_float r x = Some y \<and> 0 \<le> y \<and> y \<le> 1"
  by (auto simp: read_score_def split: option.splits if_splits)

lemma read_quality_shows:
  assumes "read_quality r j = Some q"
  shows "object_with {''reason'', ''score''} (\<lambda>p. field_shows p ''reason'' [] (\<lambda>x s. x = JsStr s) (fst q) \<and>
      field_shows p ''score'' 0 (\<lambda>x y. rd_float r x = Some y) (snd q)) j \<and> 0 \<le> snd q \<and> snd q \<le> 1"
proof (cases j)
  case (JsObj o1)
  obtain reason score where q: "q = (reason, score)" by fastforce
  from assms JsObj q have o: "fst ` set o1 \<subseteq> {''reason'', ''score''}"
    "read_field o1 ''reason'' read_str (Some []) = Some reason"
    "read_field o1 ''score'' (read_score r) (Some 0) = Some score"
    by (auto simp: only_keys_set split: if_splits option.splits)
  have "field_shows o1 ''score'' 0 (\<lambda>x y. rd_float r x = Some y \<and> 0 \<le> y \<and> y \<le> 1) score"
    using o(3) by (rule read_field_shows) (rule read_score_Some)
  moreover have "field_shows o1 ''reason'' [] (\<lambda>x s. x = JsStr s) reason"
    using o(2) by (rule read_field_shows) (simp add: read_str_Some)
  ultimately show ?thesis
    using o(1) JsObj q by (auto simp: object_with_def field_shows_def split: option.splits)
qed (use assms in auto)

lemma read_attr_shows:
  assumes "read_attr r j = Some b"
  shows "object_with {''alert''} (\<lambda>p. field_shows p ''alert'' False (\<lambda>x y. rd_bool r x = Some y) b) j"
proof (cases j)
  case (JsObj o1)
  with assms have o: "fst ` set o1 \<subseteq> {''alert''}" "read_field o1 ''alert'' (rd_bool r) (Some False) = Some b"
    by (auto simp: only_keys_set split: if_splits)
  from o(2) have "field_shows o1 ''alert'' False (\<lambda>x y. rd_bool r x = Some y) b" by (rule read_field_shows)
  with o(1) JsObj show ?thesis by (auto simp: object_with_def)
qed (use assms in auto)

lemma accepted_is_typed:
  assumes "vlm_observation_output r d = Inr v"
  shows "output_typed r d v"
proof -
  have keys: "only_keys output_keys d" using assms by (auto simp: vlm_observation_output_def split: if_splits)
  obtain st dy tags q alert where
    f: "read_field d ''static'' read_str None = Some st" "read_field d ''dynamic'' read_str None = Some dy"
      "read_field d ''tags'' read_strs (Some []) = Some tags"
      "read_field d ''quality'' (read_quality r) (Some ([], 0)) = Some q"
      "read_field d ''attr'' (read_attr r) (Some False) = Some alert"
    and v: "v = \<lparr>vo_static = st, vo_dynamic = dy, vo_tags = tags, vo_quality_reason = fst q,
      vo_quality_score = snd q, vo_alert = alert\<rparr>"
    using assms keys by (auto simp: vlm_observation_output_def split: option.splits)
  have "fst ` set d \<subseteq> {''static'', ''dynamic'', ''tags'', ''quality'', ''attr''}"
    using keys by (simp add: only_keys_set output_keys_def)
  moreover have "map_of d ''static'' = Some (JsStr st)" "map_of d ''dynamic'' = Some (JsStr dy)"
    using f(1,2) by (auto simp: read_field_def read_str_Some split: option.splits)
  moreover have "field_shows d ''tags'' [] (\<lambda>j ts. j = JsArr (map JsStr ts)) tags"
    using f(3) by (rule read_field_shows) (simp add: read_strs_Some)
  moreover have "field_shows d ''quality'' ([], 0) (\<lambda>j q. object_with {''reason'', ''score''} (\<lambda>p.
      field_shows p ''reason'' [] (\<lambda>x s. x = JsStr s) (fst q) \<and>
      field_shows p ''score'' 0 (\<lambda>x y. rd_float r x = Some y) (snd q)) j) q"
    using f(4) by (rule read_field_shows) (use read_quality_shows in blast)
  moreover have "field_shows d ''attr'' False (\<lambda>j b. object_with {''alert''} (\<lambda>p.
      field_shows p ''alert'' False (\<lambda>x y. rd_bool r x = Some y) b) j) alert"
    using f(5) by (rule read_field_shows) (rule read_attr_shows)
  moreover have "0 \<le> snd q \<and> snd q \<le> 1"
    using f(4) read_quality_shows [of r _ q] by (auto simp: read_field_def split: option.splits)
  ultimately show ?thesis unfolding output_typed_def v by simp
qed

lemma rejected_output:
  assumes "validate_json_model_output loads schema forbidden raw = Inr (Inl f)"
  shows "of_raw_response f = raw \<and>
    of_stage f \<in> {''json_parse_failed'', ''json_shape_failed'', ''schema_validation_failed''}"
  using assms unfolding validate_json_model_output_def Let_def
  by (auto split: prod.splits sum.splits json.splits if_splits)

lemma uncaught_output:
  "validate_json_model_output loads schema forbidden raw = Inl e \<Longrightarrow> \<exists>t. loads t = Inl e \<and> ''ValueError'' \<notin> set (exn_mro e)"
  unfolding validate_json_model_output_def Let_def by (auto split: prod.splits sum.splits json.splits if_splits)

text \<open>Both ways to a validated output, in one rule.\<close>

lemma validated_parts:
  assumes "validate_json_model_output loads schema forbidden raw = Inr (Inr res)"
  obtains t actions fields where "extract_json_object raw = (t, actions)"
    "loads t = Inr (JsObj (or_parsed_payload res))"
    "strip_forbidden_fields (or_parsed_payload res) forbidden = (or_repaired_payload res, fields)"
    "schema (or_repaired_payload res) = Inr (or_value res)"
    "or_validation_status res = (if actions @ fields \<noteq> [] then ''repair_succeeded'' else ''passed'')"
    "or_raw_response res = raw"
  using assms unfolding validate_json_model_output_def Let_def
  by (auto split: prod.splits sum.splits json.splits if_splits)

section \<open>Lemmas on the extraction\<close>

text \<open>\<open>t\<close> holds the object \<open>obj\<close>: no brace that opens before it, none that closes after it.\<close>

definition holds_object :: "string \<Rightarrow> string \<Rightarrow> bool" where
  "holds_object obj t \<longleftrightarrow> (\<exists>a b. t = a @ obj @ b \<and> CHR ''{'' \<notin> set a \<and> CHR ''}'' \<notin> set b)"

definition braced :: "string \<Rightarrow> bool" where
  "braced obj \<longleftrightarrow> (\<exists>mid. obj = CHR ''{'' # mid @ [CHR ''}''])"

lemma brace_not_space [simp]: "\<not> py_isspace_char CHR ''{''" "\<not> py_isspace_char CHR ''}''"
  by (simp_all add: py_isspace_char_def)

lemma set_lstrip: "set (py_lstrip s) \<subseteq> set s"
  by (auto simp: py_lstrip_def dest: set_dropWhileD)

lemma lstrip_object: "braced obj \<Longrightarrow> py_lstrip (a @ obj @ b) = py_lstrip a @ obj @ b"
  by (auto simp: braced_def py_lstrip_def dropWhile_append3)

lemma rstrip_object: "braced obj \<Longrightarrow> py_rstrip (a @ obj @ b) = a @ obj @ py_rstrip b"
  by (auto simp: braced_def py_rstrip_def py_lstrip_def dropWhile_append3)

lemma strip_object: "braced obj \<Longrightarrow> py_strip (a @ obj @ b) = py_lstrip a @ obj @ py_rstrip b"
  unfolding py_strip_def by (simp add: lstrip_object rstrip_object)

lemma holds_strip:
  assumes "braced obj" and "holds_object obj t"
  shows "holds_object obj (py_strip t)"
proof -
  obtain a b where t: "t = a @ obj @ b" "CHR ''{'' \<notin> set a" "CHR ''}'' \<notin> set b"
    using assms(2) by (auto simp: holds_object_def)
  then have "CHR ''{'' \<notin> set (py_lstrip a)" "CHR ''}'' \<notin> set (py_rstrip b)"
    using set_lstrip [of a] set_lstrip [of "rev b"] by (auto simp: py_rstrip_def)
  then show ?thesis unfolding holds_object_def t(1) strip_object [OF assms(1)] by blast
qed

lemma fence_after_brace:
  assumes "take 3 (xs @ CHR ''}'' # ys) = fence"
  shows "3 \<le> length xs"
proof (rule ccontr)
  assume "\<not> 3 \<le> length xs"
  then obtain k where "3 - length xs = Suc k" by (metis Suc_diff_le Suc_pred diff_Suc_Suc not_le zero_less_diff)
  then have "CHR ''}'' \<in> set (take 3 (xs @ CHR ''}'' # ys))" by simp
  then show False unfolding assms by simp
qed

lemma holds_fence_end:
  assumes "braced obj" and "holds_object obj t"
  shows "holds_object obj (drop_fence_end t)"
proof -
  obtain a b where t: "t = a @ obj @ b" "CHR ''{'' \<notin> set a" "CHR ''}'' \<notin> set b"
    using assms(2) by (auto simp: holds_object_def)
  let ?b = "py_rstrip b"
  have b: "CHR ''}'' \<notin> set ?b" using t(3) set_lstrip [of "rev b"] by (auto simp: py_rstrip_def)
  obtain mid where mid: "obj = CHR ''{'' # mid @ [CHR ''}'']" using assms(1) by (auto simp: braced_def)
  have r: "py_rstrip t = a @ obj @ ?b" by (simp add: t(1) rstrip_object assms(1))
  have "3 \<le> length ?b" if "ends_with fence (py_rstrip t)"
  proof -
    have "take 3 (rev ?b @ CHR ''}'' # rev mid @ CHR ''{'' # rev a) = fence"
      using that unfolding ends_with_rev starts_with_def r mid by (simp add: numeral_3_eq_3)
    from fence_after_brace [OF this] show ?thesis by (simp only: length_rev)
  qed
  then have "ends_with fence (py_rstrip t) \<Longrightarrow> drop_fence_end t = a @ obj @ take (length ?b - 3) ?b"
    by (simp add: drop_fence_end_def r)
  moreover have "CHR ''}'' \<notin> set (take (length ?b - 3) ?b)" using b by (meson in_set_takeD)
  ultimately show ?thesis using t unfolding holds_object_def drop_fence_end_def by (metis (full_types))
qed

lemma find_newline:
  assumes "newline \<in> set a"
  shows "\<exists>c. set c \<subseteq> set a \<and> drop_fence_line (a @ u) = c @ u"
proof -
  obtain x c where a: "a = x @ newline # c" "newline \<notin> set x" using split_list_first [OF assms] by blast
  have "takeWhile (\<lambda>x. x \<noteq> newline) (x @ newline # c @ u) = x" by (subst takeWhile_append2) (use a in auto)
  then have "str_find newline (a @ u) = Some (length x)" by (simp add: str_find_def a(1))
  then show ?thesis by (intro exI [of _ c]) (auto simp: drop_fence_line_def a(1))
qed

lemma extract_held:
  assumes "braced obj" and "cleaned = a @ obj @ b" and "CHR ''{'' \<notin> set a" and "CHR ''}'' \<notin> set b"
  shows "str_find CHR ''{'' cleaned = Some (length a) \<and>
    str_rfind CHR ''}'' cleaned = Some (length a + length obj - 1) \<and> 2 \<le> length obj"
proof -
  obtain mid where mid: "obj = CHR ''{'' # mid @ [CHR ''}'']" using assms(1) by (auto simp: braced_def)
  have "takeWhile (\<lambda>x. x \<noteq> CHR ''{'') (a @ CHR ''{'' # mid @ CHR ''}'' # b) = a"
    using assms(3) by (subst takeWhile_append2) auto
  moreover have "takeWhile (\<lambda>x. x \<noteq> CHR ''}'') (rev b @ CHR ''}'' # rev mid @ CHR ''{'' # rev a) = rev b"
    using assms(4) by (subst takeWhile_append2) auto
  ultimately show ?thesis by (simp add: assms(2) mid str_find_def str_rfind_def)
qed

lemma extract_object:
  assumes "braced obj" and "strip_code_fences t = (cleaned, actions)" and "holds_object obj cleaned"
  shows "fst (extract_json_object t) = obj"
proof -
  obtain a b where c: "cleaned = a @ obj @ b" "CHR ''{'' \<notin> set a" "CHR ''}'' \<notin> set b"
    using assms(3) by (auto simp: holds_object_def)
  note found = extract_held [OF assms(1) c]
  then have "length a < length a + length obj - 1" by auto
  moreover have "take (length a + length obj - 1 + 1 - length a) (drop (length a) cleaned) = obj"
    using found by (simp add: c(1))
  ultimately show ?thesis using found by (simp add: extract_json_object_def assms(2) Let_def)
qed

lemma map_of_js_update: "map_of (js_update d other) = map_of d ++ map_of (rev other)"
  unfolding js_update_def
proof (induction other arbitrary: d)
  case (Cons p other)
  then show ?case by (cases p) (auto simp: map_of_dict_set fun_eq_iff map_add_def split: option.split)
qed simp

text \<open>
  The exceptions that no handler of the adapter names: of reading the media anything but an \<^verbatim>\<open>OSError\<close>, of the
  client anything but its timeouts and \<^verbatim>\<open>HTTPError\<close>s (a malformed URL, a header that cannot be encoded), of
  decoding the body anything but the four named classes (bytes that are not text, too deep a nesting), of
  \<^verbatim>\<open>json.loads\<close> on the content anything but a \<^verbatim>\<open>ValueError\<close>.
\<close>

definition none_of :: "string list \<Rightarrow> exn \<Rightarrow> bool" where
  "none_of cs e \<longleftrightarrow> set cs \<inter> set (exn_mro e) = {}"

definition unhandled :: "vlm_adapter \<Rightarrow> adapter_env \<Rightarrow> vlm_request \<Rightarrow> exn \<Rightarrow> bool" where
  "unhandled ad env q e \<longleftrightarrow>
    (\<exists>uri \<in> set (vq_frame_uris q). ae_read env uri = Inl e \<and> none_of [''OSError''] e) \<or>
    (\<exists>headers body. ae_post env (ad_base_url ad) headers body (ad_timeout_seconds ad) = HttpRaised e \<and>
      none_of [''TimeoutException'', ''HTTPError''] e) \<or>
    (\<exists>headers body. ae_post env (ad_base_url ad) headers body (ad_timeout_seconds ad) = HttpResponse 200 (Inl e) \<and>
      none_of [''JSONDecodeError'', ''KeyError'', ''IndexError'', ''TypeError''] e) \<or>
    (\<exists>text. ae_loads env text = Inl e \<and> none_of [''ValueError''] e)"

lemma media_fails:
  assumes "build_media_parts ad env q = Inl e"
  shows "(\<exists>m. e = VlmProviderError m) \<or> unhandled ad env q e"
proof -
  have read: "(\<exists>m. e = VlmProviderError m) \<or> ae_read env uri = Inl e \<and> none_of [''OSError''] e"
    if "read_base64 env uri = Inl e" for uri
    using that by (auto simp: read_base64_def none_of_def split: sum.splits if_splits)
  have raise: "map_raise (read_base64 env) uris = Inl e \<Longrightarrow> \<exists>uri \<in> set uris. read_base64 env uri = Inl e" for uris
    by (induction uris) (auto split: sum.splits)
  have "(\<exists>m. e = VlmProviderError m) \<or> (\<exists>uri \<in> set (vq_frame_uris q). read_base64 env uri = Inl e)"
  proof (cases "vq_frame_uris q")
    case Nil
    with assms show ?thesis by (auto simp: build_media_parts_def)
  next
    case (Cons uri uris)
    then show ?thesis using assms raise [of "uri # uris"]
      by (auto simp: build_media_parts_def split: if_splits sum.splits)
  qed
  with read show ?thesis unfolding unhandled_def by blast
qed

lemma response_fails:
  assumes "response_text env r = Inl e"
  shows "(\<exists>m. e = VlmProviderError m) \<or>
    r = HttpRaised e \<and> none_of [''TimeoutException'', ''HTTPError''] e \<or>
    r = HttpResponse 200 (Inl e) \<and> none_of [''JSONDecodeError'', ''KeyError'', ''IndexError'', ''TypeError''] e"
proof (cases r)
  case r: (HttpResponse s b)
  show ?thesis
  proof (cases b)
    case (Inl x)
    then show ?thesis using assms r
      by (auto simp: response_text_def none_of_def simp del: show_nat.simps split: if_splits)
  next
    case (Inr data)
    then show ?thesis using assms r
      by (cases "message_content data") (auto simp: response_text_def simp del: show_nat.simps split: if_splits)
  qed
qed (use assms in \<open>auto simp: response_text_def none_of_def split: if_splits\<close>)

lemma provider_code:
  "vlm_failure_error_code (VlmProviderError m) = ''vlm_provider_error''"
  "is_transient_vlm_error (VlmProviderError m)" "\<not> is_schema_vlm_error (VlmProviderError m)"
  "vlm_failure_error_code (VlmSchemaValidationError m) = ''vlm_schema_validation_failed''"
  "\<not> is_transient_vlm_error (VlmSchemaValidationError m)" "is_schema_vlm_error (VlmSchemaValidationError m)"
  by (simp_all add: vlm_failure_error_code_def is_transient_vlm_error_def is_schema_vlm_error_def
      exn_type_name_def py_lower_def py_lower_char_def)

section \<open>Properties\<close>

text \<open>
  C32. A validated model output is what the payload says: whatever the model wrote and whatever
  \<^verbatim>\<open>json.loads\<close> made of it, an output that passes has a payload with only the keys of the schema, none of
  them forbidden and each with the value that the model gave. Descriptions, tags and the quality reason are
  the strings of the payload, the score is its \<^verbatim>\<open>quality.score\<close> as the library reads it and lies between 0
  and 1, and the alert is its \<^verbatim>\<open>attr.alert\<close> as the library reads it: an absent field means the default, so
  no alert is raised and no score is given that the model did not write. The raw text is kept, and an output
  reported as passed was not repaired.
\<close>

theorem validated_output_is_typed:
  assumes "validate_json_model_output loads (vlm_observation_output r) forbidden raw = Inr (Inr res)"
  shows "output_typed r (or_repaired_payload res) (or_value res) \<and> or_raw_response res = raw \<and>
    (\<forall>k. map_of (or_repaired_payload res) k =
      (if k \<in> forbidden then None else map_of (or_parsed_payload res) k)) \<and>
    (or_validation_status res = ''passed'' \<longrightarrow> loads (py_strip raw) = Inr (JsObj (or_repaired_payload res)))"
proof -
  obtain t actions fields where e: "extract_json_object raw = (t, actions)"
    and l: "loads t = Inr (JsObj (or_parsed_payload res))"
    and s: "strip_forbidden_fields (or_parsed_payload res) forbidden = (or_repaired_payload res, fields)"
    and v: "vlm_observation_output r (or_repaired_payload res) = Inr (or_value res)"
    and st: "or_validation_status res = (if actions @ fields \<noteq> [] then ''repair_succeeded'' else ''passed'')"
    and raw: "or_raw_response res = raw"
    using assms by (rule validated_parts)
  have "loads (py_strip raw) = Inr (JsObj (or_repaired_payload res))" if "or_validation_status res = ''passed''"
  proof -
    have "actions = []" "fields = []" using that st by (auto split: if_splits)
    then show ?thesis using no_action_no_change e l nothing_stripped [of "or_parsed_payload res" forbidden] s by simp
  qed
  then show ?thesis using accepted_is_typed [OF v] raw map_of_stripped [of "or_parsed_payload res" forbidden] s by simp
qed

text \<open>
  C33. The object is found in what models wrap around it: prose and spaces before and after, or a code fence
  with its opening line, as long as no brace opens before the object and none closes after it.
\<close>

theorem wrapped_object_is_found:
  assumes "braced obj" and "CHR ''{'' \<notin> set pre" and "CHR ''}'' \<notin> set post"
    and "starts_with fence (py_strip (pre @ obj @ post)) \<Longrightarrow> newline \<in> set (py_lstrip pre)"
  shows "fst (extract_json_object (pre @ obj @ post)) = obj"
proof -
  let ?t = "pre @ obj @ post"
  have held: "holds_object obj ?t" using assms by (auto simp: holds_object_def)
  have "holds_object obj (fst (strip_code_fences ?t))"
  proof (cases "starts_with fence (py_strip ?t)")
    case True
    obtain c where c: "set c \<subseteq> set (py_lstrip pre)"
      "drop_fence_line (py_lstrip pre @ obj @ py_rstrip post) = c @ obj @ py_rstrip post"
      using find_newline [OF assms(4) [OF True]] by blast
    have "set (py_rstrip post) \<subseteq> set post" using set_lstrip [of "rev post"] by (simp add: py_rstrip_def)
    then have "holds_object obj (drop_fence_line (py_strip ?t))"
      using c set_lstrip [of pre] assms(2,3) unfolding strip_object [OF assms(1)] holds_object_def by blast
    then show ?thesis using True assms(1) by (simp add: strip_code_fences_text holds_strip holds_fence_end)
  qed (simp add: strip_code_fences_text holds_strip held assms(1))
  then show ?thesis using extract_object [OF assms(1)] by (metis prod.collapse)
qed

text \<open>
  C34. How a call of the endpoint fails, with no assumption on files, client or \<^verbatim>\<open>json.loads\<close>. Either it is a
  provider error, which the retry policy takes as transient and which carries nothing; or a schema error,
  which is not transient and carries the answer it rejects and the stage that rejected it; or it is an
  exception that some collaborator raised and no handler of the adapter names (\<^const>\<open>unhandled\<close> lists them),
  which passes unchanged and carries nothing.
\<close>

theorem analyze_failures_are_classified:
  assumes "analyze_segment ad env q strict = Inl (e, pay)"
  shows "(is_transient_vlm_error e \<and> \<not> is_schema_vlm_error e \<and> vlm_failure_error_code e = ''vlm_provider_error'' \<and>
      pay = no_payload) \<or>
    (\<not> is_transient_vlm_error e \<and> is_schema_vlm_error e \<and>
      vlm_failure_error_code e = ''vlm_schema_validation_failed'' \<and>
      (\<exists>parts content. build_media_parts ad env q = Inr parts \<and>
        call_api ad env parts (ae_prompt env (vq_analysis_scale q)) strict = Inr content \<and> pay_raw pay = Some content) \<and>
      pay_stage pay \<in> Some ` {''json_parse_failed'', ''json_shape_failed'', ''schema_validation_failed''}) \<or>
    (unhandled ad env q e \<and> pay = no_payload)"
proof -
  have call: "(\<exists>m. e = VlmProviderError m) \<or> unhandled ad env q e" if "call_api ad env ps p strict = Inl e" for ps p
    using response_fails [OF that [unfolded call_api_def]] unfolding unhandled_def by blast
  have passed: ?thesis if "(\<exists>m. e = VlmProviderError m) \<or> unhandled ad env q e" "pay = no_payload"
    using that(1)
  proof
    assume "\<exists>m. e = VlmProviderError m"
    with that(2) provider_code(1-3) show ?thesis by auto
  qed (use that(2) in simp)
  show ?thesis
  proof (cases "build_media_parts ad env q")
    case (Inl e')
    then have "e = e' \<and> pay = no_payload" using assms by (auto simp: analyze_segment_def)
    with media_fails Inl passed show ?thesis by blast
  next
    case p: (Inr ps)
    show ?thesis
    proof (cases "call_api ad env ps (ae_prompt env (vq_analysis_scale q)) strict")
      case (Inl e')
      then have "e = e' \<and> pay = no_payload" using p assms by (auto simp: analyze_segment_def)
      with call Inl passed show ?thesis by blast
    next
      case c: (Inr content)
      let ?v = "validate_json_model_output (ae_loads env) (vlm_observation_output (ae_reader env)) forbidden_fields content"
      consider x where "?v = Inl x" | f where "?v = Inr (Inl f)"
        using assms p c by (cases ?v) (auto simp: analyze_segment_def split: sum.splits)
      then show ?thesis
      proof cases
        case 1
        then have "e = x" "pay = no_payload" using assms p c by (auto simp: analyze_segment_def)
        moreover have "unhandled ad env q x"
          using uncaught_output [OF 1] unfolding unhandled_def none_of_def by auto
        ultimately show ?thesis by blast
      next
        case 2
        have "e = VlmSchemaValidationError (of_message f)" "pay_raw pay = Some (of_raw_response f)"
          "pay_stage pay = Some (of_stage f)"
          using assms p c 2 by (auto simp: analyze_segment_def)
        with rejected_output [OF 2] p c provider_code(4-6) show ?thesis by auto
      qed
    qed
  qed
qed

text \<open>
  C35. The configured options cannot take over a request: whatever they are, the model and the messages are
  the adapter's, no other controlled key is sent, every other option is sent as it is, and the system message
  is the same in a first try and in a strict retry.
\<close>

theorem options_cannot_replace_core:
  assumes "distinct (map fst (ad_extra_body ad))"
  shows "map_of (request_payload ad env parts prompt strict) ''model'' = Some (JsStr (ad_model_id ad)) \<and>
    (\<exists>user. map_of (request_payload ad env parts prompt strict) ''messages'' =
      Some (JsArr [JsObj [(''role'', JsStr ''system''), (''content'', JsStr prompt)],
        JsObj [(''role'', JsStr ''user''), (''content'', JsArr (parts @ user))]]) \<and> (\<not> strict \<longrightarrow> user = [])) \<and>
    (\<forall>k. k \<noteq> ''model'' \<and> k \<noteq> ''messages'' \<longrightarrow> map_of (request_payload ad env parts prompt strict) k =
      (if py_lower k \<in> denied_options then None else map_of (ad_extra_body ad) k))"
proof -
  have extra: "map_of (rev (safe_extra_body ad)) k =
      (if py_lower k \<in> denied_options then None else map_of (ad_extra_body ad) k)" for k
  proof -
    have "distinct (map fst (safe_extra_body ad))"
      using assms by (simp add: safe_extra_body_def distinct_map_filter)
    then have "map_of (rev (safe_extra_body ad)) k = map_of (safe_extra_body ad) k"
      by (metis distinct_rev map_of_inject_set rev_map set_rev)
    also have "\<dots> = (if py_lower k \<in> denied_options then None else map_of (ad_extra_body ad) k)"
      by (simp add: safe_extra_body_def map_of_filter_key)
    finally show ?thesis .
  qed
  have core: "py_lower ''model'' \<in> denied_options" "py_lower ''messages'' \<in> denied_options"
    by (simp_all add: denied_options_def py_lower_def py_lower_char_def)
  show ?thesis by (auto simp: request_payload_def map_of_js_update map_add_def extra core split: option.split)
qed

section \<open>Witnesses\<close>

definition ex_reader :: schema_reader where
  "ex_reader = \<lparr>rd_float = (\<lambda>v. case v of JsInt i \<Rightarrow> Some (of_int i) | JsReal x \<Rightarrow> Some x | _ \<Rightarrow> None),
     rd_bool = (\<lambda>v. case v of JsBool b \<Rightarrow> Some b | _ \<Rightarrow> None), rd_errors = (\<lambda>d. [])\<rparr>"

definition ex_answer :: jdict where
  "ex_answer = [(''static'', JsStr ''a yard''), (''dynamic'', JsStr ''a dog runs''), (''tags'', JsArr [JsStr ''dog'']),
     (''quality'', JsObj [(''score'', JsInt 1)]), (''attr'', JsObj [(''alert'', JsBool True)]),
     (''security_level'', JsStr ''public'')]"

lemma validated_output_is_typed_witness:
  "\<exists>res. validate_json_model_output (\<lambda>t. Inr (JsObj ex_answer)) (vlm_observation_output ex_reader) forbidden_fields ''{}'' =
      Inr (Inr res) \<and> or_validation_status res = ''repair_succeeded'' \<and> vo_alert (or_value res) \<and>
    output_typed ex_reader (or_repaired_payload res) (or_value res)"
proof -
  have e: "extract_json_object ''{}'' = (''{}'', [])" by code_simp
  have s: "strip_forbidden_fields ex_answer forbidden_fields = (butlast ex_answer, [''strip_forbidden_field:security_level''])"
    by code_simp
  have v: "vlm_observation_output ex_reader (butlast ex_answer) =
      Inr \<lparr>vo_static = ''a yard'', vo_dynamic = ''a dog runs'', vo_tags = [''dog''], vo_quality_reason = [],
        vo_quality_score = 1, vo_alert = True\<rparr>"
    by (simp add: vlm_observation_output_def ex_answer_def ex_reader_def only_keys_def output_keys_def read_field_def
        read_score_def)
  obtain res where r: "validate_json_model_output (\<lambda>t. Inr (JsObj ex_answer)) (vlm_observation_output ex_reader)
      forbidden_fields ''{}'' = Inr (Inr res)" "or_validation_status res = ''repair_succeeded''" "vo_alert (or_value res)"
    by (simp add: validate_json_model_output_def e s v)
  then show ?thesis using validated_output_is_typed [OF r(1)] by blast
qed

lemma wrapped_object_is_found_witness:
  "fst (extract_json_object (''```json'' @ CHR 0x0A # ''{a}'' @ CHR 0x0A # ''```'')) = ''{a}''"
  using wrapped_object_is_found [of "''{a}''" "''```json'' @ [CHR 0x0A]" "CHR 0x0A # ''```''"]
  by (simp add: braced_def py_lstrip_def py_isspace_char_def)

definition ex_adapter :: vlm_adapter where
  "ex_adapter = \<lparr>ad_base_url = ''http://vlm'', ad_api_key = ''k'', ad_model_id = ''m'', ad_timeout_seconds = 120,
     ad_media_input = ''frames'', ad_extra_body = [(''Model'', JsStr ''other''), (''temperature'', JsInt 0)]\<rparr>"

definition ex_adapter_env :: adapter_env where
  "ex_adapter_env = \<lparr>ae_read = (\<lambda>uri. Inr [1, 2, 3]),
     ae_post = (\<lambda>url h p s. HttpResponse 200 (Inr (JsObj [(''choices'',
       JsArr [JsObj [(''message'', JsObj [(''content'', JsStr ''sorry, no'')])]])]))),
     ae_prompt = (\<lambda>scale. ''describe''), ae_strict_instruction = ''JSON only'',
     ae_loads = (\<lambda>t. Inl (OtherException [''JSONDecodeError'', ''ValueError'', ''Exception''] ''Expecting value'')),
     ae_reader = ex_reader, ae_py = \<lparr>py_fl = id, py_repr_float = (\<lambda>x. []), py_parse_float = (\<lambda>s. None),
       py_repr = (\<lambda>v. []), py_hexdigest = id\<rparr>\<rparr>"

definition ex_vlm_request :: vlm_request where
  "ex_vlm_request = \<lparr>vq_request_id = ''r'', vq_analysis_job_id = ''j'', vq_video_id = ''v'', vq_camera_id = ''c'',
     vq_analysis_scale = DEFAULT_SEGMENT, vq_segment_start_ms = 0, vq_segment_end_ms = 60000,
     vq_frame_uris = [''/f.jpg''], vq_prompt_version = None, vq_model_version = None\<rparr>"

lemma analyze_failures_are_classified_witness:
  "\<exists>e pay. analyze_segment ex_adapter ex_adapter_env ex_vlm_request False = Inl (e, pay) \<and>
    vlm_failure_error_code e = ''vlm_schema_validation_failed'' \<and> pay_raw pay \<noteq> None"
proof -
  have e: "extract_json_object ''sorry, no'' = (''sorry, no'', [])" by code_simp
  obtain m pay where r: "analyze_segment ex_adapter ex_adapter_env ex_vlm_request False = Inl (VlmSchemaValidationError m, pay)"
    "pay \<noteq> no_payload"
    by (simp add: analyze_segment_def build_media_parts_def ex_vlm_request_def ex_adapter_def ex_adapter_env_def
        read_base64_def call_api_def response_text_def message_content_def validate_json_model_output_def e no_payload_def)
  with analyze_failures_are_classified [OF r(1)] have "vlm_failure_error_code (VlmSchemaValidationError m) =
      ''vlm_schema_validation_failed'' \<and> pay_raw pay \<noteq> None" by auto
  with r(1) show ?thesis by blast
qed

text \<open>An exception that no handler names passes as it is: a malformed URL, or a body that is not text.\<close>

lemma other_exceptions_pass:
  assumes "build_media_parts ad env q = Inr parts"
    and "\<And>headers body. ae_post env (ad_base_url ad) headers body (ad_timeout_seconds ad) = answer"
    and "answer = HttpRaised (OtherException [''InvalidURL'', ''Exception''] m) \<or>
      answer = HttpResponse 200 (Inl (OtherException [''UnicodeDecodeError'', ''UnicodeError'', ''ValueError'', ''Exception''] m))"
  shows "\<exists>e. analyze_segment ad env q strict = Inl (e, no_payload) \<and> \<not> is_transient_vlm_error e \<and>
    vlm_failure_error_code e = ''analysis_unit_failed''"
  using assms(3)
  by (elim disjE) (simp_all add: analyze_segment_def assms(1,2) call_api_def response_text_def is_transient_vlm_error_def
      vlm_failure_error_code_def is_schema_vlm_error_def exn_type_name_def py_lower_def py_lower_char_def)

lemma options_cannot_replace_core_witness:
  "distinct (map fst (ad_extra_body ex_adapter)) \<and>
   map_of (request_payload ex_adapter ex_adapter_env [] ''describe'' False) ''model'' = Some (JsStr ''m'') \<and>
   map_of (request_payload ex_adapter ex_adapter_env [] ''describe'' False) ''Model'' = None \<and>
   map_of (request_payload ex_adapter ex_adapter_env [] ''describe'' False) ''temperature'' = Some (JsInt 0)"
proof -
  have d: "distinct (map fst (ad_extra_body ex_adapter))" by (simp add: ex_adapter_def)
  have "py_lower ''Model'' \<in> denied_options" "py_lower ''temperature'' \<notin> denied_options"
    by code_simp+
  then show ?thesis
    using options_cannot_replace_core [OF d, of ex_adapter_env "[]" "''describe''" False] d
    by (simp add: ex_adapter_def)
qed

end
