(* ===== verification/Cctv_Maintenance.thy ===== *)
theory Cctv_Maintenance
  imports Cctv_Search Cctv_Catalog
begin

text \<open>
  Maintenance (\<^verbatim>\<open>application/maintenance.py\<close>: rebuilding the vector index, sweeping search contexts) and
  backup, restore and export (\<^verbatim>\<open>application/backup.py\<close>, \<^verbatim>\<open>infrastructure/db/backup.py\<close>). The vector store and
  the backup adapter are ports, with the laws that their clients rely on as locales.
\<close>

section \<open>The vector store as a port\<close>

record 's index_port =
  ix_upsert :: "stored_vector list \<Rightarrow> ('s, exn, nat) se"
  ix_get :: "'s \<Rightarrow> string list \<Rightarrow> string option \<Rightarrow> stored_vector list"

definition sqlite_index :: "('a memory_scheme) index_port" where
  "sqlite_index = \<lparr>
     ix_upsert = (\<lambda>vectors s. let (n, rows) = upsert_vectors vectors (mem_vectors s) in (Inr n, s\<lparr>mem_vectors := rows\<rparr>)),
     ix_get = (\<lambda>s. get_vectors_for_records (mem_vectors s))\<rparr>"

text \<open>A vector of the model \<open>m\<close> is stored for the record and the channel of \<open>k\<close>.\<close>

definition has_current :: "string \<Rightarrow> 'a memory_scheme \<Rightarrow> string \<times> string \<Rightarrow> bool" where
  "has_current m s k \<longleftrightarrow> (\<exists>v \<in> set (mem_vectors s). sv_key v = k \<and> sv_model_id v = m)"

definition vectors_outside :: "string set \<Rightarrow> 'a memory_scheme \<Rightarrow> stored_vector list" where
  "vectors_outside ids s = filter (\<lambda>v. sv_record_id v \<notin> ids) (mem_vectors s)"

text \<open>The state changed in its vectors only.\<close>

definition only_vectors :: "'a memory_scheme \<Rightarrow> 'a memory_scheme \<Rightarrow> bool" where
  "only_vectors s s' \<longleftrightarrow> s' = s\<lparr>mem_vectors := mem_vectors s'\<rparr>"

section \<open>Reindexing\<close>

record embedder =
  eb_model_id :: string
  eb_dimension :: int
  eb_embed_texts :: "string list \<Rightarrow> exn + real list list"

definition vector_channels :: "(string \<times> (observation_record \<Rightarrow> string)) list" where
  "vector_channels = [(''static'', ob_static_description_text), (''dynamic'', ob_dynamic_description_text)]"

text \<open>The keys of a batch with their texts, record by record and channel by channel.\<close>

definition channel_texts :: "observation_record list \<Rightarrow> ((string \<times> string) \<times> string) list" where
  "channel_texts batch =
    concat (map (\<lambda>rec. map (\<lambda>(t, attr). ((ob_record_id rec, t), attr rec)) vector_channels) batch)"

definition new_vector :: "embedder \<Rightarrow> (string \<times> string) \<times> string \<Rightarrow> real list \<Rightarrow> stored_vector" where
  "new_vector em p embedding =
    \<lparr>sv_record_id = fst (fst p), sv_vector_type = snd (fst p), sv_embedding = embedding,
     sv_model_id = eb_model_id em, sv_dimension = eb_dimension em, sv_metadata = []\<rparr>"

text \<open>\<open>_reindex_batch\<close>: vectors written, records reindexed, channels skipped. \<^verbatim>\<open>zip\<close> is strict.\<close>

definition reindex_batch ::
  "('a memory_scheme) index_port \<Rightarrow> embedder \<Rightarrow> bool \<Rightarrow> observation_record list \<Rightarrow>
   ('a memory_scheme, exn, nat \<times> string set \<times> nat) se" where
  "reindex_batch ix em force batch =
    se_bind (se_read (\<lambda>s. ix_get ix s (map ob_record_id batch) None)) (\<lambda>existing.
      let current = sv_key ` set (filter (\<lambda>v. sv_model_id v = eb_model_id em) existing);
          keys = channel_texts batch;
          pending = filter (\<lambda>(k, t). force \<or> k \<notin> current) keys;
          skipped = length keys - length pending
      in if pending = [] then se_ret (0, {}, skipped)
         else (case eb_embed_texts em (map snd pending) of
             Inl e \<Rightarrow> se_raise e
           | Inr embeddings \<Rightarrow>
               if length embeddings \<noteq> length pending
               then se_raise (ValueError (if length embeddings < length pending
                 then ''zip() argument 2 is shorter than argument 1''
                 else ''zip() argument 2 is longer than argument 1''))
               else se_bind (ix_upsert ix (map2 (new_vector em) pending embeddings)) (\<lambda>written.
                 se_ret (written, set (map (fst \<circ> fst) pending), skipped))))"

text \<open>\<^verbatim>\<open>range(0, len(records), batch_size)\<close>: a step of 0 raises, a negative one gives no batch.\<close>

function chunks :: "nat \<Rightarrow> 'r list \<Rightarrow> 'r list list" where
  "chunks k xs = (if xs = [] \<or> k = 0 then [] else take k xs # chunks k (drop k xs))"
  by auto

termination by (relation "measure (length \<circ> snd)") auto

declare chunks.simps [simp del]

record reindex_counts =
  rc_scanned :: nat
  rc_reindexed :: "string set"
  rc_skipped :: nat
  rc_vectors_written :: nat

fun reindex_loop ::
  "('a memory_scheme) index_port \<Rightarrow> embedder \<Rightarrow> bool \<Rightarrow> observation_record list list \<Rightarrow> reindex_counts \<Rightarrow>
   ('a memory_scheme, exn, reindex_counts) se" where
  "reindex_loop ix em force [] c = se_ret c"
| "reindex_loop ix em force (batch # batches) c =
    se_bind (reindex_batch ix em force batch) (\<lambda>(written, ids, skipped).
      reindex_loop ix em force batches
        \<lparr>rc_scanned = rc_scanned c + length batch, rc_reindexed = rc_reindexed c \<union> ids,
         rc_skipped = rc_skipped c + skipped, rc_vectors_written = rc_vectors_written c + written\<rparr>)"

record reindex_result =
  rx_scanned :: nat
  rx_reindexed :: nat
  rx_skipped :: nat
  rx_vectors_written :: nat
  rx_model_id :: string
  rx_dimension :: int

record maintenance_env =
  mt_id :: "nat \<Rightarrow> string"
  mt_now :: iso

definition service_event ::
  "maintenance_env \<Rightarrow> nat \<Rightarrow> string \<Rightarrow> authorized_scope \<Rightarrow> string option \<Rightarrow> (string \<times> string) list \<Rightarrow> audit_event" where
  "service_event env n event_type sc request_id metadata =
    \<lparr>ae_audit_event_id = mt_id env n, ae_event_type = event_type, ae_request_id = request_id,
     ae_principal_id = Some (sc_principal_id sc), ae_session_id = None, ae_context_id = None,
     ae_resource_scope_hash = Some (sc_scope_hash sc), ae_record_ids = [], ae_video_id = None,
     ae_camera_id = None, ae_metadata = metadata, ae_created_at = mt_now env\<rparr>"

definition service_audit ::
  "maintenance_env \<Rightarrow> nat \<Rightarrow> string \<Rightarrow> authorized_scope \<Rightarrow> string option \<Rightarrow> (string \<times> string) list \<Rightarrow>
   ('a memory_scheme, exn, unit) se" where
  "service_audit env n event_type sc request_id metadata =
    append_event (service_event env n event_type sc request_id metadata)"

definition no_filter :: pool_filter where
  "no_filter = \<lparr>pf_time_start = None, pf_time_end = None, pf_camera_ids = [], pf_location_ids = [],
     pf_video_ids = [], pf_analysis_scales = [], pf_tag_filters = []\<rparr>"

definition no_counts :: reindex_counts where
  "no_counts = \<lparr>rc_scanned = 0, rc_reindexed = {}, rc_skipped = 0, rc_vectors_written = 0\<rparr>"

definition py_bool_text :: "bool \<Rightarrow> string" where
  "py_bool_text b = (if b then ''True'' else ''False'')"

definition reindex ::
  "('a memory_scheme \<Rightarrow> authorized_scope \<Rightarrow> pool_filter \<Rightarrow> int \<Rightarrow> observation_record list) \<Rightarrow>
   ('a memory_scheme) index_port \<Rightarrow> maintenance_env \<Rightarrow> embedder \<Rightarrow> authorized_scope \<Rightarrow> string option \<Rightarrow> int \<Rightarrow> bool \<Rightarrow>
   int \<Rightarrow> ('a memory_scheme, exn, reindex_result) se" where
  "reindex pool ix env em sc request_id batch_size force limit =
    (if \<not> has_capability sc RUNTIME_MANAGE then se_raise (CapabilityDeniedError ''runtime.manage required for reindex'')
     else
       se_then (service_audit env 0 ''reindex_started'' sc request_id [(''force'', py_bool_text force)])
       (se_bind (se_read (\<lambda>s. pool s sc no_filter limit)) (\<lambda>records.
       se_bind (se_try
           (if batch_size = 0 then se_raise (ValueError ''range() arg 3 must not be zero'')
            else reindex_loop ix em force (chunks (nat batch_size) records) no_counts)
           (\<lambda>e. if is_instance e ''EmbeddingError''
             then se_then (service_audit env 1 ''reindex_failed'' sc request_id [(''reason'', exn_type_name e)]) (se_raise e)
             else se_raise e)) (\<lambda>c.
       se_then (service_audit env 1 ''reindex_succeeded'' sc request_id
           [(''scanned'', show_nat (rc_scanned c)), (''reindexed'', show_nat (card (rc_reindexed c))),
            (''skipped'', show_nat (rc_skipped c)), (''vectors_written'', show_nat (rc_vectors_written c)),
            (''model_id'', eb_model_id em), (''dimension'', show_int (eb_dimension em))])
         (se_ret \<lparr>rx_scanned = rc_scanned c, rx_reindexed = card (rc_reindexed c), rx_skipped = rc_skipped c,
            rx_vectors_written = rc_vectors_written c, rx_model_id = eb_model_id em,
            rx_dimension = eb_dimension em\<rparr>)))))"

text \<open>\<open>sweep_contexts\<close>: the number of contexts expired.\<close>

definition stale_context :: "int \<Rightarrow> search_context \<Rightarrow> bool" where
  "stale_context now c \<longleftrightarrow> sx_status c = ''active'' \<and> iso_key (sx_expires_at c) < iso_key (now, 0)"

definition sweep_contexts :: "int \<Rightarrow> (search_db, exn, nat) se" where
  "sweep_contexts now s = (Inr (count_where (stale_context now) (sdb_contexts s)), expire_contexts now s)"

section \<open>Backup and restore\<close>

text \<open>
  The files beside the session; \<open>'b\<close> is the content of a file. The engine sets \<^verbatim>\<open>journal_mode=WAL\<close>, so the
  committed database is the main file together with the log \<^verbatim>\<open>-wal\<close> beside it: \<open>bk_read\<close> is what a new
  connection reads from the two. The online backup copies the database that such a connection reads into a
  main file of its own, and its connection leaves no log when it closes. What the open session has not
  committed is in neither. \<open>bk_fault\<close> is an error of an operation (\<^verbatim>\<open>backup\<close>, \<^verbatim>\<open>restore\<close>, \<^verbatim>\<open>manifest\<close>).
\<close>

record 'b disk = memory +
  dk_files :: "string \<Rightarrow> 'b option"

record 'b backup_env =
  bk_sqlite_path :: string
  bk_read :: "'b option \<Rightarrow> 'b option \<Rightarrow> 'b"
  bk_sha256 :: "'b \<Rightarrow> string"
  bk_table_counts :: "'b \<Rightarrow> (string \<times> nat) list"
  bk_fault :: "string \<Rightarrow> exn option"

record backup_manifest =
  bm_schema_version :: string
  bm_app_version :: string
  bm_backup_type :: string
  bm_created_at :: "iso option"
  bm_created_by_principal_id :: "string option"
  bm_database_engine :: string
  bm_data_scope :: "string option"
  bm_included_paths :: "string list"
  bm_table_counts :: "(string \<times> nat) list"
  bm_checksum_algorithm :: string
  bm_checksum_value :: string
  bm_export_scope :: "string option"
  bm_metadata :: "(string \<times> string) list"

record 's backup_port =
  bp_backup_to :: "string \<Rightarrow> ('s, exn, string) se"
  bp_table_counts :: "'s \<Rightarrow> (string \<times> nat) list"
  bp_restore_from :: "string \<Rightarrow> string \<Rightarrow> ('s, exn, unit) se"

definition wal_path :: "string \<Rightarrow> string" where
  "wal_path path = path @ ''-wal''"

definition live_database :: "'b backup_env \<Rightarrow> ('b, 'a) disk_scheme \<Rightarrow> 'b" where
  "live_database env s = bk_read env (dk_files s (bk_sqlite_path env)) (dk_files s (wal_path (bk_sqlite_path env)))"

definition restore_tmp :: "'b backup_env \<Rightarrow> string" where
  "restore_tmp env = bk_sqlite_path env @ ''.restore-tmp''"

definition sqlite_backup_to :: "'b backup_env \<Rightarrow> string \<Rightarrow> (('b, 'a) disk_scheme, exn, string) se" where
  "sqlite_backup_to env out s =
    (case bk_fault env ''backup'' of
       Some e \<Rightarrow> (Inl e, s)
     | None \<Rightarrow> let copy = live_database env s
         in (Inr (bk_sha256 env copy), s\<lparr>dk_files := (dk_files s)(wal_path out := None, out \<mapsto> copy)\<rparr>))"

definition sqlite_restore_from :: "'b backup_env \<Rightarrow> string \<Rightarrow> string \<Rightarrow> (('b, 'a) disk_scheme, exn, unit) se" where
  "sqlite_restore_from env path expected s =
    (case dk_files s path of
       None \<Rightarrow> (Inl (ValueError ''backup file not found''), s)
     | Some content \<Rightarrow>
         if bk_sha256 env content \<noteq> expected then (Inl (ValueError ''backup checksum mismatch''), s)
         else if path = restore_tmp env then
           (Inl (OtherException [''SameFileError'', ''Error'', ''OSError'', ''Exception''] path), s)
         else (case bk_fault env ''restore'' of
             Some e \<Rightarrow> (Inl e, s)
           | None \<Rightarrow> (Inr (), s\<lparr>dk_files := (dk_files s)(restore_tmp env := None, bk_sqlite_path env \<mapsto> content)\<rparr>)))"

definition sqlite_backup :: "'b backup_env \<Rightarrow> (('b, 'a) disk_scheme) backup_port" where
  "sqlite_backup env = \<lparr>bp_backup_to = sqlite_backup_to env,
     bp_table_counts = (\<lambda>s. bk_table_counts env (live_database env s)), bp_restore_from = sqlite_restore_from env\<rparr>"

definition NotImplementedError :: "string \<Rightarrow> exn" where
  "NotImplementedError m = OtherException [''NotImplementedError'', ''RuntimeError'', ''Exception''] m"

definition postgres_backup :: "('s \<Rightarrow> (string \<times> nat) list) \<Rightarrow> 's backup_port" where
  "postgres_backup counts = \<lparr>
     bp_backup_to = (\<lambda>out. se_raise (NotImplementedError
       ''PostgreSQL backup_to is not implemented; use pg_dump or managed snapshots'')),
     bp_table_counts = counts,
     bp_restore_from = (\<lambda>path expected. se_raise (NotImplementedError
       ''PostgreSQL restore_from is not implemented; use pg_restore after checksum validation''))\<rparr>"

definition write_manifest ::
  "'b backup_env \<Rightarrow> (backup_manifest \<Rightarrow> 'b) \<Rightarrow> string \<Rightarrow> backup_manifest \<Rightarrow> (('b, 'a) disk_scheme, exn, unit) se" where
  "write_manifest env text path m s =
    (case bk_fault env ''manifest'' of
       Some e \<Rightarrow> (Inl e, s)
     | None \<Rightarrow> (Inr (), s\<lparr>dk_files := (dk_files s)(path \<mapsto> text m)\<rparr>))"

definition manifest_path :: "string \<Rightarrow> string" where
  "manifest_path out = out @ ''.manifest.json''"

text \<open>The argument after the port writes the JSON text of the manifest to a path.\<close>

definition admin_backup ::
  "('a memory_scheme) backup_port \<Rightarrow> (string \<Rightarrow> backup_manifest \<Rightarrow> ('a memory_scheme, exn, unit) se) \<Rightarrow> maintenance_env \<Rightarrow>
   string \<Rightarrow> authorized_scope \<Rightarrow> string option \<Rightarrow> ('a memory_scheme, exn, backup_manifest) se" where
  "admin_backup bp writer env out sc request_id =
    (if \<not> has_capability sc RUNTIME_MANAGE then se_raise (CapabilityDeniedError ''runtime.manage required for admin backup'')
     else
       se_then (service_audit env 0 ''backup_started'' sc request_id [(''out_path'', out)])
       (se_bind (bp_backup_to bp out) (\<lambda>checksum.
       se_bind (se_read (bp_table_counts bp)) (\<lambda>counts.
       let manifest = \<lparr>bm_schema_version = ''v1'', bm_app_version = ''0.1.0'', bm_backup_type = ''admin_full_backup'',
             bm_created_at = Some (mt_now env), bm_created_by_principal_id = Some (sc_principal_id sc),
             bm_database_engine = ''sqlite'', bm_data_scope = Some ''admin_full'', bm_included_paths = [basename out],
             bm_table_counts = counts, bm_checksum_algorithm = ''sha256'', bm_checksum_value = checksum,
             bm_export_scope = Some ''admin_full_backup'', bm_metadata = []\<rparr>
       in se_then (writer (manifest_path out) manifest)
         (se_then (service_audit env 1 ''backup_succeeded'' sc request_id [(''checksum'', checksum)])
           (se_ret manifest))))))"

definition restore_backup ::
  "('a memory_scheme) backup_port \<Rightarrow> maintenance_env \<Rightarrow> string \<Rightarrow> backup_manifest \<Rightarrow> authorized_scope \<Rightarrow> string option \<Rightarrow>
   ('a memory_scheme, exn, unit) se" where
  "restore_backup bp env path manifest sc request_id =
    (if \<not> has_capability sc RUNTIME_MANAGE then se_raise (CapabilityDeniedError ''runtime.manage required for restore'')
     else if bm_schema_version manifest \<noteq> ''v1''
       then se_raise (RestoreError (''unsupported schema_version '' @ bm_schema_version manifest))
     else
       se_then (service_audit env 0 ''restore_started'' sc request_id [(''backup_path'', path)])
       (se_then (se_try (bp_restore_from bp path (bm_checksum_value manifest))
           (\<lambda>e. if ''ValueError'' \<in> set (exn_mro e)
             then se_then (service_audit env 1 ''restore_failed'' sc request_id [(''error'', exn_message e)])
               (se_raise (RestoreError (exn_message e)))
             else se_raise e))
         (service_audit env 1 ''restore_succeeded'' sc request_id [])))"

section \<open>Export\<close>

record exported_record =
  ex_record_id :: string
  ex_video_id :: string
  ex_camera_id :: string
  ex_location_id :: string
  ex_analysis_scale :: string
  ex_segment_start_ms :: int
  ex_segment_end_ms :: int
  ex_observed_start_time :: iso
  ex_observed_end_time :: iso
  ex_static_description_text :: string
  ex_dynamic_description_text :: string
  ex_tags :: "string list"
  ex_attributes :: string
  ex_access_policy_id :: string
  ex_security_level :: string
  ex_model_version :: "string option"
  ex_prompt_version :: "string option"
  ex_pipeline_version :: "string option"

record exported_video =
  ev_video_id :: string
  ev_camera_id :: string
  ev_source_type :: source_type
  ev_video_start_time :: iso
  ev_video_end_time :: "iso option"
  ev_duration_ms :: "int option"
  ev_external_source_id :: "string option"
  ev_access_policy_id :: "string option"

record export_bundle =
  eb_manifest :: backup_manifest
  eb_records :: "exported_record list"
  eb_video_sources :: "exported_video list"

definition to_exported_record :: "observation_record \<Rightarrow> exported_record" where
  "to_exported_record r =
    \<lparr>ex_record_id = ob_record_id r, ex_video_id = ob_video_id r, ex_camera_id = ob_camera_id r,
     ex_location_id = ob_location_id r, ex_analysis_scale = analysis_scale_value (ob_analysis_scale r),
     ex_segment_start_ms = ob_segment_start_ms r, ex_segment_end_ms = ob_segment_end_ms r,
     ex_observed_start_time = ob_observed_start_time r, ex_observed_end_time = ob_observed_end_time r,
     ex_static_description_text = ob_static_description_text r,
     ex_dynamic_description_text = ob_dynamic_description_text r, ex_tags = ob_tags r,
     ex_attributes = ob_attributes r, ex_access_policy_id = ob_access_policy_id r,
     ex_security_level = security_level_value (ob_security_level r), ex_model_version = ob_model_version r,
     ex_prompt_version = ob_prompt_version r, ex_pipeline_version = ob_pipeline_version r\<rparr>"

definition to_exported_video :: "video_source \<Rightarrow> exported_video" where
  "to_exported_video v =
    \<lparr>ev_video_id = vs_video_id v, ev_camera_id = vs_camera_id v, ev_source_type = vs_source_type v,
     ev_video_start_time = vs_video_start_time v, ev_video_end_time = vs_video_end_time v,
     ev_duration_ms = vs_duration_ms v, ev_external_source_id = vs_external_source_id v,
     ev_access_policy_id = vs_access_policy_id v\<rparr>"

definition exported_video_sources :: "db \<Rightarrow> observation_record list \<Rightarrow> authorized_scope \<Rightarrow> exported_video list" where
  "exported_video_sources d records sc =
    List.map_filter (\<lambda>vid. map_option to_exported_video (get_authorized_video vid sc d))
      (sorted_list_of_set (ob_video_id ` set records))"

text \<open>The manifest of an export; \<open>kind\<close> is its backup type, its data scope and its export scope.\<close>

definition export_manifest ::
  "maintenance_env \<Rightarrow> authorized_scope \<Rightarrow> string \<times> string \<Rightarrow> exported_record list \<Rightarrow> exported_video list \<Rightarrow> backup_manifest" where
  "export_manifest env sc kind records videos =
    \<lparr>bm_schema_version = ''v1'', bm_app_version = ''0.1.0'', bm_backup_type = fst kind,
     bm_created_at = Some (mt_now env), bm_created_by_principal_id = Some (sc_principal_id sc),
     bm_database_engine = ''sqlite'', bm_data_scope = Some (snd kind), bm_included_paths = [],
     bm_table_counts = [(''observation_records'', length records), (''video_sources'', length videos)],
     bm_checksum_algorithm = ''sha256'', bm_checksum_value = [], bm_export_scope = Some (fst kind),
     bm_metadata = [(''scope_hash'', sc_scope_hash sc)]\<rparr>"

definition user_export ::
  "maintenance_env \<Rightarrow> authorized_scope \<Rightarrow> string option \<Rightarrow> int \<Rightarrow> ('a memory_scheme, exn, export_bundle) se" where
  "user_export env sc request_id limit =
    (if \<not> has_capability sc OBSERVATION_SEARCH
     then se_raise (CapabilityDeniedError ''observation.search required for user export'')
     else
       se_then (service_audit env 0 ''export_started'' sc request_id [(''export_type'', ''user'')])
       (se_bind (se_read (\<lambda>s. authorized_candidate_pool s sc no_filter limit)) (\<lambda>records.
       se_bind (se_read (\<lambda>s. exported_video_sources (mem_db s) records sc)) (\<lambda>videos.
       let exported = map to_exported_record records;
           manifest = export_manifest env sc (''user_authorized_export'', ''user_authorized'') exported videos
       in se_then (service_audit env 1 ''export_succeeded'' sc request_id
            [(''export_type'', ''user''), (''record_count'', show_nat (length exported))])
          (se_ret \<lparr>eb_manifest = manifest, eb_records = exported, eb_video_sources = videos\<rparr>)))))"

definition migration_export ::
  "maintenance_env \<Rightarrow> authorized_scope \<Rightarrow> string option \<Rightarrow> int \<Rightarrow> ('a memory_scheme, exn, export_bundle) se" where
  "migration_export env sc request_id limit =
    (if \<not> has_capability sc RUNTIME_MANAGE
     then se_raise (CapabilityDeniedError ''runtime.manage required for migration export'')
     else
       se_then (service_audit env 0 ''export_started'' sc request_id [(''export_type'', ''migration'')])
       (se_bind (se_read (\<lambda>s. authorized_candidate_pool s sc no_filter limit)) (\<lambda>records.
       se_bind (se_read (\<lambda>s. exported_video_sources (mem_db s) records sc)) (\<lambda>videos.
       let exported = map to_exported_record records;
           manifest = export_manifest env sc (''migration_export'', ''migration'') exported videos
       in se_then (service_audit env 1 ''export_succeeded'' sc request_id
            [(''export_type'', ''migration''), (''record_count'', show_nat (length exported))])
          (se_ret \<lparr>eb_manifest = manifest, eb_records = exported, eb_video_sources = videos\<rparr>)))))"

section \<open>Lemmas on the index port\<close>

text \<open>
  The port \<^verbatim>\<open>IndexPort\<close> as the reindexing relies on it: a lookup returns the vectors of the records asked
  for; an upsert touches those of the records given, stores what it is given and loses no vector of the model.
\<close>

locale vector_index =
  fixes ix :: "('a memory_scheme) index_port"
  assumes get_vectors: "set (ix_get ix s ids None) = {v \<in> set (mem_vectors s). sv_record_id v \<in> set ids}"
    and upsert_frame: "ix_upsert ix vs s = (r, s') \<Longrightarrow>
      only_vectors s s' \<and> vectors_outside (sv_record_id ` set vs) s' = vectors_outside (sv_record_id ` set vs) s"
    and upsert_stores: "ix_upsert ix vs s = (Inr n, s') \<Longrightarrow> \<forall>w \<in> set vs. sv_model_id w = m \<Longrightarrow> v \<in> set vs \<Longrightarrow>
      has_current m s' (sv_key v)"
    and upsert_keeps: "ix_upsert ix vs s = (Inr n, s') \<Longrightarrow> \<forall>w \<in> set vs. sv_model_id w = m \<Longrightarrow> has_current m s k \<Longrightarrow>
      has_current m s' k"

lemma outside_mono:
  "vectors_outside A s' = vectors_outside A s \<Longrightarrow> A \<subseteq> B \<Longrightarrow> vectors_outside B s' = vectors_outside B s"
proof -
  assume eq: "vectors_outside A s' = vectors_outside A s" and "A \<subseteq> B"
  then have "vectors_outside B t = filter (\<lambda>v. sv_record_id v \<notin> B) (vectors_outside A t)" for t
    by (auto simp: vectors_outside_def intro!: filter_cong)
  with eq show ?thesis by metis
qed

lemma only_vectors_refl: "only_vectors s s"
  by (simp add: only_vectors_def)

lemma only_vectors_trans: "only_vectors s t \<Longrightarrow> only_vectors t u \<Longrightarrow> only_vectors s u"
  unfolding only_vectors_def by (metis memory.surjective memory.update_convs(5))

lemma only_vectors_fields:
  assumes "only_vectors s s'"
  shows "mem_records s' = mem_records s" "mem_audit s' = mem_audit s" "mem_db s' = mem_db s" "mem_history s' = mem_history s"
proof -
  obtain v where "s' = s\<lparr>mem_vectors := v\<rparr>" using assms unfolding only_vectors_def by blast
  then show "mem_records s' = mem_records s" "mem_audit s' = mem_audit s" "mem_db s' = mem_db s"
    "mem_history s' = mem_history s" by simp_all
qed

definition keys_of :: "observation_record list \<Rightarrow> (string \<times> string) set" where
  "keys_of batch = fst ` set (channel_texts batch)"

lemma channel_texts_simps:
  "channel_texts [] = []"
  "channel_texts (r # rs) = ((ob_record_id r, ''static''), ob_static_description_text r) #
     ((ob_record_id r, ''dynamic''), ob_dynamic_description_text r) # channel_texts rs"
  by (simp_all add: channel_texts_def vector_channels_def)

lemma length_channel_texts [simp]: "length (channel_texts rs) = 2 * length rs"
  by (induction rs) (simp_all add: channel_texts_simps)

lemma ids_of_keys: "fst ` keys_of rs = ob_record_id ` set rs"
  unfolding keys_of_def by (induction rs) (auto simp: channel_texts_simps)

lemma keys_of_append: "keys_of (xs @ ys) = keys_of xs \<union> keys_of ys"
  by (simp add: keys_of_def channel_texts_def image_Un)

lemma concat_chunks: "0 < k \<Longrightarrow> concat (chunks k xs) = xs"
proof (induction k xs rule: chunks.induct)
  case (1 k xs)
  then show ?case by (subst chunks.simps) auto
qed

lemma new_vectors:
  assumes "length es = length ps"
  shows "map sv_key (map2 (new_vector em) ps es) = map fst ps"
    and "\<forall>v \<in> set (map2 (new_vector em) ps es). sv_model_id v = eb_model_id em"
  using assms by (induction ps es rule: list_induct2') (auto simp: new_vector_def sv_key_def)

context vector_index
begin

lemma batch_current:
  assumes "reindex_batch ix em force batch s = (Inr r, s')"
  shows "\<forall>k \<in> keys_of batch. has_current (eb_model_id em) s' k"
    and "has_current (eb_model_id em) s k \<Longrightarrow> has_current (eb_model_id em) s' k"
proof -
  define current where "current = sv_key ` set (filter (\<lambda>v. sv_model_id v = eb_model_id em)
    (ix_get ix s (map ob_record_id batch) None))"
  define pending where "pending = filter (\<lambda>(k, t). force \<or> k \<notin> current) (channel_texts batch)"
  have cur: "has_current (eb_model_id em) s k" if "k \<in> current" for k
    using that by (auto simp: current_def has_current_def get_vectors)
  have rest: "k \<in> current \<or> k \<in> fst ` set pending" if "k \<in> keys_of batch" for k
    using that by (force simp: keys_of_def pending_def)
  note unfolded = assms [unfolded reindex_batch_def se_simps Let_def prod.case sum.case,
      folded current_def, folded pending_def]
  show "\<forall>k \<in> keys_of batch. has_current (eb_model_id em) s' k"
    and "has_current (eb_model_id em) s k \<Longrightarrow> has_current (eb_model_id em) s' k"
  proof -
    consider (none) "pending = []" "s' = s"
      | (some) es n where "length es = length pending"
        "ix_upsert ix (map2 (new_vector em) pending es) s = (Inr n, s')"
      using unfolded by (auto simp: se_simps split: if_splits sum.splits prod.splits)
    then have "(\<forall>k \<in> keys_of batch. has_current (eb_model_id em) s' k) \<and>
        (\<forall>k. has_current (eb_model_id em) s k \<longrightarrow> has_current (eb_model_id em) s' k)"
    proof cases
      case none
      then show ?thesis using cur rest by auto
    next
      case some
      note vs = new_vectors [OF some(1), of em]
      have keeps: "has_current (eb_model_id em) s k \<Longrightarrow> has_current (eb_model_id em) s' k" for k
        by (rule upsert_keeps [OF some(2) vs(2)])
      have stored: "has_current (eb_model_id em) s' k" if "k \<in> fst ` set pending" for k
      proof -
        have "k \<in> sv_key ` set (map2 (new_vector em) pending es)" using that vs(1) by (metis list.set_map)
        then show ?thesis using upsert_stores [OF some(2) vs(2)] by blast
      qed
      show ?thesis using keeps stored cur rest by blast
    qed
    then show "\<forall>k \<in> keys_of batch. has_current (eb_model_id em) s' k"
      and "has_current (eb_model_id em) s k \<Longrightarrow> has_current (eb_model_id em) s' k" by blast+
  qed
qed

lemma batch_idle:
  assumes "\<forall>k \<in> keys_of batch. has_current (eb_model_id em) s k"
  shows "reindex_batch ix em False batch s = (Inr (0, {}, 2 * length batch), s)"
proof -
  have "k \<in> sv_key ` set (filter (\<lambda>v. sv_model_id v = eb_model_id em) (ix_get ix s (map ob_record_id batch) None))"
    if "(k, t) \<in> set (channel_texts batch)" for k t
  proof -
    have k: "k \<in> keys_of batch" using that unfolding keys_of_def by force
    then obtain v where "v \<in> set (mem_vectors s)" "sv_key v = k" "sv_model_id v = eb_model_id em"
      using assms by (auto simp: has_current_def)
    moreover have "fst k \<in> ob_record_id ` set batch" using k ids_of_keys by blast
    ultimately show ?thesis by (force simp: get_vectors sv_key_def)
  qed
  then have "filter (\<lambda>(k, t). False \<or> k \<notin> sv_key ` set (filter (\<lambda>v. sv_model_id v = eb_model_id em)
      (ix_get ix s (map ob_record_id batch) None))) (channel_texts batch) = []"
    by (auto simp: filter_empty_conv)
  then show ?thesis by (simp add: reindex_batch_def se_simps Let_def del: set_filter)
qed

lemma batch_frame:
  assumes "reindex_batch ix em force batch s = (r, s')"
  shows "only_vectors s s' \<and> vectors_outside (ob_record_id ` set batch) s' = vectors_outside (ob_record_id ` set batch) s"
proof -
  define pending where "pending = filter (\<lambda>(k, t). force \<or> k \<notin> sv_key ` set (filter (\<lambda>v. sv_model_id v = eb_model_id em)
    (ix_get ix s (map ob_record_id batch) None))) (channel_texts batch)"
  note unfolded = assms [unfolded reindex_batch_def se_simps Let_def prod.case sum.case, folded pending_def]
  consider (same) "s' = s" | (some) es r' where "length es = length pending"
      "ix_upsert ix (map2 (new_vector em) pending es) s = (r', s')"
    using unfolded by (auto simp: se_simps split: if_splits sum.splits prod.splits)
  then show ?thesis
  proof cases
    case some
    have "sv_record_id v \<in> ob_record_id ` set batch" if "v \<in> set (map2 (new_vector em) pending es)" for v
    proof -
      have "sv_key v \<in> fst ` set pending" using that new_vectors(1) [OF some(1), of em] by (metis imageI list.set_map)
      then have "sv_key v \<in> keys_of batch" by (auto simp: pending_def keys_of_def)
      then show ?thesis using ids_of_keys by (metis fst_conv imageI sv_key_def)
    qed
    then show ?thesis using upsert_frame [OF some(2)] outside_mono by (metis image_subsetI)
  qed (simp add: only_vectors_refl)
qed

lemma loop_frame:
  assumes "reindex_loop ix em force batches c s = (r, s')" and "\<Union>(set ` set batches) \<subseteq> R"
  shows "only_vectors s s' \<and> vectors_outside (ob_record_id ` R) s' = vectors_outside (ob_record_id ` R) s"
  using assms
proof (induction batches arbitrary: c s)
  case (Cons batch batches)
  obtain r1 s1 where b: "reindex_batch ix em force batch s = (r1, s1)" by fastforce
  have sub: "ob_record_id ` set batch \<subseteq> ob_record_id ` R" "\<Union>(set ` set batches) \<subseteq> R" using Cons.prems(2) by auto
  have f: "only_vectors s s1 \<and> vectors_outside (ob_record_id ` R) s1 = vectors_outside (ob_record_id ` R) s"
    using batch_frame [OF b] outside_mono [OF _ sub(1)] by blast
  show ?case
  proof (cases r1)
    case (Inl e)
    then show ?thesis using Cons.prems(1) b f by (simp add: se_simps)
  next
    case (Inr p)
    then obtain c' where "reindex_loop ix em force batches c' s1 = (r, s')"
      using Cons.prems(1) b by (cases p) (auto simp: se_simps)
    from Cons.IH [OF this sub(2)] f only_vectors_trans show ?thesis by fastforce
  qed
qed (simp add: only_vectors_refl)

lemma loop_current:
  assumes "reindex_loop ix em force batches c s = (Inr r, s')"
  shows "(\<forall>k \<in> keys_of (concat batches). has_current (eb_model_id em) s' k) \<and>
    (\<forall>k. has_current (eb_model_id em) s k \<longrightarrow> has_current (eb_model_id em) s' k) \<and>
    rc_scanned r = rc_scanned c + length (concat batches)"
  using assms
proof (induction batches arbitrary: c s)
  case Nil
  then show ?case by (simp add: keys_of_def channel_texts_simps)
next
  case (Cons batch batches)
  obtain r1 s1 where b: "reindex_batch ix em force batch s = (r1, s1)" by fastforce
  with Cons.prems obtain w ids sk where r1: "r1 = Inr (w, ids, sk)"
    by (cases r1) (auto simp: se_simps)
  note cur = batch_current [OF b [unfolded r1]]
  from Cons.prems b r1 Cons.IH [of _ s1] have "(\<forall>k \<in> keys_of (concat batches). has_current (eb_model_id em) s' k) \<and>
      (\<forall>k. has_current (eb_model_id em) s1 k \<longrightarrow> has_current (eb_model_id em) s' k) \<and>
      rc_scanned r = rc_scanned c + length batch + length (concat batches)"
    by (simp add: se_simps)
  then show ?case using cur by (auto simp: keys_of_append)
qed

lemma loop_idle:
  assumes "\<forall>k \<in> keys_of (concat batches). has_current (eb_model_id em) s k"
  shows "reindex_loop ix em False batches c s =
    (Inr (c\<lparr>rc_scanned := rc_scanned c + length (concat batches),
       rc_skipped := rc_skipped c + 2 * length (concat batches)\<rparr>), s)"
  using assms
proof (induction batches arbitrary: c)
  case (Cons batch batches)
  then have "reindex_batch ix em False batch s = (Inr (0, {}, 2 * length batch), s)"
    by (intro batch_idle) (simp add: keys_of_append)
  with Cons show ?case by (simp add: se_simps keys_of_append)
qed simp

end

text \<open>With a read port: what it returns are active records of the scope, and it looks at the records only.\<close>

locale reindexing = vector_index ix for ix :: "('a memory_scheme) index_port" +
  fixes pool :: "'a memory_scheme \<Rightarrow> authorized_scope \<Rightarrow> pool_filter \<Rightarrow> int \<Rightarrow> observation_record list"
  assumes pool_in_scope: "r \<in> set (pool s sc f n) \<Longrightarrow> r \<in> set (mem_records s) \<and> record_permitted sc r"
    and pool_stable: "mem_records s = mem_records t \<Longrightarrow> pool s sc f n = pool t sc f n"

lemma service_audit_cases:
  "(\<exists>rows. service_audit env n t sc rid md s = (Inr (), s\<lparr>mem_audit := rows\<rparr>)) \<or>
   (\<exists>e. service_audit env n t sc rid md s = (Inl e, s))"
  by (auto simp: service_audit_def append_event_def split: option.split)

lemma service_audit_Inr: "service_audit env n t sc rid md s = (Inr u, s') \<Longrightarrow> \<exists>rows. s' = s\<lparr>mem_audit := rows\<rparr>"
  using service_audit_cases [of env n t sc rid md s] by auto

lemma service_audit_fresh:
  "mt_id env n \<notin> ae_audit_event_id ` set (mem_audit s) \<Longrightarrow>
   service_audit env n t sc rid md s = (Inr (), s\<lparr>mem_audit := mem_audit s @ [service_event env n t sc rid md]\<rparr>)"
  by (simp add: service_audit_def append_event_def row_ins_def service_event_def)

lemma service_event_id [simp]: "ae_audit_event_id (service_event env n t sc rid md) = mt_id env n"
  by (simp add: service_event_def)

lemma outside_audit [simp]: "vectors_outside A (s\<lparr>mem_audit := rows\<rparr>) = vectors_outside A s"
  and has_current_audit [simp]: "has_current m (s\<lparr>mem_audit := rows\<rparr>) k = has_current m s k"
  by (simp_all add: vectors_outside_def has_current_def)

definition same_outside :: "string set \<Rightarrow> 'a memory_scheme \<Rightarrow> 'a memory_scheme \<Rightarrow> bool" where
  "same_outside V s t \<longleftrightarrow> mem_records t = mem_records s \<and> vectors_outside V t = vectors_outside V s"

context reindexing
begin

text \<open>The second run of a reindexing finds nothing to do.\<close>

lemma reindex_settles:
  assumes run: "reindex pool ix env em sc rid bs force limit s = (Inr res, s1)" and "0 < bs" and "0 < bs'"
    and fresh: "mt_id env' 0 \<notin> ae_audit_event_id ` set (mem_audit s1)" "mt_id env' 1 \<notin> ae_audit_event_id ` set (mem_audit s1)"
      "mt_id env' 0 \<noteq> mt_id env' 1"
  shows "\<exists>s2. reindex pool ix env' em sc rid' bs' False limit s1 =
      (Inr (res\<lparr>rx_reindexed := 0, rx_skipped := 2 * rx_scanned res, rx_vectors_written := 0\<rparr>), s2) \<and>
    mem_vectors s2 = mem_vectors s1"
proof -
  have cap: "has_capability sc RUNTIME_MANAGE"
    using run by (auto simp: reindex_def split: if_splits)
  let ?md = "[(''force'', py_bool_text force)]"
  obtain rows where a0: "service_audit env 0 ''reindex_started'' sc rid ?md s = (Inr (), s\<lparr>mem_audit := rows\<rparr>)"
    using service_audit_cases [of env 0 "''reindex_started''" sc rid ?md s] run cap by (auto simp: reindex_def se_simps)
  let ?s0 = "s\<lparr>mem_audit := rows\<rparr>"
  let ?pool = "pool ?s0 sc no_filter limit"
  obtain c s' where loop: "reindex_loop ix em force (chunks (nat bs) ?pool) no_counts ?s0 = (Inr c, s')"
    using run cap a0 \<open>0 < bs\<close>
    by (cases "reindex_loop ix em force (chunks (nat bs) ?pool) no_counts ?s0")
      (auto simp: reindex_def se_simps split: sum.splits prod.splits if_splits)
  have "\<exists>md u. service_audit env 1 ''reindex_succeeded'' sc rid md s' = (Inr u, s1)"
    and res: "rx_scanned res = rc_scanned c" "rx_model_id res = eb_model_id em" "rx_dimension res = eb_dimension em"
    using run cap a0 loop \<open>0 < bs\<close> by (auto simp: reindex_def se_simps split: sum.splits prod.splits)
  then obtain rows' where s1: "s1 = s'\<lparr>mem_audit := rows'\<rparr>" using service_audit_Inr by blast
  have all: "concat (chunks (nat bs) ?pool) = ?pool" using \<open>0 < bs\<close> by (simp add: concat_chunks)
  note cur = loop_current [OF loop, unfolded all]
  have "mem_records s' = mem_records ?s0" using loop_frame [OF loop subset_UNIV] only_vectors_fields by blast
  then have "mem_records s1 = mem_records ?s0" by (simp add: s1)
  then have pool: "pool t sc no_filter limit = ?pool" if "mem_records t = mem_records s1" for t
    using that by (intro pool_stable) (rule trans)
  let ?s1 = "s1\<lparr>mem_audit := mem_audit s1 @ [service_event env' 0 ''reindex_started'' sc rid' [(''force'', ''False'')]]\<rparr>"
  have idle: "reindex_loop ix em False (chunks (nat bs') ?pool) no_counts ?s1 =
      (Inr \<lparr>rc_scanned = length ?pool, rc_reindexed = {}, rc_skipped = 2 * length ?pool, rc_vectors_written = 0\<rparr>, ?s1)"
    using cur \<open>0 < bs'\<close> loop_idle [of "chunks (nat bs') ?pool" em ?s1 no_counts]
    by (simp add: concat_chunks s1 no_counts_def)
  have zero: "rc_scanned no_counts = 0" by (simp add: no_counts_def)
  have "mt_id env' 1 \<notin> ae_audit_event_id ` set (mem_audit ?s1)" using fresh by simp
  note a1 = service_audit_fresh [OF this]
  show ?thesis
    using cap \<open>0 < bs'\<close> fresh(1) pool [of ?s1] cur res
    by (cases res) (simp add: reindex_def se_simps service_audit_fresh py_bool_text_def idle a1 zero
        del: show_nat.simps One_nat_def)
qed

text \<open>Whatever happens, a reindexing touches vectors of visible records only.\<close>

lemma audit_outside:
  "same_outside V s t \<Longrightarrow> se_wp (service_audit env n ty sc rid md) (\<lambda>_. same_outside V s) (\<lambda>_. same_outside V s) t"
  using service_audit_cases [of env n ty sc rid md t] by (auto simp: se_wp_def same_outside_def)

lemma loop_outside:
  assumes "same_outside V s t" and "ob_record_id ` \<Union>(set ` set batches) \<subseteq> V"
  shows "se_wp (reindex_loop ix em force batches c) (\<lambda>_. same_outside V s) (\<lambda>_. same_outside V s) t"
proof -
  obtain r t' where run: "reindex_loop ix em force batches c t = (r, t')" by fastforce
  note f = loop_frame [OF run subset_refl]
  then have "mem_records t' = mem_records t" using only_vectors_fields by blast
  moreover have "vectors_outside V t' = vectors_outside V t" using f outside_mono [OF _ assms(2)] by blast
  ultimately have "same_outside V s t'" using assms(1) by (simp add: same_outside_def)
  then show ?thesis by (simp add: se_wp_def run split: sum.split)
qed

lemma set_chunks: "\<Union>(set ` set (chunks k xs)) \<subseteq> set xs"
proof (induction k xs rule: chunks.induct)
  case (1 k xs)
  show ?case
  proof (cases "xs = [] \<or> k = 0")
    case False
    with 1 show ?thesis by (subst chunks.simps) (auto dest: in_set_takeD in_set_dropD)
  qed (simp add: chunks.simps)
qed

lemma reindex_outside:
  "se_wp (reindex pool ix env em sc rid bs force limit) (\<lambda>_. same_outside (visible_ids (set (mem_records s)) sc) s)
    (\<lambda>_. same_outside (visible_ids (set (mem_records s)) sc) s) s"
proof -
  let ?V = "visible_ids (set (mem_records s)) sc"
  let ?P = "same_outside ?V s"
  have P: "?P s" by (simp add: same_outside_def)
  have loop: "se_wp (if bs = 0 then se_raise e else reindex_loop ix em force (chunks (nat bs) (pool t sc no_filter limit)) c)
      (\<lambda>_. ?P) (\<lambda>_. ?P) t" if "?P t" for t c and e :: exn
  proof -
    have "ob_record_id ` set (pool t sc no_filter limit) \<subseteq> ?V"
      using that pool_in_scope by (force simp: same_outside_def visible_ids_def)
    then have "ob_record_id ` \<Union>(set ` set (chunks (nat bs) (pool t sc no_filter limit))) \<subseteq> ?V"
      using set_chunks by (meson image_mono subset_trans)
    then show ?thesis using that loop_outside by (simp add: wp_simps)
  qed
  show ?thesis
  proof (cases "has_capability sc RUNTIME_MANAGE")
    case True
    show ?thesis unfolding reindex_def
      apply (simp only: True not_True_eq_False if_False)
      apply (rule se_wp_thenI [OF audit_outside [OF P]])
      apply (simp only: se_wp_bind [of "se_read _"] se_wp_read)
      apply (rule se_wp_bindI [where R = "\<lambda>_. ?P"])
       apply (rule se_wp_tryI [OF loop])
        apply assumption
       apply (simp add: wp_simps audit_outside)
      apply (rule se_wp_thenI [OF audit_outside])
       apply assumption
      apply (simp add: wp_simps)
      done
  qed (simp add: reindex_def wp_simps P)
qed

end

section \<open>The SQLite store is such an index\<close>

lemma upd_vector_outside:
  "sv_record_id v \<in> A \<Longrightarrow> filter (\<lambda>w. sv_record_id w \<notin> A) (row_upd sv_key (sv_key v) (\<lambda>_. v) rows) =
    filter (\<lambda>w. sv_record_id w \<notin> A) rows"
  by (induction rows) (auto simp: row_upd_def sv_key_def)

lemma upsert_vector_outside:
  "sv_record_id v \<in> A \<Longrightarrow> filter (\<lambda>w. sv_record_id w \<notin> A) (upsert_vector v rows) = filter (\<lambda>w. sv_record_id w \<notin> A) rows"
  by (simp add: upsert_vector_def upd_vector_outside)

lemma upsert_vector_members:
  "w \<in> set rows \<Longrightarrow> sv_key w \<noteq> sv_key v \<Longrightarrow> w \<in> set (upsert_vector v rows)" "v \<in> set (upsert_vector v rows)"
  by (force simp: upsert_vector_def row_upd_def)+

lemma upsert_vector_current:
  assumes "sv_model_id v = m"
  shows "\<exists>w \<in> set (upsert_vector v rows). sv_key w = sv_key v \<and> sv_model_id w = m"
    and "\<exists>w \<in> set rows. sv_key w = k \<and> sv_model_id w = m \<Longrightarrow> \<exists>w \<in> set (upsert_vector v rows). sv_key w = k \<and> sv_model_id w = m"
  using assms upsert_vector_members by blast (metis assms upsert_vector_members)

lemma fold_upsert_outside:
  "sv_record_id ` set vs \<subseteq> A \<Longrightarrow>
   filter (\<lambda>w. sv_record_id w \<notin> A) (fold upsert_vector vs rows) = filter (\<lambda>w. sv_record_id w \<notin> A) rows"
  by (induction vs arbitrary: rows) (simp_all add: upsert_vector_outside)

lemma fold_upsert_keeps:
  "\<forall>w \<in> set vs. sv_model_id w = m \<Longrightarrow> \<exists>w \<in> set rows. sv_key w = k \<and> sv_model_id w = m \<Longrightarrow>
   \<exists>w \<in> set (fold upsert_vector vs rows). sv_key w = k \<and> sv_model_id w = m"
  by (induction vs arbitrary: rows) (simp_all add: upsert_vector_current(2))

lemma fold_upsert_stores:
  "\<forall>w \<in> set vs. sv_model_id w = m \<Longrightarrow> v \<in> set vs \<Longrightarrow>
   \<exists>w \<in> set (fold upsert_vector vs rows). sv_key w = sv_key v \<and> sv_model_id w = m"
proof (induction vs arbitrary: rows)
  case (Cons u vs)
  show ?case
  proof (cases "v = u")
    case True
    then show ?thesis using Cons.prems upsert_vector_current(1) [of u m rows] by (simp add: fold_upsert_keeps)
  qed (use Cons in simp)
qed simp

interpretation sqlite_reindexing: reindexing "sqlite_index :: ('a memory_scheme) index_port" authorized_candidate_pool
proof unfold_locales
  fix s s' :: "'a memory_scheme" and ids vs r n m v k sc f and t :: "'a memory_scheme" and rec
  show "set (ix_get sqlite_index s ids None) = {v \<in> set (mem_vectors s). sv_record_id v \<in> set ids}"
    by (auto simp: sqlite_index_def get_vectors_for_records_def)
  have up: "r = Inr (length vs) \<and> s' = s\<lparr>mem_vectors := fold upsert_vector vs (mem_vectors s)\<rparr>"
    if "ix_upsert sqlite_index vs s = (r, s')" for vs s s' and r :: "exn + nat"
    using that by (auto simp: sqlite_index_def upsert_vectors_def split: if_splits)
  show "only_vectors s s' \<and> vectors_outside (sv_record_id ` set vs) s' = vectors_outside (sv_record_id ` set vs) s"
    if "ix_upsert sqlite_index vs s = (r, s')"
    using up [OF that] by (simp add: only_vectors_def vectors_outside_def fold_upsert_outside)
  show "has_current m s' (sv_key v)" if "ix_upsert sqlite_index vs s = (Inr n, s')" "\<forall>w \<in> set vs. sv_model_id w = m" "v \<in> set vs"
    using up [OF that(1)] fold_upsert_stores [OF that(2,3)] by (simp add: has_current_def)
  show "has_current m s' k" if "ix_upsert sqlite_index vs s = (Inr n, s')" "\<forall>w \<in> set vs. sv_model_id w = m" "has_current m s k"
    using up [OF that(1)] fold_upsert_keeps [OF that(2)] that(3) by (simp add: has_current_def)
  show "rec \<in> set (mem_records s) \<and> record_permitted sc rec" if "rec \<in> set (authorized_candidate_pool s sc f n')" for n'
    using sqlite_reads.pool_sound [OF that] .
  show "mem_records s = mem_records t \<Longrightarrow> authorized_candidate_pool s sc f n' = authorized_candidate_pool t sc f n'" for n'
    by (simp add: authorized_candidate_pool_def)
qed

section \<open>The backup port\<close>

text \<open>
  What the service relies on: a backup saves the database under the checksum that it returns, a restore of
  what is saved puts it in place (\<open>in_place d s\<close> is what a connection reads when the main file of the state
  \<open>s\<close> becomes \<open>d\<close>), and neither a manifest nor an audit event spoils a saved backup.
\<close>

locale backup_adapter =
  fixes bp :: "('a memory_scheme) backup_port"
    and writer :: "string \<Rightarrow> backup_manifest \<Rightarrow> ('a memory_scheme, exn, unit) se"
    and database :: "'a memory_scheme \<Rightarrow> 'd"
    and saved :: "string \<Rightarrow> string \<Rightarrow> 'd \<Rightarrow> 'a memory_scheme \<Rightarrow> bool"
    and in_place :: "'d \<Rightarrow> 'a memory_scheme \<Rightarrow> 'd"
  assumes backup_saves: "bp_backup_to bp out s = (Inr c, s') \<Longrightarrow> saved out c (database s) s'"
    and manifest_keeps: "writer (manifest_path out) m s = (Inr u, s') \<Longrightarrow> saved out c d s \<Longrightarrow> saved out c d s'"
    and audit_keeps: "saved out c d (s\<lparr>mem_audit := rows\<rparr>) = saved out c d s"
    and audit_database: "database (s\<lparr>mem_audit := rows\<rparr>) = database s"
    and audit_in_place: "in_place d (s\<lparr>mem_audit := rows\<rparr>) = in_place d s"
    and restore_loads: "bp_restore_from bp out c s = (Inr u, s') \<Longrightarrow> saved out c d s \<Longrightarrow> database s' = in_place d s"
begin

lemma admin_backup_saves:
  assumes "admin_backup bp writer env out sc rid s = (Inr m, s')"
  shows "saved out (bm_checksum_value m) (database s) s' \<and> bm_schema_version m = ''v1''"
proof -
  have cap: "has_capability sc RUNTIME_MANAGE" using assms by (auto simp: admin_backup_def split: if_splits)
  obtain u s1 c s2 s3 where a0: "service_audit env 0 ''backup_started'' sc rid [(''out_path'', out)] s = (Inr u, s1)"
    and b: "bp_backup_to bp out s1 = (Inr c, s2)" and w: "\<exists>u. writer (manifest_path out) m s2 = (Inr u, s3)"
    and a1: "\<exists>u. service_audit env 1 ''backup_succeeded'' sc rid [(''checksum'', c)] s3 = (Inr u, s')"
    and m: "bm_checksum_value m = c" "bm_schema_version m = ''v1''"
    using assms cap by (auto simp: admin_backup_def se_simps Let_def split: prod.splits sum.splits)
  obtain rows where s1: "s1 = s\<lparr>mem_audit := rows\<rparr>" using service_audit_Inr [OF a0] by blast
  have "saved out c (database s) s2" using backup_saves [OF b] by (simp add: s1 audit_database)
  then have "saved out c (database s) s3" using w manifest_keeps by blast
  moreover obtain rows' where "s' = s3\<lparr>mem_audit := rows'\<rparr>" using a1 service_audit_Inr by blast
  ultimately show ?thesis using m by (simp add: audit_keeps)
qed

lemma restore_brings_back:
  assumes "restore_backup bp env path m sc rid s = (Inr u, s')" and "saved path (bm_checksum_value m) d s"
  shows "database s' = in_place d s"
proof -
  have ok: "has_capability sc RUNTIME_MANAGE" "bm_schema_version m = ''v1''"
    using assms(1) by (auto simp: restore_backup_def split: if_splits)
  obtain u s1 s2 where a0: "service_audit env 0 ''restore_started'' sc rid [(''backup_path'', path)] s = (Inr u, s1)"
    and b: "\<exists>u. bp_restore_from bp path (bm_checksum_value m) s1 = (Inr u, s2)"
    and a1: "\<exists>u. service_audit env 1 ''restore_succeeded'' sc rid [] s2 = (Inr u, s')"
    using assms(1) ok by (auto simp: restore_backup_def se_simps split: prod.splits sum.splits if_splits)
  obtain rows where s1: "s1 = s\<lparr>mem_audit := rows\<rparr>" using service_audit_Inr [OF a0] by blast
  obtain rows' where s': "s' = s2\<lparr>mem_audit := rows'\<rparr>" using a1 service_audit_Inr by blast
  show ?thesis using b restore_loads assms(2) by (auto simp: s1 s' audit_keeps audit_database audit_in_place)
qed

end

definition saved_file :: "'b backup_env \<Rightarrow> string \<Rightarrow> string \<Rightarrow> 'b \<Rightarrow> ('b, 'a) disk_scheme \<Rightarrow> bool" where
  "saved_file bk path c d s \<longleftrightarrow> dk_files s path = Some d \<and> bk_sha256 bk d = c"

lemma manifest_path_neq: "manifest_path out \<noteq> out" "out \<noteq> manifest_path out"
  by (simp_all add: manifest_path_def)

definition file_in_place :: "'b backup_env \<Rightarrow> 'b \<Rightarrow> ('b, 'a) disk_scheme \<Rightarrow> 'b" where
  "file_in_place bk d s = bk_read bk (Some d) (dk_files s (wal_path (bk_sqlite_path bk)))"

lemma log_paths [simp]: "wal_path p \<noteq> p" "p \<noteq> wal_path p" "wal_path (bk_sqlite_path bk) \<noteq> restore_tmp bk"
  by (simp_all add: wal_path_def restore_tmp_def)

text \<open>A restore replaces the main file and leaves the log: a new connection reads the two together.\<close>

lemma restore_leaves_log:
  assumes "sqlite_restore_from bk path c s = (Inr u, s')" and "dk_files s path = Some content"
  shows "live_database bk s' = file_in_place bk content s"
  using assms by (auto simp: sqlite_restore_from_def live_database_def file_in_place_def split: option.splits if_splits)

interpretation sqlite_backups: backup_adapter "sqlite_backup bk :: (('b, 'a) disk_scheme) backup_port" "write_manifest bk json_of"
  "live_database bk" "saved_file bk" "file_in_place bk"
  for bk :: "'b backup_env" and json_of
proof unfold_locales
  fix out c s s' m u d rows
  show "saved_file bk out c (live_database bk s) s'"
    if "bp_backup_to (sqlite_backup bk) out s = (Inr c, s')" for s s' :: "('b, 'a) disk_scheme"
    using that by (auto simp: sqlite_backup_def sqlite_backup_to_def saved_file_def Let_def split: option.splits)
  show "saved_file bk out c d s'"
    if "write_manifest bk json_of (manifest_path out) m s = (Inr u, s')" "saved_file bk out c d s" for s s' :: "('b, 'a) disk_scheme"
    using that by (auto simp: write_manifest_def saved_file_def manifest_path_neq split: option.splits)
  show "saved_file bk out c d (s\<lparr>mem_audit := rows\<rparr>) = saved_file bk out c d s" for s :: "('b, 'a) disk_scheme"
    by (simp add: saved_file_def)
  show "live_database bk (s\<lparr>mem_audit := rows\<rparr>) = live_database bk s" for s :: "('b, 'a) disk_scheme"
    by (simp add: live_database_def)
  show "file_in_place bk d (s\<lparr>mem_audit := rows\<rparr>) = file_in_place bk d s" for s :: "('b, 'a) disk_scheme"
    by (simp add: file_in_place_def)
  show "live_database bk s' = file_in_place bk d s"
    if "bp_restore_from (sqlite_backup bk) out c s = (Inr u, s')" "saved_file bk out c d s" for s s' :: "('b, 'a) disk_scheme"
    using that by (intro restore_leaves_log) (auto simp: sqlite_backup_def saved_file_def)
qed

section \<open>The bundle of an export\<close>

lemma find_filter_conj: "find P (filter Q xs) = find (\<lambda>x. P x \<and> Q x) xs"
  by (induction xs) auto

lemma pool_audit: "authorized_candidate_pool (s\<lparr>mem_audit := rows\<rparr>) sc f n = authorized_candidate_pool s sc f n"
  by (simp add: authorized_candidate_pool_def)

lemma export_bundle_of:
  fixes s s' :: "'a memory_scheme"
  assumes "user_export env sc rid limit s = (Inr b, s')"
  defines "rs \<equiv> authorized_candidate_pool s sc no_filter limit"
  shows "b = \<lparr>eb_manifest = export_manifest env sc (''user_authorized_export'', ''user_authorized'')
      (map to_exported_record rs) (exported_video_sources (mem_db s) rs sc),
    eb_records = map to_exported_record rs, eb_video_sources = exported_video_sources (mem_db s) rs sc\<rparr>"
proof -
  have cap: "has_capability sc OBSERVATION_SEARCH" using assms(1) by (auto simp: user_export_def split: if_splits)
  let ?md = "[(''export_type'', ''user'')]"
  obtain u s1 where a0: "service_audit env 0 ''export_started'' sc rid ?md s = (Inr u, s1)"
    using assms(1) cap by (cases "service_audit env 0 ''export_started'' sc rid ?md s")
      (auto simp: user_export_def se_simps split: sum.splits)
  obtain rows where s1: "s1 = s\<lparr>mem_audit := rows\<rparr>" using service_audit_Inr [OF a0] by blast
  show ?thesis using assms(1) cap a0
    by (auto simp: user_export_def se_simps Let_def rs_def s1 pool_audit split: prod.splits sum.splits)
qed

section \<open>Properties\<close>

text \<open>
  C38. Reindexing settles: after a run that ended well, whatever its batches and whether it was forced, the next
  run finds every channel of the records it may read stored under the model, embeds nothing, writes nothing and
  reports all of them as skipped.
\<close>

theorem reindex_is_idempotent:
  assumes "reindex authorized_candidate_pool sqlite_index env em sc rid bs force limit s = (Inr res, s1)"
    and "0 < bs" and "0 < bs'"
    and "mt_id env' 0 \<notin> ae_audit_event_id ` set (mem_audit s1)" and "mt_id env' 1 \<notin> ae_audit_event_id ` set (mem_audit s1)"
    and "mt_id env' 0 \<noteq> mt_id env' 1"
  shows "\<exists>s2. reindex authorized_candidate_pool sqlite_index env' em sc rid' bs' False limit s1 =
      (Inr (res\<lparr>rx_reindexed := 0, rx_skipped := 2 * rx_scanned res, rx_vectors_written := 0\<rparr>), s2) \<and>
    mem_vectors s2 = mem_vectors s1"
  by (rule sqlite_reindexing.reindex_settles [OF assms])

text \<open>
  Reindexing stays in the scope of its caller, whether it ends well, fails in the embedder or in the database:
  no record changes, and no vector of a record that the caller may not see is added, changed or removed.
\<close>

theorem reindex_stays_in_scope:
  "mem_records (snd (reindex authorized_candidate_pool sqlite_index env em sc rid bs force limit s)) = mem_records s \<and>
   vectors_outside (visible_ids (set (mem_records s)) sc)
     (snd (reindex authorized_candidate_pool sqlite_index env em sc rid bs force limit s)) =
   vectors_outside (visible_ids (set (mem_records s)) sc) s"
  using sqlite_reindexing.reindex_outside [of env em sc rid bs force limit s]
  by (auto simp: se_wp_def same_outside_def split: prod.splits sum.splits)

text \<open>
  C39. An export says nothing about what its caller may not see: in two databases with the same visible records
  and the same visible videos, however different the rest, the caller gets the same bundle.
\<close>

theorem export_shows_only_the_scope:
  assumes "filter (record_permitted sc) (mem_records s) = filter (record_permitted sc) (mem_records t)"
    and "filter (video_visible sc) (db_videos (mem_db s)) = filter (video_visible sc) (db_videos (mem_db t))"
    and "user_export env sc rid limit s = (Inr b, s')" and "user_export env sc rid limit t = (Inr b', t')"
  shows "b = b'"
proof -
  have pool: "authorized_candidate_pool s sc f limit = authorized_candidate_pool t sc f limit" for f
  proof -
    have "filter (\<lambda>r. in_scope sc r \<and> structural_filter f r) rs = filter (structural_filter f) (filter (record_permitted sc) rs)" for rs
      by (simp add: in_scope_iff conj_commute)
    then show ?thesis by (simp only: authorized_candidate_pool_def assms(1))
  qed
  have "get_authorized_video vid sc d = find (\<lambda>v. vs_video_id v = vid) (filter (video_visible sc) (db_videos d))" for vid d
    by (simp add: get_authorized_video_def find_filter_conj)
  then have videos: "exported_video_sources (mem_db s) rs sc = exported_video_sources (mem_db t) rs sc" for rs
    using assms(2) by (simp add: exported_video_sources_def)
  show ?thesis using export_bundle_of [OF assms(3)] export_bundle_of [OF assms(4)] pool videos by simp
qed

text \<open>
  C40. What a restore brings back. While the backup file is kept, a restore by an administrator with the
  manifest of the backup succeeds, provided that no file operation fails, the ids of its two audit events are
  fresh and distinct, and the backup is not the restore's own temporary file. Then the main file is the
  database at the time of the backup, whatever happened since, and no other file but the temporary one has
  changed: the write-ahead log beside the main file stays. So a new connection reads the database of the
  backup together with that log, and the database of the backup alone when the log is gone, under the
  documented rule that a main file without a log is read as it is. A log that is left can bring commits back
  that the restore was to undo.
\<close>

theorem backup_restores:
  assumes "admin_backup (sqlite_backup bk) (write_manifest bk json_of) env out sc rid s = (Inr m, s1)"
    and "dk_files t out = dk_files s1 out" and "has_capability sc' RUNTIME_MANAGE"
    and "mt_id env' 0 \<notin> ae_audit_event_id ` set (mem_audit t)" and "mt_id env' 1 \<notin> ae_audit_event_id ` set (mem_audit t)"
    and "mt_id env' 0 \<noteq> mt_id env' 1" and "bk_fault bk ''restore'' = None" and "out \<noteq> restore_tmp bk"
  shows "\<exists>t'. restore_backup (sqlite_backup bk) env' out m sc' rid' t = (Inr (), t') \<and>
    dk_files t' = (dk_files t)(restore_tmp bk := None, bk_sqlite_path bk \<mapsto> live_database bk s) \<and>
    live_database bk t' = bk_read bk (Some (live_database bk s)) (dk_files t (wal_path (bk_sqlite_path bk))) \<and>
    ((\<forall>b. bk_read bk (Some b) None = b) \<longrightarrow> dk_files t (wal_path (bk_sqlite_path bk)) = None \<longrightarrow>
      live_database bk t' = live_database bk s)"
proof -
  have "saved_file bk out (bm_checksum_value m) (live_database bk s) s1" and v: "bm_schema_version m = ''v1''"
    using sqlite_backups.admin_backup_saves [OF assms(1)] by blast+
  then have saved: "saved_file bk out (bm_checksum_value m) (live_database bk s) t"
    using assms(2) by (simp add: saved_file_def)
  obtain t' where run: "restore_backup (sqlite_backup bk) env' out m sc' rid' t = (Inr (), t')"
    and files: "dk_files t' = (dk_files t)(restore_tmp bk := None, bk_sqlite_path bk \<mapsto> live_database bk s)"
    using saved v assms(3-8) by (simp add: restore_backup_def se_simps service_audit_fresh sqlite_backup_def
        sqlite_restore_from_def saved_file_def)
  show ?thesis
    using run files sqlite_backups.restore_brings_back [OF run saved] by (auto simp: file_in_place_def)
qed

text \<open>A backup file that is not the one of the manifest is refused, and no file changes.\<close>

lemma service_audit_files:
  "service_audit env n t sc rid md (s :: ('b, 'a) disk_scheme) = (r, s') \<Longrightarrow> dk_files s' = dk_files s"
  by (auto simp: service_audit_def append_event_def split: option.splits if_splits)

lemma damaged_backup_is_refused:
  assumes "dk_files t path = Some content" and "bk_sha256 bk content \<noteq> bm_checksum_value m"
    and "restore_backup (sqlite_backup bk) env path m sc rid t = (r, t')"
  shows "(\<exists>e. r = Inl e) \<and> dk_files t' = dk_files t"
proof (cases "has_capability sc RUNTIME_MANAGE \<and> bm_schema_version m = ''v1''")
  case True
  obtain r0 t0 where a0: "service_audit env 0 ''restore_started'' sc rid [(''backup_path'', path)] t = (r0, t0)" by fastforce
  have f0: "dk_files t0 = dk_files t" using a0 by (rule service_audit_files)
  obtain r1 t1 where a1: "service_audit env 1 ''restore_failed'' sc rid [(''error'', ''backup checksum mismatch'')] t0 = (r1, t1)"
    by fastforce
  have "dk_files t1 = dk_files t" using service_audit_files [OF a1] f0 by simp
  with assms True a0 a1 f0 show ?thesis
    by (auto simp: restore_backup_def se_simps sqlite_backup_def sqlite_restore_from_def split: sum.splits)
next
  case False
  with assms(3) show ?thesis by (auto simp: restore_backup_def split: if_splits)
qed

text \<open>
  The commands run a reindexing in one session: when the embedder fails in the middle, the batches before it and
  the audit event of the failure are rolled back with it.
\<close>

lemma failed_reindex_leaves_no_trace:
  "session_scope (reindex pool ix env em sc rid bs force limit) s = (Inl e, s') \<Longrightarrow> s' = s"
  by (simp add: session_scope_def split: prod.splits sum.splits)

section \<open>Witnesses\<close>

definition ex_admin :: authorized_scope where
  "ex_admin = ex_scope\<lparr>sc_capabilities := [OBSERVATION_SEARCH, RUNTIME_MANAGE]\<rparr>"

definition ex_ids :: "string \<Rightarrow> maintenance_env" where
  "ex_ids p = \<lparr>mt_id = (\<lambda>n. if n = 0 then p else p @ ''1''), mt_now = (0, 0)\<rparr>"

definition ex_embedder :: embedder where
  "ex_embedder = \<lparr>eb_model_id = ''bge'', eb_dimension = 1, eb_embed_texts = (\<lambda>ts. Inr (map (\<lambda>t. [1]) ts))\<rparr>"

lemma ex_admin_pool:
  "authorized_candidate_pool (ex_memory\<lparr>mem_audit := rows\<rparr>) ex_admin no_filter 10 = [observation_to_orm (0, 0) (ex_record ''r1'' ''old'')]"
  by (simp add: authorized_candidate_pool_def order_by_limit_def in_scope_iff record_permitted_def permits_resource_def
      ex_memory_def ex_admin_def ex_scope_def ex_record_def observation_to_orm_def structural_filter_def no_filter_def
      time_filter_def allows_def)

lemma ex_ids_simps [simp]: "mt_id (ex_ids p) n = (if n = 0 then p else p @ ''1'')"
  by (simp add: ex_ids_def)

lemma ex_loop:
  "\<exists>c vs. reindex_loop sqlite_index ex_embedder False (chunks 64 [observation_to_orm (0, 0) (ex_record ''r1'' ''old'')]) no_counts
      (ex_memory\<lparr>mem_audit := rows\<rparr>) = (Inr c, ex_memory\<lparr>mem_audit := rows, mem_vectors := vs\<rparr>) \<and>
    rc_scanned c = 1 \<and> rc_vectors_written c = 2"
  by (simp add: chunks.simps reindex_batch_def se_simps sqlite_index_def get_vectors_for_records_def Let_def ex_memory_def
      channel_texts_simps ex_embedder_def upsert_vectors_def upsert_vector_def new_vector_def sv_key_def no_counts_def)

lemma ex_reindex_run:
  "\<exists>res s1. reindex authorized_candidate_pool sqlite_index (ex_ids ''a'') ex_embedder ex_admin None 64 False 10 ex_memory = (Inr res, s1) \<and>
    rx_scanned res = 1 \<and> rx_vectors_written res = 2 \<and> ae_audit_event_id ` set (mem_audit s1) = {''a'', ''a1''}"
proof -
  have cap: "has_capability ex_admin RUNTIME_MANAGE" by (simp add: has_capability_def ex_admin_def)
  have fresh: "mt_id (ex_ids ''a'') 0 \<notin> ae_audit_event_id ` set (mem_audit ex_memory)" by (simp add: ex_memory_def)
  note a0 = service_audit_fresh [OF fresh]
  let ?rows = "mem_audit ex_memory @ [service_event (ex_ids ''a'') 0 ''reindex_started'' ex_admin None [(''force'', py_bool_text False)]]"
  obtain c vs where loop: "reindex_loop sqlite_index ex_embedder False
      (chunks 64 [observation_to_orm (0, 0) (ex_record ''r1'' ''old'')]) no_counts
      (ex_memory\<lparr>mem_audit := ?rows\<rparr>) = (Inr c, ex_memory\<lparr>mem_audit := ?rows, mem_vectors := vs\<rparr>)"
    "rc_scanned c = 1" "rc_vectors_written c = 2" using ex_loop by blast
  have "mt_id (ex_ids ''a'') 1 \<notin> ae_audit_event_id ` set (mem_audit (ex_memory\<lparr>mem_audit := ?rows, mem_vectors := vs\<rparr>))"
    by (simp add: ex_memory_def)
  note a1 = service_audit_fresh [OF this]
  show ?thesis
    by (simp add: reindex_def se_simps cap a0 ex_admin_pool loop a1 del: show_nat.simps One_nat_def)
      (simp add: ex_memory_def insert_commute)
qed

lemma reindex_is_idempotent_witness:
  "\<exists>res s1 s2. reindex authorized_candidate_pool sqlite_index (ex_ids ''a'') ex_embedder ex_admin None 64 False 10 ex_memory =
      (Inr res, s1) \<and> rx_vectors_written res = 2 \<and>
    reindex authorized_candidate_pool sqlite_index (ex_ids ''b'') ex_embedder ex_admin None 8 False 10 s1 =
      (Inr (res\<lparr>rx_reindexed := 0, rx_skipped := 2, rx_vectors_written := 0\<rparr>), s2)"
proof -
  obtain res s1 where run: "reindex authorized_candidate_pool sqlite_index (ex_ids ''a'') ex_embedder ex_admin None 64 False 10
      ex_memory = (Inr res, s1)" "rx_scanned res = 1" "rx_vectors_written res = 2"
    "ae_audit_event_id ` set (mem_audit s1) = {''a'', ''a1''}" 
    using ex_reindex_run by (elim exE conjE, intro that) assumption+
  have "\<exists>s2. reindex authorized_candidate_pool sqlite_index (ex_ids ''b'') ex_embedder ex_admin None 8 False 10 s1 =
      (Inr (res\<lparr>rx_reindexed := 0, rx_skipped := 2 * rx_scanned res, rx_vectors_written := 0\<rparr>), s2) \<and>
    mem_vectors s2 = mem_vectors s1"
    by (rule reindex_is_idempotent [OF run(1)]) (simp_all add: run(4))
  then obtain s2 where s2: "reindex authorized_candidate_pool sqlite_index (ex_ids ''b'') ex_embedder ex_admin None 8 False 10 s1 =
      (Inr (res\<lparr>rx_reindexed := 0, rx_skipped := 2, rx_vectors_written := 0\<rparr>), s2)" unfolding run(2) by auto
  show ?thesis by (intro exI conjI, rule run(1), rule run(3), rule s2)
qed

lemma ex_export:
  assumes "mem_audit s = []"
  shows "\<exists>b s'. user_export (ex_ids ''a'') ex_admin None 10 s = (Inr b, s') \<and>
    eb_records b = map to_exported_record (authorized_candidate_pool s ex_admin no_filter 10)"
proof -
  have cap: "has_capability ex_admin OBSERVATION_SEARCH" by (simp add: has_capability_def ex_admin_def)
  have "mt_id (ex_ids ''a'') 0 \<notin> ae_audit_event_id ` set (mem_audit s)" using assms by simp
  note a0 = service_audit_fresh [OF this]
  have "mt_id (ex_ids ''a'') 1 \<notin> ae_audit_event_id ` set (mem_audit (s\<lparr>mem_audit := mem_audit s @
      [service_event (ex_ids ''a'') 0 ''export_started'' ex_admin None [(''export_type'', ''user'')]]\<rparr>))"
    using assms by simp
  note a1 = service_audit_fresh [OF this]
  show ?thesis by (simp add: user_export_def se_simps Let_def cap a0 a1 pool_audit del: show_nat.simps One_nat_def)
qed

definition ex_hidden :: memory where
  "ex_hidden = ex_memory\<lparr>mem_records := mem_records ex_memory @ [(ex_record ''secret'' ''x'')\<lparr>ob_tenant_id := ''other''\<rparr>]\<rparr>"

lemma export_shows_only_the_scope_witness:
  "\<exists>b s' t'. user_export (ex_ids ''a'') ex_admin None 10 ex_memory = (Inr b, s') \<and>
    user_export (ex_ids ''a'') ex_admin None 10 ex_hidden = (Inr b, t') \<and> length (eb_records b) = 1"
proof -
  have audits: "mem_audit ex_memory = []" "mem_audit ex_hidden = []" by (simp_all add: ex_hidden_def ex_memory_def)
  obtain b s' where b: "user_export (ex_ids ''a'') ex_admin None 10 ex_memory = (Inr b, s')"
    "eb_records b = map to_exported_record (authorized_candidate_pool ex_memory ex_admin no_filter 10)"
    using ex_export [OF audits(1)] by blast
  obtain b' t' where b': "user_export (ex_ids ''a'') ex_admin None 10 ex_hidden = (Inr b', t')" using ex_export [OF audits(2)] by blast
  have "filter (record_permitted ex_admin) (mem_records ex_memory) = filter (record_permitted ex_admin) (mem_records ex_hidden)"
    "filter (video_visible ex_admin) (db_videos (mem_db ex_memory)) = filter (video_visible ex_admin) (db_videos (mem_db ex_hidden))"
    by (simp_all add: ex_hidden_def ex_memory_def record_permitted_def permits_resource_def ex_record_def ex_admin_def ex_scope_def)
  from export_shows_only_the_scope [OF this b(1) b'] have "b' = b" by simp
  moreover have "ex_memory\<lparr>mem_audit := mem_audit ex_memory\<rparr> = ex_memory" by simp
  then have "length (eb_records b) = 1" using b(2) ex_admin_pool [of "mem_audit ex_memory"] by simp
  ultimately show ?thesis using b(1) b' by blast
qed

definition ex_disk :: "string disk" where
  "ex_disk = memory.extend ex_memory \<lparr>dk_files = [''/db'' \<mapsto> ''pages'']\<rparr>"

definition ex_backup :: "string backup_env" where
  "ex_backup = \<lparr>bk_sqlite_path = ''/db'', bk_read = (\<lambda>main log. case log of Some l \<Rightarrow> l | None \<Rightarrow> the main), bk_sha256 = id, bk_table_counts = (\<lambda>b. []), bk_fault = (\<lambda>t. None)\<rparr>"

lemma ex_backup_run:
  "\<exists>m s1. admin_backup (sqlite_backup ex_backup) (write_manifest ex_backup (\<lambda>m. ''json'')) (ex_ids ''a'') ''/out'' ex_admin None ex_disk =
    (Inr m, s1) \<and> dk_files s1 ''/out'' = Some ''pages'' \<and> dk_files s1 ''/db-wal'' = None \<and>
    ae_audit_event_id ` set (mem_audit s1) = {''a'', ''a1''}"
proof -
  have cap: "has_capability ex_admin RUNTIME_MANAGE" by (simp add: has_capability_def ex_admin_def)
  have "mt_id (ex_ids ''a'') 0 \<notin> ae_audit_event_id ` set (mem_audit ex_disk)"
    by (simp add: ex_disk_def ex_memory_def memory.defs)
  note a0 = service_audit_fresh [OF this]
  have disk: "mem_audit ex_disk = []" "dk_files ex_disk = [''/db'' \<mapsto> ''pages'']" "bk_fault ex_backup t = None"
    "bk_sqlite_path ex_backup = ''/db''" "bk_read ex_backup (Some b) None = b" for t b
    by (simp_all add: ex_disk_def ex_memory_def ex_backup_def memory.defs)
  have a1: "service_audit (ex_ids ''a'') 1 t ex_admin None md (s :: string disk) =
      (Inr (), s\<lparr>mem_audit := mem_audit s @ [service_event (ex_ids ''a'') 1 t ex_admin None md]\<rparr>)"
    if "ae_audit_event_id ` set (mem_audit s) = {''a''}" for t md s
    by (rule service_audit_fresh) (simp add: that)
  show ?thesis
    by (simp add: admin_backup_def se_simps Let_def cap a0 a1 sqlite_backup_def sqlite_backup_to_def write_manifest_def
        disk live_database_def manifest_path_def wal_path_def del: One_nat_def)
qed

lemma backup_restores_witness:
  "\<exists>m s1 t'. admin_backup (sqlite_backup ex_backup) (write_manifest ex_backup (\<lambda>m. ''json'')) (ex_ids ''a'') ''/out'' ex_admin None ex_disk =
      (Inr m, s1) \<and>
    restore_backup (sqlite_backup ex_backup) (ex_ids ''b'') ''/out'' m ex_admin None
      (s1\<lparr>dk_files := (dk_files s1)(''/db'' \<mapsto> ''ruined'')\<rparr>) = (Inr (), t') \<and>
    live_database ex_backup t' = ''pages''"
proof -
  obtain m s1 where run: "admin_backup (sqlite_backup ex_backup) (write_manifest ex_backup (\<lambda>m. ''json'')) (ex_ids ''a'') ''/out''
      ex_admin None ex_disk = (Inr m, s1)" "ae_audit_event_id ` set (mem_audit s1) = {''a'', ''a1''}"
    "dk_files s1 ''/db-wal'' = None"
    using ex_backup_run by (elim exE conjE, intro that) assumption+
  have pages: "live_database ex_backup ex_disk = ''pages''"
    by (simp add: live_database_def ex_backup_def ex_disk_def memory.defs wal_path_def)
  have no_log: "dk_files s1 (wal_path ''/db'') = None" using run(3) by (simp add: wal_path_def)
  let ?t = "s1\<lparr>dk_files := (dk_files s1)(''/db'' \<mapsto> ''ruined'')\<rparr>"
  have "\<exists>t'. restore_backup (sqlite_backup ex_backup) (ex_ids ''b'') ''/out'' m ex_admin None ?t = (Inr (), t') \<and>
    dk_files t' = (dk_files ?t)(restore_tmp ex_backup := None, bk_sqlite_path ex_backup \<mapsto> live_database ex_backup ex_disk) \<and>
    live_database ex_backup t' = bk_read ex_backup (Some (live_database ex_backup ex_disk)) (dk_files ?t (wal_path (bk_sqlite_path ex_backup))) \<and>
    ((\<forall>b. bk_read ex_backup (Some b) None = b) \<longrightarrow> dk_files ?t (wal_path (bk_sqlite_path ex_backup)) = None \<longrightarrow>
      live_database ex_backup t' = live_database ex_backup ex_disk)"
    by (rule backup_restores [OF run(1)])
      (simp_all add: run(2) has_capability_def ex_admin_def ex_backup_def restore_tmp_def)
  then obtain t' where t': "restore_backup (sqlite_backup ex_backup) (ex_ids ''b'') ''/out'' m ex_admin None ?t = (Inr (), t')"
    "live_database ex_backup t' = ''pages''"
    using no_log unfolding pages by (auto simp: ex_backup_def wal_path_def)
  show ?thesis by (intro exI conjI, rule run(1), rule t'(1), rule t'(2))
qed

end
