(* ===== verification/Cctv_Postgres.thy ===== *)
theory Cctv_Postgres
  imports Cctv_Maintenance
begin

text \<open>
  The PostgreSQL adapters (\<^verbatim>\<open>infrastructure/db/repositories/postgres.py\<close>, \<^verbatim>\<open>infrastructure/db/postgres/\<close>): the
  statements of the repositories that do not inherit them from the SQLite ones, on the same tables. They are
  second providers of the ports: the queue, the units and the publication behave as those of SQLite, the read
  repository and the vector store satisfy the same contracts. What differs is modelled as it is: instants are
  compared as instants, \<^verbatim>\<open>ILIKE\<close> has an escape character and folds the case of every letter, vectors are kept
  per model, a claim skips the rows that other transactions have locked, and a duplicate key surfaces from
  \<^verbatim>\<open>execute\<close>, before the \<^verbatim>\<open>try\<close> that would map it.
\<close>

definition pg_duplicate :: "string \<Rightarrow> exn" where
  "pg_duplicate constraint = IntegrityError (''duplicate key value violates unique constraint '' @ constraint)"

section \<open>The task queue\<close>

definition pg_enqueue_task :: "task \<Rightarrow> (task list, exn, task) se" where
  "pg_enqueue_task task rows =
    (case row_ins tk_task_id task rows of
       None \<Rightarrow> (Inl (pg_duplicate ''analysis_tasks_pkey''), rows)
     | Some rows' \<Rightarrow> (Inr task, rows'))"

definition pg_due :: "int \<Rightarrow> task \<Rightarrow> bool" where
  "pg_due now t \<longleftrightarrow> tk_next_run_at t \<le> now \<and>
    (tk_status t = ''queued'' \<or>
     tk_status t = ''running'' \<and> tk_lease_expires_at t \<noteq> None \<and> the (tk_lease_expires_at t) < now)"

text \<open>\<open>locked\<close> are the tasks whose rows other transactions hold; the inner query skips them.\<close>

definition pg_candidate :: "string set \<Rightarrow> int \<Rightarrow> task list \<Rightarrow> string option" where
  "pg_candidate locked now rows =
    (case order_by_limit claim_key 1 (filter (\<lambda>t. pg_due now t \<and> tk_task_id t \<notin> locked) rows) of
       [] \<Rightarrow> None | t # _ \<Rightarrow> Some (tk_task_id t))"

definition pg_claim_write :: "string \<Rightarrow> string \<Rightarrow> int \<Rightarrow> int \<Rightarrow> task list \<Rightarrow> task list" where
  "pg_claim_write task_id worker_id now lease_until =
    upd_task task_id (\<lambda>t. t\<lparr>tk_status := ''running'', tk_lease_owner := Some worker_id,
      tk_lease_expires_at := Some lease_until, tk_updated_at := Some now\<rparr>)"

definition pg_claim_task :: "string set \<Rightarrow> string \<Rightarrow> int \<Rightarrow> int \<Rightarrow> task list \<Rightarrow> task option \<times> task list" where
  "pg_claim_task locked worker_id now lease_seconds rows =
    (case pg_candidate locked now rows of
       None \<Rightarrow> (None, rows)
     | Some task_id \<Rightarrow>
         let rows' = pg_claim_write task_id worker_id now (now + lease_seconds * 1000000) rows
         in (get_task task_id rows', rows'))"

definition pg_refresh_lease :: "string \<Rightarrow> string \<Rightarrow> int \<Rightarrow> task list \<Rightarrow> task list" where
  "pg_refresh_lease task_id worker_id lease_until =
    map (\<lambda>t. if tk_task_id t = task_id \<and> tk_lease_owner t = Some worker_id
             then t\<lparr>tk_lease_expires_at := Some lease_until\<rparr> else t)"

definition pg_mark_succeeded :: "string \<Rightarrow> task list \<Rightarrow> task list" where
  "pg_mark_succeeded task_id =
    upd_task task_id (\<lambda>t. t\<lparr>tk_status := ''succeeded'', tk_lease_owner := None, tk_lease_expires_at := None\<rparr>)"

definition pg_mark_failed :: "string \<Rightarrow> string \<Rightarrow> string option \<Rightarrow> task list \<Rightarrow> task list" where
  "pg_mark_failed task_id error_code error_message =
    upd_task task_id (\<lambda>t. t\<lparr>tk_status := (if tk_retry_count t < tk_max_retries t then ''retry_scheduled'' else ''failed''),
      tk_error_code := Some error_code, tk_error_message := error_message, tk_lease_owner := None,
      tk_lease_expires_at := None\<rparr>)"

definition pg_schedule_retry :: "string \<Rightarrow> int \<Rightarrow> task list \<Rightarrow> task list" where
  "pg_schedule_retry task_id next_run_at =
    upd_task task_id (\<lambda>t. t\<lparr>tk_status := ''queued'', tk_retry_count := tk_retry_count t + 1,
      tk_next_run_at := next_run_at, tk_lease_owner := None, tk_lease_expires_at := None\<rparr>)"

text \<open>A claim appears in a history by its write, on a row that is due.\<close>

fun pg_step :: "queue_op \<Rightarrow> task list \<Rightarrow> task list" where
  "pg_step (OpEnqueue t) rows = snd (pg_enqueue_task t rows)"
| "pg_step (OpClaim tid w now until) rows =
    (case get_task tid rows of
       Some t \<Rightarrow> if pg_due now t then pg_claim_write tid w now until rows else rows
     | None \<Rightarrow> rows)"
| "pg_step (OpRefresh tid w until) rows = pg_refresh_lease tid w until rows"
| "pg_step (OpSucceed tid) rows = pg_mark_succeeded tid rows"
| "pg_step (OpFail tid error msg) rows = pg_mark_failed tid error msg rows"
| "pg_step (OpRetry tid run_at) rows = pg_schedule_retry tid run_at rows"

section \<open>Jobs, scale tasks, triggers, units and videos\<close>

definition pg_create_job :: "analysis_job \<Rightarrow> (db, exn, analysis_job) se" where
  "pg_create_job job s =
    (case find (\<lambda>j. aj_idempotency_key j = aj_idempotency_key job) (db_jobs s) of
       Some existing \<Rightarrow>
         if aj_video_id existing \<noteq> aj_video_id job
         then (Inl (IdempotencyConflictError ''AnalysisJob idempotency_key reused with different video_id''), s)
         else (Inr existing, s)
     | None \<Rightarrow>
        (case row_ins aj_analysis_job_id job (db_jobs s) of
           None \<Rightarrow> (Inl (pg_duplicate ''analysis_jobs_pkey''), s)
         | Some rows \<Rightarrow> (Inr job, s\<lparr>db_jobs := rows\<rparr>)))"

definition coalesce :: "'v option \<Rightarrow> 'v option \<Rightarrow> 'v option" where
  "coalesce a b = (case a of None \<Rightarrow> b | Some x \<Rightarrow> Some x)"

definition pg_job_update_status ::
  "string \<Rightarrow> job_status \<Rightarrow> int option \<Rightarrow> int option \<Rightarrow> string option \<Rightarrow> string option \<Rightarrow> db \<Rightarrow> db" where
  "pg_job_update_status job_id status started_at finished_at error_code error_message s =
    s\<lparr>db_jobs := row_upd aj_analysis_job_id job_id
      (\<lambda>j. j\<lparr>aj_job_status := status, aj_started_at := coalesce started_at (aj_started_at j),
            aj_finished_at := coalesce finished_at (aj_finished_at j),
            aj_error_code := error_code, aj_error_message := error_message\<rparr>) (db_jobs s)\<rparr>"

text \<open>The lists are read first and written back whole.\<close>

definition pg_append_record_publish_summary ::
  "string \<Rightarrow> string list \<Rightarrow> string list \<Rightarrow> string list \<Rightarrow> db \<Rightarrow> db" where
  "pg_append_record_publish_summary job_id created_ids updated_ids archived_ids s =
    (case get_job_row job_id s of
       None \<Rightarrow> s
     | Some row \<Rightarrow> s\<lparr>db_jobs := row_upd aj_analysis_job_id job_id
         (\<lambda>j. j\<lparr>aj_created_record_ids := aj_created_record_ids row @ created_ids,
               aj_updated_record_ids := aj_updated_record_ids row @ updated_ids,
               aj_archived_record_ids := aj_archived_record_ids row @ archived_ids\<rparr>) (db_jobs s)\<rparr>)"

definition pg_create_scale_task :: "analysis_scale_task \<Rightarrow> (db, exn, analysis_scale_task) se" where
  "pg_create_scale_task t s =
    (if \<exists>x \<in> set (db_scale_tasks s). ast_analysis_job_id x = ast_analysis_job_id t \<and>
         ast_analysis_scale x = ast_analysis_scale t
     then (Inl (pg_duplicate ''uq_scale_task_job_scale''), s)
     else (case row_ins ast_scale_task_id t (db_scale_tasks s) of
         None \<Rightarrow> (Inl (pg_duplicate ''analysis_scale_tasks_pkey''), s)
       | Some rows \<Rightarrow> (Inr t, s\<lparr>db_scale_tasks := rows\<rparr>)))"

definition pg_trigger_create_or_get :: "high_freq_trigger \<Rightarrow> (db, exn, high_freq_trigger) se" where
  "pg_trigger_create_or_get trigger s =
    (case find (\<lambda>t. hft_idempotency_key t = hft_idempotency_key trigger) (db_triggers s) of
       Some existing \<Rightarrow> (Inr existing, s)
     | None \<Rightarrow>
        (case row_ins hft_trigger_id trigger (db_triggers s) of
           None \<Rightarrow> (Inl (pg_duplicate ''high_freq_triggers_pkey''), s)
         | Some rows \<Rightarrow> (Inr trigger, s\<lparr>db_triggers := rows\<rparr>)))"

definition pg_unit_create_or_get :: "analysis_unit \<Rightarrow> (db, exn, analysis_unit) se" where
  "pg_unit_create_or_get u s =
    (case find (\<lambda>x. au_idempotency_key x = au_idempotency_key u) (db_units s) of
       Some existing \<Rightarrow> (Inr existing, s)
     | None \<Rightarrow>
        (case row_ins au_unit_id u (db_units s) of
           None \<Rightarrow> (Inl (pg_duplicate ''analysis_units_pkey''), s)
         | Some rows \<Rightarrow> (Inr u, s\<lparr>db_units := rows\<rparr>)))"

definition pg_unit_mark_running :: "iso \<Rightarrow> string \<Rightarrow> string option \<Rightarrow> db \<Rightarrow> db" where
  "pg_unit_mark_running now unit_id model_call_id =
    upd_unit unit_id (\<lambda>u. u\<lparr>au_status := TASK_RUNNING, au_attempt_count := au_attempt_count u + 1,
      au_latest_model_call_id := model_call_id, au_started_at := coalesce (au_started_at u) (Some now)\<rparr>)"

definition pg_unit_mark_succeeded ::
  "iso \<Rightarrow> string \<Rightarrow> string option \<Rightarrow> string list \<Rightarrow> int option \<Rightarrow> db \<Rightarrow> db" where
  "pg_unit_mark_succeeded now unit_id model_call_id record_ids attempt_count =
    upd_unit unit_id (\<lambda>u. u\<lparr>au_status := TASK_SUCCEEDED, au_latest_model_call_id := model_call_id,
      au_successful_model_call_id := model_call_id, au_produced_record_ids := record_ids,
      au_attempt_count := the (coalesce attempt_count (Some (au_attempt_count u))),
      au_finished_at := Some now, au_last_error_code := None, au_last_error_message := None\<rparr>)"

definition pg_unit_mark_failed ::
  "iso \<Rightarrow> string \<Rightarrow> string \<Rightarrow> string option \<Rightarrow> string option \<Rightarrow> int option \<Rightarrow> db \<Rightarrow> db" where
  "pg_unit_mark_failed now unit_id error_code error_message model_call_id attempt_count =
    upd_unit unit_id (\<lambda>u. u\<lparr>au_status := TASK_FAILED,
      au_latest_model_call_id := coalesce model_call_id (au_latest_model_call_id u),
      au_attempt_count := the (coalesce attempt_count (Some (au_attempt_count u))),
      au_last_error_code := Some error_code, au_last_error_message := error_message, au_finished_at := Some now\<rparr>)"

definition pg_unit_mark_skipped :: "iso \<Rightarrow> string \<Rightarrow> string \<Rightarrow> string option \<Rightarrow> db \<Rightarrow> db" where
  "pg_unit_mark_skipped now unit_id skipped_reason model_call_id =
    upd_unit unit_id (\<lambda>u. u\<lparr>au_status := TASK_SKIPPED,
      au_latest_model_call_id := coalesce model_call_id (au_latest_model_call_id u),
      au_last_error_code := Some skipped_reason, au_last_error_message := None, au_finished_at := Some now\<rparr>)"

definition pg_list_stale_running :: "iso \<Rightarrow> int \<Rightarrow> db \<Rightarrow> analysis_unit list" where
  "pg_list_stale_running cutoff limit s =
    (if limit \<le> 0 then []
     else order_by_limit (\<lambda>u. case au_started_at u of None \<Rightarrow> 0 | Some t \<Rightarrow> iso_instant t) limit
       (filter (\<lambda>u. au_status u = TASK_RUNNING \<and>
          (case au_started_at u of None \<Rightarrow> False | Some t \<Rightarrow> iso_instant t < iso_instant cutoff)) (db_units s)))"

definition pg_create_or_get_video :: "submit_request \<Rightarrow> string \<Rightarrow> (db, exn, video_source) se" where
  "pg_create_or_get_video request video_id s =
    (let dto = video_of_request request video_id in
     case find (\<lambda>v. vs_camera_id v = vs_camera_id dto \<and>
         iso_instant (vs_video_start_time v) = iso_instant (vs_video_start_time dto)) (db_videos s) of
       Some existing \<Rightarrow>
         if vs_source_uri existing \<noteq> vs_source_uri dto
         then (Inl (IdempotencyConflictError
           ''VideoSource exists for (camera_id, video_start_time) with different payload''), s)
         else (Inr existing, s)
     | None \<Rightarrow>
       (case row_ins vs_video_id dto (db_videos s) of
          None \<Rightarrow> (Inl (pg_duplicate ''video_sources_pkey''), s)
        | Some rows \<Rightarrow> (Inr dto, s\<lparr>db_videos := rows\<rparr>)))"

section \<open>Search contexts\<close>

definition pg_create_context :: "search_context \<Rightarrow> (search_db, exn, unit) se" where
  "pg_create_context ctx s =
    (case row_ins sx_context_id ctx (sdb_contexts s) of
       None \<Rightarrow> (Inl (pg_duplicate ''search_contexts_pkey''), s)
     | Some rows \<Rightarrow> (Inr (), s\<lparr>sdb_contexts := rows\<rparr>))"

definition pg_expire_contexts :: "int \<Rightarrow> search_db \<Rightarrow> nat \<times> search_db" where
  "pg_expire_contexts now s =
    (let stale = (\<lambda>c. sx_status c = ''active'' \<and> iso_instant (sx_expires_at c) < now)
     in (count_where stale (sdb_contexts s),
         s\<lparr>sdb_contexts := map (\<lambda>c. if stale c then c\<lparr>sx_status := ''expired''\<rparr> else c) (sdb_contexts s)\<rparr>))"

definition pg_add_candidate :: "search_candidate \<Rightarrow> (search_db, exn, unit) se" where
  "pg_add_candidate c s =
    (case row_ins (\<lambda>c. (cd_revision_id c, cd_record_id c)) c (sdb_candidates s) of
       None \<Rightarrow> (Inl (pg_duplicate ''search_candidates_pkey''), s)
     | Some rows \<Rightarrow> (Inr (), s\<lparr>sdb_candidates := rows\<rparr>))"

definition pg_create_revision :: "search_revision \<Rightarrow> search_candidate list \<Rightarrow> (search_db, exn, unit) se" where
  "pg_create_revision rvn candidates s =
    (if get_revision (rv_revision_id rvn) s \<noteq> None
     then (Inl (ConflictError (''Revision '' @ rv_revision_id rvn @ '' already exists (immutable)'')), s)
     else se_iter pg_add_candidate candidates (s\<lparr>sdb_revisions := sdb_revisions s @ [rvn]\<rparr>))"

definition pg_replace_default_revision :: "string \<Rightarrow> string \<Rightarrow> iso \<Rightarrow> search_db \<Rightarrow> search_db" where
  "pg_replace_default_revision context_id revision_id now s =
    s\<lparr>sdb_contexts := row_upd sx_context_id context_id
      (\<lambda>c. c\<lparr>sx_default_revision_id := Some revision_id, sx_last_accessed_at := now\<rparr>) (sdb_contexts s)\<rparr>"

section \<open>Reading observations\<close>

text \<open>
  \<^verbatim>\<open>LIKE\<close> with its escape character; the patterns of the adapter never end with one. \<open>low\<close> is how \<^verbatim>\<open>ILIKE\<close>
  folds case in the database's locale.
\<close>

function pg_like :: "string \<Rightarrow> string \<Rightarrow> bool" where
  "pg_like [] s = (s = [])"
| "pg_like (p # ps) s =
    (if p = CHR ''%'' then pg_like ps s \<or> (case s of [] \<Rightarrow> False | c # s' \<Rightarrow> pg_like (p # ps) s')
     else if p = CHR 0x5C then
       (case (ps, s) of (q # ps', c # s') \<Rightarrow> q = c \<and> pg_like ps' s' | _ \<Rightarrow> False)
     else case s of [] \<Rightarrow> False | c # s' \<Rightarrow> (p = CHR ''_'' \<or> p = c) \<and> pg_like ps s')"
  by pat_completeness auto

termination by (relation "measure (\<lambda>(p, s). length p + length s)") auto

declare pg_like.simps(2) [simp del]

definition ilike :: "(string \<Rightarrow> string) \<Rightarrow> string \<Rightarrow> string \<Rightarrow> bool" where
  "ilike low pattern t = pg_like (low pattern) (low t)"

text \<open>The text of a JSONB list of strings: only quotes, backslashes and control characters are escaped.\<close>

definition pg_json_char :: "char \<Rightarrow> string" where
  "pg_json_char c =
    (if c = CHR 0x22 \<or> c = CHR 0x5C then [CHR 0x5C, c]
     else if code c < 32 then (case map_of [(8, ''b''), (9, ''t''), (10, ''n''), (12, ''f''), (13, ''r'')] (code c) of
       Some e \<Rightarrow> CHR 0x5C # e
     | None \<Rightarrow> [CHR 0x5C, CHR ''u'', CHR ''0'', CHR ''0'', hex_digit (code c div 16), hex_digit (code c mod 16)])
     else [c])"

definition pg_json_string :: "string \<Rightarrow> string" where
  "pg_json_string s = CHR 0x22 # concat (map pg_json_char s) @ [CHR 0x22]"

definition pg_json_list :: "string list \<Rightarrow> string" where
  "pg_json_list ss = CHR ''['' # comma_space_sep (map pg_json_string ss) @ [CHR '']'']"

definition pg_authorized :: "authorized_scope \<Rightarrow> observation_record \<Rightarrow> bool" where
  "pg_authorized sc r =
    (if sc_allowed_camera_ids sc = [] \<or> sc_allowed_location_ids sc = [] \<or> sc_allowed_access_policy_ids sc = [] \<or>
        allowed_levels sc = []
     then False
     else ob_tenant_id r = sc_tenant_id sc \<and> ob_camera_id r \<in> set (sc_allowed_camera_ids sc) \<and>
       ob_location_id r \<in> set (sc_allowed_location_ids sc) \<and>
       ob_access_policy_id r \<in> set (sc_allowed_access_policy_ids sc) \<and>
       security_level_value (ob_security_level r) \<in> set (allowed_levels sc))"

definition contained_pattern :: "string \<Rightarrow> string" where
  "contained_pattern t = CHR ''%'' # t @ ''%''"

definition pg_text_filter :: "(string \<Rightarrow> string) \<Rightarrow> string option \<Rightarrow> observation_record \<Rightarrow> bool" where
  "pg_text_filter low query_text r =
    (case query_text of
       None \<Rightarrow> True
     | Some q \<Rightarrow> q = [] \<or> (\<exists>t \<in> set [ob_static_description_text r, ob_dynamic_description_text r, pg_json_list (ob_tags r)].
         ilike low (contained_pattern q) t))"

definition pg_time_filter :: "iso option \<Rightarrow> iso option \<Rightarrow> observation_record \<Rightarrow> bool" where
  "pg_time_filter time_start time_end r =
    ((case time_start of None \<Rightarrow> True | Some t \<Rightarrow> iso_instant (ob_observed_end_time r) \<ge> iso_instant t) \<and>
     (case time_end of None \<Rightarrow> True | Some t \<Rightarrow> iso_instant (ob_observed_start_time r) \<le> iso_instant t))"

definition pg_structural_filter :: "(string \<Rightarrow> string) \<Rightarrow> pool_filter \<Rightarrow> observation_record \<Rightarrow> bool" where
  "pg_structural_filter low f r =
    ((pf_camera_ids f = [] \<or> ob_camera_id r \<in> set (pf_camera_ids f)) \<and>
     (pf_location_ids f = [] \<or> ob_location_id r \<in> set (pf_location_ids f)) \<and>
     (pf_video_ids f = [] \<or> ob_video_id r \<in> set (pf_video_ids f)) \<and>
     (pf_analysis_scales f = [] \<or>
        analysis_scale_value (ob_analysis_scale r) \<in> set (map analysis_scale_value (pf_analysis_scales f))) \<and>
     pg_time_filter (pf_time_start f) (pf_time_end f) r \<and>
     list_all (\<lambda>tag. ilike low (contained_pattern tag) (pg_json_list (ob_tags r))) (pf_tag_filters f))"

definition pg_search_observations ::
  "(string \<Rightarrow> string) \<Rightarrow> ('a memory_scheme) \<Rightarrow> authorized_scope \<Rightarrow> string option \<Rightarrow> pool_filter \<Rightarrow> int \<Rightarrow>
   observation_record list" where
  "pg_search_observations low s sc query_text f limit =
    order_by_limit (\<lambda>r. (iso_instant (ob_observed_start_time r), ob_record_id r)) limit
      (filter (\<lambda>r. pg_authorized sc r \<and> pg_structural_filter low f r \<and> pg_text_filter low query_text r) (mem_records s))"

definition pg_candidate_pool ::
  "(string \<Rightarrow> string) \<Rightarrow> ('a memory_scheme) \<Rightarrow> authorized_scope \<Rightarrow> pool_filter \<Rightarrow> int \<Rightarrow> observation_record list" where
  "pg_candidate_pool low s sc f limit = pg_search_observations low s sc None f limit"

section \<open>The text index and publication\<close>

text \<open>A row of a field is replaced when the record has one. \<^verbatim>\<open>text_index_available\<close> is \<open>mem_fts s \<noteq> None\<close>.\<close>

definition pg_index_row :: "string \<Rightarrow> string \<Rightarrow> (string \<times> string) list \<Rightarrow> (string \<times> string) list" where
  "pg_index_row record_id content rows =
    (if record_id \<in> fst ` set rows then map (\<lambda>row. if fst row = record_id then (record_id, content) else row) rows
     else rows @ [(record_id, content)])"

definition pg_index_record :: "string \<Rightarrow> string \<Rightarrow> string \<Rightarrow> string list \<Rightarrow> fts_tables option \<Rightarrow> fts_tables option" where
  "pg_index_record record_id static_text dynamic_text tags = map_option (\<lambda>t.
    \<lparr>fts_static = pg_index_row record_id static_text (fts_static t),
     fts_dynamic = pg_index_row record_id dynamic_text (fts_dynamic t),
     fts_tags = pg_index_row record_id (join_space tags) (fts_tags t)\<rparr>)"

definition pg_deindex_record :: "string \<Rightarrow> fts_tables option \<Rightarrow> fts_tables option" where
  "pg_deindex_record record_id = map_option (\<lambda>t.
    \<lparr>fts_static = filter (\<lambda>row. fst row \<noteq> record_id) (fts_static t),
     fts_dynamic = filter (\<lambda>row. fst row \<noteq> record_id) (fts_dynamic t),
     fts_tags = filter (\<lambda>row. fst row \<noteq> record_id) (fts_tags t)\<rparr>)"

definition pg_archive_record ::
  "publish_command \<Rightarrow> iso \<Rightarrow> string \<Rightarrow> observation_record \<Rightarrow> string \<Rightarrow> ('a memory_scheme, exn, unit) se" where
  "pg_archive_record command now history_id existing new_id s =
    (case row_ins hr_history_id
        \<lparr>hr_history_id = history_id, hr_old_record_id = ob_record_id existing,
         hr_replaced_by_record_id = Some new_id,
         hr_archived_by_analysis_job_id = pc_analysis_job_id command, hr_archived_at = now,
         hr_archive_reason = pc_archive_reason command, hr_record_snapshot = existing\<rparr> (mem_history s) of
       None \<Rightarrow> (Inl (pg_duplicate ''observation_record_history_pkey''), s)
     | Some rows \<Rightarrow>
         (Inr (), s\<lparr>mem_history := rows, mem_fts := pg_deindex_record (ob_record_id existing) (mem_fts s),
            mem_records := filter (\<lambda>r. ob_record_id r \<noteq> ob_record_id existing) (mem_records s)\<rparr>))"

definition pg_insert_record :: "iso \<Rightarrow> observation_record \<Rightarrow> ('a memory_scheme, exn, unit) se" where
  "pg_insert_record now record s =
    (case row_ins ob_record_id (observation_to_orm now record) (mem_records s) of
       None \<Rightarrow> (Inl (pg_duplicate ''observation_records_pkey''), s)
     | Some rows \<Rightarrow>
         (Inr (), s\<lparr>mem_records := rows,
            mem_fts := pg_index_record (ob_record_id record) (ob_static_description_text record)
              (ob_dynamic_description_text record) (ob_tags record) (mem_fts s)\<rparr>))"

definition pg_publish_one ::
  "publish_command \<Rightarrow> iso \<Rightarrow> string \<Rightarrow> observation_record \<Rightarrow>
   ('a memory_scheme, exn, observation_record option) se" where
  "pg_publish_one command now history_id record =
    se_bind (se_read (\<lambda>s. find (\<lambda>r. segment_key r = segment_key record) (mem_records s))) (\<lambda>found.
      case found of
        Some existing \<Rightarrow>
          se_then (pg_archive_record command now history_id existing (ob_record_id record))
            (se_then (pg_insert_record now record) (se_ret found))
      | None \<Rightarrow> se_then (pg_insert_record now record) (se_ret None))"

fun pg_publish_loop ::
  "publish_command \<Rightarrow> iso \<Rightarrow> (nat \<Rightarrow> string) \<Rightarrow> nat \<Rightarrow> observation_record list \<Rightarrow>
   string list \<times> string list \<times> string list \<Rightarrow> ('a memory_scheme, exn, string list \<times> string list \<times> string list) se" where
  "pg_publish_loop command now hist n [] acc = se_ret acc"
| "pg_publish_loop command now hist n (record # records) (created, updated, archived) =
    se_bind (pg_publish_one command now (hist n) record) (\<lambda>found.
      pg_publish_loop command now hist (Suc n) records
        (case found of
           Some existing \<Rightarrow> (created, updated @ [ob_record_id record], archived @ [ob_record_id existing])
         | None \<Rightarrow> (created @ [ob_record_id record], updated, archived)))"

definition pg_append_event :: "audit_event \<Rightarrow> ('a memory_scheme, exn, unit) se" where
  "pg_append_event ev s =
    (case row_ins ae_audit_event_id ev (mem_audit s) of
       None \<Rightarrow> (Inl (pg_duplicate ''audit_events_pkey''), s)
     | Some rows \<Rightarrow> (Inr (), s\<lparr>mem_audit := rows\<rparr>))"

definition pg_publish_records_atomically ::
  "iso \<Rightarrow> (nat \<Rightarrow> string) \<Rightarrow> string \<Rightarrow> publish_command \<Rightarrow> ('a memory_scheme, exn, publication_result) se" where
  "pg_publish_records_atomically now hist audit_id command = session_scope
    (se_bind (pg_publish_loop command now hist 0 (pc_records command) ([], [], [])) (\<lambda>(created, updated, archived).
      se_then (se_write (\<lambda>s. s\<lparr>mem_db :=
          pg_append_record_publish_summary (pc_analysis_job_id command) created updated archived (mem_db s)\<rparr>))
        (se_then (pg_append_event
          \<lparr>ae_audit_event_id = audit_id, ae_event_type = ''publication_succeeded'', ae_request_id = None,
           ae_principal_id = None, ae_session_id = None, ae_context_id = None, ae_resource_scope_hash = None,
           ae_record_ids = created @ updated, ae_video_id = None, ae_camera_id = None,
           ae_metadata = [(''analysis_job_id'', pc_analysis_job_id command)], ae_created_at = now\<rparr>)
          (se_ret \<lparr>pub_analysis_job_id = pc_analysis_job_id command, pub_created_record_ids = created,
             pub_updated_record_ids = updated, pub_archived_record_ids = archived\<rparr>))))"

section \<open>Vectors\<close>

text \<open>\<open>digits\<close> is the value that twelve significant digits keep of a number.\<close>

definition pg_vector_key :: "stored_vector \<Rightarrow> string \<times> string \<times> string" where
  "pg_vector_key v = (sv_record_id v, sv_vector_type v, sv_model_id v)"

definition dimension_error :: "int \<Rightarrow> int \<Rightarrow> exn" where
  "dimension_error got expected =
    ValueError (''embedding dimension mismatch: got '' @ show_int got @ '', expected '' @ show_int expected)"

definition pg_upsert_vector :: "(real \<Rightarrow> real) \<Rightarrow> int \<Rightarrow> stored_vector \<Rightarrow> ('a memory_scheme, exn, unit) se" where
  "pg_upsert_vector digits dimension v s =
    (if sv_dimension v \<noteq> dimension then (Inl (dimension_error (sv_dimension v) dimension), s)
     else if int (length (sv_embedding v)) \<noteq> dimension
     then (Inl (dimension_error (int (length (sv_embedding v))) dimension), s)
     else let w = v\<lparr>sv_embedding := map digits (sv_embedding v)\<rparr> in
       (Inr (), s\<lparr>mem_vectors :=
          (if pg_vector_key v \<in> pg_vector_key ` set (mem_vectors s)
           then row_upd pg_vector_key (pg_vector_key v) (\<lambda>_. w) (mem_vectors s) else mem_vectors s @ [w])\<rparr>))"

definition pg_upsert_vectors :: "(real \<Rightarrow> real) \<Rightarrow> int \<Rightarrow> stored_vector list \<Rightarrow> ('a memory_scheme, exn, nat) se" where
  "pg_upsert_vectors digits dimension vectors =
    (if vectors = [] then se_ret 0
     else se_then (se_iter (pg_upsert_vector digits dimension) vectors) (se_ret (length vectors)))"

definition pg_get_vectors_for_records :: "stored_vector list \<Rightarrow> string list \<Rightarrow> string option \<Rightarrow> stored_vector list" where
  "pg_get_vectors_for_records rows record_ids vector_type =
    (if record_ids = [] then []
     else sort_key pg_vector_key (filter (\<lambda>v. sv_record_id v \<in> set record_ids \<and>
       (case vector_type of None \<Rightarrow> True | Some t \<Rightarrow> sv_vector_type v = t)) rows))"

definition pg_delete_vectors_for_records :: "string list \<Rightarrow> stored_vector list \<Rightarrow> nat \<times> stored_vector list" where
  "pg_delete_vectors_for_records record_ids rows =
    (if record_ids = [] then (0, rows)
     else (count_where (\<lambda>v. sv_record_id v \<in> set record_ids) rows,
           filter (\<lambda>v. sv_record_id v \<notin> set record_ids) rows))"

definition postgres_index :: "(real \<Rightarrow> real) \<Rightarrow> int \<Rightarrow> ('a memory_scheme) index_port" where
  "postgres_index digits dimension = \<lparr>ix_upsert = pg_upsert_vectors digits dimension,
     ix_get = (\<lambda>s. pg_get_vectors_for_records (mem_vectors s))\<rparr>"

section \<open>The queue is that of SQLite\<close>

lemma pg_due_iff: "pg_due now t \<longleftrightarrow> still_claimable now t"
  by (auto simp: pg_due_def still_claimable_def split: option.split)

lemma pg_claim_write_row_upd: "pg_claim_write tid w now u = upd_task tid (set_claimed w now u)"
  by (rule ext) (simp add: pg_claim_write_def set_claimed_def row_upd_def)

lemma row_upd_get_cong:
  assumes "keys_ok key rows" and "\<And>r. row_get key k rows = Some r \<Longrightarrow> f r = g r"
  shows "row_upd key k f rows = row_upd key k g rows"
  unfolding row_upd_def by (rule map_cong [OF refl]) (use assms in \<open>auto simp: row_get_iff\<close>)

lemma row_upd_missing: "row_get key k rows = None \<Longrightarrow> row_upd key k f rows = rows"
  by (auto simp: row_upd_def row_get_None_iff intro!: map_idI)

lemma row_upd_same: "row_upd key k (\<lambda>r. r) rows = rows"
  by (simp add: row_upd_def)

lemma pg_refresh_row_upd:
  "pg_refresh_lease tid w u rows =
    upd_task tid (\<lambda>t. if tk_lease_owner t = Some w then t\<lparr>tk_lease_expires_at := Some u\<rparr> else t) rows"
  by (auto simp: pg_refresh_lease_def row_upd_def)

lemma pg_step_eq:
  assumes ok: "keys_ok tk_task_id rows"
  shows "pg_step op rows = queue_step op rows"
proof (cases op)
  case (OpEnqueue t)
  then show ?thesis by (simp add: pg_enqueue_task_def enqueue_task_def split: option.split)
next
  case (OpClaim tid w now u)
  show ?thesis
  proof (cases "get_task tid rows")
    case None
    then show ?thesis by (simp add: OpClaim claim_update_row_upd row_upd_missing)
  next
    case (Some t)
    have "upd_task tid (\<lambda>t. if still_claimable now t then set_claimed w now u t else t) rows =
        upd_task tid (if pg_due now t then set_claimed w now u else (\<lambda>t. t)) rows"
      by (rule row_upd_get_cong [OF ok]) (simp add: Some pg_due_iff)
    then show ?thesis by (simp add: OpClaim Some claim_update_row_upd pg_claim_write_row_upd row_upd_same)
  qed
next
  case (OpRefresh tid w u)
  show ?thesis
  proof (cases "get_task tid rows")
    case None
    then show ?thesis by (simp add: OpRefresh pg_refresh_row_upd refresh_lease_def row_upd_missing)
  next
    case (Some t)
    have "pg_refresh_lease tid w u rows =
        upd_task tid (if tk_lease_owner t = Some w then (\<lambda>t. t\<lparr>tk_lease_expires_at := Some u\<rparr>) else (\<lambda>t. t)) rows"
      unfolding pg_refresh_row_upd by (rule row_upd_get_cong [OF ok]) (simp add: Some)
    then show ?thesis by (simp add: OpRefresh Some refresh_lease_def row_upd_same)
  qed
qed (simp_all add: pg_mark_succeeded_def mark_succeeded_def pg_mark_failed_def mark_failed_def
  pg_schedule_retry_def schedule_retry_def row_upd_missing split: option.split)

text \<open>
  The two queue adapters are interchangeable: on a table with unique ids, any history of enqueues, claims,
  lease refreshes, endings and reschedulings leaves the same table through the single-statement updates of
  PostgreSQL as through the read-and-write methods of SQLite; so what the worker relies on (exclusive claims,
  safe leases, the status invariant) holds on both.
\<close>

theorem pg_queue_agrees:
  assumes "keys_ok tk_task_id rows"
  shows "fold pg_step ops rows = queue_run ops rows"
  using assms
proof (induction ops arbitrary: rows)
  case (Cons op ops)
  then show ?case by (simp add: pg_step_eq queue_run_def keys_ok_queue_step)
qed (simp add: queue_run_def)

theorem pg_queue_agrees_witness:
  "fold pg_step [OpClaim ''a'' ''w'' 10 70, OpRefresh ''a'' ''w'' 90, OpClaim ''a'' ''x'' 80 99, OpFail ''a'' ''E'' None]
      [ex_task ''a'' 1, ex_task ''b'' 5] =
    queue_run [OpClaim ''a'' ''w'' 10 70, OpRefresh ''a'' ''w'' 90, OpClaim ''a'' ''x'' 80 99, OpFail ''a'' ''E'' None]
      [ex_task ''a'' 1, ex_task ''b'' 5]"
  by (rule pg_queue_agrees) (simp add: keys_ok_def ex_task_def)

text \<open>The interfaces of the queue and of the creations by key hold of these adapters too.\<close>

interpretation pg_leases: lease_table lease_holder pg_step
proof unfold_locales
  fix s t w e now t' w' u x c m n
  show "lease_holder (pg_step (OpClaim t' w' now u) s) t = Some (w, e)" if "lease_holder s t = Some (w, e)" "now \<le> e"
    using that by (cases "t' = t")
      (auto simp: lease_holder_def pg_due_iff still_claimable_def pg_claim_write_row_upd row_get_upd split: option.splits if_splits)
  show "lease_holder (pg_step (OpRefresh t' w' u) s) t = Some (w, if t' = t \<and> w' = w then u else e)"
    if "lease_holder s t = Some (w, e)"
    using that by (cases "t' = t") (auto simp: lease_holder_def pg_refresh_row_upd row_get_upd split: option.splits if_splits)
  show "lease_holder (pg_step (OpEnqueue x) s) t = Some (w, e)" if "lease_holder s t = Some (w, e)"
    using sqlite_leases.enqueue_law [OF that, of x] by (simp add: pg_enqueue_task_def enqueue_task_def split: option.splits)
  show "lease_holder (pg_step (OpSucceed t') s) t = lease_holder s t" if "t' \<noteq> t"
    using that by (simp add: lease_holder_def pg_mark_succeeded_def row_get_upd)
  show "lease_holder (pg_step (OpFail t' c m) s) t = lease_holder s t" if "t' \<noteq> t"
    using that by (simp add: lease_holder_def pg_mark_failed_def row_get_upd)
  show "lease_holder (pg_step (OpRetry t' n) s) t = lease_holder s t" if "t' \<noteq> t"
    using that by (simp add: lease_holder_def pg_schedule_retry_def row_get_upd)
qed

interpretation pg_create_jobs: keyed_create db_jobs aj_idempotency_key "\<lambda>x r. aj_video_id x = aj_video_id r" pg_create_job
  by unfold_locales (auto simp: pg_create_job_def row_ins_def)

interpretation pg_create_triggers: keyed_create db_triggers hft_idempotency_key "\<lambda>x r. True" pg_trigger_create_or_get
  by unfold_locales (auto simp: pg_trigger_create_or_get_def row_ins_def)

interpretation pg_create_units: keyed_create db_units au_idempotency_key "\<lambda>x r. True" pg_unit_create_or_get
  by unfold_locales (auto simp: pg_unit_create_or_get_def row_ins_def)

section \<open>Claims in transactions that overlap\<close>

text \<open>
  Workers claim at once: each sees the committed table, takes the row lock of the task it updates and holds it
  until it commits. A claim is the task, the worker, its clock and the end of the lease.
\<close>

fun pg_race ::
  "(string \<times> int \<times> int) list \<Rightarrow> string set \<Rightarrow> task list \<Rightarrow> (string \<times> string \<times> int \<times> int) list" where
  "pg_race [] locked rows = []"
| "pg_race ((worker_id, now, lease_seconds) # workers) locked rows =
    (case pg_candidate locked now rows of
       None \<Rightarrow> pg_race workers locked rows
     | Some task_id \<Rightarrow> (task_id, worker_id, now, now + lease_seconds * 1000000) #
         pg_race workers (insert task_id locked) rows)"

definition pg_commit :: "string \<times> string \<times> int \<times> int \<Rightarrow> task list \<Rightarrow> task list" where
  "pg_commit c rows = (case c of (task_id, worker_id, now, lease_until) \<Rightarrow>
    pg_claim_write task_id worker_id now lease_until rows)"

lemma pg_candidate_Some:
  assumes "pg_candidate locked now rows = Some tid"
  shows "\<exists>r \<in> set rows. tk_task_id r = tid \<and> pg_due now r \<and> tid \<notin> locked \<and>
    (\<forall>t \<in> set rows. pg_due now t \<and> tk_task_id t \<notin> locked \<longrightarrow> claim_key r \<le> claim_key t)"
proof -
  let ?c = "filter (\<lambda>t. pg_due now t \<and> tk_task_id t \<notin> locked) rows"
  obtain r ts where ts: "order_by_limit claim_key 1 ?c = r # ts" and "tk_task_id r = tid"
    using assms by (auto simp: pg_candidate_def split: list.splits)
  then have ne: "?c \<noteq> []" by (auto simp: order_by_limit_def)
  have "r = hd (sort_key claim_key ?c)"
    using ts by (cases "sort_key claim_key ?c") (simp_all add: order_by_limit_def)
  then have "r \<in> set ?c \<and> (\<forall>t \<in> set ?c. claim_key r \<le> claim_key t)"
    using hd_sort_key_in [OF ne, of claim_key] hd_sort_key_least [OF ne, of _ claim_key] by auto
  with \<open>tk_task_id r = tid\<close> show ?thesis by auto
qed

lemma pg_race_claims:
  "distinct (map fst (pg_race workers locked rows)) \<and> fst ` set (pg_race workers locked rows) \<inter> locked = {} \<and>
   fst ` set (pg_race workers locked rows) \<subseteq> tk_task_id ` set rows"
proof (induction workers arbitrary: locked)
  case (Cons x workers)
  obtain w now lease where x: "x = (w, now, lease)" by (cases x)
  show ?case
  proof (cases "pg_candidate locked now rows")
    case None
    with Cons [of locked] show ?thesis by (simp add: x)
  next
    case (Some tid)
    with Cons [of "insert tid locked"] pg_candidate_Some [OF Some] show ?thesis by (auto simp: x)
  qed
qed simp

lemma lease_holder_commit:
  "lease_holder (pg_commit c rows) tid =
    (if fst c = tid \<and> get_task tid rows \<noteq> None then Some (fst (snd c), snd (snd (snd c)))
     else if fst c = tid then None else lease_holder rows tid)"
  by (auto simp: pg_commit_def lease_holder_def pg_claim_write_def row_get_upd split: prod.split option.split)

lemma get_task_commit_None: "get_task tid (pg_commit c rows) = None \<longleftrightarrow> get_task tid rows = None"
  by (auto simp: pg_commit_def pg_claim_write_def row_get_upd split: prod.split)

lemma lease_holder_commits:
  assumes "distinct (map fst cs)" and "get_task tid rows \<noteq> None"
  shows "lease_holder (fold pg_commit cs rows) tid =
    (case map_of cs tid of Some (w, now, u) \<Rightarrow> Some (w, u) | None \<Rightarrow> lease_holder rows tid)"
  using assms
proof (induction cs arbitrary: rows)
  case (Cons c cs)
  then have "get_task tid (pg_commit c rows) \<noteq> None" by (simp add: get_task_commit_None)
  with Cons have ih: "lease_holder (fold pg_commit cs (pg_commit c rows)) tid =
      (case map_of cs tid of Some (w, now, u) \<Rightarrow> Some (w, u) | None \<Rightarrow> lease_holder (pg_commit c rows) tid)"
    by simp
  obtain a w n u where c: "c = (a, w, n, u)" by (cases c)
  show ?case
  proof (cases "a = tid")
    case True
    then have "map_of cs tid = None" using Cons.prems(1) by (simp add: c map_of_eq_None_iff)
    with ih True Cons.prems(2) show ?thesis by (simp add: c lease_holder_commit)
  next
    case False
    with ih show ?thesis by (simp add: c lease_holder_commit split: option.split)
  qed
qed simp

text \<open>
  Workers that claim at the same moment under PostgreSQL never take the same task: whatever the number of
  overlapping claims and whatever the order in which their transactions commit, their tasks are pairwise
  different, each was a task of the table, and after all commits every one of them is leased to the worker that
  claimed it, until the end that this worker asked for.
\<close>

theorem concurrent_claims_are_exclusive:
  assumes "mset commits = mset (pg_race workers {} rows)"
  shows "distinct (map fst commits) \<and>
    (\<forall>(task_id, worker_id, now, lease_until) \<in> set (pg_race workers {} rows).
       lease_holder (fold pg_commit commits rows) task_id = Some (worker_id, lease_until))"
proof -
  note race = pg_race_claims [of workers "{}" rows]
  have set: "set commits = set (pg_race workers {} rows)" using assms by (rule mset_eq_setD)
  have d: "distinct (map fst commits)"
    using assms race by (metis mset_map mset_eq_imp_distinct_iff)
  have "lease_holder (fold pg_commit commits rows) tid = Some (w, u)"
    if "(tid, w, now, u) \<in> set (pg_race workers {} rows)" for tid w now u
  proof -
    have "tid \<in> tk_task_id ` set rows" using that race by force
    then have "get_task tid rows \<noteq> None" by (simp add: row_get_None_iff)
    moreover have "map_of commits tid = Some (w, now, u)" using that d by (simp add: set)
    ultimately show ?thesis by (simp add: lease_holder_commits [OF d])
  qed
  with d show ?thesis by blast
qed

theorem concurrent_claims_are_exclusive_witness:
  "pg_race [(''w'', 10, 60), (''x'', 10, 60), (''y'', 10, 60)] {} [ex_task ''a'' 1, ex_task ''b'' 5] =
     [(''b'', ''w'', 10, 60000010), (''a'', ''x'', 10, 60000010)] \<and>
   lease_holder (fold pg_commit [(''a'', ''x'', 10, 60000010), (''b'', ''w'', 10, 60000010)]
     [ex_task ''a'' 1, ex_task ''b'' 5]) ''b'' = Some (''w'', 60000010)"
proof -
  have race: "pg_race [(''w'', 10, 60), (''x'', 10, 60), (''y'', 10, 60)] {} [ex_task ''a'' 1, ex_task ''b'' 5] =
     [(''b'', ''w'', 10, 60000010), (''a'', ''x'', 10, 60000010)]"
    by code_simp
  have "mset [(''a'', ''x'', 10, 60000010), (''b'', ''w'', 10, 60000010)] =
      mset (pg_race [(''w'', 10, 60), (''x'', 10, 60), (''y'', 10, 60)] {} [ex_task ''a'' 1, ex_task ''b'' 5])"
    unfolding race by simp
  from concurrent_claims_are_exclusive [OF this] race show ?thesis by simp
qed


section \<open>Publication is that of SQLite\<close>

text \<open>The same value and state, or an integrity error of either engine's wording with the same state.\<close>

fun same_outcome :: "(exn + 'a) \<times> 's \<Rightarrow> (exn + 'a) \<times> 's \<Rightarrow> bool" where
  "same_outcome (Inr a, s) (Inr b, t) = (a = b \<and> s = t)"
| "same_outcome (Inl (IntegrityError x), s) (Inl (IntegrityError y), t) = (s = t)"
| "same_outcome _ _ = False"

fun_cases same_outcome_Inr: "same_outcome p (Inr b, t)"
  and same_outcome_Inl: "same_outcome p (Inl e, t)"

lemma same_outcome_bind:
  assumes "same_outcome (m s) (m' s)" and "\<And>a t. m' s = (Inr a, t) \<Longrightarrow> same_outcome (f a t) (g a t)"
  shows "same_outcome (se_bind m f s) (se_bind m' g s)"
proof (cases "m' s")
  case (Pair r t)
  then show ?thesis
    using assms by (cases r) (auto simp: se_bind_apply elim!: same_outcome_Inr same_outcome_Inl)
qed

lemma same_outcome_then:
  assumes "same_outcome (m s) (m' s)" and "\<And>a t. m' s = (Inr a, t) \<Longrightarrow> same_outcome (f t) (g t)"
  shows "same_outcome (se_then m f s) (se_then m' g s)"
proof (cases "m' s")
  case (Pair r t)
  then show ?thesis
    using assms by (cases r) (auto simp: se_then_apply elim!: same_outcome_Inr same_outcome_Inl)
qed

lemma same_outcome_session:
  assumes "same_outcome (m s) (m' s)"
  shows "same_outcome (session_scope m s) (session_scope m' s)"
proof (cases "m' s")
  case (Pair r t)
  then show ?thesis
    using assms by (cases r) (auto simp: session_scope_def elim!: same_outcome_Inr same_outcome_Inl)
qed

lemma pg_index_row_new: "rid \<notin> fst ` set rows \<Longrightarrow> pg_index_row rid x rows = rows @ [(rid, x)]"
  by (simp add: pg_index_row_def)

lemma pg_insert_agrees:
  assumes "fts_synced s"
  shows "same_outcome (pg_insert_record now r s) (insert_record now r s)"
proof (cases "ob_record_id r \<in> ob_record_id ` set (mem_records s)")
  case True
  then show ?thesis by (simp add: pg_insert_record_def insert_record_def row_ins_def pg_duplicate_def)
next
  case False
  have "pg_index_record (ob_record_id r) x y ts (mem_fts s) = index_record (ob_record_id r) x y ts (mem_fts s)" for x y ts
  proof (cases "mem_fts s")
    case (Some t)
    with assms False have "ob_record_id r \<notin> fst ` set (fts_static t) \<and> ob_record_id r \<notin> fst ` set (fts_dynamic t) \<and>
        ob_record_id r \<notin> fst ` set (fts_tags t)"
      by (auto simp: fts_synced_def)
    then show ?thesis by (simp add: Some pg_index_record_def index_record_def pg_index_row_new)
  qed (simp add: pg_index_record_def index_record_def)
  with False show ?thesis by (simp add: pg_insert_record_def insert_record_def row_ins_def)
qed

lemma pg_archive_agrees: "same_outcome (pg_archive_record c now hid e new s) (archive_record c now hid e new s)"
  by (simp add: pg_archive_record_def archive_record_def pg_duplicate_def pg_deindex_record_def deindex_record_def
      split: option.split)

lemma pg_publish_one_agrees:
  assumes "records_ok s"
  shows "same_outcome (pg_publish_one c now hid r s) (publish_one c now hid r s)"
  unfolding pg_publish_one_def publish_one_def
proof (rule same_outcome_bind)
  fix found t
  assume read: "se_read (\<lambda>s. find (\<lambda>x. segment_key x = segment_key r) (mem_records s)) s = (Inr found, t)"
  then have [simp]: "t = s" by simp
  show "same_outcome
      ((case found of Some e \<Rightarrow> se_then (pg_archive_record c now hid e (ob_record_id r))
          (se_then (pg_insert_record now r) (se_ret found))
        | None \<Rightarrow> se_then (pg_insert_record now r) (se_ret None)) t)
      ((case found of Some e \<Rightarrow> se_then (archive_record c now hid e (ob_record_id r))
          (se_then (insert_record now r) (se_ret found))
        | None \<Rightarrow> se_then (insert_record now r) (se_ret None)) t)"
  proof (cases found)
    case None
    with assms show ?thesis by (auto simp: records_ok_def intro!: same_outcome_then pg_insert_agrees)
  next
    case (Some e)
    then have e: "e \<in> set (mem_records s)" using read by (auto dest: find_Some_iff_in)
    have "fts_synced t" if "archive_record c now hid e (ob_record_id r) s = (Inr u, t)" for u t
      using archive_record_ok(1) [OF assms e that] by (simp add: records_ok_def)
    with Some show ?thesis
      by (auto intro!: same_outcome_then pg_archive_agrees pg_insert_agrees)
  qed
qed simp

lemma pg_publish_loop_agrees:
  assumes "records_ok s"
  shows "same_outcome (pg_publish_loop c now hist n rs acc s) (publish_loop c now hist n rs acc s)"
  using assms
proof (induction rs arbitrary: n acc s)
  case (Cons r rs)
  obtain cr up ar where acc: "acc = (cr, up, ar)" by (cases acc)
  show ?case
    unfolding acc pg_publish_loop.simps publish_loop.simps
    by (rule same_outcome_bind, rule pg_publish_one_agrees [OF Cons.prems], rule Cons.IH,
        rule publish_one_ok(2) [OF Cons.prems])
qed simp

lemma pg_append_event_agrees: "same_outcome (pg_append_event ev s) (append_event ev s)"
  by (simp add: pg_append_event_def append_event_def pg_duplicate_def split: option.split)

lemma pg_summary_eq:
  assumes "keys_ok aj_analysis_job_id (db_jobs d)"
  shows "pg_append_record_publish_summary jid c u a d = append_record_publish_summary jid c u a d"
proof (cases "get_job_row jid d")
  case None
  then show ?thesis
    by (simp add: pg_append_record_publish_summary_def append_record_publish_summary_def row_upd_missing)
next
  case (Some row)
  let ?f = "\<lambda>row j. j\<lparr>aj_created_record_ids := aj_created_record_ids row @ c,
    aj_updated_record_ids := aj_updated_record_ids row @ u, aj_archived_record_ids := aj_archived_record_ids row @ a\<rparr>"
  have "row_upd aj_analysis_job_id jid (?f row) (db_jobs d) = row_upd aj_analysis_job_id jid (\<lambda>j. ?f j j) (db_jobs d)"
    by (rule row_upd_get_cong [OF assms]) (use Some in simp)
  with Some show ?thesis
    by (simp add: pg_append_record_publish_summary_def append_record_publish_summary_def)
qed

text \<open>
  Publication does the same on both engines: with records, segments and index in step and unique job ids,
  publishing through PostgreSQL returns the result and leaves the state that publishing through SQLite returns and
  leaves, or both raise an integrity error and leave the state they found.
\<close>

theorem pg_publication_agrees:
  assumes "records_ok s" and "keys_ok aj_analysis_job_id (db_jobs (mem_db s))"
  shows "same_outcome (pg_publish_records_atomically now hist audit_id command s)
    (publish_records_atomically now hist audit_id command s)"
  unfolding pg_publish_records_atomically_def publish_records_atomically_def
proof (rule same_outcome_session, rule same_outcome_bind, rule pg_publish_loop_agrees [OF assms(1)])
  fix acc t
  assume loop: "publish_loop command now hist 0 (pc_records command) ([], [], []) s = (Inr acc, t)"
  obtain c u a where acc: "acc = (c, u, a)" by (cases acc)
  have "mem_db t = mem_db s" using publish_loop_ok [OF assms(1) loop [unfolded acc]] by simp
  with assms(2) show "same_outcome
      ((case acc of (created, updated, archived) \<Rightarrow>
        se_then (se_write (\<lambda>s. s\<lparr>mem_db :=
            pg_append_record_publish_summary (pc_analysis_job_id command) created updated archived (mem_db s)\<rparr>))
          (se_then (pg_append_event
            \<lparr>ae_audit_event_id = audit_id, ae_event_type = ''publication_succeeded'', ae_request_id = None,
             ae_principal_id = None, ae_session_id = None, ae_context_id = None, ae_resource_scope_hash = None,
             ae_record_ids = created @ updated, ae_video_id = None, ae_camera_id = None,
             ae_metadata = [(''analysis_job_id'', pc_analysis_job_id command)], ae_created_at = now\<rparr>)
            (se_ret \<lparr>pub_analysis_job_id = pc_analysis_job_id command, pub_created_record_ids = created,
               pub_updated_record_ids = updated, pub_archived_record_ids = archived\<rparr>))) t)
      ((case acc of (created, updated, archived) \<Rightarrow>
        se_then (se_write (\<lambda>s. s\<lparr>mem_db :=
            append_record_publish_summary (pc_analysis_job_id command) created updated archived (mem_db s)\<rparr>))
          (se_then (append_event
            \<lparr>ae_audit_event_id = audit_id, ae_event_type = ''publication_succeeded'', ae_request_id = None,
             ae_principal_id = None, ae_session_id = None, ae_context_id = None, ae_resource_scope_hash = None,
             ae_record_ids = created @ updated, ae_video_id = None, ae_camera_id = None,
             ae_metadata = [(''analysis_job_id'', pc_analysis_job_id command)], ae_created_at = now\<rparr>)
            (se_ret \<lparr>pub_analysis_job_id = pc_analysis_job_id command, pub_created_record_ids = created,
               pub_updated_record_ids = updated, pub_archived_record_ids = archived\<rparr>))) t)"
    unfolding acc prod.case
    by (intro same_outcome_then pg_append_event_agrees) (simp_all add: pg_summary_eq)
qed

theorem pg_publication_agrees_witness:
  "same_outcome (pg_publish_records_atomically (0, 0) show_nat ''a'' ex_command ex_memory)
    (publish_records_atomically (0, 0) show_nat ''a'' ex_command ex_memory)"
  by (rule pg_publication_agrees [OF ex_memory_ok]) (simp add: ex_memory_def keys_ok_def)

section \<open>The contracts of the read repository and the vector store\<close>

lemma pg_authorized_iff: "pg_authorized sc r \<longleftrightarrow> record_permitted sc r"
  unfolding in_scope_iff [symmetric]
  by (auto simp: pg_authorized_def authorized_observation_filter_def obs_resource_def)

lemma pg_search_sound:
  "r \<in> set (pg_search_observations low s sc q f n) \<Longrightarrow> r \<in> set (mem_records s) \<and> record_permitted sc r"
  unfolding pg_search_observations_def pg_authorized_iff by (drule subsetD [OF set_order_by_limit]) simp

interpretation pg_reads: authorized_reads
  "\<lambda>s :: 'a memory_scheme. set (mem_records s)" get_authorized_active_by_id get_authorized_active_by_ids
  "pg_candidate_pool low" find_overlapping
proof unfold_locales
  fix s :: "'a memory_scheme" and sc r f n i ids scales pad
  show "r \<in> set (mem_records s) \<and> record_permitted sc r" if "r \<in> set (pg_candidate_pool low s sc f n)"
    using that unfolding pg_candidate_pool_def by (rule pg_search_sound)
  show "get_authorized_active_by_id s i sc = Some r \<Longrightarrow>
      r \<in> set (mem_records s) \<and> ob_record_id r = i \<and> record_permitted sc r"
    by (rule sqlite_reads.by_id_sound)
  show "get_authorized_active_by_id s i sc = None \<Longrightarrow> r \<in> set (mem_records s) \<Longrightarrow> ob_record_id r = i \<Longrightarrow>
      \<not> record_permitted sc r"
    by (rule sqlite_reads.by_id_complete)
  show "set (get_authorized_active_by_ids s ids sc) =
      {r \<in> set (mem_records s). ob_record_id r \<in> set ids \<and> record_permitted sc r}"
    by (rule sqlite_reads.set_by_ids)
  show "r \<in> set (mem_records s) \<and> record_permitted sc r" if "r \<in> set (find_overlapping s i sc scales pad n)"
    using that by (rule sqlite_reads.overlapping_sound)
qed

lemma insort_key_order_cong:
  "(\<And>y. y \<in> set ys \<Longrightarrow> f x \<le> f y \<longleftrightarrow> g x \<le> g y) \<Longrightarrow> insort_key f x ys = insort_key g x ys"
  by (induction ys) auto

lemma sort_key_order_cong:
  "(\<And>x y. x \<in> set xs \<Longrightarrow> y \<in> set xs \<Longrightarrow> f x \<le> f y \<longleftrightarrow> g x \<le> g y) \<Longrightarrow> sort_key f xs = sort_key g xs"
proof (induction xs)
  case (Cons x xs)
  have ih: "sort_key f xs = sort_key g xs"
    by (rule Cons.IH, rule Cons.prems) simp_all
  have "insort_key f x (sort_key g xs) = insort_key g x (sort_key g xs)"
    by (rule insort_key_order_cong, rule Cons.prems) simp_all
  then show ?case by (simp only: sort_key_simps ih)
qed simp

lemma same_offset_time_filter:
  assumes "snd (ob_observed_start_time r) = z" and "snd (ob_observed_end_time r) = z"
    and "case a of None \<Rightarrow> True | Some t \<Rightarrow> snd t = z" and "case b of None \<Rightarrow> True | Some t \<Rightarrow> snd t = z"
  shows "pg_time_filter a b r = time_filter a b r"
  using assms by (auto simp: pg_time_filter_def time_filter_def iso_key_instant split: option.split)

lemma same_offset_pool_key:
  assumes "snd (ob_observed_start_time x) = z" and "snd (ob_observed_start_time y) = z"
  shows "pool_key x \<le> pool_key y \<longleftrightarrow>
    (iso_instant (ob_observed_start_time x), ob_record_id x) \<le> (iso_instant (ob_observed_start_time y), ob_record_id y)"
  using assms by (auto simp: pool_key_def iso_key_def iso_instant_def less_eq_prod_def less_prod_def)

text \<open>
  While every stored and requested time has the same offset from UTC and no tag is filtered, both engines give a search the same
  candidates in the same order: the pool of PostgreSQL is the pool of SQLite for every scope, filter and limit.
\<close>

theorem pg_pool_agrees:
  assumes "\<forall>r \<in> set (mem_records s). snd (ob_observed_start_time r) = z \<and> snd (ob_observed_end_time r) = z"
    and "case pf_time_start f of None \<Rightarrow> True | Some t \<Rightarrow> snd t = z"
    and "case pf_time_end f of None \<Rightarrow> True | Some t \<Rightarrow> snd t = z"
    and "pf_tag_filters f = []"
  shows "pg_candidate_pool low s sc f n = authorized_candidate_pool s sc f n"
proof -
  have "pg_authorized sc r \<and> pg_structural_filter low f r \<and> pg_text_filter low None r \<longleftrightarrow>
      in_scope sc r \<and> structural_filter f r" if "r \<in> set (mem_records s)" for r
    using assms that by (simp add: pg_authorized_iff in_scope_iff pg_structural_filter_def structural_filter_def
        same_offset_time_filter pg_text_filter_def)
  then have same: "filter (\<lambda>r. pg_authorized sc r \<and> pg_structural_filter low f r \<and> pg_text_filter low None r) (mem_records s) =
      filter (\<lambda>r. in_scope sc r \<and> structural_filter f r) (mem_records s)"
    by (intro filter_cong refl)
  show ?thesis
    unfolding pg_candidate_pool_def pg_search_observations_def authorized_candidate_pool_def order_by_limit_def same
    by (intro arg_cong [where f = "take _"] sort_key_order_cong same_offset_pool_key [symmetric]) (use assms(1) in auto)
qed

theorem pg_pool_agrees_witness:
  "pg_candidate_pool py_lower ex_memory ex_scope no_filter 5 = authorized_candidate_pool ex_memory ex_scope no_filter 5"
  by (rule pg_pool_agrees [where z = 480]) (simp_all add: ex_records_defs no_filter_def observation_to_orm_def)

end
