(* ===== verification/Spec2Isabelle.thy ===== *)
theory Spec2Isabelle
  imports
    Cctv_Authz
    Cctv_Windows
    Cctv_Frames
    Cctv_Ranking
    Cctv_Retry
    Cctv_Worker
    Cctv_Playback
    Cctv_Gate
    Cctv_Catalog
    Cctv_Processors
    Cctv_Pacing
    Cctv_Output
    Cctv_Maintenance
    Cctv_Postgres
begin

text \<open>
  CCTV Memory turns surveillance video into searchable text. A client submits a video source; a worker
  claims the queued job under a lease, plans segments at several scales, selects frames, asks a detector
  gate whether the vision-language model is worth calling, calls the model with retries, and publishes
  one observation record per segment. Readers search the records, refine their searches in stored
  contexts, read details and obtain signed playback tokens; every read is filtered by a scope that is
  computed from policies, cameras and locations. The sources are under \<^verbatim>\<open>src/cctv_memory\<close>.

  \<^bold>\<open>Conventions.\<close> An operation that may raise is a function from a state to an exception or a value and
  the state it leaves (type \<open>se\<close>, theory \<open>Cctv_Prelude\<close>); what an exception leaves behind is written,
  because the code depends on it (transactions roll back, request sessions commit, recorders swallow).
  A table is the list of its rows in scan order; a primary key is a hypothesis (\<open>keys_ok\<close>) that every
  operation is shown to keep. Integers are unbounded as in Python. Floats are the exact operation
  followed by a rounding \<open>fl\<close>; \<open>fl64\<close> is binary64 with ties to even (\<open>Cctv_Float\<close>). Characters are code
  points below 256. A timestamp is its wall clock in microseconds with its offset in minutes, because
  the text that the code stores and compares depends on the offset.

  \<^bold>\<open>Parameters.\<close> Code that is not in the repository is an argument: SHA-256 and HMAC, the JSON codec's
  treatment of floats, BM25 of the full-text index, embedders, rerankers, object detection, the video
  processor, the model, clocks, fresh ids and the faults of the database and the file system.

  \<^bold>\<open>Theories, in the order in which they build on each other.\<close>
  \<^item> \<open>Cctv_Prelude\<close>: the effect type with its weakest-precondition rules (\<open>se_wp\<close>, \<open>wp_simps\<close>), keyed
    tables (locale \<open>row_store\<close>), sorting and counting.
  \<^item> \<open>Cctv_Domain\<close>: \<^verbatim>\<open>domain/enums.py\<close>, \<^verbatim>\<open>domain/exceptions.py\<close>, \<^verbatim>\<open>domain/state_machine.py\<close> and the error
    mapping of \<^verbatim>\<open>api/errors.py\<close> (locale \<open>status_graph\<close>).
  \<^item> \<open>Cctv_Authz\<close>: \<^verbatim>\<open>contracts/auth.py\<close>, the scope computation of \<^verbatim>\<open>domain/policies\<close> and the SQL predicate
    of \<^verbatim>\<open>_helpers.py\<close>. A scope permits exactly what the policies grant; revoking in policies narrows scopes;
    the SQL filter is the contract; the scope hash determines the scope up to a collision.
  \<^item> \<open>Cctv_Float\<close>, \<open>Cctv_Windows\<close>, \<open>Cctv_Frames\<close>: planning of segments, motion triggers and event
    windows, and the selection of frames, with coverage and bounds under binary64 rounding.
  \<^item> \<open>Cctv_Ranking\<close>, \<open>Cctv_Text\<close>, \<open>Cctv_Search\<close>: rank fusion, tokenising and \<^verbatim>\<open>LIKE\<close>, and the search use
    case over its context store: results stay in scope, refinements never widen, revisions are immutable.
  \<^item> \<open>Cctv_Queue\<close>: the lease queue (locale \<open>lease_table\<close>): a claim takes the best due task, is exclusive
    under any interference, and is safe until the lease expires.
  \<^item> \<open>Cctv_Scheduler\<close>, \<open>Cctv_Retry\<close>: fair interleaving of scales, and the retry loops of the model call
    and of terminal writes; both loops are structural on their budgets, so they always settle.
  \<^item> \<open>Cctv_Store\<close>, \<open>Cctv_Worker\<close>: jobs, scale tasks, triggers and units, and the worker that claims,
    processes, settles and recovers them.
  \<^item> \<open>Cctv_Records\<close>: the observation table with its history, full-text index and audit (locale
    \<open>authorized_reads\<close>); publication is one update of the map from segments to active records.
  \<^item> \<open>Cctv_Json\<close>, \<open>Cctv_Gate\<close>: JSON values, the pre-VLM gate and the older detector gate.
  \<^item> \<open>Cctv_Playback\<close>: details, locators and signed playback tokens.
  \<^item> \<open>Cctv_Catalog\<close>: cameras, locations, policies, principals, videos, logs, ingestion, seeding, motion
    scan, and the context from which a record takes its permission fields.
  \<^item> \<open>Cctv_Timeline\<close>, \<open>Cctv_Media\<close>: the timeline recorder with its redaction, media references and the
    hash manifest of a model call.
  \<^item> \<open>Cctv_Unit\<close>, \<open>Cctv_Lifecycle\<close>, \<open>Cctv_Processors\<close>: the run of one unit from claim to terminal state
    and both scale processors. The bodies keep the contract of the lifecycle guard (locale \<open>unit_body\<close>),
    so whatever fails, a unit's row says its outcome and only a success changes what readers see.
  \<^item> \<open>Cctv_Pacing\<close>: the scheduler of model calls as an interleaving of threads over its semaphore and its
    pacing lock; the cap, the spacing of the stamps and the absence of deadlock.
  \<^item> \<open>Cctv_Output\<close>: what the model answers: the reading and repair of its text, the schema of an
    observation, and the adapter of the endpoint with every exception that it names or lets pass.
  \<^item> \<open>Cctv_Maintenance\<close>: reindexing over a vector store (locale \<open>reindexing\<close>), context sweeps, backup and
    restore over a disk with a write-ahead log (locale \<open>backup_adapter\<close>), and exports.
  \<^item> \<open>Cctv_Postgres\<close>: the PostgreSQL adapters of the same ports, shown to agree with the SQLite ones
    (\<open>pg_queue_agrees\<close>, \<open>pg_publication_agrees\<close>, \<open>pg_pool_agrees\<close>) and to provide \<open>authorized_reads\<close>.

  \<^bold>\<open>Interfaces.\<close> Every locale states what a client relies on and is interpreted on the definitions that
  provide it: \<open>row_store\<close> on keyed tables, \<open>status_graph\<close> on jobs and tasks, \<open>rounding\<close> on binary64 and on
  exact arithmetic, \<open>lease_table\<close> on the queue, \<open>authorized_reads\<close> on the read repository, \<open>unit_body\<close> on
  both bodies, and the smaller ones in their theories.

  \<^bold>\<open>Bounds and fuel.\<close> The claim of a task makes at most 50 probes, as the code does; the retry loops run
  on the budgets of their policies; every other recursion is structural or has a measure.

  \<^bold>\<open>Not modelled.\<close> The command line, the HTTP routes, the settings, the ORM tables with their
  mappers and migrations, engine and runtime construction (the session scope and the WAL mode are modelled
  where they matter), the OpenCV and ffprobe adapters, the providers of detections, embeddings and rerankings,
  the text of prompts, the timeline export, the capacity estimation, doctor, benchmark and diagnostics, the
  thread of the lease heartbeat, and the remaining PostgreSQL repositories (cameras, logs, timeline,
  principals, policies, ranked text search): pure input and output, generated declarations, or wiring. A pool of
  threads is a completion order of whole units; the timeline recorder of the processors is the fail-open one;
  the timeline events of the worker itself are left out.
\<close>

end
